(* ===== verification/VC_Prelude.thy ===== *)
theory VC_Prelude
  imports Main "HOL-Library.Word"
begin

text \<open>
  Shared vocabulary of the development: names for the C integer types, byte buffers with
  the block copies and 16-bit accesses the tools perform on them, 48-bit MAC addresses in
  the two spellings the code uses (six bytes, one integer), and the collections of rewrite
  rules that the component theories fill.
\<close>

unbundle bit_operations_syntax

section \<open>C integers\<close>

type_synonym u8 = "8 word"
type_synonym u16 = "16 word"
type_synonym u32 = "32 word"
type_synonym u64 = "64 word"

text \<open>Collections: facts about buffer updates, about MAC arithmetic and about C strings.\<close>

named_theorems buf_simps
named_theorems mac_simps
named_theorems cstr_simps

lemma ucast_u8_u64_u32 [simp]: "(ucast (ucast (b :: u8) :: u64) :: u32) = ucast b"
  by (rule bit_word_eqI) (auto simp: bit_simps dest: bit_imp_le_length)

lemma ucast_u8_u32_u8 [simp]: "(ucast (ucast (b :: u8) :: u32) :: u8) = b"
  by (rule bit_word_eqI) (auto simp: bit_simps dest: bit_imp_le_length)

lemma unat_ucast_u8_u32 [simp]: "unat (ucast (b :: u8) :: u32) = unat b"
proof -
  have "unat b < 2 ^ 32" using unsigned_less [of b, where ?'a = nat] by simp
  then show ?thesis by (simp add: unsigned_ucast_eq take_bit_nat_eq_self)
qed

text \<open>Two 16-bit values with the same 16 bits, one by one.\<close>

lemma u16_eqI:
  assumes "list_all (\<lambda>n. bit a n = bit b n) [0..<16]"
  shows "a = (b :: u16)"
  by (rule bit_word_eqI) (use assms in \<open>simp add: list_all_iff\<close>)

section \<open>Byte buffers\<close>

type_synonym buf = "u8 list"

text \<open>
  \<open>bcopy src (dst + off) n\<close> and the byte loops equivalent to it: the bytes from \<open>off\<close>
  on are replaced. Every use in the development stays inside the buffer (the lemmas
  carry the bound), which is what keeps the length.
\<close>

definition bcopy :: "u8 list \<Rightarrow> nat \<Rightarrow> buf \<Rightarrow> buf" where
  "bcopy src off dst = take off dst @ src @ drop (off + length src) dst"

lemma length_bcopy [buf_simps]:
  "off + length src \<le> length dst \<Longrightarrow> length (bcopy src off dst) = length dst"
  by (simp add: bcopy_def)

lemma nth_bcopy [buf_simps]:
  assumes "off + length src \<le> length dst" and "i < length dst"
  shows "bcopy src off dst ! i =
    (if off \<le> i \<and> i < off + length src then src ! (i - off) else dst ! i)"
  using assms by (auto simp: bcopy_def nth_append)

text \<open>A slice: \<open>n\<close> bytes from \<open>off\<close> on.\<close>

definition slice :: "nat \<Rightarrow> nat \<Rightarrow> 'a list \<Rightarrow> 'a list" where
  "slice off n b = take n (drop off b)"

lemma length_slice [buf_simps]: "off + n \<le> length b \<Longrightarrow> length (slice off n b) = n"
  by (simp add: slice_def)

lemma nth_slice [buf_simps]:
  "off + n \<le> length b \<Longrightarrow> i < n \<Longrightarrow> slice off n b ! i = b ! (off + i)"
  by (simp add: slice_def)

lemma slice_take [buf_simps]: "off + n \<le> k \<Longrightarrow> slice off n (take k b) = slice off n b"
  by (simp add: slice_def drop_take min_def)

lemma slice_bcopy_same [buf_simps]:
  "off + length src \<le> length dst \<Longrightarrow> n = length src \<Longrightarrow> slice off n (bcopy src off dst) = src"
  by (simp add: slice_def bcopy_def)

lemma slice_bcopy_other [buf_simps]:
  assumes "off + length src \<le> length dst" and "o2 + n \<le> length dst"
    and "o2 + n \<le> off \<or> off + length src \<le> o2"
  shows "slice o2 n (bcopy src off dst) = slice o2 n dst"
  by (rule nth_equalityI) (use assms in \<open>auto simp: buf_simps\<close>)

section \<open>Little-endian 16-bit accesses\<close>

text \<open>
  The tools run on x86 and read and write EEPROM words through an \<open>unsigned short *\<close>:
  the low byte comes first.
\<close>

definition get16 :: "nat \<Rightarrow> buf \<Rightarrow> u16" where
  "get16 off b = (ucast (b ! off) :: u16) OR push_bit 8 (ucast (b ! Suc off))"

definition put16 :: "nat \<Rightarrow> u16 \<Rightarrow> buf \<Rightarrow> buf" where
  "put16 off w b = (b[off := ucast w])[Suc off := ucast (drop_bit 8 w)]"

lemma length_put16 [simp, buf_simps]: "length (put16 off w b) = length b"
  by (simp add: put16_def)

lemma le16_join: "(ucast (ucast (w::u16) :: u8) :: u16) OR push_bit 8 (ucast (ucast (drop_bit 8 w) :: u8)) = w"
  by (rule bit_word_eqI) (auto simp: bit_simps)

lemma get16_put16_same [buf_simps]:
  "Suc off < length b \<Longrightarrow> get16 off (put16 off w b) = w"
  by (simp add: get16_def put16_def le16_join)

lemma nth_put16 [buf_simps]:
  "Suc off < length b \<Longrightarrow> i < length b \<Longrightarrow> i \<noteq> off \<Longrightarrow> i \<noteq> Suc off \<Longrightarrow> put16 off w b ! i = b ! i"
  by (simp add: put16_def)

lemma get16_put16_other [buf_simps]:
  "Suc o2 < off \<or> Suc off < o2 \<Longrightarrow> get16 o2 (put16 off w b) = get16 o2 b"
  by (auto simp: get16_def put16_def)

lemma get16_bcopy_other [buf_simps]:
  "off + length src \<le> length b \<Longrightarrow> Suc o2 < length b \<Longrightarrow>
   Suc o2 < off \<or> off + length src \<le> o2 \<Longrightarrow> get16 o2 (bcopy src off b) = get16 o2 b"
  by (auto simp: get16_def nth_bcopy)

lemma slice_put16_other [buf_simps]:
  assumes "Suc off < length b" and "o2 + n \<le> length b" and "o2 + n \<le> off \<or> Suc off < o2"
  shows "slice o2 n (put16 off w b) = slice o2 n b"
  by (rule nth_equalityI) (use assms in \<open>auto simp: buf_simps nth_put16\<close>)

section \<open>MAC addresses\<close>

text \<open>
  The same shifts appear in \<open>mac_add\<close> of igb-eeprom.c and in \<open>sw_merge\<close> of abrloop.c:
  six bytes, most significant first, packed into a 64-bit integer and unpacked again.
\<close>

type_synonym mac = "u8 list"

definition mac_pack :: "mac \<Rightarrow> u64" where
  "mac_pack m = push_bit 40 (ucast (m ! 0)) OR push_bit 32 (ucast (m ! 1))
     OR push_bit 24 (ucast (m ! 2)) OR push_bit 16 (ucast (m ! 3))
     OR push_bit 8 (ucast (m ! 4)) OR ucast (m ! 5)"

definition mac_unpack :: "u64 \<Rightarrow> mac" where
  "mac_unpack v = [ucast (drop_bit 40 v), ucast (drop_bit 32 v), ucast (drop_bit 24 v),
     ucast (drop_bit 16 v), ucast (drop_bit 8 v), ucast v]"

lemma length_mac_unpack [simp]: "length (mac_unpack v) = 6"
  by (simp add: mac_unpack_def)

text \<open>Bit \<open>n\<close> of the packed integer is bit \<open>n mod 8\<close> of one byte.\<close>

lemma bit_byte_ge [simp]: "8 \<le> n \<Longrightarrow> \<not> bit (b :: u8) n"
  by (auto dest: bit_imp_le_length)

lemma mac_bit_cases:
  obtains "n < 8" | "8 \<le> n" "n < 16" | "16 \<le> n" "n < 24" | "24 \<le> n" "n < 32"
    | "32 \<le> n" "n < 40" | "40 \<le> n" "n < 48" | "48 \<le> (n::nat)"
  by linarith

lemma bit_mac_pack:
  "bit (mac_pack m) n \<longleftrightarrow>
    (if n < 8 then bit (m ! 5) n else if n < 16 then bit (m ! 4) (n - 8)
     else if n < 24 then bit (m ! 3) (n - 16) else if n < 32 then bit (m ! 2) (n - 24)
     else if n < 40 then bit (m ! 1) (n - 32) else if n < 48 then bit (m ! 0) (n - 40)
     else False)"
  by (rule mac_bit_cases [of n]) (simp_all add: mac_pack_def bit_simps less_diff_conv2)

lemma mac_pack_unpack [mac_simps]: "mac_pack (mac_unpack v) = take_bit 48 v"
proof (rule bit_word_eqI)
  fix n
  show "bit (mac_pack (mac_unpack v)) n = bit (take_bit 48 v) n"
    by (rule mac_bit_cases [of n])
      (simp_all add: bit_mac_pack mac_unpack_def bit_simps less_diff_conv2)
qed

lemma list6_cases:
  assumes "length m = 6"
  obtains a b c d e f where "m = [a, b, c, d, e, f]"
proof -
  have "\<exists>a b c d e f. m = [a, b, c, d, e, f]"
    using assms by (auto simp: eval_nat_numeral length_Suc_conv)
  then show ?thesis using that by blast
qed

lemma mac_unpack_pack [mac_simps]:
  assumes "length m = 6"
  shows "mac_unpack (mac_pack m) = m"
proof -
  obtain a b c d e f where m: "m = [a, b, c, d, e, f]"
    using assms by (rule list6_cases)
  show ?thesis
    unfolding m mac_unpack_def
    by (intro list.inject [THEN iffD2] conjI refl; rule bit_word_eqI)
      (simp_all add: bit_simps bit_mac_pack)
qed

lemma take_bit_mac_pack [mac_simps]: "take_bit 48 (mac_pack m) = mac_pack m"
  by (rule bit_word_eqI) (simp add: bit_simps bit_mac_pack)

lemma mac_pack_less: "unat (mac_pack m) < 2 ^ 48"
proof -
  have "unat (mac_pack m) = unat (take_bit 48 (mac_pack m))"
    by (simp only: take_bit_mac_pack)
  also have "\<dots> = take_bit 48 (unat (mac_pack m))"
    by (rule unsigned_take_bit_eq)
  also have "\<dots> < 2 ^ 48"
    by (rule take_bit_nat_less_exp)
  finally show ?thesis .
qed

lemma mac_pack_inj:
  "length m = 6 \<Longrightarrow> length n = 6 \<Longrightarrow> mac_pack m = mac_pack n \<longleftrightarrow> m = n"
  by (metis mac_unpack_pack)

text \<open>The packed integer as a number.\<close>

lemma u8_less: "unat (b :: u8) < 256"
  using unsigned_less [of b, where ?'a = nat] by simp

lemma unat_or_byte:
  assumes "unat (x :: u64) < 2 ^ k" and "k \<le> 56"
  shows "unat (push_bit k (ucast (b :: u8)) OR x) = unat b * 2 ^ k + unat x"
    and "unat (push_bit k (ucast (b :: u8)) OR x) < 2 ^ (k + 8)"
proof -
  have "unat (take_bit k x) = unat x"
    unfolding unsigned_take_bit_eq by (rule take_bit_nat_eq_self) (rule assms(1))
  then have tx: "take_bit k x = x" by (simp only: word_unat_eq_iff)
  have hi: "\<not> bit x n" if "k \<le> n" for n
    using that by (subst tx [symmetric]) (simp add: bit_take_bit_iff)
  have "push_bit k (ucast b) OR x = push_bit k (ucast b) + x"
    by (rule sym, rule disjunctive_add) (auto simp: bit_simps hi)
  moreover have "unat b * 2 ^ k + unat x < 2 ^ (k + 8)"
  proof -
    have "Suc (unat b) * 2 ^ k \<le> 256 * 2 ^ k" using u8_less [of b] by (intro mult_le_mono1) simp
    moreover have "(2::nat) ^ (k + 8) = 256 * 2 ^ k" by (simp add: power_add)
    ultimately show ?thesis using assms(1) unfolding mult_Suc by linarith
  qed
  moreover have "unat (push_bit k (ucast b :: u64)) = unat b * 2 ^ k"
  proof -
    have "unat b * 2 ^ k < 2 ^ 64"
    proof -
      have "unat b * 2 ^ k < 256 * 2 ^ k" using u8_less [of b] by simp
      also have "\<dots> \<le> 256 * 2 ^ 56" using assms(2) by (intro mult_le_mono2 power_increasing) simp_all
      finally show ?thesis by simp
    qed
    then show ?thesis
      using u8_less [of b]
      unfolding unsigned_push_bit_eq
      by (simp add: unsigned_ucast_eq take_bit_nat_eq_self push_bit_eq_mult)
  qed
  moreover have "(2::nat) ^ (k + 8) \<le> 2 ^ 64" using assms(2) by (intro power_increasing) simp_all
  ultimately show "unat (push_bit k (ucast b) OR x) = unat b * 2 ^ k + unat x"
    and "unat (push_bit k (ucast b) OR x) < 2 ^ (k + 8)"
    by (simp_all add: unat_word_ariths)
qed

lemma unat_mac_pack:
  "unat (mac_pack m) = unat (m ! 0) * 2 ^ 40 + (unat (m ! 1) * 2 ^ 32 + (unat (m ! 2) * 2 ^ 24 +
     (unat (m ! 3) * 2 ^ 16 + (unat (m ! 4) * 2 ^ 8 + unat (m ! 5)))))"
proof -
  have 0: "unat (ucast (m ! 5) :: u64) = unat (m ! 5)"
    by (simp add: unsigned_ucast_eq take_bit_nat_eq_self_iff less_trans [OF u8_less])
  then have 1: "unat (ucast (m ! 5) :: u64) < 2 ^ 8"
    using u8_less by simp
  note 2 = unat_or_byte(2) [OF 1, of "m ! 4", simplified]
  note 3 = unat_or_byte(2) [where k = 16, simplified, OF 2, of "m ! 3"]
  note 4 = unat_or_byte(2) [where k = 24, simplified, OF 3, of "m ! 2"]
  note 5 = unat_or_byte(2) [where k = 32, simplified, OF 4, of "m ! 1"]
  show ?thesis
    using unat_or_byte(1) [where k = 40, simplified, OF 5, of "m ! 0"]
      unat_or_byte(1) [where k = 32, simplified, OF 4, of "m ! 1"]
      unat_or_byte(1) [where k = 24, simplified, OF 3, of "m ! 2"]
      unat_or_byte(1) [where k = 16, simplified, OF 2, of "m ! 3"]
      unat_or_byte(1) [OF 1, of "m ! 4"]
    by (simp add: mac_pack_def or.assoc 0)
qed
text \<open>Bytes of a number that is kept in 32 bits.\<close>

lemma unat_byte_of_u32 [mac_simps]:
  "unat (ucast (drop_bit k v AND 0xff :: u32) :: u8) = unat v div 2 ^ k mod 256"
  "unat (ucast (v AND 0xff :: u32) :: u8) = unat v mod 256"
proof -
  have m: "(ucast (x AND 0xff :: u32) :: u8) = ucast x" for x
  proof -
    have "x AND 0xff = take_bit 8 x" by (simp add: take_bit_eq_mask mask_eq_exp_minus_1)
    then show ?thesis by (simp only:) (rule bit_word_eqI, auto simp: bit_simps)
  qed
  have u: "unat (ucast (x :: u32) :: u8) = unat x mod 256" for x
    by (simp add: unsigned_ucast_eq take_bit_eq_mod)
  show "unat (ucast (drop_bit k v AND 0xff :: u32) :: u8) = unat v div 2 ^ k mod 256"
    unfolding m u unsigned_drop_bit_eq
    using unsigned_less [of v, where ?'a = nat] by (simp add: drop_bit_eq_div take_bit_nat_eq_self)
  show "unat (ucast (v AND 0xff :: u32) :: u8) = unat v mod 256"
    by (simp add: m u)
qed

section \<open>Arithmetic\<close>

lemma three_bytes:
  assumes "x < (2::nat) ^ 24"
  shows "x div 65536 mod 256 * 65536 + x div 256 mod 256 * 256 + x mod 256 = x"
proof -
  define y where "y = x div 256"
  have "y < 2 ^ 16" using assms unfolding y_def by (intro less_mult_imp_div_less) simp
  then have m: "y div 256 mod 256 = y div 256"
    by (intro mod_less less_mult_imp_div_less) simp
  have d: "x div 65536 = y div 256" by (simp add: y_def div_mult2_eq [symmetric])
  have "y div 256 * 256 + y mod 256 = y" and "y * 256 + x mod 256 = x"
    by (simp_all add: y_def)
  then have "y div 256 * 65536 + y mod 256 * 256 + x mod 256 = x" by linarith
  then show ?thesis unfolding d y_def [symmetric] m .
qed

lemma mod_add_cancel_nat:
  assumes "(x + a) mod M = (x + b) mod M" and "a < M" and "b < (M::nat)"
  shows "a = b"
proof (rule ccontr)
  assume "a \<noteq> b"
  have "(int x + int a) mod int M = (int x + int b) mod int M"
    using assms(1) by (metis of_nat_add zmod_int)
  then have "int M dvd (int x + int a) - (int x + int b)"
    by (simp only: mod_eq_dvd_iff)
  then have "int M dvd int a - int b" by simp
  then have "\<bar>int M\<bar> \<le> \<bar>int a - int b\<bar>"
    by (rule dvd_imp_le_int [rotated]) (use \<open>a \<noteq> b\<close> in simp)
  then show False using assms(2,3) by linarith
qed

section \<open>Lists and options\<close>

lemma find_Some_iff2:
  "List.find P xs = Some x \<Longrightarrow> x \<in> set xs \<and> P x"
  by (auto simp: find_Some_iff)

text \<open>Two different members of a list whose elements are pairwise related.\<close>

lemma sorted_wrt_pair:
  "sorted_wrt P xs \<Longrightarrow> (\<And>x y. P x y \<Longrightarrow> P y x) \<Longrightarrow> x \<in> set xs \<Longrightarrow> y \<in> set xs \<Longrightarrow> x \<noteq> y \<Longrightarrow> P x y"
  by (induction xs) auto

text \<open>The first \<open>n\<close> cells of a C array that is initialised with fewer values.\<close>

definition c_array :: "nat \<Rightarrow> 'a \<Rightarrow> 'a list \<Rightarrow> 'a list" where
  "c_array n z xs = take n (xs @ replicate n z)"

lemma length_c_array [simp]: "length (c_array n z xs) = n"
  by (simp add: c_array_def)

end
