(* ===== verification/C_Strings.thy ===== *)
theory C_Strings
  imports VC_Prelude
begin

text \<open>
  The part of the C library's string handling that the tools use: \<open>strchr\<close>,
  \<open>strcmp\<close>, \<open>strncmp\<close>, \<open>strtoul\<close> and \<open>strtol\<close> with their end pointers, and the
  \<open>%d\<close>, \<open>%02x\<close> and \<open>%04x\<close> conversions of \<open>printf\<close>. A C string is a \<open>string\<close>
  without its terminating NUL; an end pointer is the number of characters consumed, so
  \<open>ep \<le> s\<close> is \<open>k = 0\<close> and \<open>*ep\<close> is the head of \<open>drop k s\<close> (NUL when empty).
\<close>

section \<open>Searching and comparing\<close>

fun strchr :: "string \<Rightarrow> char \<Rightarrow> nat option" where
  "strchr [] c = None"
| "strchr (d # s) c = (if d = c then Some 0 else map_option Suc (strchr s c))"

text \<open>\<open>strncmp(a, b, n) == 0\<close>: at most \<open>n\<close> characters, up to and including a NUL.\<close>

definition strncmp_eq :: "string \<Rightarrow> string \<Rightarrow> nat \<Rightarrow> bool" where
  "strncmp_eq a b n \<longleftrightarrow> take n (a @ [CHR 0x00]) = take n (b @ [CHR 0x00])"

text \<open>The character an end pointer points at.\<close>

definition char_at :: "string \<Rightarrow> nat \<Rightarrow> char" where
  "char_at s k = (case drop k s of [] \<Rightarrow> CHR 0x00 | c # _ \<Rightarrow> c)"

lemma strchr_split:
  "strchr s c = Some k \<Longrightarrow> k < length s \<and> s ! k = c \<and> c \<notin> set (take k s)"
  by (induction s c arbitrary: k rule: strchr.induct) (auto split: if_splits)

lemma strchr_append [cstr_simps]: "c \<notin> set a \<Longrightarrow> strchr (a @ c # b) c = Some (length a)"
  by (induction a) auto

lemma strchr_None: "strchr s c = None \<longleftrightarrow> c \<notin> set s"
  by (induction s c rule: strchr.induct) auto

lemma strncmp_eq_prefix:
  "n \<le> length a \<Longrightarrow> n \<le> length b \<Longrightarrow> strncmp_eq a b n \<longleftrightarrow> take n a = take n b"
  by (simp add: strncmp_eq_def)

text \<open>Whether \<open>strstr\<close> finds something.\<close>

fun strstr :: "string \<Rightarrow> string \<Rightarrow> bool" where
  "strstr [] n \<longleftrightarrow> n = []"
| "strstr (c # s) n \<longleftrightarrow> take (length n) (c # s) = n \<or> strstr s n"

section \<open>Integer conversion\<close>

definition isspace :: "char \<Rightarrow> bool" where
  "isspace c \<longleftrightarrow> c \<in> {CHR '' '', CHR 0x09, CHR 0x0A, CHR 0x0B, CHR 0x0C, CHR 0x0D}"

definition digit_val :: "char \<Rightarrow> nat option" where
  "digit_val c = (let n = (of_char c :: nat) in
     if 48 \<le> n \<and> n \<le> 57 then Some (n - 48)
     else if 97 \<le> n \<and> n \<le> 122 then Some (n - 87)
     else if 65 \<le> n \<and> n \<le> 90 then Some (n - 55)
     else None)"

definition is_digit :: "nat \<Rightarrow> char \<Rightarrow> bool" where
  "is_digit base c = (case digit_val c of Some d \<Rightarrow> d < base | None \<Rightarrow> False)"

definition digits_val :: "nat \<Rightarrow> string \<Rightarrow> nat" where
  "digits_val base ds = foldl (\<lambda>a c. a * base + the (digit_val c)) 0 ds"

definition sign_of :: "string \<Rightarrow> bool \<times> nat" where
  "sign_of s = (case s of [] \<Rightarrow> (False, 0)
     | c # _ \<Rightarrow> if c = CHR ''-'' then (True, 1) else if c = CHR ''+'' then (False, 1) else (False, 0))"

text \<open>
  The base in force and the length of its prefix. \<open>0x\<close> counts as a prefix only when a
  hexadecimal digit follows it (otherwise the number is the single 0).
\<close>

definition base_prefix :: "nat \<Rightarrow> string \<Rightarrow> nat \<times> nat" where
  "base_prefix base s =
     (if (base = 0 \<or> base = 16) \<and> 2 < length s \<and> s ! 0 = CHR ''0''
         \<and> (s ! 1 = CHR ''x'' \<or> s ! 1 = CHR ''X'') \<and> is_digit 16 (s ! 2) then (16, 2)
      else if base = 0 then (if s \<noteq> [] \<and> s ! 0 = CHR ''0'' then (8, 0) else (10, 0))
      else (base, 0))"

text \<open>Sign, magnitude and characters consumed; \<open>None\<close> when there is no number.\<close>

definition strto_scan :: "nat \<Rightarrow> string \<Rightarrow> (bool \<times> nat \<times> nat) option" where
  "strto_scan base s =
     (let ws = length (takeWhile isspace s);
          s1 = drop ws s;
          (neg, sg) = sign_of s1;
          s2 = drop sg s1;
          (b, pre) = base_prefix base s2;
          ds = takeWhile (is_digit b) (drop pre s2)
      in if ds = [] then None
         else Some (neg, digits_val b ds, ws + sg + pre + length ds))"

definition strtoul :: "nat \<Rightarrow> string \<Rightarrow> u64 \<times> nat" where
  "strtoul base s = (case strto_scan base s of None \<Rightarrow> (0, 0)
     | Some (neg, m, k) \<Rightarrow>
         (if 2 ^ 64 \<le> m then - 1 else if neg then - of_nat m else of_nat m, k))"

definition strtol :: "nat \<Rightarrow> string \<Rightarrow> int \<times> nat" where
  "strtol base s = (case strto_scan base s of None \<Rightarrow> (0, 0)
     | Some (neg, m, k) \<Rightarrow>
         (if neg then max (- (2 ^ 63)) (- int m) else min (2 ^ 63 - 1) (int m), k))"

lemma strtoul_consumed_le: "snd (strtoul base s) \<le> length s"
proof -
  have le: "length (takeWhile P xs) \<le> length xs" for P :: "char \<Rightarrow> bool" and xs
    by (rule length_takeWhile_le)
  show ?thesis
  proof (cases "strto_scan base s")
    case (Some r)
    define ws where "ws = length (takeWhile isspace s)"
    obtain neg sg where sg: "sign_of (drop ws s) = (neg, sg)" by fastforce
    obtain b pre where pre: "base_prefix base (drop sg (drop ws s)) = (b, pre)" by fastforce
    define ds where "ds = takeWhile (is_digit b) (drop pre (drop sg (drop ws s)))"
    have r: "r = (neg, digits_val b ds, ws + sg + pre + length ds)" and "ds \<noteq> []"
      using Some unfolding strto_scan_def ws_def [symmetric] Let_def sg prod.case pre
        ds_def [symmetric]
      by (auto split: if_splits)
    have "length ds \<le> length s - ws - sg - pre"
      using le [of "is_digit b" "drop pre (drop sg (drop ws s))"] by (simp add: ds_def)
    moreover have "0 < length ds" using \<open>ds \<noteq> []\<close> by simp
    ultimately have "ws + sg + pre + length ds \<le> length s" by linarith
    then show ?thesis
      using Some r by (simp add: strtoul_def)
  qed (simp add: strtoul_def)
qed

section \<open>Printing\<close>

definition hex_char :: "nat \<Rightarrow> char" where
  "hex_char n = ''0123456789abcdef'' ! n"

text \<open>\<open>%02x\<close> of a byte and \<open>%04x\<close> of a 16-bit value.\<close>

definition hex2 :: "u8 \<Rightarrow> string" where
  "hex2 b = [hex_char (unat b div 16), hex_char (unat b mod 16)]"

definition hex4 :: "u16 \<Rightarrow> string" where
  "hex4 w = [hex_char (unat w div 4096), hex_char (unat w div 256 mod 16),
     hex_char (unat w div 16 mod 16), hex_char (unat w mod 16)]"

text \<open>\<open>%d\<close>, \<open>%u\<close>.\<close>

fun show_nat :: "nat \<Rightarrow> string" where
  "show_nat n = (if n < 10 then [hex_char n] else show_nat (n div 10) @ [hex_char (n mod 10)])"

declare show_nat.simps [simp del]

definition show_int :: "int \<Rightarrow> string" where
  "show_int i = (if i < 0 then CHR ''-'' # show_nat (nat (- i)) else show_nat (nat i))"

subsection \<open>Reading back what was printed\<close>

lemma nibble_all: "n < (16::nat) \<Longrightarrow> list_all P [0..<16] \<Longrightarrow> P n"
  by (simp add: list_all_iff)

lemma digit_val_hex_char [cstr_simps]: "n < 16 \<Longrightarrow> digit_val (hex_char n) = Some n"
  by (erule nibble_all) (simp add: upt_rec hex_char_def digit_val_def)

lemma is_digit_hex_char [cstr_simps]: "n < 16 \<Longrightarrow> is_digit b (hex_char n) \<longleftrightarrow> n < b"
  by (simp add: is_digit_def digit_val_hex_char)

lemma hex_char_plain [cstr_simps]:
  assumes "n < 16"
  shows "\<not> isspace (hex_char n)" "hex_char n \<noteq> CHR ''-''" "hex_char n \<noteq> CHR ''+''"
    "hex_char n \<noteq> CHR ''x''" "hex_char n \<noteq> CHR ''X''" "hex_char n \<noteq> CHR '':''"
  by (rule nibble_all [OF assms], simp add: upt_rec hex_char_def isspace_def)+

lemma hex_char_zero [cstr_simps]: "n < 16 \<Longrightarrow> hex_char n = CHR ''0'' \<longleftrightarrow> n = 0"
  by (erule nibble_all) (simp add: upt_rec hex_char_def)

text \<open>The number ends where the rest does not continue it.\<close>

definition ends_number :: "nat \<Rightarrow> string \<Rightarrow> bool" where
  "ends_number base rest \<longleftrightarrow> (case rest of [] \<Rightarrow> True | c # _ \<Rightarrow> \<not> is_digit base c)"

lemma takeWhile_ends [cstr_simps]:
  "\<forall>c \<in> set ds. is_digit b c \<Longrightarrow> ends_number b rest \<Longrightarrow> takeWhile (is_digit b) (ds @ rest) = ds"
  by (subst takeWhile_append2) (auto simp: ends_number_def split: list.splits)

lemma unat_u8_bounds [simp]: "unat (b::u8) div 16 < 16" "unat (b::u8) mod 16 < 16"
proof -
  have "unat b < 256" using unsigned_less [of b, where ?'a = nat] by simp
  then show "unat b div 16 < 16" by simp
qed simp

lemma strto_scan_hex2:
  assumes "ends_number 16 rest"
  shows "strto_scan 16 (hex2 b @ rest) = Some (False, unat b, 2)"
proof -
  let ?h = "hex_char (unat b div 16)" and ?l = "hex_char (unat b mod 16)"
  have ds: "takeWhile (is_digit 16) ([?h, ?l] @ rest) = [?h, ?l]"
    by (rule takeWhile_ends) (use assms in \<open>auto simp: cstr_simps\<close>)
  have bp: "base_prefix 16 (?h # ?l # rest) = (16, 0)"
    by (simp add: base_prefix_def cstr_simps)
  have v: "digits_val 16 [?h, ?l] = unat b"
    by (simp add: digits_val_def cstr_simps)
  show ?thesis
    using ds bp v by (simp add: strto_scan_def hex2_def sign_of_def cstr_simps Let_def)
qed

lemma strtoul_hex2 [cstr_simps]:
  assumes "ends_number 16 rest"
  shows "strtoul 16 (hex2 b @ rest) = (ucast b, 2)"
proof -
  have "unat b < 2 ^ 8" using unsigned_less [of b, where ?'a = nat] by simp
  then have "\<not> 2 ^ 64 \<le> unat b" by simp
  then show ?thesis
    by (simp add: strtoul_def strto_scan_hex2 [OF assms] unsigned_of_nat word_eq_iff_unsigned)
qed

text \<open>To work out a conversion of a literal.\<close>

lemmas strto_eval = strtoul_def strto_scan_def sign_of_def base_prefix_def digits_val_def
  is_digit_def digit_val_def isspace_def

end
