(* ===== verification/Igb_Mac.thy ===== *)
theory Igb_Mac
  imports C_Strings
begin

text \<open>
  igb-eeprom.c, number parsing and MAC arithmetic: \<open>get_num\<close>, \<open>get_bid\<close>,
  \<open>get_pciid\<close>, \<open>mac_str\<close> and \<open>mac_add\<close>. A function that stores through a pointer
  takes the bytes it points at and returns them updated, beside its 0/1 result as a
  \<open>bool\<close>; a failing parse may already have stored some bytes, as in the code.
\<close>

section \<open>Parsing numbers\<close>

text \<open>
  The loop over \<open>XX:XX:XX\<close>: \<open>n\<close> bytes are still wanted and \<open>i\<close> are stored. The
  result of \<open>strtoul\<close> is kept in an \<open>unsigned int\<close>, which drops its upper half.
\<close>

fun get_num_colon :: "string \<Rightarrow> nat \<Rightarrow> nat \<Rightarrow> u8 list \<Rightarrow> bool \<times> u8 list" where
  "get_num_colon s 0 i dst = (True, dst)"
| "get_num_colon s (Suc n) i dst =
     (let (ul, k) = strtoul 16 s; v = (ucast ul :: u32) in
      if k = 0 then (False, dst)
      else if n \<noteq> 0 \<and> char_at s k \<noteq> CHR '':'' then (False, dst)
      else if v > 0xff then (False, dst)
      else get_num_colon (drop (Suc k) s) n (Suc i) (dst[i := ucast v]))"

definition get_num :: "string \<Rightarrow> u8 list \<Rightarrow> nat \<Rightarrow> bool \<times> u8 list" where
  "get_num s dst n =
     (if n \<noteq> 3 \<and> n \<noteq> 6 then (False, dst)
      else if strchr s CHR '':'' \<noteq> None then get_num_colon s n 0 dst
      else (let (ul, k) = strtoul 0 s; v = (ucast ul :: u32) in
        if k = 0 then (False, dst)
        else if n \<noteq> 3 then (False, dst)
        else if v \<ge> push_bit 24 1 then (False, dst)
        else (True, dst[0 := ucast (drop_bit 16 v AND 0xff), 1 := ucast (drop_bit 8 v AND 0xff),
               2 := ucast (v AND 0xff)])))"

definition get_bid :: "string \<Rightarrow> u8 list \<Rightarrow> bool \<times> u8 list" where
  "get_bid s dst =
     (let (ul, k) = strtoul 0 s; v = (ucast ul :: u32) in
      if k = 0 then (False, dst)
      else if v \<ge> push_bit 20 1 then (False, dst)
      else (let v = push_bit 4 v in
        (True, dst[0 := ucast (drop_bit 16 v AND 0xff), 1 := ucast (drop_bit 8 v AND 0xff),
               2 := ucast (v AND 0xff)])))"

definition get_pciid :: "string \<Rightarrow> u16 \<times> u16 \<Rightarrow> bool \<times> u16 \<times> u16" where
  "get_pciid s dst =
     (let (ul, k) = strtoul 16 s; v = (ucast ul :: u32) in
      if k = 0 then (False, dst)
      else if v \<ge> push_bit 16 1 then (False, dst)
      else if char_at s k \<noteq> CHR '':'' then (False, dst)
      else (let s = drop (Suc k) s; (ul, k) = strtoul 16 s; d = (ucast ul :: u32) in
        if k = 0 then (False, dst)
        else if d \<ge> push_bit 16 1 then (False, dst)
        else (True, ucast v, ucast d)))"

section \<open>MAC addresses as text and as numbers\<close>

text \<open>\<open>%02x:%02x:%02x:%02x:%02x:%02x\<close>; 17 characters always fit the 20-byte buffer.\<close>

fun join_hex :: "u8 list \<Rightarrow> string" where
  "join_hex [] = []"
| "join_hex [b] = hex2 b"
| "join_hex (b # bs) = hex2 b @ CHR '':'' # join_hex bs"

definition mac_str :: "mac \<Rightarrow> string" where
  "mac_str m = join_hex [m ! 0, m ! 1, m ! 2, m ! 3, m ! 4, m ! 5]"

definition mac_add :: "mac \<Rightarrow> u32 \<Rightarrow> mac" where
  "mac_add src add = mac_unpack (mac_pack src + ucast add)"

lemma length_get_num_colon [simp]: "length (snd (get_num_colon s n i dst)) = length dst"
  by (induction s n i dst rule: get_num_colon.induct) (auto simp: Let_def split: prod.splits)

lemma length_get_num [simp]: "length (snd (get_num s dst n)) = length dst"
  by (simp add: get_num_def Let_def split: prod.splits)

lemma length_get_bid [simp]: "length (snd (get_bid s dst)) = length dst"
  by (simp add: get_bid_def Let_def split: prod.splits)

lemma get_num_length: "get_num s dst n = (ok, m) \<Longrightarrow> length m = length dst"
  by (metis length_get_num snd_conv)

lemma get_bid_length: "get_bid s dst = (ok, m) \<Longrightarrow> length m = length dst"
  by (metis length_get_bid snd_conv)

section \<open>Round trip of addresses through text\<close>

lemma char_at_append [cstr_simps]: "char_at (a @ c # r) (length a) = c"
  by (simp add: char_at_def)

lemma length_hex2 [simp]: "length (hex2 b) = 2"
  by (simp add: hex2_def)

lemma hex2_no_colon [simp]: "CHR '':'' \<notin> set (hex2 b)"
  using hex_char_plain(6) [of "unat b div 16"] hex_char_plain(6) [of "unat b mod 16"]
  by (auto simp: hex2_def)

lemma ends_number_colon [cstr_simps]: "ends_number 16 (CHR '':'' # r)"
  by (simp add: ends_number_def is_digit_def digit_val_def)

lemma ends_number_Nil [cstr_simps]: "ends_number b []"
  by (simp add: ends_number_def)

lemma ucast_byte_le [simp]: "(ucast (b :: u8) :: u32) \<le> 0xff"
proof -
  have "unat b < 256" using unsigned_less [of b, where ?'a = nat] by simp
  then show ?thesis by (simp add: word_le_nat_alt)
qed

lemma get_num_colon_step:
  "strtoul 16 s = (ucast b, k) \<Longrightarrow> k \<noteq> 0 \<Longrightarrow> n = 0 \<or> char_at s k = CHR '':'' \<Longrightarrow>
   get_num_colon s (Suc n) i dst = get_num_colon (drop (Suc k) s) n (Suc i) (dst[i := b])"
  by (auto simp: Let_def leD [OF ucast_byte_le])

lemma get_num_colon_join:
  "bs \<noteq> [] \<Longrightarrow> i + length bs \<le> length dst \<Longrightarrow>
   get_num_colon (join_hex bs) (length bs) i dst = (True, bcopy bs i dst)"
proof (induction bs arbitrary: i dst rule: join_hex.induct)
  case (2 b)
  have "strtoul 16 (hex2 b) = (ucast b, 2)"
    using strtoul_hex2 [of "[]" b] by (simp add: cstr_simps)
  from get_num_colon_step [OF this, of 0] show ?case
    using 2 by (simp add: bcopy_def upd_conv_take_nth_drop del: get_num_colon.simps(2))
next
  case (3 b c bs)
  let ?rest = "CHR '':'' # join_hex (c # bs)"
  have st: "strtoul 16 (hex2 b @ ?rest) = (ucast b, 2)"
    by (rule strtoul_hex2) (simp add: cstr_simps)
  have at: "char_at (hex2 b @ ?rest) 2 = CHR '':''"
    using char_at_append [of "hex2 b"] by simp
  have dr: "drop (Suc 2) (hex2 b @ ?rest) = join_hex (c # bs)"
    by simp
  have "get_num_colon (join_hex (b # c # bs)) (length (b # c # bs)) i dst
      = get_num_colon (join_hex (c # bs)) (length (c # bs)) (Suc i) (dst[i := b])"
    using get_num_colon_step [OF st, of "length (c # bs)" i dst] at
    unfolding dr by simp
  also have "\<dots> = (True, bcopy (c # bs) (Suc i) (dst[i := b]))"
    using "3.prems" by (intro "3.IH") auto
  also have "bcopy (c # bs) (Suc i) (dst[i := b]) = bcopy (b # c # bs) i dst"
    using "3.prems" by (simp add: bcopy_def take_Suc_conv_app_nth)
  finally show ?case .
qed simp

lemma get_num_mac_str:
  assumes "length m = 6" and "length dst = 6"
  shows "get_num (mac_str m) dst 6 = (True, m)"
proof -
  obtain a b c d e f where m: "m = [a, b, c, d, e, f]"
    using assms(1) by (rule list6_cases)
  have ms: "mac_str m = join_hex m" by (simp add: m mac_str_def)
  have "strchr (join_hex m) CHR '':'' = Some 2"
    using strchr_append [of "CHR '':''" "hex2 a"] by (simp add: m)
  moreover have "get_num_colon (join_hex m) 6 0 dst = (True, bcopy m 0 dst)"
    using get_num_colon_join [of m 0 dst] assms
    by (simp add: m eval_nat_numeral del: get_num_colon.simps)
  ultimately show ?thesis
    using assms by (simp add: get_num_def ms bcopy_def)
qed

section \<open>Adding to an address\<close>

lemma length_mac_add [simp]: "length (mac_add m a) = 6"
  by (simp add: mac_add_def)

lemma mac_pack_add [mac_simps]: "mac_pack (mac_add m a) = take_bit 48 (mac_pack m + ucast a)"
  by (simp add: mac_add_def mac_simps)

lemma mac_add_0 [mac_simps]: "length m = 6 \<Longrightarrow> mac_add m 0 = m"
  by (simp add: mac_add_def mac_simps)

text \<open>As numbers: addition modulo 2 to the 48.\<close>

lemma unat_mac_pack_add:
  "unat (mac_pack (mac_add m a)) = (unat (mac_pack m) + unat a) mod 2 ^ 48"
proof -
  have "unat (mac_pack m) + unat a < 2 ^ 64"
    using mac_pack_less [of m] unsigned_less [of a, where ?'a = nat] by simp
  moreover have "unat (ucast a :: u64) = unat a"
    using unsigned_less [of a, where ?'a = nat]
    by (simp add: unsigned_ucast_eq take_bit_nat_eq_self_iff)
  ultimately have "unat (mac_pack m + ucast a) = unat (mac_pack m) + unat a"
    by (simp add: unat_word_ariths)
  moreover have "unat (mac_pack (mac_add m a)) = take_bit 48 (unat (mac_pack m + ucast a))"
    by (simp only: mac_pack_add unsigned_take_bit_eq)
  ultimately show ?thesis
    by (simp only: take_bit_eq_mod)
qed

lemma unat_mac_pack_add_le:
  "unat (mac_pack m) + unat a < 2 ^ 48 \<Longrightarrow>
   unat (mac_pack (mac_add m a)) = unat (mac_pack m) + unat a"
  by (simp add: unat_mac_pack_add)

lemma mac_add_inj: "mac_add m a = mac_add m b \<longleftrightarrow> a = b"
proof
  assume "mac_add m a = mac_add m b"
  then have eq: "(unat (mac_pack m) + unat a) mod 2 ^ 48 = (unat (mac_pack m) + unat b) mod 2 ^ 48"
    by (metis unat_mac_pack_add)
  have ab: "unat a < 2 ^ 48" "unat b < 2 ^ 48"
    using unsigned_less [of a, where ?'a = nat] unsigned_less [of b, where ?'a = nat] by simp_all
  from eq ab have "unat a = unat b" by (rule mod_add_cancel_nat)
  then show "a = b" by (simp add: word_unat_eq_iff)
qed simp

end
