(* ===== verification/Igb_Eeprom.thy ===== *)
theory Igb_Eeprom
  imports Igb_Mac
begin

text \<open>
  igb-eeprom.c, the EEPROM image: the state of the tool, the word accesses \<open>igb_ic4\<close>,
  \<open>igb_ic3\<close> and \<open>igb_word\<close>, the functions that place the MAC addresses in the LAN
  sections, and the board specific changes. The image is the byte buffer \<open>eeprom\<close>;
  \<open>eeprom + off\<close> is the pair of the buffer and the offset. The lemmas state what every
  operation writes, that it writes nothing else, and that the addresses survive the
  board specific changes.
\<close>

section \<open>State\<close>

text \<open>Function pointers of \<open>g\<close> as the functions they can point at.\<close>

datatype board_map = Igb_i350_ve_map | Igb_c2000_map | Edge5x0_map
datatype board_extra = Edge500_extra | Edge510_extra | Edge5x0_extra

record macns =
  ns_mac :: mac
  ns_str :: string

record g =
  opt_oui :: bool
  opt_nic :: bool
  opt_mac :: bool
  opt_bid :: bool
  opt_pciid :: bool
  opt_x :: bool
  opt_dry :: bool
  opt_all :: bool
  nmacs :: u8
  bid :: string
  board :: string
  umac :: "string option"
  pciid :: "u16 \<times> u16"
  gmac :: mac
  macs :: "macns list"
  bnum :: u32
  ifname :: "string option"
  tmpl :: "string option"
  map_fn :: "board_map option"
  extra_fn :: "board_extra option"

definition mac_null :: mac where
  "mac_null = replicate 6 0"

section \<open>Word accesses\<close>

definition igb_ic4 :: "nat \<Rightarrow> u16 \<Rightarrow> buf \<Rightarrow> buf" where
  "igb_ic4 p addr e =
     (let w = p + 2 * 0x13; old = get16 w e;
          new = (old AND NOT 0x2e) OR push_bit 1 addr
      in put16 w new e)"

definition igb_ic3 :: "nat \<Rightarrow> bool \<Rightarrow> buf \<Rightarrow> buf" where
  "igb_ic3 p com e =
     (let w = p + 2 * 0x24; old = get16 w e;
          new = (old AND NOT 0x8) OR 0x4004;
          new = (if com then new OR 0x8 else new)
      in put16 w new e)"

definition igb_word :: "nat \<Rightarrow> nat \<Rightarrow> u16 \<Rightarrow> buf \<Rightarrow> buf" where
  "igb_word p word data e = put16 (p + 2 * word) data e"

section \<open>Placing the addresses\<close>

definition mac_of :: "g \<Rightarrow> nat \<Rightarrow> mac" where
  "mac_of g i = ns_mac (macs g ! i)"

definition igb_c2000_map :: "g \<Rightarrow> buf \<Rightarrow> buf" where
  "igb_c2000_map g e =
     (let e = bcopy (mac_of g 0) 0x0 e;
          e = bcopy (mac_of g 1) 0x100 e;
          e = bcopy (mac_of g 2) 0x180 e
      in bcopy (mac_of g 3) 0x200 e)"

definition igb_i350_ve_map :: "g \<Rightarrow> buf \<Rightarrow> buf" where
  "igb_i350_ve_map g e =
     (let e = bcopy (mac_of g 0) 0x0 e;
          e = bcopy (mac_of g 1) 0x100 e;
          e = bcopy mac_null 0x180 e
      in bcopy mac_null 0x200 e)"

definition igb_i350_5x_map :: "g \<Rightarrow> buf \<Rightarrow> buf" where
  "igb_i350_5x_map g e =
     (let e = bcopy (mac_of g 4) 0x0 e;
          e = bcopy (mac_of g 5) 0x100 e;
          e = bcopy mac_null 0x180 e
      in bcopy mac_null 0x200 e)"

definition edge5x0_map :: "g \<Rightarrow> buf \<Rightarrow> buf" where
  "edge5x0_map g e = (if opt_x g then igb_i350_5x_map g e else igb_c2000_map g e)"

section \<open>Board specific changes\<close>

text \<open>PHY addresses of the boards.\<close>

definition E500_PHY :: "u16 list" where "E500_PHY = [0, 0, 0, 0x7]"
definition E5X0_PHY :: "u16 list" where "E5X0_PHY = [0, 0, 0, 0]"
definition E510_PHY :: "u16 list" where "E510_PHY = [0, 1, 2, 3]"

definition edge500_extra :: "buf \<Rightarrow> buf" where
  "edge500_extra e =
     (let e = igb_word 0 0x06 0x5663 e;
          e = igb_word 0 0x07 0x6535 e;
          e = igb_ic4 0x000 (E500_PHY ! 0) e;
          e = igb_ic4 0x100 (E500_PHY ! 1) e;
          e = igb_ic4 0x180 (E500_PHY ! 2) e;
          e = igb_ic4 0x200 (E500_PHY ! 3) e;
          e = igb_ic3 0x000 True e;
          e = igb_ic3 0x100 False e;
          e = igb_ic3 0x180 True e
      in igb_ic3 0x200 True e)"

definition edge510_extra :: "buf \<Rightarrow> buf" where
  "edge510_extra e =
     (let e = igb_word 0 0x06 0x5663 e;
          e = igb_word 0 0x07 0x3531 e;
          e = igb_ic4 0x000 (E510_PHY ! 0) e;
          e = igb_ic4 0x100 (E510_PHY ! 1) e;
          e = igb_ic4 0x180 (E510_PHY ! 2) e;
          e = igb_ic4 0x200 (E510_PHY ! 3) e;
          e = igb_ic3 0x000 True e;
          e = igb_ic3 0x100 True e;
          e = igb_ic3 0x180 True e
      in igb_ic3 0x200 True e)"

definition edge5x0_extra_c2000 :: "buf \<Rightarrow> buf" where
  "edge5x0_extra_c2000 e =
     (let e = igb_word 0 0x06 0x5663 e;
          e = igb_word 0 0x07 0x3558 e;
          e = igb_ic4 0x000 (E5X0_PHY ! 0) e;
          e = igb_ic4 0x100 (E5X0_PHY ! 1) e;
          e = igb_ic4 0x180 (E5X0_PHY ! 2) e;
          e = igb_ic4 0x200 (E5X0_PHY ! 3) e;
          e = igb_ic3 0x000 True e;
          e = igb_ic3 0x100 False e;
          e = igb_ic3 0x180 True e
      in igb_ic3 0x200 True e)"

definition edge5x0_extra :: "g \<Rightarrow> buf \<Rightarrow> buf" where
  "edge5x0_extra g e = (if \<not> opt_x g then edge5x0_extra_c2000 e else e)"

text \<open>The calls through the function pointers; a null pointer is not called.\<close>

definition call_map :: "g \<Rightarrow> buf \<Rightarrow> buf" where
  "call_map g e = (case map_fn g of None \<Rightarrow> e
     | Some Igb_i350_ve_map \<Rightarrow> igb_i350_ve_map g e
     | Some Igb_c2000_map \<Rightarrow> igb_c2000_map g e
     | Some Edge5x0_map \<Rightarrow> edge5x0_map g e)"

definition call_extra :: "g \<Rightarrow> buf \<Rightarrow> buf" where
  "call_extra g e = (case extra_fn g of None \<Rightarrow> e
     | Some Edge500_extra \<Rightarrow> edge500_extra e
     | Some Edge510_extra \<Rightarrow> edge510_extra e
     | Some Edge5x0_extra \<Rightarrow> edge5x0_extra g e)"

section \<open>What the accesses write\<close>

lemma length_igb_ic4 [simp, buf_simps]: "length (igb_ic4 p a e) = length e"
  and length_igb_ic3 [simp, buf_simps]: "length (igb_ic3 p c e) = length e"
  and length_igb_word [simp, buf_simps]: "length (igb_word p w d e) = length e"
  by (simp_all add: igb_ic4_def igb_ic3_def igb_word_def Let_def)

lemma get16_igb_ic4 [buf_simps]:
  "p + 0x27 < length e \<Longrightarrow>
   get16 (p + 0x26) (igb_ic4 p a e) = (get16 (p + 0x26) e AND NOT 0x2e) OR push_bit 1 a"
  by (simp add: igb_ic4_def Let_def get16_put16_same)

lemma get16_igb_ic3 [buf_simps]:
  "p + 0x49 < length e \<Longrightarrow>
   get16 (p + 0x48) (igb_ic3 p c e) =
     (get16 (p + 0x48) e AND NOT 0x8) OR 0x4004 OR (if c then 0x8 else 0)"
  by (simp add: igb_ic3_def Let_def get16_put16_same or.assoc)

text \<open>Each access is confined to its two bytes.\<close>

lemma nth_igb_ic4_other:
  "p + 0x27 < length e \<Longrightarrow> i \<noteq> p + 0x26 \<Longrightarrow> i \<noteq> p + 0x27 \<Longrightarrow> igb_ic4 p a e ! i = e ! i"
  by (simp add: igb_ic4_def Let_def put16_def)

lemma nth_igb_ic3_other:
  "p + 0x49 < length e \<Longrightarrow> i \<noteq> p + 0x48 \<Longrightarrow> i \<noteq> p + 0x49 \<Longrightarrow> igb_ic3 p c e ! i = e ! i"
  by (simp add: igb_ic3_def Let_def put16_def)

lemma nth_igb_word_other:
  "p + 2 * w + 1 < length e \<Longrightarrow> i \<noteq> p + 2 * w \<Longrightarrow> i \<noteq> p + 2 * w + 1 \<Longrightarrow> igb_word p w d e ! i = e ! i"
  by (simp add: igb_word_def put16_def)

lemmas access_other = nth_igb_ic4_other nth_igb_ic3_other nth_igb_word_other

text \<open>
  The byte offsets the board specific changes may write: words 6 and 7 and the two
  initialization control words of each LAN section.
\<close>

definition lan_off :: "nat list" where
  "lan_off = [0, 0x100, 0x180, 0x200]"

definition extra_offs :: "nat set" where
  "extra_offs = {12, 13, 14, 15} \<union>
     (\<Union>p \<in> set lan_off. {p + 0x26, p + 0x27, p + 0x48, p + 0x49})"

lemma extra_offs_iff:
  "i \<in> extra_offs \<longleftrightarrow> i \<in> {12, 13, 14, 15, 0x26, 0x27, 0x48, 0x49, 0x126, 0x127, 0x148, 0x149,
     0x1a6, 0x1a7, 0x1c8, 0x1c9, 0x226, 0x227, 0x248, 0x249}"
  by (auto simp: extra_offs_def lan_off_def)

lemma length_extras [simp, buf_simps]:
  "length (edge500_extra e) = length e"
  "length (edge510_extra e) = length e"
  "length (edge5x0_extra_c2000 e) = length e"
  by (simp_all add: edge500_extra_def edge510_extra_def edge5x0_extra_c2000_def Let_def)

lemma extras_frame:
  assumes "0x280 \<le> length e" and "i \<notin> extra_offs"
  shows "edge500_extra e ! i = e ! i"
    and "edge510_extra e ! i = e ! i"
    and "edge5x0_extra_c2000 e ! i = e ! i"
  using assms
  by (simp_all add: edge500_extra_def edge510_extra_def edge5x0_extra_c2000_def Let_def
      access_other extra_offs_iff)

lemma call_extra_frame:
  assumes "0x280 \<le> length e" and "i \<notin> extra_offs"
  shows "call_extra g e ! i = e ! i"
  using extras_frame [OF assms]
  by (simp add: call_extra_def edge5x0_extra_def split: option.split board_extra.split)

lemma length_call_extra [simp, buf_simps]: "length (call_extra g e) = length e"
  by (simp add: call_extra_def edge5x0_extra_def split: option.split board_extra.split)

lemma call_extra_slice:
  assumes "0x280 \<le> length e" and "p \<in> set lan_off"
  shows "slice p 6 (call_extra g e) = slice p 6 e"
proof (rule nth_equalityI)
  have p: "p + 6 \<le> length e" using assms by (auto simp: lan_off_def)
  then show "length (slice p 6 (call_extra g e)) = length (slice p 6 e)"
    by (simp add: length_slice)
  fix i assume "i < length (slice p 6 (call_extra g e))"
  then have i: "i < 6" using p by (simp add: length_slice)
  then have "p + i \<notin> extra_offs"
    using assms(2) by (auto simp: extra_offs_iff lan_off_def)
  then show "slice p 6 (call_extra g e) ! i = slice p 6 e ! i"
    using p i assms(1) by (simp add: nth_slice call_extra_frame)
qed

section \<open>Where the addresses end up\<close>

text \<open>All six addresses have six bytes, as the array of \<open>macns_t\<close> has.\<close>

definition macs_ok :: "g \<Rightarrow> bool" where
  "macs_ok g \<longleftrightarrow> length (macs g) = 6 \<and> (\<forall>x \<in> set (macs g). length (ns_mac x) = 6)"

lemma length_mac_of [simp]: "macs_ok g \<Longrightarrow> i < 6 \<Longrightarrow> length (mac_of g i) = 6"
  by (simp add: macs_ok_def mac_of_def)

lemma length_mac_null [simp]: "length mac_null = 6"
  by (simp add: mac_null_def)

lemma length_maps [buf_simps]:
  assumes "macs_ok g" and "0x280 \<le> length e"
  shows "length (igb_c2000_map g e) = length e"
    and "length (igb_i350_ve_map g e) = length e"
    and "length (igb_i350_5x_map g e) = length e"
  using assms
  by (simp_all add: igb_c2000_map_def igb_i350_ve_map_def igb_i350_5x_map_def Let_def length_bcopy)

lemma length_call_map [buf_simps]:
  "macs_ok g \<Longrightarrow> 0x280 \<le> length e \<Longrightarrow> length (call_map g e) = length e"
  by (simp add: call_map_def edge5x0_map_def length_maps split: option.split board_map.split)

text \<open>The address each map stores in LAN section \<open>k\<close>.\<close>

definition lan_mac :: "g \<Rightarrow> nat \<Rightarrow> mac" where
  "lan_mac g k = (case map_fn g of
       Some Igb_c2000_map \<Rightarrow> mac_of g k
     | Some Igb_i350_ve_map \<Rightarrow> (if k < 2 then mac_of g k else mac_null)
     | Some Edge5x0_map \<Rightarrow> (if opt_x g then if k < 2 then mac_of g (k + 4) else mac_null else mac_of g k)
     | None \<Rightarrow> [])"

lemma four_sections:
  assumes "macs_ok g" and "0x280 \<le> length e"
    and "length a = 6" "length b = 6" "length c = 6" "length d = 6" and "k < 4"
  shows "slice (lan_off ! k) 6 (bcopy d 0x200 (bcopy c 0x180 (bcopy b 0x100 (bcopy a 0 e)))) = [a, b, c, d] ! k"
proof -
  have "k = 0 \<or> k = 1 \<or> k = 2 \<or> k = 3" using assms(7) by linarith
  then show ?thesis
    using assms by (auto simp: lan_off_def buf_simps)
qed

lemma call_map_slice:
  assumes "macs_ok g" and "0x280 \<le> length e" and "map_fn g = Some m" and "k < 4"
  shows "slice (lan_off ! k) 6 (call_map g e) = lan_mac g k"
proof -
  have k: "k = 0 \<or> k = 1 \<or> k = 2 \<or> k = 3" using assms(4) by linarith
  note fs = four_sections [OF assms(1,2) _ _ _ _ assms(4)]
  show ?thesis
    using assms k
    by (cases m) (auto simp: call_map_def edge5x0_map_def igb_c2000_map_def igb_i350_ve_map_def
        igb_i350_5x_map_def lan_mac_def Let_def fs)
qed

end
