(* ===== verification/Address_Pool.thy ===== *)
theory Address_Pool
  imports VC_Prelude
begin

text \<open>
  The contract of an address plan: boards are numbered inside runs, a board of a run
  takes a fixed count of consecutive addresses, and runs keep to stretches that do not
  meet. Both ways igb-eeprom hands out addresses (manufacturing runs and board ids) are
  interpretations.
\<close>

locale address_pool =
  fixes valid :: "'r \<Rightarrow> nat \<Rightarrow> bool"
    and first :: "'r \<Rightarrow> nat \<Rightarrow> nat"
    and count :: "'r \<Rightarrow> nat"
    and lo :: "'r \<Rightarrow> nat"
    and hi :: "'r \<Rightarrow> nat"
  assumes inside: "valid r b \<Longrightarrow> lo r \<le> first r b \<and> first r b + count r \<le> hi r"
    and stride: "valid r b \<Longrightarrow> valid r b' \<Longrightarrow> b < b' \<Longrightarrow> first r b + count r \<le> first r b'"
    and apart: "valid r b \<Longrightarrow> valid r' b' \<Longrightarrow> r \<noteq> r' \<Longrightarrow> hi r \<le> lo r' \<or> hi r' \<le> lo r"
begin

lemma in_stretch:
  "valid r b \<Longrightarrow> i < count r \<Longrightarrow> lo r \<le> first r b + i \<and> first r b + i < hi r"
  using inside [of r b] by linarith

lemma same_run:
  assumes "valid r b" and "valid r' b'" and "i < count r" and "j < count r'"
    and "first r b + i = first r' b' + j"
  shows "r = r'"
proof (rule ccontr)
  assume "r \<noteq> r'"
  from apart [OF assms(1,2) this] in_stretch [OF assms(1,3)] in_stretch [OF assms(2,4)] assms(5)
  show False by linarith
qed

lemma same_board:
  assumes "valid r b" and "valid r b'" and "i < count r" and "j < count r"
    and "first r b + i = first r b' + j"
  shows "b = b'"
  using stride [OF assms(1,2)] stride [OF assms(2,1)] assms(3-5) by (cases b b' rule: linorder_cases) auto

text \<open>An address belongs to one board only.\<close>

lemma owner_unique:
  assumes "valid r b" and "valid r' b'" and "i < count r" and "j < count r'"
    and "first r b + i = first r' b' + j"
  shows "r = r' \<and> b = b' \<and> i = j"
  using same_run [OF assms] same_board [of r b b' i j] assms by auto

end

end
