(* ===== verification/Igb_Mfg.thy ===== *)
theory Igb_Mfg
  imports Igb_Eeprom Address_Pool
begin

text \<open>
  igb-eeprom.c, manufacturing runs: the table \<open>Mfg\<close>, the lookup of a run from the
  argument \<open>run:board\<close> and \<open>mfg_init\<close>. The lemmas show that the table gives every
  board of every run addresses inside the run's address block, and that no two boards
  of the whole table share an address.
\<close>

section \<open>The table\<close>

record mfg =
  m_name :: string
  m_board :: string
  m_ifs :: "string option list"
  m_tmp :: "string option list"
  m_pciid0 :: "u16 list"
  m_pciid1 :: "u16 list"
  m_bmin :: u32
  m_bmax :: u32
  m_bbase :: u32
  m_nmacs :: u32
  m_mac_min :: mac
  m_mac_max :: mac

text \<open>
  The per-chip arrays have \<open>MAX_CHIPS = 2\<close> cells; a run on a one-chip board leaves the
  second one null or zero. Runs of one-chip boards and of two-chip boards share
  everything but name, board, numbers and addresses.
\<close>

definition mfg1 :: "string \<Rightarrow> string \<Rightarrow> u32 \<times> u32 \<times> u32 \<Rightarrow> mac \<Rightarrow> mac \<Rightarrow> mfg" where
  "mfg1 name brd b lo hi = \<lparr> m_name = name, m_board = brd,
     m_ifs = [Some ''eth0'', None], m_tmp = [Some ''atom-c2000-igb-sgmii.bin'', None],
     m_pciid0 = [0x8086, 0], m_pciid1 = [0x1f41, 0],
     m_bmin = fst b, m_bmax = fst (snd b), m_bbase = snd (snd b), m_nmacs = 4,
     m_mac_min = lo, m_mac_max = hi \<rparr>"

definition mfg2 :: "string \<Rightarrow> string \<Rightarrow> u32 \<times> u32 \<times> u32 \<Rightarrow> mac \<Rightarrow> mac \<Rightarrow> mfg" where
  "mfg2 name brd b lo hi = \<lparr> m_name = name, m_board = brd,
     m_ifs = [Some ''eth0'', Some ''eth4''],
     m_tmp = [Some ''atom-c2000-igb-sgmii.bin'', Some ''i350-igb-sfp.bin''],
     m_pciid0 = [0x8086, 0x8086], m_pciid1 = [0x1f41, 0x151f],
     m_bmin = fst b, m_bmax = fst (snd b), m_bbase = snd (snd b), m_nmacs = 6,
     m_mac_min = lo, m_mac_max = hi \<rparr>"

definition Mfg :: "mfg list" where
  "Mfg = [
     mfg1 ''pw-mp'' ''edge500'' (200, 2047, 0)
       [0xF0,0x8E,0xDB,0x01,0x10,0x00] [0xF0,0x8E,0xDB,0x01,0x2f,0xff],
     mfg2 ''520-pilot'' ''edge520'' (1, 42, 0)
       [0xF0,0x8E,0xDB,0x01,0x30,0x00] [0xF0,0x8E,0xDB,0x01,0x3f,0xff],
     mfg2 ''540-pilot'' ''edge540'' (1, 42, 0)
       [0xF0,0x8E,0xDB,0x01,0x40,0x00] [0xF0,0x8E,0xDB,0x01,0x4f,0xff],
     mfg2 ''520b-pilot'' ''edge520b'' (1, 630, 0)
       [0xF0,0x8E,0xDB,0x01,0x31,0x00] [0xF0,0x8E,0xDB,0x01,0x3f,0xff],
     mfg2 ''540b-pilot'' ''edge540b'' (1, 630, 0)
       [0xF0,0x8E,0xDB,0x01,0x41,0x00] [0xF0,0x8E,0xDB,0x01,0x4f,0xff],
     mfg1 ''pw-mp2'' ''edge500'' (2500, 6595, 2500)
       [0xF0,0x8E,0xDB,0x01,0x50,0x00] [0xF0,0x8E,0xDB,0x01,0x8f,0xff],
     mfg2 ''520b-prod'' ''edge520b'' (1001, 11922, 1001)
       [0xF0,0x8E,0xDB,0x02,0x00,0x00] [0xF0,0x8E,0xDB,0x02,0xff,0xff],
     mfg2 ''540b-prod'' ''edge540b'' (1001, 11922, 1001)
       [0xF0,0x8E,0xDB,0x03,0x00,0x00] [0xF0,0x8E,0xDB,0x03,0xff,0xff],
     mfg2 ''520b-prod'' ''edge520b'' (11923, 66535, 11923)
       [0xF0,0x8E,0xDB,0x04,0x00,0x00] [0xF0,0x8E,0xDB,0x08,0xff,0xff],
     mfg1 ''510-prod'' ''edge510'' (1, 959, 0)
       [0xF0,0x8E,0xDB,0x00,0x01,0x00] [0xF0,0x8E,0xDB,0x00,0x0f,0xff],
     mfg1 ''510-prod'' ''edge510'' (1001, 132072, 1001)
       [0xF0,0x8E,0xDB,0x10,0x00,0x00] [0xF0,0x8E,0xDB,0x17,0xff,0xff]]"

section \<open>Looking up a run\<close>

text \<open>The argument \<open>run:board\<close>: length of the run's name and the board number.\<close>

definition mfg_parse :: "string \<Rightarrow> string + nat \<times> u32" where
  "mfg_parse s = (case strchr s CHR '':'' of
       None \<Rightarrow> Inl ''missing board number''
     | Some k \<Rightarrow>
         if k = 0 then Inl ''missing manufacturer run''
         else (let (ul, ep) = strtoul 10 (drop (Suc k) s) in
           if ep = 0 then Inl ''missing/illegal board number'' else Inr (k, ucast ul)))"

definition mfg_match :: "string \<Rightarrow> nat \<Rightarrow> u32 \<Rightarrow> mfg \<Rightarrow> bool" where
  "mfg_match s len n m \<longleftrightarrow> strncmp_eq s (m_name m) len \<and> m_bmin m \<le> n \<and> n \<le> m_bmax m"

definition mfg_lookup :: "string \<Rightarrow> string + mfg \<times> u32" where
  "mfg_lookup s = (case mfg_parse s of Inl msg \<Rightarrow> Inl msg
     | Inr (len, n) \<Rightarrow> (case List.find (mfg_match s len n) Mfg of
           None \<Rightarrow> Inl ''unknown manufacturer run''
         | Some m \<Rightarrow> Inr (m, n)))"

text \<open>
  \<open>mfg_init\<close>: \<open>g->nmacs\<close> is a \<open>char\<close>, so the count is narrowed to 8 bits and
  sign-extended again in the product. A null string pointer is \<open>None\<close>.
\<close>

definition mfg_init :: "string \<Rightarrow> g \<Rightarrow> string + g" where
  "mfg_init s g = (case mfg_lookup s of Inl msg \<Rightarrow> Inl msg
     | Inr (m, n) \<Rightarrow>
         if m_board m \<noteq> board g then Inl ''unsupported board type''
         else (let n = n - m_bbase m; nm = (ucast (m_nmacs m) :: u8); x = (if opt_x g then 1 else 0) in
           Inr (g\<lparr>nmacs := nm,
                  gmac := mac_add (m_mac_min m) (n * scast nm),
                  ifname := m_ifs m ! x,
                  tmpl := m_tmp m ! x,
                  pciid := (m_pciid0 m ! x, m_pciid1 m ! x)\<rparr>)))"

section \<open>Address blocks\<close>

text \<open>The number of the first address of a board, and the bounds the table must meet.\<close>

definition blk_base :: "mfg \<Rightarrow> nat" where
  "blk_base m = unat (mac_pack (m_mac_min m))"

definition blk_count :: "mfg \<Rightarrow> nat" where
  "blk_count m = unat (m_nmacs m)"

definition board_first :: "mfg \<Rightarrow> nat \<Rightarrow> nat" where
  "board_first m n = blk_base m + (n - unat (m_bbase m)) * blk_count m"

definition run_ok :: "mfg \<Rightarrow> bool" where
  "run_ok m \<longleftrightarrow> m_bbase m \<le> m_bmin m \<and> (m_nmacs m = 4 \<or> m_nmacs m = 6) \<and>
     unat (m_bmax m) * 6 < 2 ^ 32 \<and>
     board_first m (unat (m_bmax m)) + blk_count m \<le> unat (mac_pack (m_mac_max m)) + 1"

lemma runs_ok: "\<forall>m \<in> set Mfg. run_ok m"
  by (simp add: Mfg_def mfg1_def mfg2_def run_ok_def board_first_def blk_base_def blk_count_def
      mac_pack_def)

text \<open>Different runs of the table use disjoint stretches of addresses.\<close>

definition run_lo :: "mfg \<Rightarrow> nat" where "run_lo m = board_first m (unat (m_bmin m))"
definition run_hi :: "mfg \<Rightarrow> nat" where "run_hi m = board_first m (unat (m_bmax m)) + blk_count m"

definition runs_apart :: "mfg \<Rightarrow> mfg \<Rightarrow> bool" where
  "runs_apart m m' \<longleftrightarrow> run_hi m \<le> run_lo m' \<or> run_hi m' \<le> run_lo m"

lemma run_bounds: "map (\<lambda>m. (run_lo m, run_hi m)) Mfg =
    [(0xf08edb011320, 0xf08edb013000),
     (0xf08edb013006, 0xf08edb013102),
     (0xf08edb014006, 0xf08edb014102),
     (0xf08edb013106, 0xf08edb013fca),
     (0xf08edb014106, 0xf08edb014fca),
     (0xf08edb015000, 0xf08edb019000),
     (0xf08edb020000, 0xf08edb02fffc),
     (0xf08edb030000, 0xf08edb03fffc),
     (0xf08edb040000, 0xf08edb08fffe),
     (0xf08edb000104, 0xf08edb001000),
     (0xf08edb100000, 0xf08edb180000)]"
  by (simp add: Mfg_def mfg1_def mfg2_def run_lo_def run_hi_def board_first_def
      blk_base_def blk_count_def mac_pack_def)

lemma runs_apart: "sorted_wrt runs_apart Mfg"
proof -
  have "sorted_wrt (\<lambda>p q. snd p \<le> fst q \<or> snd q \<le> fst p) (map (\<lambda>m. (run_lo m, run_hi m)) Mfg)"
    unfolding run_bounds by simp
  then show ?thesis
    by (simp add: sorted_wrt_map runs_apart_def [abs_def])
qed

lemma runs_apart_sym: "runs_apart m m' \<Longrightarrow> runs_apart m' m"
  by (auto simp: runs_apart_def)

lemma mfg_lookup_run:
  "mfg_lookup s = Inr (m, n) \<Longrightarrow> m \<in> set Mfg \<and> m_bmin m \<le> n \<and> n \<le> m_bmax m"
  by (auto simp: mfg_lookup_def mfg_match_def split: sum.splits option.splits dest!: find_Some_iff2)

section \<open>What a board is given\<close>

lemma mfg_product:
  assumes "run_ok m" and "m_bmin m \<le> n" and "n \<le> m_bmax m"
  shows "unat ((n - m_bbase m) * scast (ucast (m_nmacs m) :: u8))
    = (unat n - unat (m_bbase m)) * blk_count m"
    and "unat (ucast (m_nmacs m) :: u8) = blk_count m"
proof -
  have base: "m_bbase m \<le> n"
    using assms(1,2) by (auto simp: run_ok_def)
  have sub: "unat (n - m_bbase m) = unat n - unat (m_bbase m)"
    using base by (rule unat_sub)
  have nm: "m_nmacs m = 4 \<or> m_nmacs m = 6" and cap: "unat (m_bmax m) * 6 < 2 ^ 32"
    using assms(1) by (auto simp: run_ok_def)
  have sc: "scast (ucast (m_nmacs m) :: u8) = m_nmacs m"
    using nm by auto
  have "(unat n - unat (m_bbase m)) * unat (m_nmacs m) \<le> unat (m_bmax m) * 6"
    using nm assms(3) by (intro mult_le_mono) (auto simp: word_le_nat_alt)
  then have "unat (n - m_bbase m) * unat (m_nmacs m) < 2 ^ 32"
    using cap sub by simp
  then show "unat ((n - m_bbase m) * scast (ucast (m_nmacs m) :: u8))
      = (unat n - unat (m_bbase m)) * blk_count m"
    by (simp add: sc unat_word_ariths sub blk_count_def)
  show "unat (ucast (m_nmacs m) :: u8) = blk_count m"
    using nm by (auto simp: blk_count_def)
qed

lemma board_first_bounds:
  assumes "run_ok m" and "m_bmin m \<le> n" and "n \<le> m_bmax m"
  shows "run_lo m \<le> board_first m (unat n)"
    and "board_first m (unat n) + blk_count m \<le> run_hi m"
    and "run_hi m \<le> unat (mac_pack (m_mac_max m)) + 1"
  using assms
  by (auto simp: run_ok_def run_lo_def run_hi_def board_first_def word_le_nat_alt
      intro!: mult_le_mono1 diff_le_mono)

text \<open>\<open>mfg_init\<close> starts the board at its place in the run's block.\<close>

lemma mfg_init_board:
  assumes "mfg_init s g = Inr g'"
  obtains m n where "mfg_lookup s = Inr (m, n)" and "m_board m = board g" and "run_ok m"
    and "m \<in> set Mfg" and "m_bmin m \<le> n" and "n \<le> m_bmax m"
    and "unat (nmacs g') = blk_count m"
    and "unat (mac_pack (gmac g')) = board_first m (unat n)"
proof -
  obtain m n where l: "mfg_lookup s = Inr (m, n)" and b: "m_board m = board g"
    using assms by (auto simp: mfg_init_def split: sum.splits prod.splits if_splits)
  from mfg_lookup_run [OF l] have m: "m \<in> set Mfg" "m_bmin m \<le> n" "n \<le> m_bmax m" by auto
  then have ok: "run_ok m" using runs_ok by blast
  note prod = mfg_product [OF ok m(2,3)] and bounds = board_first_bounds [OF ok m(2,3)]
  have "gmac g' = mac_add (m_mac_min m) ((n - m_bbase m) * scast (ucast (m_nmacs m) :: u8))"
    and nm: "nmacs g' = ucast (m_nmacs m)"
    using assms l b by (auto simp: mfg_init_def Let_def)
  moreover have "board_first m (unat n) < 2 ^ 48"
    using bounds mac_pack_less [of "m_mac_max m"] ok by (auto simp: run_ok_def blk_count_def)
  ultimately have "unat (mac_pack (gmac g')) = board_first m (unat n)"
    using prod(1) by (simp add: unat_mac_pack_add_le board_first_def blk_base_def)
  then show ?thesis
    using that l b ok m nm prod(2) by simp
qed

text \<open>The numbers of the board's addresses.\<close>

lemma mfg_init_mac:
  assumes "mfg_init s g = Inr g'" and "j < unat (nmacs g')"
  obtains m n where "mfg_lookup s = Inr (m, n)" and "run_ok m" and "m \<in> set Mfg"
    and "m_bmin m \<le> n" and "n \<le> m_bmax m" and "j < blk_count m"
    and "unat (mac_pack (mac_add (gmac g') (of_nat j))) = board_first m (unat n) + j"
proof -
  obtain m n where l: "mfg_lookup s = Inr (m, n)" and ok: "run_ok m" and m: "m \<in> set Mfg"
    and n: "m_bmin m \<le> n" "n \<le> m_bmax m" and c: "unat (nmacs g') = blk_count m"
    and first: "unat (mac_pack (gmac g')) = board_first m (unat n)"
    using assms(1) by (rule mfg_init_board)
  note bounds = board_first_bounds [OF ok n]
  have j: "j < 6" and "j < blk_count m"
    using assms(2) c ok by (auto simp: run_ok_def blk_count_def)
  then have uj: "unat (of_nat j :: u32) = j" by (simp add: unat_of_nat)
  have "board_first m (unat n) + j < 2 ^ 48"
    using bounds mac_pack_less [of "m_mac_max m"] \<open>j < blk_count m\<close> by simp
  then have "unat (mac_pack (mac_add (gmac g') (of_nat j))) = board_first m (unat n) + j"
    by (simp add: unat_mac_pack_add_le first uj)
  then show ?thesis
    using that l ok m n \<open>j < blk_count m\<close> by blast
qed

text \<open>The table is an address plan.\<close>

definition run_valid :: "mfg \<Rightarrow> nat \<Rightarrow> bool" where
  "run_valid m n \<longleftrightarrow> m \<in> set Mfg \<and> unat (m_bmin m) \<le> n \<and> n \<le> unat (m_bmax m)"

lemma run_valid_word:
  assumes "run_valid m n"
  obtains w where "n = unat w" and "m_bmin m \<le> w" and "w \<le> m_bmax m" and "run_ok m"
proof -
  have "n < 2 ^ 32"
    using assms unsigned_less [of "m_bmax m", where ?'a = nat] by (simp add: run_valid_def)
  then have "unat (of_nat n :: u32) = n" by (simp add: unat_of_nat)
  then show ?thesis
    using that [of "of_nat n"] assms runs_ok by (auto simp: run_valid_def word_le_nat_alt)
qed

lemma board_first_stride:
  assumes "run_valid m n" and "run_valid m n'" and "n < n'"
  shows "board_first m n + blk_count m \<le> board_first m n'"
proof -
  have "unat (m_bbase m) \<le> n"
    using assms(1) by (rule run_valid_word) (simp add: run_ok_def word_le_nat_alt)
  then have "Suc (n - unat (m_bbase m)) \<le> n' - unat (m_bbase m)"
    using assms(3) by linarith
  then have "Suc (n - unat (m_bbase m)) * blk_count m \<le> (n' - unat (m_bbase m)) * blk_count m"
    by (rule mult_le_mono1)
  then show ?thesis by (simp add: board_first_def)
qed

interpretation mfgs: address_pool run_valid board_first blk_count run_lo run_hi
proof
  fix m n assume "run_valid m n"
  then obtain w where "n = unat w" "m_bmin m \<le> w" "w \<le> m_bmax m" "run_ok m"
    by (rule run_valid_word)
  then show "run_lo m \<le> board_first m n \<and> board_first m n + blk_count m \<le> run_hi m"
    using board_first_bounds by blast
next
  fix m n m' n' assume "run_valid m n" "run_valid m' n'" "m \<noteq> m'"
  then have "m \<in> set Mfg" "m' \<in> set Mfg" and ne: "m \<noteq> m'" by (simp_all add: run_valid_def)
  then have "runs_apart m m'"
    using sorted_wrt_pair [of runs_apart Mfg m m'] runs_apart runs_apart_sym by blast
  then show "run_hi m \<le> run_lo m' \<or> run_hi m' \<le> run_lo m"
    by (simp add: runs_apart_def)
qed (rule board_first_stride)

end
