(* ===== verification/Igb_Main.thy ===== *)
theory Igb_Main
  imports Igb_Mfg
begin

text \<open>
  igb-eeprom.c, \<open>get_board\<close>, \<open>mfg_list\<close> and \<open>main\<close>. What the tool reads from and does to the
  outside is a record \<open>world\<close>: the board file, the template files, the result of
  writing the bitmap and of running \<open>ethtool\<close>. A call of \<open>Msg\<close> with a leading \<open>@\<close>
  ends the program with status 1 and is \<open>Fatal\<close>; \<open>-h\<close> ends it with status 0. The
  buffers \<open>file[50]\<close> and \<open>cmd[200]\<close> are filled by an unchecked \<open>sprintf\<close>; a text that
  does not fit is \<open>Overflow\<close>, since C leaves open what happens next.
\<close>

section \<open>The outside\<close>

record world =
  w_board :: "(int \<times> string) option"
  w_template :: "string \<Rightarrow> (int \<times> u8 list) option"
  w_write :: "string \<Rightarrow> u8 list \<Rightarrow> int option"
  w_system :: "string \<Rightarrow> int"

datatype stop = Fatal string | Help | Overflow string

record outcome =
  o_ret :: int
  o_path :: string
  o_image :: buf
  o_cmd :: string
  o_ran :: bool
  o_unlinked :: bool

text \<open>
  \<open>main\<close> returns what \<open>system\<close> returned; the status the caller sees is its low byte.
\<close>

definition exit_status :: "outcome \<Rightarrow> int" where
  "exit_status out = o_ret out mod 256"

text \<open>
  \<open>get_board\<close>: \<open>w_board\<close> is \<open>None\<close> when the file cannot be opened, else what \<open>read\<close>
  returned and the 50 characters the buffer then holds.
\<close>

definition get_board :: "world \<Rightarrow> string option" where
  "get_board w = (case w_board w of
       None \<Rightarrow> Some ''ve1000''
     | Some (n, name) \<Rightarrow>
         if n \<le> 0 then None
         else (let name = name[49 := CHR 0x00]; s = takeWhile (\<lambda>c. c \<noteq> CHR 0x00) name
           in Some (takeWhile (\<lambda>c. c \<noteq> CHR 0x0A) s)))"

text \<open>\<open>mfg_list\<close>: the runs the help text lists.\<close>

definition mfg_list :: "g \<Rightarrow> mfg list" where
  "mfg_list g = filter (\<lambda>m. opt_all g \<or> board g = m_board m) Mfg"

section \<open>Options\<close>

definition init_g :: g where
  "init_g = \<lparr> opt_oui = False, opt_nic = False, opt_mac = False, opt_bid = False,
     opt_pciid = False, opt_x = False, opt_dry = False, opt_all = False, nmacs = 0,
     bid = ''image'', board = [], umac = None, pciid = (0, 0),
     gmac = [0x56, 0x43, 0x31, 0, 0, 0],
     macs = replicate 6 \<lparr> ns_mac = replicate 6 0, ns_str = [] \<rparr>,
     bnum = 0, ifname = Some ''eth0'', tmpl = None, map_fn = None, extra_fn = None \<rparr>"

text \<open>
  The option loop carries \<open>g\<close>, the local \<open>pciid\<close> and \<open>override_ifname\<close>. An option is
  its letter and its argument, as \<open>getopt\<close> delivers them (\<open>?\<close> for an unknown one).
\<close>

type_synonym opts = "g \<times> (u16 \<times> u16) \<times> string option"

definition do_opt :: "char \<times> string \<Rightarrow> opts \<Rightarrow> stop + opts" where
  "do_opt arg st = (let (c, optarg) = arg; (g, pid, ovr) = st in
     if c = CHR ''o'' then
       (let (ok, m) = get_num optarg (gmac g) 3 in
        if \<not> ok then Inl (Fatal ''bad OUI'') else Inr (g\<lparr>gmac := m, opt_oui := True\<rparr>, pid, ovr))
     else if c = CHR ''N'' then
       (let (ok, m) = get_num optarg (drop 3 (gmac g)) 3 in
        if \<not> ok then Inl (Fatal ''bad NIC'')
        else Inr (g\<lparr>gmac := take 3 (gmac g) @ m, opt_nic := True\<rparr>, pid, ovr))
     else if c = CHR ''m'' then
       (let (ok, m) = get_num optarg (gmac g) 6 in
        if \<not> ok then Inl (Fatal ''bad MAC address'') else Inr (g\<lparr>gmac := m, opt_mac := True\<rparr>, pid, ovr))
     else if c = CHR ''B'' then Inr (g\<lparr>board := optarg\<rparr>, pid, ovr)
     else if c = CHR ''b'' then
       (let (ok, m) = get_bid optarg (drop 3 (gmac g)) in
        if \<not> ok then Inl (Fatal ''bad board id'')
        else Inr (g\<lparr>gmac := take 3 (gmac g) @ m, opt_bid := True, bid := optarg\<rparr>, pid, ovr))
     else if c = CHR ''p'' then
       (let (ok, p) = get_pciid optarg pid in
        if \<not> ok then Inl (Fatal ''bad PCI ID'') else Inr (g\<lparr>opt_pciid := True\<rparr>, p, ovr))
     else if c = CHR ''i'' then Inr (g, pid, Some optarg)
     else if c = CHR ''t'' then Inr (g\<lparr>tmpl := Some optarg\<rparr>, pid, ovr)
     else if c = CHR ''u'' then Inr (g\<lparr>umac := Some optarg\<rparr>, pid, ovr)
     else if c = CHR ''x'' then Inr (g\<lparr>opt_x := True\<rparr>, pid, ovr)
     else if c = CHR ''n'' then Inr (g\<lparr>opt_dry := True\<rparr>, pid, ovr)
     else if c = CHR ''a'' then Inr (g\<lparr>opt_all := True\<rparr>, pid, ovr)
     else if c = CHR ''h'' then Inl Help
     else Inl (Fatal ''unknown option''))"

fun do_opts :: "(char \<times> string) list \<Rightarrow> opts \<Rightarrow> stop + opts" where
  "do_opts [] st = Inr st"
| "do_opts (x # xs) st = (case do_opt x st of Inl e \<Rightarrow> Inl e | Inr st' \<Rightarrow> do_opts xs st')"

definition check_opts :: "g \<Rightarrow> stop option" where
  "check_opts g =
     (if opt_mac g \<and> (opt_oui g \<or> opt_nic g \<or> opt_bid g)
        then Some (Fatal ''options -m and [-o,-n,-b] are mutually exclusive'')
      else if opt_bid g \<and> opt_nic g then Some (Fatal ''options -b and -n are mutually exclusive'')
      else if \<not> (opt_mac g \<or> opt_bid g \<or> umac g \<noteq> None)
        then Some (Fatal ''at least one of the -b,-m or -u options are required'')
      else None)"

section \<open>Boards\<close>

definition board_setup :: "g \<Rightarrow> stop + g" where
  "board_setup g =
     (if board g = ''ve1000'' then
        Inr (g\<lparr>pciid := (0x8086, 0x1509), nmacs := 2, map_fn := Some Igb_i350_ve_map\<rparr>)
      else if board g = ''edge500'' then
        Inr (g\<lparr>pciid := (0x8086, 0x1f41), nmacs := 4, map_fn := Some Igb_c2000_map,
               extra_fn := Some Edge500_extra\<rparr>)
      else if strncmp_eq (board g) ''edge520'' 7 then
        Inr (g\<lparr>pciid := (0x8086, 0x1f41), nmacs := 6, map_fn := Some Edge5x0_map,
               extra_fn := Some Edge5x0_extra\<rparr>)
      else if strncmp_eq (board g) ''edge540'' 7 then
        Inr (g\<lparr>pciid := (0x8086, 0x1f41), nmacs := 6, map_fn := Some Edge5x0_map,
               extra_fn := Some Edge5x0_extra\<rparr>)
      else if strncmp_eq (board g) ''edge510'' 7 then
        Inr (g\<lparr>pciid := (0x8086, 0x1f41), nmacs := 4, map_fn := Some Igb_c2000_map,
               extra_fn := Some Edge510_extra\<rparr>)
      else Inl (Fatal ''board not supported''))"

definition umac_setup :: "g \<Rightarrow> stop + g" where
  "umac_setup g = (case umac g of None \<Rightarrow> Inr g
     | Some s \<Rightarrow>
         if opt_oui g \<or> opt_nic g \<or> opt_mac g \<or> opt_bid g
         then Inl (Fatal ''options -u and [-o,-n,-m,-b] are mutually exclusive'')
         else (case mfg_init s g of Inl msg \<Rightarrow> Inl (Fatal msg) | Inr g' \<Rightarrow> Inr g'))"

section \<open>The addresses and the image\<close>

definition make_macs :: "g \<Rightarrow> macns list" where
  "make_macs g = map (\<lambda>n. if n < unat (nmacs g)
     then (let m = mac_add (gmac g) (of_nat n) in \<lparr> ns_mac = m, ns_str = mac_str m \<rparr>)
     else macs g ! n) [0..<6]"

definition magic :: "g \<Rightarrow> string" where
  "magic g = ''0x'' @ hex4 (snd (pciid g)) @ hex4 (fst (pciid g))"

definition eeprom_size :: nat where
  "eeprom_size = 64 * 1024"

definition load_template :: "u8 list \<Rightarrow> buf" where
  "load_template d = c_array eeprom_size 0 d"

text \<open>\<open>%s\<close> of a null pointer prints \<open>(null)\<close>.\<close>

definition str_arg :: "string option \<Rightarrow> string" where
  "str_arg s = (case s of None \<Rightarrow> ''(null)'' | Some t \<Rightarrow> t)"

definition bitmap_path :: "g \<Rightarrow> string" where
  "bitmap_path g = ''/tmp/igb-eeprom-'' @ (if opt_x g then ''1'' else ''0'') @ ''-'' @
     (if opt_mac g then ns_str (macs g ! 0) else bid g) @ ''.bin''"

definition flash_cmd :: "g \<Rightarrow> string \<Rightarrow> string" where
  "flash_cmd g path = ''ethtool -E '' @ str_arg (ifname g) @ '' magic '' @ magic g
     @ '' offset 0 < '' @ path"

text \<open>From the template on: patch the image, write it, flash it, remove the file.\<close>

definition flash :: "world \<Rightarrow> g \<Rightarrow> int \<Rightarrow> u8 list \<Rightarrow> stop + outcome" where
  "flash w g n d =
     (let e = call_extra g (call_map g (load_template d)); image = take (nat n) e; path = bitmap_path g in
      if 50 \<le> length path then Inl (Overflow ''file'')
      else case w_write w path image of
        None \<Rightarrow> Inl (Fatal ''cannot open bitmap file'')
      | Some nb \<Rightarrow>
          if nb \<noteq> n then Inl (Fatal ''cannot write bitmap file'')
          else (let cmd = flash_cmd g path in
            if 200 \<le> length cmd then Inl (Overflow ''cmd'')
            else if opt_dry g then Inr \<lparr> o_ret = 0, o_path = path, o_image = image, o_cmd = cmd,
                                          o_ran = False, o_unlinked = True \<rparr>
            else (let r = w_system w cmd in
              Inr \<lparr> o_ret = r, o_path = path, o_image = image, o_cmd = cmd,
                    o_ran = True, o_unlinked = (r = 0) \<rparr>)))"

definition program :: "world \<Rightarrow> g \<Rightarrow> stop + outcome" where
  "program w g = (case tmpl g of None \<Rightarrow> Inl (Fatal ''need intel eeprom template file (-t)'')
     | Some t \<Rightarrow>
         (let g = g\<lparr>macs := make_macs g\<rparr> in
          case w_template w t of None \<Rightarrow> Inl (Fatal ''cannot open intel template'')
          | Some (n, d) \<Rightarrow>
              if n < 0 then Inl (Fatal ''cannot read intel template'')
              else if n < 0x280 then Inl (Fatal ''intel template too small'')
              else flash w g n d))"

definition igb_setup :: "(char \<times> string) list \<Rightarrow> string \<Rightarrow> stop + g" where
  "igb_setup args brd =
     (case do_opts args (init_g\<lparr>board := brd\<rparr>, (0, 0), None) of Inl e \<Rightarrow> Inl e
      | Inr (g, pid, ovr) \<Rightarrow>
     (case check_opts g of Some e \<Rightarrow> Inl e | None \<Rightarrow>
     (case board_setup g of Inl e \<Rightarrow> Inl e | Inr g \<Rightarrow>
     (case umac_setup g of Inl e \<Rightarrow> Inl e | Inr g \<Rightarrow>
       (let g = (if ovr \<noteq> None then g\<lparr>ifname := ovr\<rparr> else g);
            g = (if opt_pciid g then g\<lparr>pciid := pid\<rparr> else g)
        in Inr g)))))"

definition igb_main :: "world \<Rightarrow> (char \<times> string) list \<Rightarrow> stop + outcome" where
  "igb_main w args = (case get_board w of None \<Rightarrow> Inl (Fatal ''cannot determine board'')
     | Some brd \<Rightarrow> (case igb_setup args brd of Inl e \<Rightarrow> Inl e | Inr g \<Rightarrow> program w g))"

section \<open>What the set-up guarantees\<close>

lemma do_opt_length:
  assumes "do_opt x (g, p, ovr) = Inr (g', p', ovr')" and "length (gmac g) = 6"
  shows "length (gmac g') = 6"
  using assms
  by (cases x) (auto simp: do_opt_def Let_def split: if_splits prod.splits dest!: get_num_length get_bid_length)

lemma do_opt_macs: "do_opt x st = Inr st' \<Longrightarrow> macs (fst st') = macs (fst st)"
  by (cases x; cases st) (auto simp: do_opt_def Let_def split: if_splits prod.splits)

lemma do_opts_macs: "do_opts xs st = Inr st' \<Longrightarrow> macs (fst st') = macs (fst st)"
  by (induction xs st rule: do_opts.induct) (auto dest: do_opt_macs split: sum.splits)

text \<open>Choosing the board and the run leaves the options and the address array alone.\<close>

lemma board_setup_frame:
  assumes "board_setup g = Inr g'"
  shows "macs g' = macs g" "umac g' = umac g" "gmac g' = gmac g" "opt_x g' = opt_x g"
    "opt_oui g' = opt_oui g" "opt_nic g' = opt_nic g" "opt_mac g' = opt_mac g"
    "opt_bid g' = opt_bid g" "opt_dry g' = opt_dry g" "board g' = board g" "map_fn g' \<noteq> None"
  using assms by (auto simp: board_setup_def split: if_splits)

lemma mfg_init_frame:
  assumes "mfg_init s g = Inr g'"
  shows "macs g' = macs g" "umac g' = umac g" "opt_x g' = opt_x g"
    "opt_oui g' = opt_oui g" "opt_nic g' = opt_nic g" "opt_mac g' = opt_mac g"
    "opt_bid g' = opt_bid g" "opt_dry g' = opt_dry g" "board g' = board g"
    "map_fn g' = map_fn g" "extra_fn g' = extra_fn g"
  using assms by (auto simp: mfg_init_def Let_def split: sum.splits prod.splits if_splits)

lemma umac_setup_frame:
  assumes "umac_setup g = Inr g'"
  shows "macs g' = macs g" "umac g' = umac g" "opt_x g' = opt_x g"
    "opt_oui g' = opt_oui g" "opt_nic g' = opt_nic g" "opt_mac g' = opt_mac g"
    "opt_bid g' = opt_bid g" "opt_dry g' = opt_dry g" "board g' = board g"
    "map_fn g' = map_fn g" "extra_fn g' = extra_fn g"
  using assms mfg_init_frame
  by (auto simp: umac_setup_def split: option.splits sum.splits if_splits)

text \<open>The stages of the set-up, and what the last one leaves as it was.\<close>

lemma igb_setup_stages:
  assumes "igb_setup args brd = Inr g"
  obtains g0 pid ovr g1 g2 where
    "do_opts args (init_g\<lparr>board := brd\<rparr>, (0, 0), None) = Inr (g0, pid, ovr)"
    and "check_opts g0 = None" and "board_setup g0 = Inr g1" and "umac_setup g1 = Inr g2"
    and "macs g = macs g2" "umac g = umac g2" "opt_x g = opt_x g2" "opt_oui g = opt_oui g2"
      "opt_nic g = opt_nic g2" "opt_mac g = opt_mac g2" "opt_bid g = opt_bid g2"
      "opt_dry g = opt_dry g2" "board g = board g2" "map_fn g = map_fn g2"
      "extra_fn g = extra_fn g2" "gmac g = gmac g2" "nmacs g = nmacs g2" "tmpl g = tmpl g2"
  using assms
  by (auto simp: igb_setup_def Let_def split: sum.splits prod.splits option.splits if_splits)

lemma igb_setup_macs:
  assumes "igb_setup args brd = Inr g"
  shows "macs g = macs init_g"
  using assms
proof (rule igb_setup_stages, goal_cases)
  case (1 g0 pid ovr g1 g2)
  note st = this
  have "macs g0 = macs init_g" using do_opts_macs [OF st(1)] by simp
  then show ?case
    using st(5) board_setup_frame(1) [OF st(3)] umac_setup_frame(1) [OF st(4)] by simp
qed

lemma igb_setup_map:
  assumes "igb_setup args brd = Inr g"
  shows "map_fn g \<noteq> None"
  using assms
proof (rule igb_setup_stages, goal_cases)
  case (1 g0 pid ovr g1 g2)
  note st = this
  show ?case
    using st(14) board_setup_frame(11) [OF st(3)] umac_setup_frame(10) [OF st(4)] by simp
qed

text \<open>With \<open>-u\<close> the addresses come from the table of runs.\<close>

lemma igb_setup_umac:
  assumes "igb_setup args brd = Inr g" and "umac g = Some s"
  obtains g1 g2 where "mfg_init s g1 = Inr g2" and "gmac g = gmac g2" and "nmacs g = nmacs g2"
    and "board g1 = board g"
  using assms(1)
proof (rule igb_setup_stages, goal_cases)
  case (1 g0 pid ovr g1 g2)
  note st = this
  have u: "umac g1 = Some s"
    using assms(2) st(7) umac_setup_frame(2) [OF st(5)] by simp
  then have m: "mfg_init s g1 = Inr g2"
    using st(5) by (simp add: umac_setup_def split: if_splits sum.splits)
  show ?case
    by (rule st(1) [OF m]) (simp_all add: st(14,17,18) mfg_init_frame(9) [OF m])
qed

section \<open>The patched image\<close>

lemma macs_ok_make:
  assumes "macs g = macs init_g"
  shows "macs_ok (g\<lparr>macs := make_macs g\<rparr>)"
  using assms by (auto simp: macs_ok_def make_macs_def init_g_def Let_def)

lemma mac_of_make:
  "k < unat (nmacs g) \<Longrightarrow> k < 6 \<Longrightarrow> mac_of (g\<lparr>macs := make_macs g\<rparr>) k = mac_add (gmac g) (of_nat k)"
  by (simp add: mac_of_def make_macs_def Let_def)

lemma length_load_template [simp]: "length (load_template d) = eeprom_size"
  by (simp add: load_template_def)

lemma nth_load_template: "i < length d \<Longrightarrow> i < eeprom_size \<Longrightarrow> load_template d ! i = d ! i"
  by (simp add: load_template_def c_array_def nth_append)

lemma eeprom_size_ge: "0x280 \<le> eeprom_size"
  by (simp add: eeprom_size_def)

text \<open>The byte ranges the addresses take.\<close>

definition mac_offs :: "nat set" where
  "mac_offs = (\<Union>p \<in> set lan_off. {p..<p + 6})"

lemma mac_offs_iff:
  "i \<in> mac_offs \<longleftrightarrow> i < 6 \<or> 0x100 \<le> i \<and> i < 0x106 \<or> 0x180 \<le> i \<and> i < 0x186 \<or> 0x200 \<le> i \<and> i < 0x206"
  by (auto simp: mac_offs_def lan_off_def)

lemma call_map_frame:
  assumes "macs_ok g" and "0x280 \<le> length e" and "i < length e" and "i \<notin> mac_offs"
  shows "call_map g e ! i = e ! i"
  using assms
  by (auto simp: call_map_def edge5x0_map_def igb_c2000_map_def igb_i350_ve_map_def
      igb_i350_5x_map_def Let_def mac_offs_iff nth_bcopy length_bcopy split: option.split board_map.split)

lemma program_stages:
  assumes "program w g = Inr out"
  obtains t n d where "tmpl g = Some t" and "w_template w t = Some (n, d)" and "0x280 \<le> n"
    and "o_image out = take (nat n) (call_extra (g\<lparr>macs := make_macs g\<rparr>)
           (call_map (g\<lparr>macs := make_macs g\<rparr>) (load_template d)))"
    and "flash w (g\<lparr>macs := make_macs g\<rparr>) n d = Inr out"
  using assms
  by (auto simp: program_def flash_def Let_def split: option.splits if_splits)

end
