(* ===== verification/Igb_Props.thy ===== *)
theory Igb_Props
  imports Igb_Main
begin

text \<open>
  igb-eeprom.c, what the whole tool guarantees: the board id plan as a second address
  pool, the addresses a manufacturing run hands out, the option rules and the result of
  flashing. Each property is followed by an instance of it.
\<close>

section \<open>Board ids\<close>

text \<open>With \<open>-b\<close> the three NIC bytes are the board id times 16, under the given OUI.\<close>

definition bid_valid :: "u8 list \<Rightarrow> nat \<Rightarrow> bool" where
  "bid_valid oui v \<longleftrightarrow> length oui = 3 \<and> v < 2 ^ 20"

definition oui_lo :: "u8 list \<Rightarrow> nat" where
  "oui_lo oui = (unat (oui ! 0) * 2 ^ 16 + unat (oui ! 1) * 2 ^ 8 + unat (oui ! 2)) * 2 ^ 24"

definition bid_first :: "u8 list \<Rightarrow> nat \<Rightarrow> nat" where
  "bid_first oui v = oui_lo oui + 16 * v"

lemma digit_eq:
  assumes "x * 256 + b = y * 256 + c" and "b < 256" and "c < (256::nat)"
  shows "x = y \<and> b = c"
proof -
  have "(x * 256 + b) div 256 = (y * 256 + c) div 256" and "(x * 256 + b) mod 256 = (y * 256 + c) mod 256"
    by (simp_all only: assms(1))
  then show ?thesis using assms(2,3) by simp
qed

lemma oui_lo_apart:
  assumes "length a = 3" and "length b = 3" and "a \<noteq> b"
  shows "oui_lo a + 2 ^ 24 \<le> oui_lo b \<or> oui_lo b + 2 ^ 24 \<le> oui_lo a"
proof -
  obtain a0 a1 a2 b0 b1 b2 where ab: "a = [a0, a1, a2]" "b = [b0, b1, b2]"
    using assms(1,2) by (auto simp: eval_nat_numeral length_Suc_conv)
  let ?x = "(unat a0 * 256 + unat a1) * 256 + unat a2" and ?y = "(unat b0 * 256 + unat b1) * 256 + unat b2"
  have "?x \<noteq> ?y"
  proof
    assume "?x = ?y"
    then have 1: "unat a0 * 256 + unat a1 = unat b0 * 256 + unat b1 \<and> unat a2 = unat b2"
      by (rule digit_eq [OF _ u8_less u8_less])
    then have "unat a0 = unat b0 \<and> unat a1 = unat b1"
      by (intro digit_eq [OF _ u8_less u8_less]) blast
    with 1 show False using assms(3) by (simp add: ab word_unat_eq_iff)
  qed
  then consider "?x + 1 \<le> ?y" | "?y + 1 \<le> ?x" by linarith
  moreover have "oui_lo a = ?x * 16777216" and "oui_lo b = ?y * 16777216"
    by (simp_all add: oui_lo_def ab algebra_simps)
  ultimately show ?thesis by cases simp_all
qed

interpretation bids: address_pool bid_valid bid_first "\<lambda>_. 16" oui_lo "\<lambda>oui. oui_lo oui + 2 ^ 24"
proof
  fix r b r' b' assume "bid_valid r b" "bid_valid r' b'" "r \<noteq> r'"
  then show "oui_lo r + 2 ^ 24 \<le> oui_lo r' \<or> oui_lo r' + 2 ^ 24 \<le> oui_lo r"
    using oui_lo_apart by (simp add: bid_valid_def)
qed (auto simp: bid_valid_def bid_first_def)

text \<open>The bytes \<open>get_bid\<close> stores.\<close>

definition bid_of :: "string \<Rightarrow> nat" where
  "bid_of s = unat (ucast (fst (strtoul 0 s)) :: u32)"

lemma get_bid_value:
  assumes "get_bid s dst = (True, m)" and "length dst = 3"
  shows "bid_of s < 2 ^ 20"
    and "unat (m ! 0) * 65536 + unat (m ! 1) * 256 + unat (m ! 2) = 16 * bid_of s"
    and "length m = 3"
proof -
  obtain ul k where st: "strtoul 0 s = (ul, k)" by fastforce
  define v where "v = (ucast ul :: u32)"
  have b: "bid_of s = unat v" by (simp add: bid_of_def st v_def)
  have v: "v < push_bit 20 1" and m: "m = dst[0 := ucast (drop_bit 16 (push_bit 4 v) AND 0xff),
      1 := ucast (drop_bit 8 (push_bit 4 v) AND 0xff), 2 := ucast (push_bit 4 v AND 0xff)]"
    using assms(1) by (auto simp: get_bid_def st v_def Let_def split: if_splits)
  from v show lt: "bid_of s < 2 ^ 20" by (simp add: b word_less_nat_alt)
  have p: "unat (push_bit 4 v) = 16 * unat v"
    using lt unfolding unsigned_push_bit_eq
    by (simp add: b push_bit_eq_mult take_bit_nat_eq_self)
  let ?w = "push_bit 4 v"
  have bytes: "unat (m ! 0) = unat ?w div 65536 mod 256" "unat (m ! 1) = unat ?w div 256 mod 256"
    "unat (m ! 2) = unat ?w mod 256"
    using assms(2) unat_byte_of_u32(1) [of 16 ?w] unat_byte_of_u32(1) [of 8 ?w]
      unat_byte_of_u32(2) [of ?w] unfolding m by simp_all
  have "unat ?w < 2 ^ 24" using lt p by (simp add: b)
  from three_bytes [OF this] show "unat (m ! 0) * 65536 + unat (m ! 1) * 256 + unat (m ! 2) = 16 * bid_of s"
    unfolding bytes b p [symmetric] .
  show "length m = 3" by (simp add: m assms(2))
qed

text \<open>Setting the OUI leaves the NIC bytes.\<close>

lemma get_num_colon_tail:
  "i + n \<le> k \<Longrightarrow> drop k (snd (get_num_colon s n i dst)) = drop k dst"
  by (induction s n i dst rule: get_num_colon.induct) (auto simp: Let_def split: prod.splits)

lemma get_num_tail: "get_num s dst 3 = (ok, m) \<Longrightarrow> drop 3 m = drop 3 dst"
  using get_num_colon_tail [of 0 3 3 s dst]
  by (auto simp: get_num_def Let_def split: prod.splits if_splits)

text \<open>
  While neither a NIC nor a full address has been given, a board id determines the NIC
  bytes, whatever the order of the options.
\<close>

definition bid_inv :: "g \<Rightarrow> bool" where
  "bid_inv g \<longleftrightarrow> length (gmac g) = 6 \<and>
     (opt_bid g \<and> \<not> opt_nic g \<and> \<not> opt_mac g \<longrightarrow>
        (\<exists>d. length d = 3 \<and> get_bid (bid g) d = (True, drop 3 (gmac g))))"

lemma do_opt_bid_inv:
  assumes "do_opt x (g, p, ovr) = Inr (g', p', ovr')" and "bid_inv g"
  shows "bid_inv g'"
proof -
  have len: "length (gmac g') = 6"
    using assms by (auto simp: bid_inv_def intro: do_opt_length)
  have "length (drop 3 (gmac g)) = 3" using assms(2) by (simp add: bid_inv_def)
  then have ex: "\<exists>d. length d = 3 \<and> get_bid s d = (True, m)"
    if "get_bid s (drop 3 (gmac g)) = (True, m)" for s m
    using that by blast
  show ?thesis
    using assms len
    by (cases x) (auto simp: bid_inv_def do_opt_def Let_def split: if_splits prod.splits
        dest!: get_num_tail intro: ex)
qed

lemma do_opts_bid_inv:
  "do_opts xs st = Inr st' \<Longrightarrow> bid_inv (fst st) \<Longrightarrow> bid_inv (fst st')"
proof (induction xs st rule: do_opts.induct)
  case (2 x xs st)
  obtain st1 where s: "do_opt x st = Inr st1" and r: "do_opts xs st1 = Inr st'"
    using "2.prems"(1) by (auto split: sum.splits)
  have "bid_inv (fst st1)"
    using do_opt_bid_inv [of x "fst st" "fst (snd st)" "snd (snd st)"] s "2.prems"(2)
    by (metis prod.collapse)
  then show ?case using "2.IH" [OF s r] by simp
qed simp

section \<open>Options\<close>

text \<open>The set-up succeeds only when the addresses come from exactly one source: a full
  address, a board id or a manufacturing run; the partial options go with none of the
  sources they contradict.
\<close>

theorem igb_one_source:
  assumes "igb_setup args brd = Inr g"
  shows "(opt_mac g, opt_bid g, umac g \<noteq> None) \<in> {(True, False, False), (False, True, False), (False, False, True)}
    \<and> \<not> (opt_nic g \<and> (opt_mac g \<or> opt_bid g \<or> umac g \<noteq> None))
    \<and> \<not> (opt_oui g \<and> (opt_mac g \<or> umac g \<noteq> None))"
  using assms
proof (rule igb_setup_stages, goal_cases)
  case (1 g0 pid ovr g1 g2)
  note st = this and b = board_setup_frame [OF this(3)] and u = umac_setup_frame [OF this(4)]
  have eq: "opt_mac g = opt_mac g0" "opt_bid g = opt_bid g0" "opt_nic g = opt_nic g0"
    "opt_oui g = opt_oui g0" "umac g = umac g0"
    by (simp_all only: st(6-11) b u)
  have "umac g0 \<noteq> None \<Longrightarrow> \<not> (opt_oui g0 \<or> opt_nic g0 \<or> opt_mac g0 \<or> opt_bid g0)"
    using st(4) b by (auto simp: umac_setup_def split: option.splits if_splits)
  moreover have "opt_mac g0 \<or> opt_bid g0 \<or> umac g0 \<noteq> None" and "\<not> (opt_mac g0 \<and> (opt_oui g0 \<or> opt_nic g0 \<or> opt_bid g0))"
    and "\<not> (opt_bid g0 \<and> opt_nic g0)"
    using st(2) by (auto simp: check_opts_def split: if_splits)
  ultimately show ?case
    unfolding eq by blast
qed

text \<open>A board of a manufacturing run, worked out.\<close>

lemma lookup_2501: "mfg_lookup ''pw-mp2:2501'' = Inr (Mfg ! 5, 2501)"
  by (simp add: mfg_lookup_def mfg_parse_def strto_eval Mfg_def mfg_match_def mfg1_def mfg2_def strncmp_eq_def)

definition run_args :: "(char \<times> string) list" where
  "run_args = [(CHR ''u'', ''pw-mp2:2501'')]"

lemma run_setup: "\<exists>g. igb_setup run_args ''edge500'' = Inr g \<and> umac g = Some ''pw-mp2:2501'' \<and> nmacs g = 4
    \<and> gmac g = [0xF0, 0x8E, 0xDB, 0x01, 0x50, 0x04] \<and> tmpl g = Some ''atom-c2000-igb-sgmii.bin''
    \<and> map_fn g = Some Igb_c2000_map \<and> opt_mac g = False \<and> opt_x g = False \<and> opt_dry g = False
    \<and> bid g = ''image'' \<and> ifname g = Some ''eth0'' \<and> pciid g = (0x8086, 0x1f41)"
  by (simp add: run_args_def igb_setup_def do_opt_def init_g_def check_opts_def board_setup_def umac_setup_def
      mfg_init_def lookup_2501 Mfg_def mfg1_def mac_add_def mac_pack_def mac_unpack_def)

lemma igb_one_source_witness:
  "\<exists>g. igb_setup run_args ''edge500'' = Inr g \<and> umac g \<noteq> None \<and> \<not> opt_bid g \<and> \<not> opt_nic g"
  using run_setup igb_one_source [of run_args "''edge500''"] by auto

section \<open>Addresses of manufacturing runs\<close>

text \<open>The addresses of a unit that is set up with \<open>-u\<close>, as places in the table.\<close>

lemma igb_setup_run:
  assumes "igb_setup args brd = Inr g" and "umac g = Some s" and "i < unat (nmacs g)"
  obtains m n where "mfg_lookup s = Inr (m, n)" and "run_valid m (unat n)" and "run_ok m" and "i < blk_count m"
    and "m_bmin m \<le> n" and "n \<le> m_bmax m"
    and "unat (mac_pack (ns_mac (make_macs g ! i))) = board_first m (unat n) + i"
proof -
  obtain g1 g2 where m: "mfg_init s g1 = Inr g2" and eq: "gmac g = gmac g2" "nmacs g = nmacs g2"
    using assms(1,2) by (rule igb_setup_umac)
  obtain m n where l: "mfg_lookup s = Inr (m, n)" and ok: "run_ok m" and mem: "m \<in> set Mfg"
    and n: "m_bmin m \<le> n" "n \<le> m_bmax m" and i: "i < blk_count m"
    and a: "unat (mac_pack (mac_add (gmac g2) (of_nat i))) = board_first m (unat n) + i"
    using mfg_init_mac [OF m] assms(3) eq(2) by metis
  have "i < 6" using ok i by (auto simp: run_ok_def blk_count_def)
  then have "unat (mac_pack (ns_mac (make_macs g ! i))) = board_first m (unat n) + i"
    using a assms(3) by (simp add: make_macs_def Let_def eq)
  then show ?thesis
    using that l ok mem n i by (simp add: run_valid_def word_le_nat_alt)
qed

text \<open>Every address a unit gets from a manufacturing run lies between the first and the last
  address the table reserves for the run.
\<close>

theorem igb_run_in_block:
  assumes "igb_setup args brd = Inr g" and "umac g = Some s" and "i < unat (nmacs g)"
  shows "\<exists>m n. mfg_lookup s = Inr (m, n) \<and> mac_pack (m_mac_min m) \<le> mac_pack (ns_mac (make_macs g ! i))
    \<and> mac_pack (ns_mac (make_macs g ! i)) \<le> mac_pack (m_mac_max m)"
proof -
  obtain m n where l: "mfg_lookup s = Inr (m, n)" and ok: "run_ok m" and i: "i < blk_count m"
    and n: "m_bmin m \<le> n" "n \<le> m_bmax m"
    and a: "unat (mac_pack (ns_mac (make_macs g ! i))) = board_first m (unat n) + i"
    using assms by (rule igb_setup_run)
  have "unat (mac_pack (m_mac_min m)) \<le> board_first m (unat n)"
    by (simp add: board_first_def blk_base_def)
  then show ?thesis
    using l a i board_first_bounds [OF ok n] by (auto simp: word_le_nat_alt)
qed

lemma igb_run_in_block_witness:
  "\<exists>g m n. igb_setup run_args ''edge500'' = Inr g \<and> mfg_lookup ''pw-mp2:2501'' = Inr (m, n)
    \<and> mac_pack (ns_mac (make_macs g ! 3)) \<le> mac_pack (m_mac_max m)"
  using run_setup igb_run_in_block [of run_args "''edge500''" _ "''pw-mp2:2501''" 3] by fastforce

text \<open>(C2)
  Manufacturing runs never give the same address to two units, nor to two ports of one
  unit: when two units set up with \<open>-u\<close> share an address, they name the same board of
  the same run, and it is the address of the same port.
\<close>

theorem igb_run_addresses_unique:
  assumes "igb_setup args brd = Inr g" and "umac g = Some s" and "i < unat (nmacs g)"
    and "igb_setup args' brd' = Inr g'" and "umac g' = Some s'" and "j < unat (nmacs g')"
    and "ns_mac (make_macs g ! i) = ns_mac (make_macs g' ! j)"
  shows "mfg_lookup s = mfg_lookup s' \<and> i = j"
proof -
  obtain m n where 1: "mfg_lookup s = Inr (m, n)" "run_valid m (unat n)" "i < blk_count m"
    "unat (mac_pack (ns_mac (make_macs g ! i))) = board_first m (unat n) + i"
    using assms(1-3) by (rule igb_setup_run)
  obtain m' n' where 2: "mfg_lookup s' = Inr (m', n')" "run_valid m' (unat n')" "j < blk_count m'"
    "unat (mac_pack (ns_mac (make_macs g' ! j))) = board_first m' (unat n') + j"
    using assms(4-6) by (rule igb_setup_run)
  have "m = m' \<and> unat n = unat n' \<and> i = j"
    using mfgs.owner_unique [OF 1(2) 2(2) 1(3) 2(3)] 1(4) 2(4) assms(7) by simp
  then show ?thesis using 1(1) 2(1) by (simp add: word_unat_eq_iff)
qed

lemma igb_run_addresses_unique_witness:
  "\<exists>g. igb_setup run_args ''edge500'' = Inr g \<and> ns_mac (make_macs g ! 1) \<noteq> ns_mac (make_macs g ! 2)"
proof -
  obtain g where "igb_setup run_args ''edge500'' = Inr g" "umac g = Some ''pw-mp2:2501''" "nmacs g = 4"
    using run_setup by blast
  then show ?thesis
    using igb_run_addresses_unique [of run_args "''edge500''" g "''pw-mp2:2501''" 1 run_args "''edge500''" g
        "''pw-mp2:2501''" 2] by auto
qed

section \<open>Addresses of board ids\<close>

lemma igb_setup_bid:
  assumes "igb_setup args brd = Inr g" and "opt_bid g"
  shows "length (gmac g) = 6" and "bid_of (bid g) < 2 ^ 20"
    and "unat (mac_pack (gmac g)) = bid_first (take 3 (gmac g)) (bid_of (bid g))"
    and "nmacs g \<le> 6"
proof -
  obtain g0 pid ovr g1 g2 where o: "do_opts args (init_g\<lparr>board := brd\<rparr>, (0, 0), None) = Inr (g0, pid, ovr)"
    and c: "check_opts g0 = None" and b: "board_setup g0 = Inr g1" and u: "umac_setup g1 = Inr g2"
    and eq: "umac g = umac g2" "opt_bid g = opt_bid g2" "gmac g = gmac g2" "nmacs g = nmacs g2"
    "bid g = bid g2"
    using assms(1) by (auto simp: igb_setup_def Let_def split: sum.splits prod.splits option.splits if_splits)
  have ob: "opt_bid g0" using assms(2) eq(2) umac_setup_frame(7) [OF u] board_setup_frame(8) [OF b] by simp
  then have "umac g1 = None"
    using u board_setup_frame [OF b] by (auto simp: umac_setup_def split: option.splits)
  then have g2: "g2 = g1" using u by (simp add: umac_setup_def)
  have gm: "gmac g = gmac g0" and bd: "bid g = bid g0" and nm: "nmacs g \<le> 6"
    using b by (auto simp: eq g2 board_setup_def split: if_splits)
  show "nmacs g \<le> 6" by (rule nm)
  have "bid_inv (fst (init_g\<lparr>board := brd\<rparr>, (0::u16, 0::u16), None :: string option))" by (simp add: bid_inv_def init_g_def)
  from do_opts_bid_inv [OF o this] have inv: "bid_inv g0" by simp
  then show "length (gmac g) = 6" by (simp add: bid_inv_def gm)
  obtain d where d: "length d = 3" "get_bid (bid g0) d = (True, drop 3 (gmac g0))"
    using inv ob c by (auto simp: bid_inv_def check_opts_def split: if_splits)
  note v = get_bid_value [OF d(2,1)]
  show "bid_of (bid g) < 2 ^ 20" using v(1) by (simp add: bd)
  have "length (gmac g0) = 6" using inv by (simp add: bid_inv_def)
  then show "unat (mac_pack (gmac g)) = bid_first (take 3 (gmac g)) (bid_of (bid g))"
    using v(2) unfolding gm bd unat_mac_pack bid_first_def oui_lo_def by simp
qed

lemma igb_bid_address:
  assumes "igb_setup args brd = Inr g" and "opt_bid g" and "i < unat (nmacs g)"
  shows "bid_valid (take 3 (gmac g)) (bid_of (bid g))" and "i < 16"
    and "unat (mac_pack (ns_mac (make_macs g ! i))) = bid_first (take 3 (gmac g)) (bid_of (bid g)) + i"
proof -
  note b = igb_setup_bid [OF assms(1,2)]
  show v: "bid_valid (take 3 (gmac g)) (bid_of (bid g))"
    using b(1,2) by (simp add: bid_valid_def)
  have i: "i < 6" using assms(3) b(4) by (simp add: word_le_nat_alt)
  then show "i < 16" by simp
  then have "bid_first (take 3 (gmac g)) (bid_of (bid g)) + i < oui_lo (take 3 (gmac g)) + 2 ^ 24"
    using bids.in_stretch [OF v] by simp
  moreover have "oui_lo (take 3 (gmac g)) + 2 ^ 24 \<le> 2 ^ 48"
    using u8_less [of "gmac g ! 0"] u8_less [of "gmac g ! 1"] u8_less [of "gmac g ! 2"]
    by (simp add: oui_lo_def)
  moreover have "unat (of_nat i :: u32) = i" using i by (simp add: unat_of_nat)
  ultimately show "unat (mac_pack (ns_mac (make_macs g ! i))) = bid_first (take 3 (gmac g)) (bid_of (bid g)) + i"
    using i assms(3) b(3) by (simp add: make_macs_def Let_def unat_mac_pack_add_le)
qed

text \<open>Board ids: two units that are set up with \<open>-b\<close> and share an address have the same OUI
  and the same board id, and it is the address of the same port. A board id owns 16
  consecutive addresses under its OUI.
\<close>

theorem igb_bid_addresses_unique:
  assumes "igb_setup args brd = Inr g" and "opt_bid g" and "i < unat (nmacs g)"
    and "igb_setup args' brd' = Inr g'" and "opt_bid g'" and "j < unat (nmacs g')"
    and "ns_mac (make_macs g ! i) = ns_mac (make_macs g' ! j)"
  shows "take 3 (gmac g) = take 3 (gmac g') \<and> bid_of (bid g) = bid_of (bid g') \<and> i = j"
  using bids.owner_unique [OF igb_bid_address(1) [OF assms(1-3)] igb_bid_address(1) [OF assms(4-6)]
      igb_bid_address(2) [OF assms(1-3)] igb_bid_address(2) [OF assms(4-6)]]
    igb_bid_address(3) [OF assms(1-3)] igb_bid_address(3) [OF assms(4-6)] assms(7)
  by simp

definition bid_args :: "(char \<times> string) list" where
  "bid_args = [(CHR ''b'', ''17'')]"

lemma bid_setup: "\<exists>g. igb_setup bid_args ''edge500'' = Inr g \<and> opt_bid g \<and> nmacs g = 4"
  by (simp add: bid_args_def igb_setup_def do_opt_def init_g_def check_opts_def board_setup_def umac_setup_def
      get_bid_def strto_eval)

lemma igb_bid_addresses_unique_witness:
  "\<exists>g. igb_setup bid_args ''edge500'' = Inr g \<and> ns_mac (make_macs g ! 1) \<noteq> ns_mac (make_macs g ! 2)"
proof -
  obtain g where "igb_setup bid_args ''edge500'' = Inr g" "opt_bid g" "nmacs g = 4"
    using bid_setup by blast
  then show ?thesis
    using igb_bid_addresses_unique [of bid_args "''edge500''" g 1 bid_args "''edge500''" g 2] by auto
qed

section \<open>The image\<close>

text \<open>\<open>read\<close> returns the number of bytes it stored, which the size of the buffer bounds.\<close>

definition read_ok :: "world \<Rightarrow> bool" where
  "read_ok w \<longleftrightarrow> (\<forall>t n d. w_template w t = Some (n, d) \<and> 0 \<le> n \<longrightarrow>
     n = int (length d) \<and> length d \<le> eeprom_size)"

text \<open>(C1)
  The image the tool writes has the size of the template, holds the computed address in
  each LAN section, and differs from the template only in the address bytes and in the
  words the board specific changes set.
\<close>

theorem igb_image_correct:
  assumes main: "igb_main w args = Inr out"
    and rd: "read_ok w"
  shows "\<exists>brd g t d. get_board w = Some brd \<and> igb_setup args brd = Inr g \<and> tmpl g = Some t
    \<and> w_template w t = Some (int (length d), d) \<and> length (o_image out) = length d
    \<and> (\<forall>k < 4. slice (lan_off ! k) 6 (o_image out) = lan_mac (g\<lparr>macs := make_macs g\<rparr>) k)
    \<and> (\<forall>i < length d. i \<notin> mac_offs \<union> extra_offs \<longrightarrow> o_image out ! i = d ! i)"
proof -
  obtain brd g where brd: "get_board w = Some brd" and g: "igb_setup args brd = Inr g"
    and p: "program w g = Inr out"
    using main by (auto simp: igb_main_def split: option.splits sum.splits)
  from p obtain t n d where t: "tmpl g = Some t" and d: "w_template w t = Some (n, d)"
    and n: "0x280 \<le> n"
    and img: "o_image out = take (nat n) (call_extra (g\<lparr>macs := make_macs g\<rparr>)
      (call_map (g\<lparr>macs := make_macs g\<rparr>) (load_template d)))"
    by (rule program_stages)
  let ?g = "g\<lparr>macs := make_macs g\<rparr>" and ?e = "load_template d"
  have len: "n = int (length d)" "length d \<le> eeprom_size" "0x280 \<le> length d"
    using rd [unfolded read_ok_def, rule_format, of t n d] d n by auto
  have ok: "macs_ok ?g" and map: "map_fn ?g \<noteq> None"
    using igb_setup_macs [OF g] igb_setup_map [OF g] macs_ok_make by simp_all
  have e: "0x280 \<le> length ?e" using eeprom_size_ge by simp
  have m: "length (call_map ?g ?e) = eeprom_size"
    using length_call_map [OF ok e] by simp
  have "slice (lan_off ! k) 6 (o_image out) = lan_mac ?g k" if k: "k < 4" for k
  proof -
    have off: "lan_off ! k \<in> set lan_off" using k by (intro nth_mem) (simp add: lan_off_def)
    then have "lan_off ! k + 6 \<le> length d" using len(3) by (auto simp: lan_off_def)
    then have "slice (lan_off ! k) 6 (o_image out) = slice (lan_off ! k) 6 (call_extra ?g (call_map ?g ?e))"
      unfolding img len(1) by (simp add: slice_take)
    also have "\<dots> = slice (lan_off ! k) 6 (call_map ?g ?e)"
      using m eeprom_size_ge off by (intro call_extra_slice) simp_all
    finally show ?thesis
      using call_map_slice [OF ok e _ k] map by auto
  qed
  moreover have "o_image out ! i = d ! i" if "i < length d" and "i \<notin> mac_offs \<union> extra_offs" for i
    using that len m eeprom_size_ge call_map_frame [OF ok e, of i]
    by (simp add: img call_extra_frame nth_load_template)
  moreover have "length (o_image out) = length d"
    using len m by (simp add: img)
  ultimately show ?thesis
    using brd g t d len(1) by blast
qed

text \<open>A world with a template of 640 zero bytes.\<close>

definition run_world :: "int \<Rightarrow> world" where
  "run_world r = \<lparr> w_board = Some (8, ''edge500'' @ [CHR 0x0A] @ replicate 42 CHR 0x00),
     w_template = (\<lambda>_. Some (640, replicate 640 0)), w_write = (\<lambda>_ d. Some 640), w_system = (\<lambda>_. r) \<rparr>"

lemma run_board: "get_board (run_world r) = Some ''edge500''"
  by (simp add: get_board_def run_world_def numeral_eq_Suc)

lemma run_main: "\<exists>out. igb_main (run_world r) run_args = Inr out \<and> o_ran out \<and> o_ret out = r"
proof -
  obtain g where g: "igb_setup run_args ''edge500'' = Inr g" "tmpl g = Some ''atom-c2000-igb-sgmii.bin''"
    "opt_mac g = False" "opt_dry g = False" "opt_x g = False" "bid g = ''image''" "ifname g = Some ''eth0''"
    using run_setup by blast
  show ?thesis
    unfolding igb_main_def run_board option.case g(1) sum.case program_def g(2)
    by (simp add: run_world_def flash_def Let_def bitmap_path_def flash_cmd_def str_arg_def magic_def hex4_def g)
qed

lemma igb_image_correct_witness:
  "\<exists>out. igb_main (run_world 0) run_args = Inr out \<and> length (o_image out) = 640
     \<and> o_image out ! 0x90 = 0 \<and> slice 0x100 6 (o_image out) = [0xF0, 0x8E, 0xDB, 0x01, 0x50, 0x05]"
proof -
  obtain out where out: "igb_main (run_world 0) run_args = Inr out"
    using run_main by blast
  have rd: "read_ok (run_world 0)"
    by (simp add: read_ok_def run_world_def eeprom_size_def)
  obtain brd g f d where 1: "get_board (run_world 0) = Some brd" "igb_setup run_args brd = Inr g"
    "w_template (run_world 0) f = Some (int (length d), d)" "length (o_image out) = length d"
    and s: "\<forall>k < 4. slice (lan_off ! k) 6 (o_image out) = lan_mac (g\<lparr>macs := make_macs g\<rparr>) k"
    and r: "\<forall>i < length d. i \<notin> mac_offs \<union> extra_offs \<longrightarrow> o_image out ! i = d ! i"
    using igb_image_correct [OF out rd] by blast
  have d: "d = replicate 640 0" using 1(3) by (simp add: run_world_def)
  have g: "igb_setup run_args ''edge500'' = Inr g" using 1(1,2) by (simp add: run_board)
  then have f: "gmac g = [0xF0, 0x8E, 0xDB, 0x01, 0x50, 0x04]" "nmacs g = 4" "map_fn g = Some Igb_c2000_map"
    using run_setup by auto
  have "slice 0x100 6 (o_image out) = lan_mac (g\<lparr>macs := make_macs g\<rparr>) 1"
    using s [rule_format, of 1] by (simp add: lan_off_def)
  also have "\<dots> = mac_add (gmac g) (of_nat 1)"
    using mac_of_make [of 1 g] by (simp add: lan_mac_def f)
  also have "\<dots> = [0xF0, 0x8E, 0xDB, 0x01, 0x50, 0x05]"
    by (simp add: f mac_add_def mac_pack_def mac_unpack_def)
  moreover have "o_image out ! 0x90 = 0"
    using r by (simp add: d mac_offs_iff extra_offs_iff)
  ultimately show ?thesis using out 1(4) by (simp add: d)
qed

section \<open>Flashing\<close>

text \<open>The exit status does not tell a failed flash from a good one: \<open>system\<close> returns a wait
  status, the exit code of \<open>ethtool\<close> times 256, and \<open>main\<close> returns that number, of which
  the caller sees the low byte. The bitmap file, however, is only removed on success.
\<close>

theorem igb_flash_status:
  assumes "igb_main w args = Inr out" and "o_ran out" and "w_system w (o_cmd out) = 256 * c"
  shows "exit_status out = 0 \<and> o_ret out = 256 * c \<and> (o_unlinked out \<longleftrightarrow> c = 0)"
  using assms
  by (auto simp: igb_main_def program_def flash_def exit_status_def Let_def split: option.splits sum.splits if_splits)

lemma igb_flash_status_witness:
  "\<exists>out. igb_main (run_world 256) run_args = Inr out \<and> \<not> o_unlinked out \<and> exit_status out = 0"
proof -
  obtain out where "igb_main (run_world 256) run_args = Inr out" "o_ran out"
    using run_main by blast
  then show ?thesis
    using igb_flash_status [of "run_world 256" run_args out 1] by (auto simp: run_world_def)
qed

section \<open>Text and words\<close>

text \<open>What \<open>mac_str\<close> prints is read back by \<open>get_num\<close> as the same address.
\<close>

theorem igb_mac_roundtrip:
  assumes "length m = 6" and "length dst = 6"
  shows "get_num (mac_str m) dst 6 = (True, m)"
  using assms by (rule get_num_mac_str)

lemma igb_mac_roundtrip_witness:
  "get_num (mac_str [0xF0, 0x8E, 0xDB, 0, 1, 0xFF]) [0, 0, 0, 0, 0, 0] 6 = (True, [0xF0, 0x8E, 0xDB, 0, 1, 0xFF])"
  by (rule igb_mac_roundtrip) simp_all

text \<open>The five bits of the PHY address in initialization control 4.\<close>

definition phy_field :: "u16 \<Rightarrow> u16" where
  "phy_field w = drop_bit 1 w AND 0x1f"

text \<open>\<open>igb_ic4\<close> stores the PHY address in bits 1 to 5 and keeps every other bit of the
  word, except that its mask \<open>0x2e\<close> leaves bit 4: the address that ends up in the
  word also has bit 3 of the address that was there.
\<close>

theorem igb_ic4_phy:
  assumes "p + 0x27 < length e" and "addr < 32"
  shows "phy_field (get16 (p + 0x26) (igb_ic4 p addr e)) = addr OR (phy_field (get16 (p + 0x26) e) AND 8)
    \<and> get16 (p + 0x26) (igb_ic4 p addr e) AND NOT 0x3e = get16 (p + 0x26) e AND NOT 0x3e"
proof -
  have "unat addr < 2 ^ 5" using assms(2) by (simp add: word_less_nat_alt)
  then have "unat (take_bit 5 addr) = unat addr"
    unfolding unsigned_take_bit_eq by (rule take_bit_nat_eq_self)
  then have a: "\<not> bit addr n" if "5 \<le> n" for n
    using that by (metis bit_take_bit_iff linorder_not_le word_unat_eq_iff)
  define x where "x = push_bit 1 addr"
  have x: "bit x n \<longleftrightarrow> 1 \<le> n \<and> n < 16 \<and> bit addr (n - 1)" for n
    unfolding x_def by (auto simp only: bit_push_bit_iff possible_bit_word) simp_all
  show ?thesis
    unfolding get16_igb_ic4 [OF assms(1)] phy_field_def x_def [symmetric]
    by (intro conjI u16_eqI) (simp_all add: upt_rec bit_simps x a numeral_2_eq_2 disj_commute)
qed

lemma igb_ic4_phy_witness:
  "phy_field (get16 0x26 (igb_ic4 0 7 (replicate 40 0))) = 7"
  using igb_ic4_phy [of 0 "replicate 40 0" 7] by (simp add: get16_def phy_field_def)

end
