(* ===== verification/Abr_Switch.thy ===== *)
theory Abr_Switch
  imports C_Strings
begin

text \<open>
  abrloop.c, the switches: the data of \<open>dsa_mv_ioctl.h\<close>, the ports and switches, and the
  operations that talk to the kernel about them (\<open>sw_init\<close>, \<open>sw_fid_check\<close>,
  \<open>sw_fid_update\<close>, \<open>sw_get_atu\<close>). The kernel is a parameter, a record of the ioctl
  requests over a state of its own. The switches are a list of records, and \<open>portq\<close>,
  the list that runs through the ports of all of them, is a list of references
  (switch, port), so that a change through \<open>sw->ports\<close> is seen through \<open>portq\<close>.
\<close>

section \<open>The kernel interface\<close>

record atuinfo =
  i_nmacs :: u16
  i_fid :: u16
  i_ports :: u16
  i_cpu :: u16
  i_cross :: u16
  i_lan :: u16
  i_age :: u16

record atuent =
  e_mac :: mac
  e_portvec :: u8
  e_state :: u8

text \<open>
  The requests: \<open>SIOCATUINFO\<close>, \<open>SIOCGMVREG\<close> and \<open>SIOCSMVREG\<close> (register type, port and
  number, value), \<open>SIOCGETATU\<close> (number of allocated entries, FID) and \<open>SIOCSETATU\<close>
  (entry, FID), each for an interface name. The integer is the result of \<open>ioctl\<close>. The
  allocator answers whether \<open>malloc\<close> succeeds.
\<close>

record 's drv =
  d_info :: "string \<Rightarrow> 's \<Rightarrow> int \<times> atuinfo \<times> 's"
  d_getreg :: "string \<Rightarrow> u16 \<Rightarrow> u16 \<Rightarrow> u16 \<Rightarrow> 's \<Rightarrow> int \<times> u16 \<times> 's"
  d_setreg :: "string \<Rightarrow> u16 \<Rightarrow> u16 \<Rightarrow> u16 \<Rightarrow> u16 \<Rightarrow> 's \<Rightarrow> int \<times> 's"
  d_getatu :: "string \<Rightarrow> u16 \<Rightarrow> u16 \<Rightarrow> 's \<Rightarrow> int \<times> atuent list \<times> 's"
  d_setatu :: "string \<Rightarrow> u16 \<Rightarrow> atuent \<Rightarrow> 's \<Rightarrow> int \<times> 's"
  d_malloc :: "'s \<Rightarrow> bool \<times> 's"

definition MV_REG_XPORT :: u16 where "MV_REG_XPORT = 3"

section \<open>Ports and switches\<close>

record sw_port =
  p_num :: u8
  p_base :: u8
  p_mask :: u16
  p_fid :: u16
  p_nbuf :: u16
  p_nent :: u16
  p_ent :: "atuent list"
  p_name :: string

record sw_info =
  s_name :: string
  s_flags :: u8
  s_nports :: u8
  s_maxport :: u8
  s_base :: u8
  s_info :: atuinfo
  s_ports :: "sw_port list"

type_synonym port_ref = "nat \<times> nat"

definition zero_info :: atuinfo where
  "zero_info = \<lparr> i_nmacs = 0, i_fid = 0, i_ports = 0, i_cpu = 0, i_cross = 0, i_lan = 0, i_age = 0 \<rparr>"

definition zero_port :: sw_port where
  "zero_port = \<lparr> p_num = 0, p_base = 0, p_mask = 0, p_fid = 0, p_nbuf = 0, p_nent = 0, p_ent = [], p_name = [] \<rparr>"

definition zero_switch :: sw_info where
  "zero_switch = \<lparr> s_name = [], s_flags = 0, s_nports = 0, s_maxport = 0, s_base = 0, s_info = zero_info,
     s_ports = replicate 16 zero_port \<rparr>"

text \<open>\<open>snprintf(buf, IFNAMSIZ-1, ...)\<close> keeps 14 characters.\<close>

definition ifname_of :: "string \<Rightarrow> nat \<Rightarrow> string" where
  "ifname_of name n = take 14 (name @ show_nat n)"

definition upd_port :: "nat \<Rightarrow> (sw_port \<Rightarrow> sw_port) \<Rightarrow> sw_info \<Rightarrow> sw_info" where
  "upd_port n f sw = sw\<lparr>s_ports := (s_ports sw)[n := f (s_ports sw ! n)]\<rparr>"

section \<open>Initialisation\<close>

text \<open>The filtering id, from registers 5 and 6 of the port, and the SA filtering mode.\<close>

definition init_port_regs :: "'s drv \<Rightarrow> string \<Rightarrow> nat \<Rightarrow> sw_info \<Rightarrow> 's \<Rightarrow> int \<times> sw_info \<times> 's" where
  "init_port_regs d ifr port sw s =
     (let (rv, v5, s) = d_getreg d ifr MV_REG_XPORT (of_nat port) 5 s in
      if rv < 0 then (-5, sw, s)
      else (let f = push_bit 4 (v5 AND 0xff); (rv, v6, s) = d_getreg d ifr MV_REG_XPORT (of_nat port) 6 s in
      if rv < 0 then (-5, sw, s)
      else (let f = f OR (drop_bit 12 v6 AND 0xf); sw = upd_port port (\<lambda>p. p\<lparr>p_fid := f\<rparr>) sw;
                (rv, v4, s) = d_getreg d ifr MV_REG_XPORT (of_nat port) 4 s in
      if rv < 0 then (-5, sw, s)
      else if v4 AND 0xc000 = 0xc000 then (0, sw, s)
      else (let (rv, s) = d_setreg d ifr MV_REG_XPORT (of_nat port) 4 ((v4 AND NOT 0xc000) OR 0x8000) s in
      if rv < 0 then (-5, sw, s) else (0, sw, s)))))"

text \<open>
  One round of the loop over the 16 port numbers. The base of the port is computed from
  the base of the switch as it is at that moment.
\<close>

definition init_port ::
  "'s drv \<Rightarrow> nat \<Rightarrow> int \<Rightarrow> nat \<Rightarrow> sw_info \<Rightarrow> port_ref list \<Rightarrow> 's \<Rightarrow> int \<times> sw_info \<times> port_ref list \<times> 's" where
  "init_port d k nmacspp port sw q s =
     (if \<not> bit (i_ports (s_info sw)) port then (0, sw, q, s)
      else (let sw = sw\<lparr>s_nports := s_nports sw + 1, s_maxport := of_nat port\<rparr>;
                sw = upd_port port (\<lambda>p. p\<lparr>p_num := of_nat port, p_base := s_base sw + of_nat port,
                       p_mask := push_bit port 1, p_fid := 0, p_nbuf := of_int nmacspp,
                       p_name := ifname_of (s_name sw) port\<rparr>) sw;
                q = (k, port) # q;
                (ok, s) = d_malloc d s
            in if \<not> ok then (-4, sw, q, s)
               else (let (rv, sw, s) = init_port_regs d (ifname_of (s_name sw) 0) port sw s
                     in (rv, sw, q, s))))"

fun init_ports ::
  "'s drv \<Rightarrow> nat \<Rightarrow> int \<Rightarrow> nat list \<Rightarrow> sw_info \<Rightarrow> port_ref list \<Rightarrow> 's \<Rightarrow> int \<times> sw_info \<times> port_ref list \<times> 's" where
  "init_ports d k nmacspp [] sw q s = (0, sw, q, s)"
| "init_ports d k nmacspp (port # ps) sw q s =
     (let (rv, sw, q, s) = init_port d k nmacspp port sw q s in
      if rv \<noteq> 0 then (rv, sw, q, s) else init_ports d k nmacspp ps sw q s)"

text \<open>\<open>sw_init\<close> for the switch that becomes number \<open>k\<close> of the list.\<close>

definition sw_init ::
  "'s drv \<Rightarrow> nat \<Rightarrow> string \<Rightarrow> int \<Rightarrow> port_ref list \<Rightarrow> 's \<Rightarrow> int \<times> sw_info \<times> port_ref list \<times> 's" where
  "sw_init d k name nmacspp q s =
     (let (ok, s) = d_malloc d s in
      if \<not> ok then (-1, zero_switch, q, s)
      else (let sw = zero_switch\<lparr>s_name := name\<rparr>; (rv, i, s) = d_info d (ifname_of name 0) s in
        if rv < 0 then (-2, sw, q, s)
        else (let sw = sw\<lparr>s_info := i\<rparr>;
                  nmacspp = (if nmacspp = 0 then uint (i_nmacs i) else nmacspp)
              in init_ports d k nmacspp [0..<16] sw q s)))"

section \<open>Filtering ids\<close>

definition want_fid :: "sw_info \<Rightarrow> nat \<Rightarrow> u16" where
  "want_fid sw port = (if p_mask (s_ports sw ! port) AND i_cpu (s_info sw) \<noteq> 0 then 0 else of_nat port + 1)"

fun fid_check_ports :: "nat list \<Rightarrow> sw_info \<Rightarrow> nat \<Rightarrow> nat \<times> sw_info" where
  "fid_check_ports [] sw update = (update, sw)"
| "fid_check_ports (port # ps) sw update =
     (if p_mask (s_ports sw ! port) AND i_ports (s_info sw) = 0 then fid_check_ports ps sw update
      else if p_fid (s_ports sw ! port) \<noteq> want_fid sw port
           then fid_check_ports ps (upd_port port (\<lambda>p. p\<lparr>p_fid := want_fid sw port\<rparr>) sw) (Suc update)
           else fid_check_ports ps sw update)"

definition sw_fid_check :: "sw_info \<Rightarrow> nat \<times> sw_info" where
  "sw_fid_check sw = fid_check_ports [0..<Suc (unat (s_maxport sw))] sw 0"

text \<open>The value written to register 6 of a port whose FID bits differ.\<close>

definition fid_reg :: "u16 \<Rightarrow> u16 \<Rightarrow> u16" where
  "fid_reg f v = push_bit 12 (f AND 0xf) OR (v AND 0xff)"

fun fid_update_ports :: "'s drv \<Rightarrow> sw_info \<Rightarrow> nat list \<Rightarrow> 's \<Rightarrow> int \<times> 's" where
  "fid_update_ports d sw [] s = (0, s)"
| "fid_update_ports d sw (port # ps) s =
     (let ifr = ifname_of (s_name sw) 0; f = p_fid (s_ports sw ! port);
          (rv, v, s) = d_getreg d ifr MV_REG_XPORT (of_nat port) 6 s in
      if rv < 0 then (rv, s)
      else if drop_bit 12 v AND 0xf = f AND 0xf then fid_update_ports d sw ps s
      else (let (rv, s) = d_setreg d ifr MV_REG_XPORT (of_nat port) 6 (fid_reg f v) s in
        if rv < 0 then (rv, s) else fid_update_ports d sw ps s))"

definition sw_fid_update :: "'s drv \<Rightarrow> sw_info \<Rightarrow> 's \<Rightarrow> int \<times> 's" where
  "sw_fid_update d sw s = fid_update_ports d sw [0..<Suc (unat (s_maxport sw))] s"

section \<open>Reading the address tables\<close>

text \<open>
  The driver stores its entries at the start of the buffer of the port. The loop stops at
  the first error and returns the mask of the ports that were read.
\<close>

fun get_atu_ports :: "'s drv \<Rightarrow> nat list \<Rightarrow> sw_info \<Rightarrow> u32 \<Rightarrow> 's \<Rightarrow> u32 \<times> sw_info \<times> 's" where
  "get_atu_ports d [] sw got s = (got, sw, s)"
| "get_atu_ports d (port # ps) sw got s =
     (let sw = upd_port port (\<lambda>p. p\<lparr>p_nent := 0\<rparr>) sw; p = s_ports sw ! port in
      if p_mask p = 0 then get_atu_ports d ps sw got s
      else (let (rv, es, s) = d_getatu d (ifname_of (s_name sw) 0) (p_nbuf p) (p_fid p) s;
                sw = upd_port port (\<lambda>p. p\<lparr>p_ent := es @ drop (length es) (p_ent p)\<rparr>) sw in
        if rv < 0 then (got, sw, s)
        else get_atu_ports d ps (upd_port port (\<lambda>p. p\<lparr>p_nent := of_int rv\<rparr>) sw) (got OR ucast (p_mask p)) s))"

definition sw_get_atu :: "'s drv \<Rightarrow> sw_info \<Rightarrow> 's \<Rightarrow> u32 \<times> sw_info \<times> 's" where
  "sw_get_atu d sw s = get_atu_ports d [0..<unat (s_nports sw)] sw 0 s"

text \<open>The entries a port has in its buffer.\<close>

definition port_ents :: "sw_port \<Rightarrow> atuent list" where
  "port_ents p = take (unat (p_nent p)) (p_ent p)"

end
