(* ===== verification/Abr_Merge.thy ===== *)
theory Abr_Merge
  imports Abr_Switch "HOL-Library.Sublist"
begin

text \<open>
  abrloop.c, the N-way merge: \<open>sw_merge\<close> combines the address tables of all ports into one
  list with a port vector per address. The specification is the exact merge: one entry per
  address, in ascending order, with the union of the port vectors of all entries for it.
  The lemmas show how far the loop agrees with it.
\<close>

section \<open>The loop\<close>

record sw_mac =
  mac_addr :: mac
  mac_state :: u16
  mac_vec :: u32

text \<open>
  What can go wrong: the assertion \<open>mac >= mmac\<close> fails; \<open>m\<close> is used while it still points
  before the buffer; an entry is written behind the buffer.
\<close>

datatype merge_err = Assert_failed | Underrun | Overrun

definition ALL_ONES :: u64 where "ALL_ONES = 0xffffffffffff"

definition ent_key :: "atuent \<Rightarrow> u64" where
  "ent_key e = mac_pack (e_mac e)"

definition blocked_bit :: "atuent \<Rightarrow> u16" where
  "blocked_bit e = (if e_portvec e = 0 then 1 else 0)"

text \<open>\<open>m->vec |= ...; m->state |= ...\<close> for the entry \<open>m\<close> points at, the last one.\<close>

definition absorb :: "atuent \<Rightarrow> sw_mac list \<Rightarrow> sw_mac list" where
  "absorb e ms = (let m = last ms in butlast ms @
     [m\<lparr>mac_vec := mac_vec m OR ucast (e_portvec e), mac_state := mac_state m OR blocked_bit e\<rparr>])"

text \<open>
  One pass over the ports. A port is the list of its entries from \<open>cur\<close> on, \<open>i\<close> its place
  in the list; \<open>nmac\<close> and \<open>pmin\<close> are the minimum so far and the port that has it.
\<close>

fun merge_scan :: "u64 \<Rightarrow> nat \<Rightarrow> atuent list list \<Rightarrow> u64 \<Rightarrow> nat option \<Rightarrow> sw_mac list
    \<Rightarrow> merge_err + u64 \<times> nat option \<times> sw_mac list \<times> atuent list list" where
  "merge_scan mmac i [] nmac pmin ms = Inr (nmac, pmin, ms, [])"
| "merge_scan mmac i ([] # cs) nmac pmin ms =
     map_sum id (\<lambda>(n, p, ms, cs). (n, p, ms, [] # cs)) (merge_scan mmac (Suc i) cs nmac pmin ms)"
| "merge_scan mmac i ((e # es) # cs) nmac pmin ms =
     (let mac = ent_key e in
      if mac < mmac then Inl Assert_failed
      else if mac = mmac then
        (if ms = [] then Inl Underrun
         else map_sum id (\<lambda>(n, p, ms, cs). (n, p, ms, es # cs))
                (merge_scan mmac (Suc i) cs nmac None (absorb e ms)))
      else map_sum id (\<lambda>(n, p, ms, cs). (n, p, ms, (e # es) # cs))
             (if mac < nmac then merge_scan mmac (Suc i) cs mac (Some i) ms
              else merge_scan mmac (Suc i) cs nmac pmin ms))"

definition new_mac :: "atuent \<Rightarrow> u64 \<Rightarrow> sw_mac" where
  "new_mac e k = \<lparr> mac_addr = mac_unpack k, mac_state = blocked_bit e, mac_vec = ucast (e_portvec e) \<rparr>"

text \<open>
  The loop. Every round that goes on has consumed an entry; \<open>fuel\<close> bounds the rounds and
  is the number of entries plus one when \<open>sw_merge\<close> starts it.
\<close>

fun merge_loop :: "nat \<Rightarrow> nat \<Rightarrow> u64 \<Rightarrow> atuent list list \<Rightarrow> sw_mac list \<Rightarrow> (merge_err + sw_mac list) option" where
  "merge_loop 0 nbuf mmac cs ms = None"
| "merge_loop (Suc fuel) nbuf mmac cs ms =
     (case merge_scan mmac 0 cs ALL_ONES None ms of
        Inl err \<Rightarrow> Some (Inl err)
      | Inr (nmac, pmin, ms, cs) \<Rightarrow>
          if nmac = ALL_ONES then Some (Inr ms)
          else (case pmin of
              None \<Rightarrow> if length ms < nbuf then merge_loop fuel nbuf mmac cs ms else Some (Inr ms)
            | Some j \<Rightarrow>
                if nbuf \<le> length ms then Some (Inl Overrun)
                else (let e = hd (cs ! j); ms = ms @ [new_mac e nmac]; cs = cs[j := tl (cs ! j)] in
                  if length ms < nbuf then merge_loop fuel nbuf nmac cs ms else Some (Inr ms))))"

definition sw_merge :: "nat \<Rightarrow> atuent list list \<Rightarrow> (merge_err + sw_mac list) option" where
  "sw_merge nbuf cs = merge_loop (Suc (length (concat cs))) nbuf 0 cs []"

section \<open>One pass\<close>

text \<open>The port after a pass: it loses its head when that is the current address.\<close>

definition advance :: "u64 \<Rightarrow> atuent list \<Rightarrow> atuent list" where
  "advance k c = (case c of [] \<Rightarrow> [] | e # es \<Rightarrow> if ent_key e = k then es else c)"

definition taken :: "u64 \<Rightarrow> atuent list \<Rightarrow> atuent list" where
  "taken k c = (case c of [] \<Rightarrow> [] | e # es \<Rightarrow> if ent_key e = k then [e] else [])"

lemma advance_simps [simp]:
  "advance k [] = []" "advance k (e # es) = (if ent_key e = k then es else e # es)"
  "taken k [] = []" "taken k (e # es) = (if ent_key e = k then [e] else [])"
  by (simp_all add: advance_def taken_def)

text \<open>The heads that are candidates for the next address.\<close>

definition heads :: "u64 \<Rightarrow> atuent list list \<Rightarrow> u64 list" where
  "heads k cs = map (ent_key \<circ> hd) (filter (\<lambda>c. c \<noteq> [] \<and> ent_key (hd c) \<noteq> k) cs)"

lemma heads_simps [simp]:
  "heads k [] = []" "heads k ([] # cs) = heads k cs"
  "heads k ((e # es) # cs) = (if ent_key e = k then heads k cs else ent_key e # heads k cs)"
  by (simp_all add: heads_def)

lemma map_sum_InrD: "map_sum id f x = Inr y \<Longrightarrow> \<exists>z. x = Inr z \<and> f z = y"
  by (cases x) auto

text \<open>The three ways an entry at the head of a port is handled, for a pass that succeeds.\<close>

lemma merge_scan_cons:
  assumes "merge_scan mmac i ((e # es) # cs) nmac pmin ms = Inr (n, p, ms', cs')"
  obtains
    (same) cs1 where "ent_key e = mmac" "ms \<noteq> []" "cs' = es # cs1"
      "merge_scan mmac (Suc i) cs nmac None (absorb e ms) = Inr (n, p, ms', cs1)"
  | (less) cs1 where "mmac < ent_key e" "ent_key e < nmac" "cs' = (e # es) # cs1"
      "merge_scan mmac (Suc i) cs (ent_key e) (Some i) ms = Inr (n, p, ms', cs1)"
  | (ge) cs1 where "mmac < ent_key e" "nmac \<le> ent_key e" "cs' = (e # es) # cs1"
      "merge_scan mmac (Suc i) cs nmac pmin ms = Inr (n, p, ms', cs1)"
proof (cases "ent_key e" mmac rule: linorder_cases)
  case less then show ?thesis using assms by simp
next
  case equal
  then show ?thesis
    using assms same by (auto split: if_splits dest!: map_sum_InrD)
next
  case greater
  then have ne: "\<not> ent_key e < mmac" "ent_key e \<noteq> mmac" by auto
  show ?thesis
  proof (cases "ent_key e < nmac")
    case True
    then show ?thesis using assms greater ne less by (auto dest!: map_sum_InrD)
  next
    case False
    then show ?thesis using assms greater ne ge by (auto dest!: map_sum_InrD)
  qed
qed

lemma merge_scan_result:
  assumes "merge_scan mmac i cs nmac pmin ms = Inr (n, p, ms', cs')"
  shows "cs' = map (advance mmac) cs
    \<and> ms' = fold absorb (concat (map (taken mmac) cs)) ms
    \<and> (\<forall>k \<in> set (heads mmac cs). mmac < k \<and> n \<le> k)
    \<and> n \<le> nmac \<and> (n = nmac \<or> n \<in> set (heads mmac cs))"
  using assms
proof (induction cs arbitrary: i nmac pmin ms n p ms' cs')
  case (Cons c cs)
  show ?case
  proof (cases c)
    case Nil
    with Cons.prems obtain cs1 where "cs' = [] # cs1" "merge_scan mmac (Suc i) cs nmac pmin ms = Inr (n, p, ms', cs1)"
      by (auto dest!: map_sum_InrD)
    with Cons.IH [OF this(2)] show ?thesis by (simp add: Nil)
  next
    case (Cons e es)
    with Cons.prems have "merge_scan mmac i ((e # es) # cs) nmac pmin ms = Inr (n, p, ms', cs')" by simp
    then show ?thesis
    proof (cases rule: merge_scan_cons)
      case same
      then show ?thesis using Cons.IH [OF same(4)] by (simp add: Cons)
    next
      case less
      then have "ent_key e \<noteq> mmac" by auto
      then show ?thesis using Cons.IH [OF less(4)] less(1-3) by (auto simp: Cons)
    next
      case ge
      then have "ent_key e \<noteq> mmac" by auto
      then show ?thesis using Cons.IH [OF ge(4)] ge(1-3) by (auto simp: Cons)
    qed
  qed
qed simp

text \<open>A port that is chosen holds the minimum; nothing chosen means something was absorbed.\<close>

definition chosen :: "u64 \<Rightarrow> nat \<Rightarrow> atuent list list \<Rightarrow> u64 \<Rightarrow> nat \<Rightarrow> bool" where
  "chosen mmac i cs n j \<longleftrightarrow> i \<le> j \<and> j - i < length cs \<and> cs ! (j - i) \<noteq> []
     \<and> ent_key (hd (cs ! (j - i))) = n \<and> mmac < n"

lemma chosen_Cons:
  assumes "chosen mmac (Suc i) cs n j"
  shows "chosen mmac i (c # cs) n j"
proof -
  have "j - i = Suc (j - Suc i)" using assms by (simp add: chosen_def Suc_diff_Suc)
  then show ?thesis using assms by (simp add: chosen_def)
qed

lemma merge_scan_pmin:
  assumes "merge_scan mmac i cs nmac pmin ms = Inr (n, p, ms', cs')"
  shows "(p = None \<longrightarrow> pmin = None \<and> n = nmac \<or> concat (map (taken mmac) cs) \<noteq> [])
    \<and> (\<forall>j. p = Some j \<longrightarrow> pmin = Some j \<and> n = nmac \<or> chosen mmac i cs n j)"
  using assms
proof (induction cs arbitrary: i nmac pmin ms n p ms' cs')
  case (Cons c cs)
  show ?case
  proof (cases c)
    case Nil
    with Cons.prems obtain cs1 where "merge_scan mmac (Suc i) cs nmac pmin ms = Inr (n, p, ms', cs1)"
      by (auto dest!: map_sum_InrD)
    from Cons.IH [OF this] show ?thesis using chosen_Cons by (auto simp: Nil)
  next
    case (Cons e es)
    with Cons.prems have "merge_scan mmac i ((e # es) # cs) nmac pmin ms = Inr (n, p, ms', cs')" by simp
    then show ?thesis
    proof (cases rule: merge_scan_cons)
      case same
      from Cons.IH [OF same(4)] same(1) show ?thesis using chosen_Cons by (auto simp: Cons)
    next
      case less
      have here: "chosen mmac i ((e # es) # cs) (ent_key e) i" using less(1) by (simp add: chosen_def)
      have ne: "ent_key e \<noteq> mmac" using less(1) by auto
      from Cons.IH [OF less(4)] show ?thesis using chosen_Cons here by (auto simp: Cons ne)
    next
      case ge
      have ne: "ent_key e \<noteq> mmac" using ge(1) by auto
      from Cons.IH [OF ge(4)] show ?thesis using chosen_Cons by (auto simp: Cons ne)
    qed
  qed
qed simp

section \<open>The loop ends\<close>

lemma length_advance: "length (concat (map (advance k) cs)) + length (concat (map (taken k) cs)) = length (concat cs)"
  by (induction cs) (auto simp: advance_def taken_def split: list.splits)

lemma set_advance: "set (concat (map (taken k) cs)) \<union> set (concat (map (advance k) cs)) = set (concat cs)"
proof (induction cs)
  case (Cons c cs)
  have "set (taken k c) \<union> set (advance k c) = set c"
    by (cases c) auto
  with Cons show ?case by auto
qed simp

lemma chosen_advance:
  assumes "chosen k 0 cs n j"
  shows "j < length (map (advance k) cs)" and "map (advance k) cs ! j = cs ! j" and "cs ! j \<noteq> []"
    and "ent_key (hd (cs ! j)) = n" and "k < n"
  using assms by (auto simp: chosen_def neq_Nil_conv)

lemma length_concat_tl:
  "j < length cs \<Longrightarrow> cs ! j \<noteq> [] \<Longrightarrow> Suc (length (concat (cs[j := tl (cs ! j)]))) = length (concat cs)"
  by (induction cs arbitrary: j) (auto split: nat.splits)

text \<open>One round of the loop, by the way it ends.\<close>

definition add_new :: "nat \<Rightarrow> u64 \<Rightarrow> atuent list list \<Rightarrow> sw_mac list \<Rightarrow> sw_mac list" where
  "add_new j n cs ms = ms @ [new_mac (hd (cs ! j)) n]"

definition drop_head :: "nat \<Rightarrow> atuent list list \<Rightarrow> atuent list list" where
  "drop_head j cs = cs[j := tl (cs ! j)]"

lemma merge_loop_cases:
  assumes "merge_loop (Suc fuel) nbuf k cs ms = r"
  obtains
    (err) e where "merge_scan k 0 cs ALL_ONES None ms = Inl e" "r = Some (Inl e)"
  | (stop) p ms1 cs1 where "merge_scan k 0 cs ALL_ONES None ms = Inr (ALL_ONES, p, ms1, cs1)" "r = Some (Inr ms1)"
  | (again) n ms1 cs1 where "merge_scan k 0 cs ALL_ONES None ms = Inr (n, None, ms1, cs1)" "n \<noteq> ALL_ONES"
      "length ms1 < nbuf" "r = merge_loop fuel nbuf k cs1 ms1"
  | (again_full) n ms1 cs1 where "merge_scan k 0 cs ALL_ONES None ms = Inr (n, None, ms1, cs1)" "n \<noteq> ALL_ONES"
      "nbuf \<le> length ms1" "r = Some (Inr ms1)"
  | (over) n j ms1 cs1 where "merge_scan k 0 cs ALL_ONES None ms = Inr (n, Some j, ms1, cs1)" "n \<noteq> ALL_ONES"
      "nbuf \<le> length ms1" "r = Some (Inl Overrun)"
  | (add) n j ms1 cs1 where "merge_scan k 0 cs ALL_ONES None ms = Inr (n, Some j, ms1, cs1)" "n \<noteq> ALL_ONES"
      "length (add_new j n cs1 ms1) < nbuf" "r = merge_loop fuel nbuf n (drop_head j cs1) (add_new j n cs1 ms1)"
  | (add_full) n j ms1 cs1 where "merge_scan k 0 cs ALL_ONES None ms = Inr (n, Some j, ms1, cs1)" "n \<noteq> ALL_ONES"
      "length ms1 < nbuf" "nbuf \<le> length (add_new j n cs1 ms1)" "r = Some (Inr (add_new j n cs1 ms1))"
proof (cases "merge_scan k 0 cs ALL_ONES None ms")
  case (Inl e)
  then show ?thesis using err assms by simp
next
  case (Inr x)
  obtain n p ms1 cs1 where x: "x = (n, p, ms1, cs1)" by (cases x) auto
  note s = Inr [unfolded x]
  show ?thesis
  proof (cases "n = ALL_ONES")
    case True
    then show ?thesis using stop s assms by simp
  next
    case False
    note n = this
    show ?thesis
    proof (cases p)
      case None
      then show ?thesis
        using again [OF s [unfolded None] n] again_full [OF s [unfolded None] n] s assms n
        by (cases "length ms1 < nbuf") auto
    next
      case (Some j)
      note s' = s [unfolded Some]
      show ?thesis
        using over [OF s' n] add [OF s' n] add_full [OF s' n] s' assms n
        by (cases "length ms1 < nbuf"; cases "Suc (length ms1) < nbuf") (auto simp: Let_def add_new_def drop_head_def)
    qed
  qed
qed

declare merge_loop.simps(2) [simp del]

lemma drop_head_chosen:
  assumes "chosen k 0 cs n j"
  obtains e where "hd (map (advance k) cs ! j) = e" "ent_key e = n" "k < n" "e \<in> set (concat (map (advance k) cs))"
    and "Suc (length (concat (drop_head j (map (advance k) cs)))) = length (concat (map (advance k) cs))"
    and "insert e (set (concat (drop_head j (map (advance k) cs)))) = set (concat (map (advance k) cs))"
proof -
  note ca = chosen_advance [OF assms]
  let ?cs = "map (advance k) cs"
  obtain e es where c: "?cs ! j = e # es" using ca(2,3) by (cases "cs ! j") auto
  have "?cs = take j ?cs @ (e # es) # drop (Suc j) ?cs"
    using id_take_nth_drop [OF ca(1)] c by simp
  moreover have "drop_head j ?cs = take j ?cs @ es # drop (Suc j) ?cs"
    using ca(1) c by (simp add: drop_head_def upd_conv_take_nth_drop)
  ultimately have "concat ?cs = concat (take j ?cs) @ e # es @ concat (drop (Suc j) ?cs)"
    and "concat (drop_head j ?cs) = concat (take j ?cs) @ es @ concat (drop (Suc j) ?cs)"
    by (metis append_Cons concat.simps(2) concat_append, simp)
  note cc = this
  show ?thesis
  proof (rule that [of e])
    show "hd (?cs ! j) = e" by (simp add: c)
    show "ent_key e = n" using ca c by (metis list.sel(1))
    show "k < n" by (rule ca(5))
    show "e \<in> set (concat ?cs)" unfolding cc by simp
    show "Suc (length (concat (drop_head j ?cs))) = length (concat ?cs)" unfolding cc by simp
    show "insert e (set (concat (drop_head j ?cs))) = set (concat ?cs)" unfolding cc by auto
  qed
qed

lemma merge_loop_total:
  "length (concat cs) < fuel \<Longrightarrow> merge_loop fuel nbuf k cs ms \<noteq> None"
proof (induction fuel arbitrary: k cs ms)
  case (Suc fuel)
  have "merge_loop (Suc fuel) nbuf k cs ms = r \<Longrightarrow> r \<noteq> None" for r
  proof (erule merge_loop_cases)
    fix n ms1 cs1
    assume s: "merge_scan k 0 cs ALL_ONES None ms = Inr (n, None, ms1, cs1)" "n \<noteq> ALL_ONES"
      and r: "r = merge_loop fuel nbuf k cs1 ms1"
    have "length (concat (map (taken k) cs)) > 0" using merge_scan_pmin [OF s(1)] s(2) by auto
    moreover have cs1: "cs1 = map (advance k) cs" using merge_scan_result [OF s(1)] by simp
    ultimately have "length (concat cs1) < fuel"
      using length_advance [of k cs] Suc.prems unfolding cs1 by linarith
    then show ?thesis using Suc.IH r by simp
  next
    fix n j ms1 cs1
    assume s: "merge_scan k 0 cs ALL_ONES None ms = Inr (n, Some j, ms1, cs1)" "n \<noteq> ALL_ONES"
      and r: "r = merge_loop fuel nbuf n (drop_head j cs1) (add_new j n cs1 ms1)"
    have "chosen k 0 cs n j" using merge_scan_pmin [OF s(1)] s(2) by auto
    moreover have cs1: "cs1 = map (advance k) cs" using merge_scan_result [OF s(1)] by simp
    ultimately have "Suc (length (concat (drop_head j cs1))) = length (concat cs1)"
      by (auto elim: drop_head_chosen)
    then have "length (concat (drop_head j cs1)) < fuel"
      using length_advance [of k cs] Suc.prems unfolding cs1 by linarith
    then show ?thesis using Suc.IH r by simp
  qed simp_all
  then show ?case by blast
qed simp

lemma sw_merge_total: "sw_merge nbuf cs \<noteq> None"
  unfolding sw_merge_def by (rule merge_loop_total) simp

section \<open>The exact merge\<close>

definition union_vec :: "u64 \<Rightarrow> atuent list \<Rightarrow> u32" where
  "union_vec k D = foldr (\<lambda>e v. if ent_key e = k then v OR ucast (e_portvec e) else v) D 0"

definition union_state :: "u64 \<Rightarrow> atuent list \<Rightarrow> u16" where
  "union_state k D = foldr (\<lambda>e v. if ent_key e = k then v OR blocked_bit e else v) D 0"

definition exact_entry :: "atuent list \<Rightarrow> u64 \<Rightarrow> sw_mac" where
  "exact_entry D k = \<lparr> mac_addr = mac_unpack k, mac_state = union_state k D, mac_vec = union_vec k D \<rparr>"

definition keys :: "atuent list \<Rightarrow> u64 set" where
  "keys D = ent_key ` set D"

definition exact_merge :: "atuent list \<Rightarrow> sw_mac list" where
  "exact_merge D = map (exact_entry D) (sorted_list_of_set (keys D))"

lemma finite_keys [simp]: "finite (keys D)"
  by (simp add: keys_def)

lemma keys_simps [simp]:
  "keys [] = {}" "keys (e # D) = insert (ent_key e) (keys D)" "keys (D @ E) = keys D \<union> keys E"
  by (auto simp: keys_def)

lemma bit_union_vec: "bit (union_vec k D) n \<longleftrightarrow> (\<exists>e \<in> set D. ent_key e = k \<and> bit (ucast (e_portvec e) :: u32) n)"
  by (induction D) (auto simp: union_vec_def bit_or_iff)

lemma bit_union_state: "bit (union_state k D) n \<longleftrightarrow> (\<exists>e \<in> set D. ent_key e = k \<and> bit (blocked_bit e) n)"
  by (induction D) (auto simp: union_state_def bit_or_iff)

text \<open>Only the set of entries matters, and only those with the address.\<close>

lemma exact_entry_cong:
  assumes "\<And>e. ent_key e = k \<Longrightarrow> e \<in> set D \<longleftrightarrow> e \<in> set E"
  shows "exact_entry D k = exact_entry E k"
proof -
  have ex: "(\<exists>e \<in> set D. ent_key e = k \<and> P e) \<longleftrightarrow> (\<exists>e \<in> set E. ent_key e = k \<and> P e)" for P
    using assms by blast
  have "union_vec k D = union_vec k E" and "union_state k D = union_state k E"
    by (rule bit_word_eqI; simp only: bit_union_vec bit_union_state ex)+
  then show ?thesis by (simp add: exact_entry_def)
qed

lemma exact_merge_set: "set D = set E \<Longrightarrow> exact_merge D = exact_merge E"
  unfolding exact_merge_def keys_def by (auto intro!: exact_entry_cong)

lemma union_none:
  assumes "k \<notin> keys D"
  shows "union_vec k D = 0" and "union_state k D = 0"
  using assms by (auto intro!: bit_word_eqI simp: bit_union_vec bit_union_state keys_def)

lemma sorted_list_split:
  fixes A :: "'a :: linorder set"
  assumes "finite A" and "finite B" and "\<And>a b. a \<in> A \<Longrightarrow> b \<in> B \<Longrightarrow> a < b"
  shows "sorted_list_of_set (A \<union> B) = sorted_list_of_set A @ sorted_list_of_set B"
proof -
  have "a \<noteq> b" if "a \<in> A" "b \<in> B" for a b using assms(3) [OF that] by simp
  then show ?thesis
    using assms by (intro sorted_distinct_set_unique) (auto simp: sorted_append less_imp_le)
qed

text \<open>Entries whose addresses follow all others come last and change nothing before them.\<close>

lemma exact_merge_append:
  assumes "\<And>d e. d \<in> set D \<Longrightarrow> e \<in> set E \<Longrightarrow> ent_key d < ent_key e"
  shows "exact_merge (D @ E) = exact_merge D @ exact_merge E"
proof -
  have sp: "sorted_list_of_set (keys D \<union> keys E) = sorted_list_of_set (keys D) @ sorted_list_of_set (keys E)"
    by (rule sorted_list_split) (use assms in \<open>auto simp: keys_def\<close>)
  have ne: "ent_key d \<noteq> ent_key e" if "d \<in> set D" "e \<in> set E" for d e
    using assms [OF that] by simp
  have "exact_entry (D @ E) k = exact_entry D k" if "k \<in> keys D" for k
    using that ne by (intro exact_entry_cong) (fastforce simp: keys_def)
  moreover have "exact_entry (D @ E) k = exact_entry E k" if "k \<in> keys E" for k
    using that ne by (intro exact_entry_cong) (fastforce simp: keys_def)
  ultimately show ?thesis by (simp add: exact_merge_def sp)
qed

lemma exact_merge_single: "exact_merge [e] = [new_mac e (ent_key e)]"
  by (simp add: exact_merge_def exact_entry_def new_mac_def union_vec_def union_state_def)

text \<open>An entry for the last address is absorbed by the last element.\<close>

lemma exact_merge_absorb:
  assumes "D \<noteq> []" and "ent_key e = Max (keys D)"
  shows "exact_merge (D @ [e]) = absorb e (exact_merge D)"
proof -
  let ?k = "ent_key e"
  have ne: "keys D \<noteq> {}" using assms(1) by (simp add: keys_def)
  have k: "?k \<in> keys D" unfolding assms(2) by (rule Max_in) (simp_all add: ne)
  have "sorted_list_of_set (keys D) = sorted_list_of_set ((keys D - {?k}) \<union> {?k})"
    using k by (simp add: insert_absorb)
  also have "\<dots> = sorted_list_of_set (keys D - {?k}) @ [?k]"
    by (subst sorted_list_split) (auto simp: assms(2) order.not_eq_order_implies_strict)
  finally have sp: "sorted_list_of_set (keys D) = sorted_list_of_set (keys D - {?k}) @ [?k]" .
  have same: "exact_entry (D @ [e]) j = exact_entry D j" if "j \<noteq> ?k" for j
    using that by (intro exact_entry_cong) auto
  have "union_vec ?k (D @ [e]) = union_vec ?k D OR ucast (e_portvec e)"
    and "union_state ?k (D @ [e]) = union_state ?k D OR blocked_bit e"
    by (auto intro!: bit_word_eqI simp: bit_union_vec bit_union_state bit_or_iff)
  then have "exact_entry (D @ [e]) ?k = (exact_entry D ?k)\<lparr>mac_vec := mac_vec (exact_entry D ?k) OR ucast (e_portvec e),
      mac_state := mac_state (exact_entry D ?k) OR blocked_bit e\<rparr>"
    by (simp add: exact_entry_def)
  moreover have "keys (D @ [e]) = keys D" using k by auto
  ultimately show ?thesis
    by (simp add: exact_merge_def absorb_def sp same Let_def)
qed

section \<open>What the loop computes\<close>

text \<open>
  What the driver promises about the tables: ascending, without the address that ends its
  walk, and no all-zero address.
\<close>

definition table_ok :: "atuent list \<Rightarrow> bool" where
  "table_ok c \<longleftrightarrow> sorted_wrt (<) (map ent_key c) \<and> (\<forall>e \<in> set c. 0 < ent_key e \<and> ent_key e < ALL_ONES)"

definition merge_inv :: "atuent set \<Rightarrow> u64 \<Rightarrow> atuent list list \<Rightarrow> atuent list \<Rightarrow> sw_mac list \<Rightarrow> bool" where
  "merge_inv S k cs D ms \<longleftrightarrow> ms = exact_merge D \<and> k = (if D = [] then 0 else Max (keys D))
     \<and> set D \<union> set (concat cs) = S \<and> list_all table_ok cs"

lemma table_ok_simps [simp]:
  "table_ok []"
  "table_ok (e # c) \<longleftrightarrow> 0 < ent_key e \<and> ent_key e < ALL_ONES \<and> (\<forall>x \<in> set c. ent_key e < ent_key x) \<and> table_ok c"
  by (auto simp: table_ok_def)

lemma table_ok_advance: "table_ok c \<Longrightarrow> table_ok (advance k c)"
  by (cases c) auto

lemma fold_absorb:
  "D \<noteq> [] \<Longrightarrow> \<forall>e \<in> set E. ent_key e = Max (keys D) \<Longrightarrow> fold absorb E (exact_merge D) = exact_merge (D @ E)"
proof (induction E arbitrary: D)
  case (Cons e E)
  have "Max (keys D) \<in> keys D" using Cons.prems(1) by (intro Max_in) (auto simp: keys_def)
  then have "keys (D @ [e]) = keys D" using Cons.prems(2) by auto
  then show ?case
    using Cons.IH [of "D @ [e]"] Cons.prems exact_merge_absorb [of D e] by simp
qed simp

lemma taken_key: "e \<in> set (concat (map (taken k) cs)) \<Longrightarrow> ent_key e = k \<and> e \<in> set (concat cs)"
proof (induction cs)
  case (Cons c cs)
  then show ?case by (cases c) (auto split: if_splits)
qed simp

lemma tables_entry: "list_all table_ok cs \<Longrightarrow> e \<in> set (concat cs) \<Longrightarrow> 0 < ent_key e \<and> ent_key e < ALL_ONES"
  by (auto simp: list_all_iff table_ok_def)

lemma merge_inv_scan:
  assumes "merge_inv S k cs D ms" and "merge_scan k 0 cs ALL_ONES None ms = Inr (n, p, ms1, cs1)"
  shows "merge_inv S k cs1 (D @ concat (map (taken k) cs)) ms1"
proof -
  let ?E = "concat (map (taken k) cs)"
  note r = merge_scan_result [OF assms(2)] and inv = assms(1) [unfolded merge_inv_def]
  have cs1: "cs1 = map (advance k) cs" and ms1: "ms1 = fold absorb ?E ms" using r by simp_all
  have key: "\<forall>e \<in> set ?E. ent_key e = k" using taken_key by blast
  have "list_all table_ok cs1" using inv table_ok_advance by (auto simp: cs1 list_all_iff)
  moreover have "set (D @ ?E) \<union> set (concat cs1) = S"
    using inv set_advance [of k cs] unfolding cs1 set_append by blast
  moreover have "ms1 = exact_merge (D @ ?E) \<and> k = (if D @ ?E = [] then 0 else Max (keys (D @ ?E)))"
  proof (cases "D = []")
    case True
    have E0: "?E = []"
    proof (rule ccontr)
      assume "?E \<noteq> []"
      then obtain e where "e \<in> set ?E" by (cases ?E) auto
      then show False using taken_key [of e k cs] tables_entry [of cs e] inv True by auto
    qed
    show ?thesis using inv True unfolding ms1 E0 by simp
  next
    case False
    then have k: "k = Max (keys D)" and ms: "ms = exact_merge D" using inv by auto
    have "keys (D @ ?E) = keys D"
      using key k Max_in [of "keys D"] False by (auto simp: keys_def)
    then show ?thesis using fold_absorb [of D ?E] key k ms False by (simp add: ms1)
  qed
  ultimately show ?thesis unfolding merge_inv_def by blast
qed

lemma merge_inv_add:
  assumes "merge_inv S k (map (advance k) cs) D ms" and "chosen k 0 cs n j"
  shows "merge_inv S n (drop_head j (map (advance k) cs)) (D @ [hd (map (advance k) cs ! j)])
    (add_new j n (map (advance k) cs) ms)"
proof -
  let ?cs = "map (advance k) cs"
  note inv = assms(1) [unfolded merge_inv_def]
  obtain e where e: "hd (?cs ! j) = e" "ent_key e = n" "k < n" "insert e (set (concat (drop_head j ?cs))) = set (concat ?cs)"
    using assms(2) by (rule drop_head_chosen)
  have lt: "ent_key d < ent_key e" if "d \<in> set D" for d
  proof -
    have "ent_key d \<le> Max (keys D)" using that by (intro Max_ge) (auto simp: keys_def)
    then show ?thesis using inv that e(2,3) by (auto split: if_splits)
  qed
  have "exact_merge (D @ [e]) = add_new j n ?cs ms"
    using exact_merge_append [of D "[e]"] lt inv e(1,2) by (simp add: add_new_def exact_merge_single)
  moreover have "Max (keys (D @ [e])) = n"
    using lt e(2) by (intro Max_eqI) (auto simp: keys_def less_imp_le)
  moreover have "list_all table_ok (drop_head j ?cs)"
  proof -
    have "table_ok (tl (?cs ! j))" using inv chosen_advance(1) [OF assms(2)]
      by (cases "?cs ! j") (auto simp: list_all_length)
    then show ?thesis using inv set_update_subset_insert [of ?cs j "tl (?cs ! j)"]
      by (auto simp: drop_head_def list_all_iff)
  qed
  moreover have "set (D @ [e]) \<union> set (concat (drop_head j ?cs)) = S"
    using inv e(4) by auto
  ultimately show ?thesis by (simp add: merge_inv_def e(1))
qed

text \<open>Nothing is left below the last address when the loop stops of its own accord.\<close>

lemma merge_inv_stop:
  assumes "list_all table_ok cs" and "merge_scan k 0 cs ALL_ONES None ms = Inr (ALL_ONES, p, ms1, cs1)"
    and "e \<in> set (concat cs1)"
  shows "k < ent_key e"
proof -
  note r = merge_scan_result [OF assms(2)]
  obtain c where c: "c \<in> set cs" "e \<in> set (advance k c)" using assms(3) r by auto
  have ok: "table_ok c" using assms(1) c(1) by (simp add: list_all_iff)
  show ?thesis
  proof (cases c)
    case (Cons x xs)
    have "ent_key x = k"
    proof (rule ccontr)
      assume "ent_key x \<noteq> k"
      then have "ent_key x \<in> set (heads k cs)" using c(1) Cons by (force simp: heads_def)
      then have "ALL_ONES \<le> ent_key x" using r by blast
      then show False using ok Cons by auto
    qed
    then show ?thesis using c(2) ok Cons by auto
  qed (use c in simp)
qed

lemma merge_inv_le: "merge_inv S k cs D ms \<Longrightarrow> d \<in> set D \<Longrightarrow> ent_key d \<le> k"
  by (cases D) (auto simp: merge_inv_def keys_def)

lemma merge_loop_spec:
  assumes "merge_loop fuel nbuf k cs ms = Some (Inr out)" and "merge_inv S k cs D ms"
  shows "\<exists>D'. set D' \<subseteq> S \<and> out = exact_merge D'
    \<and> (length out < nbuf \<longrightarrow> (\<forall>d \<in> set D'. \<forall>e \<in> S - set D'. ent_key d < ent_key e))"
  using assms
proof (induction fuel arbitrary: k cs D ms)
  case (Suc fuel)
  show ?case
    using Suc.prems(1)
  proof (cases rule: merge_loop_cases)
    case (stop p ms1 cs1)
    let ?D = "D @ concat (map (taken k) cs)"
    have inv: "merge_inv S k cs1 ?D ms1" using merge_inv_scan [OF Suc.prems(2) stop(1)] .
    have "ent_key d < ent_key e" if "d \<in> set ?D" "e \<in> S - set ?D" for d e
    proof -
      have "ent_key d \<le> k" using merge_inv_le [OF inv that(1)] .
      moreover have "e \<in> set (concat cs1)" and "list_all table_ok cs"
        using inv that(2) Suc.prems(2) unfolding merge_inv_def by blast+
      then have "k < ent_key e" using merge_inv_stop [OF _ stop(1)] by blast
      ultimately show ?thesis by simp
    qed
    then show ?thesis using inv stop(2) unfolding merge_inv_def by (intro exI [of _ ?D]) blast
  next
    case (again n ms1 cs1)
    show ?thesis using Suc.IH [OF again(4) [symmetric] merge_inv_scan [OF Suc.prems(2) again(1)]] .
  next
    case (again_full n ms1 cs1)
    have "merge_inv S k cs1 (D @ concat (map (taken k) cs)) ms1"
      using merge_inv_scan [OF Suc.prems(2) again_full(1)] .
    then show ?thesis using again_full(3,4) unfolding merge_inv_def
      by (intro exI [of _ "D @ concat (map (taken k) cs)"]) auto
  next
    case (add n j ms1 cs1)
    have cs1: "cs1 = map (advance k) cs" using merge_scan_result [OF add(1)] by simp
    have "chosen k 0 cs n j" using merge_scan_pmin [OF add(1)] add(2) by auto
    from merge_inv_add [OF merge_inv_scan [OF Suc.prems(2) add(1), unfolded cs1] this]
    show ?thesis using Suc.IH [OF add(4) [symmetric]] unfolding cs1 by blast
  next
    case (add_full n j ms1 cs1)
    have cs1: "cs1 = map (advance k) cs" using merge_scan_result [OF add_full(1)] by simp
    have "chosen k 0 cs n j" using merge_scan_pmin [OF add_full(1)] add_full(2) by auto
    from merge_inv_add [OF merge_inv_scan [OF Suc.prems(2) add_full(1), unfolded cs1] this]
    show ?thesis using add_full(4,5) unfolding cs1 merge_inv_def by fastforce
  qed simp_all
qed simp

lemma merge_inv_init: "list_all table_ok cs \<Longrightarrow> merge_inv (set (concat cs)) 0 cs [] []"
  by (simp add: merge_inv_def exact_merge_def)

text \<open>(C3)
  The merge reports nothing but the truth, as far as it gets: when it returns with room
  left in the buffer, its result is an initial part of the exact merge, so every address
  it reports carries exactly the ports that hold it.
\<close>

theorem sw_merge_prefix:
  assumes "list_all table_ok cs" and "sw_merge nbuf cs = Some (Inr ms)" and "length ms < nbuf"
  shows "prefix ms (exact_merge (concat cs))"
proof -
  obtain D where D: "set D \<subseteq> set (concat cs)" "ms = exact_merge D"
    "\<forall>d \<in> set D. \<forall>e \<in> set (concat cs) - set D. ent_key d < ent_key e"
    using merge_loop_spec [OF assms(2) [unfolded sw_merge_def] merge_inv_init [OF assms(1)]] assms(3) by blast
  let ?R = "filter (\<lambda>e. e \<notin> set D) (concat cs)"
  have "set (concat cs) = set (D @ ?R)" using D(1) by auto
  then have "exact_merge (concat cs) = exact_merge (D @ ?R)" by (rule exact_merge_set)
  also have "\<dots> = ms @ exact_merge ?R"
    unfolding D(2) by (rule exact_merge_append) (use D(3) in auto)
  finally show ?thesis by simp
qed

section \<open>Tables without a common address\<close>

lemma merge_scan_above:
  "\<forall>e \<in> set (concat cs). k < ent_key e \<Longrightarrow> \<exists>n p. merge_scan k i cs nmac pmin ms = Inr (n, p, ms, cs)"
proof (induction cs arbitrary: i nmac pmin)
  case (Cons c cs)
  then have IH: "\<exists>n p. merge_scan k i' cs nmac' pmin' ms = Inr (n, p, ms, cs)" for i' nmac' pmin' by simp
  show ?case
  proof (cases c)
    case Nil
    then show ?thesis using IH [of "Suc i" nmac pmin] by auto
  next
    case (Cons e es)
    then have "k < ent_key e" using Cons.prems by simp
    then have ne: "\<not> ent_key e < k" "ent_key e \<noteq> k" by auto
    then show ?thesis
      using IH [of "Suc i" "ent_key e" "Some i"] IH [of "Suc i" nmac pmin] by (auto simp: Cons Let_def)
  qed
qed simp

lemma advance_above: "\<forall>e \<in> set (concat cs). k < ent_key e \<Longrightarrow> map (advance k) cs = cs \<and> concat (map (taken k) cs) = []"
proof (induction cs)
  case (Cons c cs)
  then show ?case by (cases c) auto
qed simp

lemma heads_below:
  assumes "list_all table_ok cs" and "\<forall>e \<in> set (concat cs). k < ent_key e"
    and "\<forall>x \<in> set (heads k cs). n \<le> x" and "e \<in> set (concat cs)"
  shows "n \<le> ent_key e"
proof -
  obtain c where c: "c \<in> set cs" "e \<in> set c" using assms(4) by auto
  then obtain x xs where x: "c = x # xs" by (meson list.set_cases)
  then have "k < ent_key x" using assms(2) c(1) by force
  then have "ent_key x \<in> set (heads k cs)" using c(1) x by (force simp: heads_def)
  then have "n \<le> ent_key x" using assms(3) by blast
  moreover have "ent_key x \<le> ent_key e"
    using assms(1) c x by (auto simp: list_all_iff less_imp_le)
  ultimately show ?thesis by simp
qed

lemma drop_head_split:
  assumes "j < length cs" and "cs ! j \<noteq> []"
  obtains A B where "concat cs = A @ hd (cs ! j) # B" and "concat (drop_head j cs) = A @ B"
proof -
  obtain e es where c: "cs ! j = e # es" using assms(2) by (cases "cs ! j") auto
  have "cs = take j cs @ (e # es) # drop (Suc j) cs"
    using id_take_nth_drop [OF assms(1)] c by simp
  then have "concat cs = concat (take j cs) @ e # es @ concat (drop (Suc j) cs)"
    by (metis append_Cons concat.simps(2) concat_append)
  moreover have "concat (drop_head j cs) = concat (take j cs) @ es @ concat (drop (Suc j) cs)"
    using assms(1) c by (simp add: drop_head_def upd_conv_take_nth_drop)
  ultimately show ?thesis using that [of "concat (take j cs)"] c by simp
qed

lemma merge_loop_distinct:
  assumes "merge_inv S k cs D ms" and "\<forall>e \<in> set (concat cs). k < ent_key e"
    and "distinct (map ent_key (concat cs))" and "length ms + length (concat cs) \<le> nbuf"
    and "length ms < nbuf" and "length (concat cs) < fuel"
  shows "merge_loop fuel nbuf k cs ms = Some (Inr (exact_merge (D @ concat cs)))"
  using assms
proof (induction fuel arbitrary: k cs D ms)
  case (Suc fuel)
  note inv = Suc.prems(1) and above = Suc.prems(2)
  have adv: "map (advance k) cs = cs" "concat (map (taken k) cs) = []"
    using advance_above [OF above] by auto
  obtain n p where s: "merge_scan k 0 cs ALL_ONES None ms = Inr (n, p, ms, cs)"
    using merge_scan_above [OF above] by blast
  note r = merge_scan_result [OF s]
  have ok: "list_all table_ok cs" using inv by (simp add: merge_inv_def)
  have low: "n \<le> ent_key e" if "e \<in> set (concat cs)" for e
    using heads_below [OF ok above _ that] r by blast
  show ?case
  proof (cases "n = ALL_ONES")
    case True
    have emp: "concat cs = []"
    proof (rule ccontr)
      assume "concat cs \<noteq> []"
      then obtain e where e: "e \<in> set (concat cs)" by (cases "concat cs") auto
      then show False using low [OF e] tables_entry [OF ok e] True by auto
    qed
    have "ms = exact_merge D" using inv by (simp add: merge_inv_def)
    then show ?thesis using s True unfolding emp by (simp add: merge_loop.simps(2))
  next
    case False
    then obtain j where p: "p = Some j" and ch: "chosen k 0 cs n j"
      using merge_scan_pmin [OF s] adv(2) by (cases p) auto
    note ca = chosen_advance [OF ch, unfolded adv]
    let ?e = "hd (cs ! j)"
    obtain A B where AB: "concat cs = A @ ?e # B" "concat (drop_head j cs) = A @ B"
      using drop_head_split [OF ca(1,3)] .
    have inv2: "merge_inv S n (drop_head j cs) (D @ [?e]) (add_new j n cs ms)"
      using merge_inv_add [of S k cs D ms n j] inv ch unfolding adv by blast
    have eq: "exact_merge ((D @ [?e]) @ concat (drop_head j cs)) = exact_merge (D @ concat cs)"
      unfolding AB by (rule exact_merge_set) auto
    show ?thesis
    proof (cases "length (add_new j n cs ms) < nbuf")
      case True
      have "\<forall>e \<in> set (concat (drop_head j cs)). n < ent_key e"
      proof
        fix e assume e: "e \<in> set (concat (drop_head j cs))"
        then have "ent_key e \<in> ent_key ` set (A @ B)" unfolding AB(2) by (rule imageI)
        moreover have "ent_key ?e \<notin> ent_key ` set (A @ B)"
          using Suc.prems(3) unfolding AB(1) by (simp add: image_Un)
        ultimately have "ent_key e \<noteq> ent_key ?e" by metis
        moreover have "e \<in> set (concat cs)" using e unfolding AB by auto
        ultimately show "n < ent_key e" using low [of e] ca(4) by auto
      qed
      moreover have "distinct (map ent_key (concat (drop_head j cs)))"
        using Suc.prems(3) unfolding AB by simp
      moreover have "length (add_new j n cs ms) + length (concat (drop_head j cs)) \<le> nbuf"
        using Suc.prems(4) unfolding AB by (simp add: add_new_def)
      moreover have "length (concat (drop_head j cs)) < fuel"
        using Suc.prems(6) unfolding AB by simp
      ultimately have "merge_loop fuel nbuf n (drop_head j cs) (add_new j n cs ms)
          = Some (Inr (exact_merge (D @ concat cs)))"
        using Suc.IH [OF inv2] True eq by simp
      then show ?thesis
        using s p False Suc.prems(5) True by (simp add: merge_loop.simps(2) Let_def add_new_def drop_head_def)
    next
      case full: False
      then have "length A + length B = 0"
        using Suc.prems(4) full unfolding AB add_new_def length_append list.size by linarith
      then have "concat (drop_head j cs) = []" unfolding AB by simp
      then have "add_new j n cs ms = exact_merge (D @ concat cs)"
        using inv2 eq unfolding merge_inv_def by (metis append_Nil2)
      moreover have "\<not> Suc (length ms) < nbuf" using full by (simp add: add_new_def)
      ultimately show ?thesis
        using s p False Suc.prems(5) by (simp add: merge_loop.simps(2) Let_def add_new_def drop_head_def)
    qed
  qed
qed simp

text \<open>(C4)
  Without a loop in the network, that is when no address is in two tables, the merge
  returns the exact merge: every address once, in ascending order, with its port vector.
\<close>

theorem sw_merge_disjoint:
  assumes "list_all table_ok cs" and "distinct (map ent_key (concat cs))"
    and "length (concat cs) \<le> nbuf" and "0 < nbuf"
  shows "sw_merge nbuf cs = Some (Inr (exact_merge (concat cs)))"
proof -
  have "\<forall>e \<in> set (concat cs). 0 < ent_key e" using tables_entry [OF assms(1)] by blast
  from merge_loop_distinct [OF merge_inv_init [OF assms(1)] this assms(2)] assms(3,4)
  show ?thesis by (simp add: sw_merge_def)
qed

section \<open>Tables with a common address\<close>

text \<open>A loop makes the merge drop addresses: when two ports share an address and the first
  port has no other, the round that finds the second copy sees no further minimum and
  ends the merge, although the second port still holds entries.
\<close>

theorem sw_merge_drops:
  assumes "ent_key e = ent_key f" and "0 < ent_key e" and "ent_key e < ALL_ONES" and "1 < nbuf"
  shows "sw_merge nbuf [[e], f # rest] = Some (Inr (exact_merge [e, f]))"
proof -
  have "exact_merge [e, f] = absorb f [new_mac e (ent_key e)]"
    using exact_merge_absorb [of "[e]" f] assms(1) by (simp add: exact_merge_single)
  moreover have "length (absorb f [new_mac e (ent_key e)]) = 1" by (simp add: absorb_def Let_def)
  moreover have "\<not> ent_key f < 0" "ent_key f \<noteq> 0" "ent_key f \<noteq> ALL_ONES" using assms(1-3) by auto
  ultimately show ?thesis
    using assms by (simp add: sw_merge_def merge_loop.simps(2) Let_def)
qed

text \<open>With three ports the merge can run into its own assertion, and the daemon aborts: the
  second port's copy of the address is absorbed in the same round in which the third
  port is chosen, and the second port's next, smaller address is passed over.
\<close>

theorem sw_merge_aborts:
  assumes "ent_key a1 = ent_key a2" and "0 < ent_key a1" and "ent_key a1 < ent_key b"
    and "ent_key b < ent_key c" and "ent_key c < ent_key d" and "ent_key d < ALL_ONES" and "2 < nbuf"
  shows "sw_merge nbuf [[a1, d], [a2, b], [c]] = Some (Inl Assert_failed)"
proof -
  have lt: "0 < ent_key a2" "0 < ent_key b" "0 < ent_key c" "0 < ent_key d" "ent_key a2 < ent_key b"
    "ent_key a2 < ent_key c" "ent_key a2 < ent_key d" "ent_key b < ent_key c" "ent_key b < ent_key d"
    "ent_key c < ent_key d" "ent_key a2 < ALL_ONES" "ent_key b < ALL_ONES" "ent_key c < ALL_ONES"
    "ent_key d < ALL_ONES"
    using assms by simp_all
  have ne: "\<not> y < x" "x \<noteq> y" "y \<noteq> x" if "x < y" for x y :: u64 using that by auto
  have nb: "0 < nbuf" "Suc 0 < nbuf" "Suc (Suc 0) < nbuf" "\<not> nbuf \<le> Suc 0" using assms(7) by simp_all
  show ?thesis
    unfolding sw_merge_def
    by (simp add: merge_loop.simps(2) Let_def assms(1) nb lt lt [THEN ne(1)] lt [THEN ne(2)] lt [THEN ne(3)] absorb_def)
qed

text \<open>Entries with small addresses, to work the properties out.\<close>

definition low_ent :: "u8 \<Rightarrow> u8 \<Rightarrow> atuent" where
  "low_ent k v = \<lparr> e_mac = [0, 0, 0, 0, 0, k], e_portvec = v, e_state = 0xe \<rparr>"

lemma low_ent_key: "ent_key (low_ent k v) = ucast k"
  by (simp add: ent_key_def low_ent_def mac_pack_def)

lemma low_merge: "sw_merge 8 [[low_ent 5 1, low_ent 9 1], [low_ent 6 2]]
    = Some (Inr [new_mac (low_ent 5 1) 5, new_mac (low_ent 6 2) 6, new_mac (low_ent 9 1) 9])"
  by (simp add: sw_merge_def merge_loop.simps(2) Let_def low_ent_key ALL_ONES_def)

lemma low_table: "list_all table_ok [[low_ent 5 1, low_ent 9 1], [low_ent 6 2]]"
  by (simp add: low_ent_key ALL_ONES_def)

lemma sw_merge_prefix_witness:
  "prefix [new_mac (low_ent 5 1) 5, new_mac (low_ent 6 2) 6, new_mac (low_ent 9 1) 9]
     (exact_merge (concat [[low_ent 5 1, low_ent 9 1], [low_ent 6 2]]))"
  by (rule sw_merge_prefix [OF low_table low_merge]) simp

lemma sw_merge_disjoint_witness:
  "sw_merge 3 [[low_ent 5 1, low_ent 9 1], [low_ent 6 2]]
     = Some (Inr (exact_merge [low_ent 5 1, low_ent 9 1, low_ent 6 2]))"
  using sw_merge_disjoint [OF low_table, of 3] by (simp add: low_ent_key)

lemma sw_merge_drops_witness:
  "sw_merge 16384 [[low_ent 5 1], [low_ent 5 2, low_ent 9 2]] = Some (Inr (exact_merge [low_ent 5 1, low_ent 5 2]))"
  by (rule sw_merge_drops) (simp_all add: low_ent_key ALL_ONES_def)

lemma sw_merge_aborts_witness:
  "sw_merge 8192 [[low_ent 5 1, low_ent 9 1], [low_ent 5 2, low_ent 6 2], [low_ent 7 4]] = Some (Inl Assert_failed)"
  by (rule sw_merge_aborts) (simp_all add: low_ent_key ALL_ONES_def)

end
