(* ===== verification/Lease_Table.thy ===== *)
theory Lease_Table
  imports Main
begin

text \<open>
  The contract of a table whose entries expire: every tick takes one from the remaining
  time of an entry and removes it at the end, unless the input of the tick renews it.
  The block list of abrloop is an interpretation.
\<close>

locale lease_table =
  fixes ok :: "'t \<Rightarrow> bool"
    and left :: "'t \<Rightarrow> 'k \<Rightarrow> nat option"
    and renews :: "'i \<Rightarrow> 't \<Rightarrow> 'k \<Rightarrow> bool"
    and tick :: "'i \<Rightarrow> 't \<Rightarrow> 't"
    and full :: nat
  assumes ok_tick: "ok t \<Longrightarrow> ok (tick i t)"
    and bounded: "ok t \<Longrightarrow> left t k = Some n \<Longrightarrow> 0 < n \<and> n \<le> full"
    and ages: "ok t \<Longrightarrow> \<not> renews i t k \<Longrightarrow>
      left (tick i t) k = (case left t k of None \<Rightarrow> None | Some n \<Rightarrow> if n = 1 then None else Some (n - 1))"
begin

text \<open>A sequence of ticks, and that none of them renews the entry.\<close>

fun run :: "'i list \<Rightarrow> 't \<Rightarrow> 't" where
  "run [] t = t"
| "run (i # is) t = run is (tick i t)"

fun quiet :: "'i list \<Rightarrow> 't \<Rightarrow> 'k \<Rightarrow> bool" where
  "quiet [] t k \<longleftrightarrow> True"
| "quiet (i # is) t k \<longleftrightarrow> \<not> renews i t k \<and> quiet is (tick i t) k"

lemma run_ok: "ok t \<Longrightarrow> ok (run is t)"
  by (induction "is" arbitrary: t) (simp_all add: ok_tick)

lemma absent_stays: "ok t \<Longrightarrow> quiet is t k \<Longrightarrow> left t k = None \<Longrightarrow> left (run is t) k = None"
  by (induction "is" arbitrary: t) (simp_all add: ok_tick ages)

lemma remaining:
  "ok t \<Longrightarrow> quiet is t k \<Longrightarrow> left t k = Some n \<Longrightarrow>
   left (run is t) k = (if length is < n then Some (n - length is) else None)"
proof (induction "is" arbitrary: t n)
  case Nil
  then show ?case using bounded [of t k n] by simp
next
  case (Cons i "is")
  have ok: "ok (tick i t)" and q: "\<not> renews i t k" "quiet is (tick i t) k"
    using Cons.prems(1,2) by (simp_all add: ok_tick)
  show ?case
  proof (cases "n = 1")
    case True
    then have "left (tick i t) k = None" using ages [OF Cons.prems(1) q(1)] Cons.prems(3) by simp
    then show ?thesis using absent_stays [OF ok q(2)] True by simp
  next
    case False
    then have "left (tick i t) k = Some (n - 1)" using ages [OF Cons.prems(1) q(1)] Cons.prems(3) by simp
    from Cons.IH [OF ok q(2) this] show ?thesis
      using bounded [OF Cons.prems(1,3)] False by auto
  qed
qed

text \<open>Whatever is in the table is gone after the full time.\<close>

lemma expires: "ok t \<Longrightarrow> quiet is t k \<Longrightarrow> full \<le> length is \<Longrightarrow> left (run is t) k = None"
proof (cases "left t k")
  case (Some n)
  assume "ok t" "quiet is t k" "full \<le> length is"
  then show ?thesis using remaining [of t "is" k n] bounded [of t k n] Some by simp
qed (rule absent_stays)

end

end
