(* ===== verification/Abr_Block.thy ===== *)
theory Abr_Block
  imports Abr_Merge Lease_Table
begin

text \<open>
  abrloop.c, blocking: \<open>cnt_ports\<close>, the block list (\<open>bl_alloc\<close>, \<open>bl_free\<close>,
  \<open>bl_lookup\<close>), \<open>mac_block\<close>, \<open>handle_mac\<close> and \<open>proc_macs\<close>. The block list is the
  list of its elements in the order of the \<open>next\<close> pointers; a pointer to an element is
  its place.
\<close>

section \<open>Counting ports\<close>

definition port_cnt :: "nat list" where
  "port_cnt = [0, 1, 1, 2, 1, 2, 2, 3, 1, 2, 2, 3, 2, 3, 3, 4]"

text \<open>The loop over the eight nibbles.\<close>

fun cnt_nibbles :: "nat \<Rightarrow> u32 \<Rightarrow> nat \<Rightarrow> nat" where
  "cnt_nibbles 0 vec cnt = cnt"
| "cnt_nibbles (Suc n) vec cnt = cnt_nibbles n (drop_bit 4 vec) (cnt + port_cnt ! unat (vec AND 0xf))"

definition cnt_ports :: "u32 \<Rightarrow> nat" where
  "cnt_ports vec = cnt_nibbles 8 vec 0"

section \<open>The block list\<close>

record sw_block =
  b_mac :: sw_mac
  b_timer :: u32

definition BLOCK_TIME :: u32 where "BLOCK_TIME = 10"

definition bl_new :: "sw_mac \<Rightarrow> sw_block" where
  "bl_new mac = \<lparr> b_mac = mac, b_timer = BLOCK_TIME \<rparr>"

definition bl_alloc :: "'s drv \<Rightarrow> sw_block list \<Rightarrow> sw_mac \<Rightarrow> 's \<Rightarrow> nat option \<times> sw_block list \<times> 's" where
  "bl_alloc d bl mac s = (let (ok, s) = d_malloc d s in
     if ok then (Some 0, bl_new mac # bl, s) else (None, bl, s))"

definition bl_free :: "sw_block list \<Rightarrow> sw_block list" where
  "bl_free bl = tl bl"

lemma bl_free_Cons [simp]: "bl_free (sb # bl) = bl"
  by (simp add: bl_free_def)

fun bl_lookup :: "sw_block list \<Rightarrow> sw_mac \<Rightarrow> nat option" where
  "bl_lookup [] mac = None"
| "bl_lookup (sb # bl) mac = (if mac_addr (b_mac sb) = mac_addr mac then Some 0 else map_option Suc (bl_lookup bl mac))"

section \<open>Blocking an address\<close>

definition the_port :: "sw_info list \<Rightarrow> port_ref \<Rightarrow> sw_port" where
  "the_port sws r = s_ports (sws ! fst r) ! snd r"

text \<open>Whether an address is blocked on a port: never on a cpu port, else by its vector.\<close>

definition block_here :: "sw_info list \<Rightarrow> sw_mac \<Rightarrow> port_ref \<Rightarrow> bool" where
  "block_here sws mac r = (let swp = the_port sws r in
     i_cpu (s_info (sws ! fst r)) AND push_bit (unat (p_num swp)) 1 = 0
     \<and> \<not> (mac_vec mac AND push_bit (unat (p_base swp)) 1 = 0 \<and> mac_state mac = 0))"

definition block_ent :: "sw_mac \<Rightarrow> bool \<Rightarrow> atuent" where
  "block_ent mac blk = \<lparr> e_mac = mac_addr mac, e_portvec = 0, e_state = (if blk then 0xe else 0x0) \<rparr>"

fun mac_block :: "'s drv \<Rightarrow> sw_info list \<Rightarrow> port_ref list \<Rightarrow> sw_mac \<Rightarrow> bool \<Rightarrow> 's \<Rightarrow> int \<times> 's" where
  "mac_block d sws [] mac blk s = (0, s)"
| "mac_block d sws (r # rs) mac blk s =
     (if \<not> block_here sws mac r then mac_block d sws rs mac blk s
      else (let (rv, s) = d_setatu d (ifname_of (s_name (sws ! fst r)) 0) (p_fid (the_port sws r)) (block_ent mac blk) s in
        if rv < 0 then (-6, s) else mac_block d sws rs mac blk s))"

text \<open>The result of \<open>mac_block\<close> is ignored.\<close>

definition handle_mac ::
  "'s drv \<Rightarrow> sw_info list \<Rightarrow> port_ref list \<Rightarrow> sw_mac \<Rightarrow> sw_block list \<times> 's \<Rightarrow> sw_block list \<times> 's" where
  "handle_mac d sws portq mac st = (let (bl, s) = st;
      (sb, bl, s) = (case bl_lookup bl mac of
          Some n \<Rightarrow> (Some n, bl, s)
        | None \<Rightarrow> (let (sb, bl, s) = bl_alloc d bl mac s in
            case sb of None \<Rightarrow> (None, bl, s)
            | Some n \<Rightarrow> (let (_, s) = mac_block d sws portq (b_mac (bl ! n)) True s in (Some n, bl, s))))
      in case sb of None \<Rightarrow> (bl, s)
       | Some n \<Rightarrow>
          if cnt_ports (mac_vec (b_mac (bl ! n))) < cnt_ports (mac_vec mac) then
            (let old = b_mac (bl ! n);
                 new = old\<lparr>mac_vec := mac_vec mac, mac_state := mac_state mac\<rparr>;
                 bl = bl[n := \<lparr> b_mac = new, b_timer = BLOCK_TIME \<rparr>];
                 (_, s) = mac_block d sws portq new True s
             in (bl, s))
          else (bl, s))"

text \<open>Which merged addresses take part in a loop, or are blocked in the switch.\<close>

definition looped :: "sw_mac \<Rightarrow> bool" where
  "looped mac \<longleftrightarrow> 1 < cnt_ports (mac_vec mac) \<or> mac_state mac \<noteq> 0"

fun handle_all ::
  "'s drv \<Rightarrow> sw_info list \<Rightarrow> port_ref list \<Rightarrow> sw_mac list \<Rightarrow> sw_block list \<times> 's \<Rightarrow> sw_block list \<times> 's" where
  "handle_all d sws portq [] st = st"
| "handle_all d sws portq (mac # macs) st =
     handle_all d sws portq macs (if looped mac then handle_mac d sws portq mac st else st)"

text \<open>The second loop of \<open>proc_macs\<close>: time out.\<close>

fun age_blocks :: "'s drv \<Rightarrow> sw_info list \<Rightarrow> port_ref list \<Rightarrow> sw_block list \<Rightarrow> 's \<Rightarrow> sw_block list \<times> 's" where
  "age_blocks d sws portq [] s = ([], s)"
| "age_blocks d sws portq (sb # bl) s =
     (let sb = sb\<lparr>b_timer := b_timer sb - 1\<rparr> in
      if b_timer sb = 0 then
        (let (_, s) = mac_block d sws portq (b_mac sb) False s in age_blocks d sws portq (bl_free (sb # bl)) s)
      else (let (bl, s) = age_blocks d sws portq bl s in (sb # bl, s)))"

definition proc_macs ::
  "'s drv \<Rightarrow> sw_info list \<Rightarrow> port_ref list \<Rightarrow> sw_mac list \<Rightarrow> sw_block list \<times> 's \<Rightarrow> sw_block list \<times> 's" where
  "proc_macs d sws portq macs st = (let (bl, s) = handle_all d sws portq macs st in age_blocks d sws portq bl s)"

section \<open>The port counter\<close>

lemma port_cnt_all: "list_all (\<lambda>k. port_cnt ! k =
    of_bool (bit k 0) + of_bool (bit k 1) + of_bool (bit k 2) + of_bool (bit k 3)) [0..<16]"
  by code_simp

lemma port_cnt_bits:
  "k < 16 \<Longrightarrow> port_cnt ! k = of_bool (bit k 0) + of_bool (bit k 1) + of_bool (bit k 2) + of_bool (bit k 3)"
  using port_cnt_all by (rule nibble_all [rotated])

lemma sum4: "(\<Sum>i<4. f i) = f 0 + f 1 + f 2 + (f (3 :: nat) :: nat)"
  by (simp add: eval_nat_numeral)

lemma port_cnt_nibble: "port_cnt ! unat (v AND 0xf) = (\<Sum>i<4. of_bool (bit (v :: u32) i))"
proof -
  have m: "v AND 0xf = take_bit 4 v" by (simp add: take_bit_eq_mask mask_eq_exp_minus_1)
  have k: "unat (v AND 0xf) = take_bit 4 (unat v)"
    unfolding m by (rule unsigned_take_bit_eq)
  have "take_bit 4 (unat v) < 16" using take_bit_nat_less_exp [of 4 "unat v"] by simp
  then show ?thesis
    unfolding k sum4 by (subst port_cnt_bits) (simp_all add: bit_take_bit_iff bit_unsigned_iff)
qed

lemma cnt_nibbles_sum: "cnt_nibbles n v c = c + (\<Sum>i<4 * n. of_bool (bit v i))"
proof (induction n arbitrary: v c)
  case (Suc n)
  have "(\<Sum>i<4 * Suc n. of_bool (bit v i)) = (\<Sum>i\<in>{0..<4 + 4 * n}. of_bool (bit v i) :: nat)"
    by (simp add: lessThan_atLeast0)
  also have "\<dots> = (\<Sum>i\<in>{0..<4}. of_bool (bit v i)) + (\<Sum>i\<in>{4..<4 + 4 * n}. of_bool (bit v i))"
    by (rule sum.atLeastLessThan_concat [symmetric]) simp_all
  also have "(\<Sum>i\<in>{4..<4 + 4 * n}. of_bool (bit v i) :: nat) = (\<Sum>i\<in>{0..<4 * n}. of_bool (bit v (i + 4)))"
    using sum.shift_bounds_nat_ivl [of "\<lambda>i. of_bool (bit v i) :: nat" 0 4 "4 * n"] by (simp add: add.commute)
  finally show ?case
    by (simp add: Suc.IH port_cnt_nibble bit_drop_bit_eq lessThan_atLeast0 add.commute comp_def)
qed simp

lemma cnt_ports_card: "cnt_ports vec = card {i. bit vec i}"
proof -
  have "cnt_ports vec = card {i \<in> {..<32}. bit vec i}"
    by (simp add: cnt_ports_def cnt_nibbles_sum sum.If_cases of_bool_def Int_def)
  also have "{i \<in> {..<32}. bit vec i} = {i. bit vec i}"
    by (auto dest: bit_imp_le_length)
  finally show ?thesis .
qed

text \<open>\<open>cnt_ports\<close>, which adds up a table of nibble counts, is the number of bits set in the
  port vector.
\<close>

theorem cnt_ports_popcount: "cnt_ports vec = card {i. bit vec i}"
  by (rule cnt_ports_card)

section \<open>The block list as a table\<close>

definition addr_of :: "sw_block \<Rightarrow> mac" where
  "addr_of sb = mac_addr (b_mac sb)"

fun entry :: "sw_block list \<Rightarrow> mac \<Rightarrow> sw_block option" where
  "entry [] a = None"
| "entry (sb # bl) a = (if addr_of sb = a then Some sb else entry bl a)"

definition bl_ok :: "sw_block list \<Rightarrow> bool" where
  "bl_ok bl \<longleftrightarrow> distinct (map addr_of bl) \<and> (\<forall>sb \<in> set bl. 0 < b_timer sb \<and> b_timer sb \<le> BLOCK_TIME)"

lemma entry_None: "entry bl a = None \<longleftrightarrow> a \<notin> addr_of ` set bl"
  by (induction bl a rule: entry.induct) auto

lemma entry_Some: "entry bl a = Some sb \<Longrightarrow> sb \<in> set bl \<and> addr_of sb = a"
  by (induction bl a rule: entry.induct) (auto split: if_splits)

lemma bl_lookup_None: "bl_lookup bl mac = None \<longleftrightarrow> entry bl (mac_addr mac) = None"
  by (induction bl mac rule: bl_lookup.induct) (auto simp: addr_of_def)

lemma bl_lookup_Some:
  "bl_lookup bl mac = Some n \<Longrightarrow> n < length bl \<and> entry bl (mac_addr mac) = Some (bl ! n) \<and> addr_of (bl ! n) = mac_addr mac"
  by (induction bl mac arbitrary: n rule: bl_lookup.induct) (auto simp: addr_of_def split: if_splits)

lemma entry_update_other:
  "a \<noteq> addr_of sb \<Longrightarrow> n < length bl \<Longrightarrow> addr_of (bl ! n) \<noteq> a \<Longrightarrow> entry (bl[n := sb]) a = entry bl a"
  by (induction bl arbitrary: n) (auto split: nat.splits)

lemma addrs_update: "n < length bl \<Longrightarrow> addr_of sb = addr_of (bl ! n) \<Longrightarrow> map addr_of (bl[n := sb]) = map addr_of bl"
  by (metis list_update_id map_update)

text \<open>What \<open>handle_mac\<close> does to the list when it gets its memory.\<close>

definition renewed :: "sw_mac \<Rightarrow> sw_block \<Rightarrow> sw_block" where
  "renewed mac sb = \<lparr> b_mac = (b_mac sb)\<lparr>mac_vec := mac_vec mac, mac_state := mac_state mac\<rparr>, b_timer = BLOCK_TIME \<rparr>"

definition note_mac :: "sw_mac \<Rightarrow> sw_block list \<Rightarrow> sw_block list" where
  "note_mac mac bl = (case bl_lookup bl mac of
       None \<Rightarrow> bl_new mac # bl
     | Some n \<Rightarrow> if cnt_ports (mac_vec (b_mac (bl ! n))) < cnt_ports (mac_vec mac)
                 then bl[n := renewed mac (bl ! n)] else bl)"

lemma fst_handle_mac:
  "fst (handle_mac d sws portq mac (bl, s)) =
     (if entry bl (mac_addr mac) = None \<and> \<not> fst (d_malloc d s) then bl else note_mac mac bl)"
  by (auto simp: handle_mac_def note_mac_def bl_alloc_def bl_new_def renewed_def Let_def
      bl_lookup_None [symmetric] split: option.splits prod.splits)

lemma addr_of_renewed [simp]: "addr_of (renewed mac sb) = addr_of sb" "addr_of (bl_new mac) = mac_addr mac"
  by (simp_all add: addr_of_def renewed_def bl_new_def)

lemma timer_renewed [simp]: "b_timer (renewed mac sb) = BLOCK_TIME" "b_timer (bl_new mac) = BLOCK_TIME"
  by (simp_all add: renewed_def bl_new_def)

lemma bl_ok_note:
  assumes "bl_ok bl"
  shows "bl_ok (note_mac mac bl)"
proof (cases "bl_lookup bl mac")
  case None
  then have "mac_addr mac \<notin> addr_of ` set bl" by (simp add: bl_lookup_None entry_None)
  then show ?thesis using assms by (simp add: note_mac_def None bl_ok_def BLOCK_TIME_def)
next
  case (Some n)
  then have n: "n < length bl" using bl_lookup_Some by blast
  have "\<forall>sb \<in> set (bl[n := renewed mac (bl ! n)]). 0 < b_timer sb \<and> b_timer sb \<le> BLOCK_TIME"
    using assms set_update_subset_insert [of bl n "renewed mac (bl ! n)"]
    by (auto simp: bl_ok_def BLOCK_TIME_def)
  then show ?thesis using assms n by (auto simp: note_mac_def Some bl_ok_def addrs_update)
qed

lemma entry_note_other:
  assumes "mac_addr mac \<noteq> a"
  shows "entry (note_mac mac bl) a = entry bl a"
proof (cases "bl_lookup bl mac")
  case (Some n)
  then have "n < length bl" "addr_of (bl ! n) = mac_addr mac" using bl_lookup_Some by blast+
  then show ?thesis using assms by (simp add: note_mac_def Some entry_update_other)
qed (use assms in \<open>simp add: note_mac_def\<close>)

lemma note_mac_quiet:
  "entry bl (mac_addr mac) = Some sb \<Longrightarrow> cnt_ports (mac_vec mac) \<le> cnt_ports (mac_vec (b_mac sb)) \<Longrightarrow> note_mac mac bl = bl"
  using bl_lookup_None [of bl mac] by (auto simp: note_mac_def dest: bl_lookup_Some split: option.splits)

text \<open>What ageing does to the list.\<close>

fun aged :: "sw_block list \<Rightarrow> sw_block list" where
  "aged [] = []"
| "aged (sb # bl) = (if b_timer sb = 1 then aged bl else sb\<lparr>b_timer := b_timer sb - 1\<rparr> # aged bl)"

lemma fst_age_blocks: "fst (age_blocks d sws portq bl s) = aged bl"
proof (induction bl arbitrary: s)
  case (Cons sb bl)
  show ?case by (simp add: Let_def case_prod_beta Cons.IH)
qed simp

lemma addrs_aged: "addr_of ` set (aged bl) \<subseteq> addr_of ` set bl"
  by (induction bl) (auto simp: addr_of_def)

lemma entry_aged:
  "distinct (map addr_of bl) \<Longrightarrow> entry (aged bl) a = (case entry bl a of None \<Rightarrow> None
     | Some sb \<Rightarrow> if b_timer sb = 1 then None else Some (sb\<lparr>b_timer := b_timer sb - 1\<rparr>))"
proof (induction bl)
  case (Cons sb bl)
  have "entry (aged bl) (addr_of sb) = None"
    using Cons.prems addrs_aged [of bl] by (auto simp: entry_None)
  moreover have "addr_of (sb\<lparr>b_timer := t\<rparr>) = addr_of sb" for t by (simp add: addr_of_def)
  ultimately show ?case using Cons by auto
qed simp

lemma bl_ok_aged:
  assumes "bl_ok bl"
  shows "bl_ok (aged bl)"
proof -
  have "distinct (map addr_of (aged bl))" if "distinct (map addr_of bl)" for bl
    using that
  proof (induction bl)
    case (Cons sb bl)
    have "addr_of sb \<notin> addr_of ` set (aged bl)" using Cons.prems addrs_aged [of bl] by auto
    then show ?case using Cons by (simp add: addr_of_def)
  qed simp
  moreover have "\<forall>x \<in> set (aged bl). 0 < b_timer x \<and> b_timer x \<le> BLOCK_TIME"
    if "\<forall>x \<in> set bl. 0 < b_timer x \<and> b_timer x \<le> BLOCK_TIME" for bl
    using that
  proof (induction bl)
    case (Cons sb bl)
    have "0 < b_timer sb - 1 \<and> b_timer sb - 1 \<le> BLOCK_TIME" if "b_timer sb \<noteq> 1"
    proof -
      have "1 \<le> b_timer sb" and "b_timer sb \<le> BLOCK_TIME" using Cons.prems by (auto simp: word_le_nat_alt word_less_nat_alt)
      then have "unat (b_timer sb - 1) = unat (b_timer sb) - 1" by (simp add: unat_sub)
      moreover have "unat (b_timer sb) \<noteq> 1" using that by (simp add: word_unat_eq_iff)
      ultimately show ?thesis using \<open>1 \<le> b_timer sb\<close> \<open>b_timer sb \<le> BLOCK_TIME\<close>
        by (simp add: word_le_nat_alt word_less_nat_alt)
    qed
    then show ?case using Cons by auto
  qed simp
  ultimately show ?thesis using assms unfolding bl_ok_def by blast
qed

section \<open>Ticks\<close>

text \<open>
  One call of \<open>proc_macs\<close>, with the driver, the ports and the merged addresses as its
  input; and when the input puts an address on the list or restarts its timer.
\<close>

type_synonym 's tick_in = "'s drv \<times> sw_info list \<times> port_ref list \<times> sw_mac list"

definition proc_tick :: "'s tick_in \<Rightarrow> sw_block list \<times> 's \<Rightarrow> sw_block list \<times> 's" where
  "proc_tick i st = (let (d, sws, portq, macs) = i in proc_macs d sws portq macs st)"

definition renews :: "'s tick_in \<Rightarrow> sw_block list \<times> 's \<Rightarrow> mac \<Rightarrow> bool" where
  "renews i st a \<longleftrightarrow> (\<exists>mac \<in> set (snd (snd (snd i))). looped mac \<and> mac_addr mac = a
     \<and> (case entry (fst st) a of None \<Rightarrow> True
        | Some sb \<Rightarrow> cnt_ports (mac_vec (b_mac sb)) < cnt_ports (mac_vec mac)))"

definition time_left :: "sw_block list \<times> 's \<Rightarrow> mac \<Rightarrow> nat option" where
  "time_left st a = map_option (\<lambda>sb. unat (b_timer sb)) (entry (fst st) a)"

lemma handle_mac_pair: "handle_mac d sws portq mac st = handle_mac d sws portq mac (fst st, snd st)"
  by simp

lemma bl_ok_handle: "bl_ok (fst st) \<Longrightarrow> bl_ok (fst (handle_mac d sws portq mac st))"
  by (subst handle_mac_pair) (simp only: fst_handle_mac bl_ok_note split: if_split, simp)

lemma bl_ok_handle_all: "bl_ok (fst st) \<Longrightarrow> bl_ok (fst (handle_all d sws portq macs st))"
  by (induction macs arbitrary: st) (auto simp: bl_ok_handle)

lemma fst_proc_macs: "fst (proc_macs d sws portq macs st) = aged (fst (handle_all d sws portq macs st))"
  by (simp add: proc_macs_def case_prod_beta Let_def fst_age_blocks)

lemma entry_handle_other: "mac_addr mac \<noteq> a \<Longrightarrow> entry (fst (handle_mac d sws portq mac st)) a = entry (fst st) a"
  by (cases st) (simp add: fst_handle_mac entry_note_other)

lemma entry_handle_all:
  assumes "\<forall>mac \<in> set macs. looped mac \<and> mac_addr mac = a \<longrightarrow>
    (\<exists>sb. entry (fst st) a = Some sb \<and> cnt_ports (mac_vec mac) \<le> cnt_ports (mac_vec (b_mac sb)))"
  shows "entry (fst (handle_all d sws portq macs st)) a = entry (fst st) a"
  using assms
proof (induction macs arbitrary: st)
  case (Cons mac macs)
  have same: "entry (fst (handle_mac d sws portq mac st)) a = entry (fst st) a" if l: "looped mac"
  proof (cases "mac_addr mac = a")
    case True
    then obtain sb where "entry (fst st) (mac_addr mac) = Some sb"
      "cnt_ports (mac_vec mac) \<le> cnt_ports (mac_vec (b_mac sb))" using Cons.prems l by auto
    from note_mac_quiet [OF this] this(1) show ?thesis
      by (cases st) (simp add: fst_handle_mac)
  qed (rule entry_handle_other)
  then show ?case using Cons.prems Cons.IH by auto
qed simp

interpretation blocks: lease_table "\<lambda>st. bl_ok (fst st)" time_left renews proc_tick "unat BLOCK_TIME"
proof
  fix st :: "sw_block list \<times> 's" and i :: "'s tick_in"
  assume ok: "bl_ok (fst st)"
  obtain d sws portq macs where i: "i = (d, sws, portq, macs)" by (cases i) auto
  show "bl_ok (fst (proc_tick i st))"
    using ok by (simp add: proc_tick_def i fst_proc_macs bl_ok_aged bl_ok_handle_all)
  fix a
  show "time_left st a = Some n \<Longrightarrow> 0 < n \<and> n \<le> unat BLOCK_TIME" for n
    using ok by (auto simp: time_left_def bl_ok_def word_le_nat_alt word_less_nat_alt dest: entry_Some)
  assume "\<not> renews i st a"
  then have "entry (fst (handle_all d sws portq macs st)) a = entry (fst st) a"
    by (intro entry_handle_all) (auto simp: renews_def i not_less split: option.splits)
  moreover have "distinct (map addr_of (fst (handle_all d sws portq macs st)))"
    using bl_ok_handle_all [OF ok] by (simp add: bl_ok_def)
  ultimately have e: "entry (fst (proc_tick i st)) a = (case entry (fst st) a of None \<Rightarrow> None
     | Some sb \<Rightarrow> if b_timer sb = 1 then None else Some (sb\<lparr>b_timer := b_timer sb - 1\<rparr>))"
    by (simp add: proc_tick_def i fst_proc_macs entry_aged)
  have "unat (b_timer sb - 1) = unat (b_timer sb) - 1 \<and> (unat (b_timer sb) = 1 \<longleftrightarrow> b_timer sb = 1)"
    if "entry (fst st) a = Some sb" for sb
  proof -
    have "0 < b_timer sb" using ok that by (auto simp: bl_ok_def dest: entry_Some)
    then have "1 \<le> b_timer sb" by (simp add: word_le_nat_alt word_less_nat_alt)
    then show ?thesis by (auto simp: unat_sub word_unat_eq_iff)
  qed
  then show "time_left (proc_tick i st) a = (case time_left st a of None \<Rightarrow> None
      | Some n \<Rightarrow> if n = 1 then None else Some (n - 1))"
    by (simp add: time_left_def e split: option.splits)
qed

section \<open>Properties of the block list\<close>

text \<open>(C8)
  The block list never holds an address twice, and every timer is between 1 and 10
  seconds; every call of \<open>proc_macs\<close> keeps that.
\<close>

theorem proc_macs_invariant:
  assumes "bl_ok (fst st)"
  shows "bl_ok (fst (proc_macs d sws portq macs st))"
  using blocks.ok_tick [OF assms, of "(d, sws, portq, macs)"] by (simp add: proc_tick_def)

text \<open>A driver that accepts every request and logs what it was told to set.\<close>

type_synonym call_log = "(string \<times> u16 \<times> atuent) list"

definition log_drv :: "call_log drv" where
  "log_drv = \<lparr> d_info = (\<lambda>n s. (0, zero_info, s)), d_getreg = (\<lambda>n t p r s. (0, 0, s)),
     d_setreg = (\<lambda>n t p r v s. (0, s)), d_getatu = (\<lambda>n k f s. (0, [], s)),
     d_setatu = (\<lambda>n f e s. (0, s @ [(n, f, e)])), d_malloc = (\<lambda>s. (True, s)) \<rparr>"

definition demo_mac :: sw_mac where
  "demo_mac = \<lparr> mac_addr = [0, 0, 0, 0, 0, 5], mac_state = 0, mac_vec = 3 \<rparr>"

lemma proc_macs_invariant_witness:
  "bl_ok (fst (proc_macs log_drv [] [] [demo_mac] ([bl_new demo_mac], [])))"
  by (rule proc_macs_invariant) (simp add: bl_ok_def bl_new_def BLOCK_TIME_def)

text \<open>Ticks in which nothing renews the entry.\<close>

fun no_renewal :: "'s tick_in list \<Rightarrow> sw_block list \<times> 's \<Rightarrow> mac \<Rightarrow> bool" where
  "no_renewal [] st a \<longleftrightarrow> True"
| "no_renewal (i # is) st a \<longleftrightarrow> \<not> renews i st a \<and> no_renewal is (proc_tick i st) a"

lemma no_renewal_quiet: "no_renewal is st a = blocks.quiet is st a"
  by (induction "is" arbitrary: st) simp_all

lemma fold_tick_run: "fold proc_tick is st = blocks.run is st"
  by (induction "is" arbitrary: st) simp_all

text \<open>
  What the driver is asked to set. A driver that takes every request and keeps a log of them;
  and the requests for one address.
\<close>

definition records :: "('s \<Rightarrow> call_log) \<Rightarrow> 's drv \<Rightarrow> bool" where
  "records log d \<longleftrightarrow> (\<forall>n f e s. 0 \<le> fst (d_setatu d n f e s) \<and> log (snd (d_setatu d n f e s)) = log s @ [(n, f, e)])
     \<and> (\<forall>s. log (snd (d_malloc d s)) = log s)"

definition requests :: "mac \<Rightarrow> call_log \<Rightarrow> call_log" where
  "requests a l = List.filter (\<lambda>(n, f, e). e_mac e = a) l"

definition set_requests :: "sw_info list \<Rightarrow> port_ref list \<Rightarrow> sw_mac \<Rightarrow> bool \<Rightarrow> call_log" where
  "set_requests sws portq mac blk = map (\<lambda>r. (ifname_of (s_name (sws ! fst r)) 0, p_fid (the_port sws r), block_ent mac blk))
     (List.filter (block_here sws mac) portq)"

lemma requests_append [simp]: "requests a (xs @ ys) = requests a xs @ requests a ys"
  by (simp add: requests_def)

lemma requests_set [simp]: "requests a (set_requests sws portq mac blk) = (if mac_addr mac = a then set_requests sws portq mac blk else [])"
  by (auto simp: requests_def set_requests_def block_ent_def comp_def)

lemma mac_block_log:
  assumes "records log d"
  shows "log (snd (mac_block d sws portq mac blk s)) = log s @ set_requests sws portq mac blk"
proof (induction portq arbitrary: s)
  case (Cons r rs)
  let ?r = "d_setatu d (ifname_of (s_name (sws ! fst r)) 0) (p_fid (the_port sws r)) (block_ent mac blk) s"
  have "0 \<le> fst ?r" "log (snd ?r) = log s @ [(ifname_of (s_name (sws ! fst r)) 0, p_fid (the_port sws r), block_ent mac blk)]"
    using assms by (auto simp: records_def)
  then show ?case by (cases ?r) (auto simp: set_requests_def Cons.IH)
qed (simp add: set_requests_def)

lemma handle_mac_log:
  assumes "records log d" and "mac_addr mac \<noteq> a \<or>
    (\<exists>sb. entry (fst st) a = Some sb \<and> cnt_ports (mac_vec mac) \<le> cnt_ports (mac_vec (b_mac sb)))"
  shows "requests a (log (snd (handle_mac d sws portq mac st))) = requests a (log (snd st))"
proof -
  obtain bl s where st: "st = (bl, s)" by (cases st)
  have m: "log (snd (d_malloc d s)) = log s" for s using assms(1) by (simp add: records_def)
  show ?thesis
  proof (cases "bl_lookup bl mac")
    case None
    then have "mac_addr mac \<noteq> a" using assms(2) by (auto simp: st bl_lookup_None)
    then show ?thesis using None m [of s] mac_block_log [OF assms(1)]
      by (auto simp: st handle_mac_def bl_alloc_def bl_new_def Let_def case_prod_beta split: option.splits if_splits)
  next
    case (Some n)
    then have n: "entry bl (mac_addr mac) = Some (bl ! n)" "mac_addr (b_mac (bl ! n)) = mac_addr mac"
      using bl_lookup_Some [OF Some] by (simp_all add: addr_of_def)
    then show ?thesis using Some assms(2) mac_block_log [OF assms(1)]
      by (auto simp: st handle_mac_def Let_def case_prod_beta split: if_splits)
  qed
qed

lemma handle_all_log:
  assumes "records log d" and "\<forall>mac \<in> set macs. looped mac \<and> mac_addr mac = a \<longrightarrow>
    (\<exists>sb. entry (fst st) a = Some sb \<and> cnt_ports (mac_vec mac) \<le> cnt_ports (mac_vec (b_mac sb)))"
  shows "requests a (log (snd (handle_all d sws portq macs st))) = requests a (log (snd st))"
  using assms(2)
proof (induction macs arbitrary: st)
  case (Cons mac macs)
  show ?case
  proof (cases "looped mac")
    case True
    have "entry (fst (handle_all d sws portq [mac] st)) a = entry (fst st) a"
      using Cons.prems by (intro entry_handle_all) auto
    then have e: "entry (fst (handle_mac d sws portq mac st)) a = entry (fst st) a" using True by simp
    have "requests a (log (snd (handle_mac d sws portq mac st))) = requests a (log (snd st))"
      using Cons.prems True by (intro handle_mac_log [OF assms(1)]) auto
    then show ?thesis using Cons.IH [of "handle_mac d sws portq mac st"] Cons.prems True e by simp
  qed (use Cons in simp)
qed simp

lemma age_blocks_log:
  assumes "records log d"
  shows "distinct (map addr_of bl) \<Longrightarrow> requests a (log (snd (age_blocks d sws portq bl s))) = requests a (log s) @
    (case entry bl a of None \<Rightarrow> [] | Some sb \<Rightarrow> if b_timer sb = 1 then set_requests sws portq (b_mac sb) False else [])"
proof (induction bl arbitrary: s)
  case (Cons sb bl)
  have "entry bl (addr_of sb) = None" using Cons.prems by (auto simp: entry_None)
  then show ?case using Cons mac_block_log [OF assms, of sws portq "b_mac sb" False s]
    by (auto simp: Let_def case_prod_beta addr_of_def split: option.splits)
qed simp

text \<open>What one call of \<open>proc_macs\<close> asks of the driver for an address it has no reason to renew.\<close>

definition unblocks :: "'s tick_in \<Rightarrow> sw_mac \<Rightarrow> call_log" where
  "unblocks i mac = (let (d, sws, portq, macs) = i in set_requests sws portq mac False)"

lemma tick_log:
  assumes "records log (fst i)" and "bl_ok (fst st)" and "\<not> renews i st a"
  shows "requests a (log (snd (proc_tick i st))) = requests a (log (snd st)) @
    (case entry (fst st) a of None \<Rightarrow> [] | Some sb \<Rightarrow> if b_timer sb = 1 then unblocks i (b_mac sb) else [])"
proof -
  obtain d sws portq macs where i: "i = (d, sws, portq, macs)" by (cases i) auto
  let ?h = "handle_all d sws portq macs st"
  have q: "\<forall>mac \<in> set macs. looped mac \<and> mac_addr mac = a \<longrightarrow>
    (\<exists>sb. entry (fst st) a = Some sb \<and> cnt_ports (mac_vec mac) \<le> cnt_ports (mac_vec (b_mac sb)))"
    using assms(3) by (auto simp: renews_def i not_less split: option.splits)
  have "entry (fst ?h) a = entry (fst st) a" by (rule entry_handle_all [OF q])
  moreover have "distinct (map addr_of (fst ?h))" using bl_ok_handle_all [OF assms(2)] by (simp add: bl_ok_def)
  moreover have "requests a (log (snd ?h)) = requests a (log (snd st))"
    using assms(1) by (intro handle_all_log [OF _ q]) (simp add: i)
  ultimately show ?thesis using age_blocks_log [of log d "fst ?h" a sws portq "snd ?h"] assms(1)
    unfolding i by (simp add: proc_tick_def proc_macs_def unblocks_def case_prod_beta cong: option.case_cong if_cong)
qed

lemma entry_tick:
  assumes "bl_ok (fst st)" and "\<not> renews i st a"
  shows "entry (fst (proc_tick i st)) a = (case entry (fst st) a of None \<Rightarrow> None
    | Some sb \<Rightarrow> if b_timer sb = 1 then None else Some (sb\<lparr>b_timer := b_timer sb - 1\<rparr>))"
proof -
  obtain d sws portq macs where i: "i = (d, sws, portq, macs)" by (cases i) auto
  have "entry (fst (handle_all d sws portq macs st)) a = entry (fst st) a"
    using assms(2) by (intro entry_handle_all) (auto simp: renews_def i not_less split: option.splits)
  moreover have "distinct (map addr_of (fst (handle_all d sws portq macs st)))"
    using bl_ok_handle_all [OF assms(1)] by (simp add: bl_ok_def)
  ultimately show ?thesis by (simp add: proc_tick_def i fst_proc_macs entry_aged)
qed

lemma ticks_log:
  assumes "\<forall>i \<in> set is. records log (fst i)" and "bl_ok (fst st)" and "no_renewal is st a"
  shows "requests a (log (snd (fold proc_tick is st))) = requests a (log (snd st)) @
    (case entry (fst st) a of None \<Rightarrow> []
     | Some sb \<Rightarrow> if length is < unat (b_timer sb) then [] else unblocks (is ! (unat (b_timer sb) - 1)) (b_mac sb))"
  using assms
proof (induction "is" arbitrary: st)
  case Nil
  have "entry (fst st) a = Some sb \<Longrightarrow> 0 < unat (b_timer sb)" for sb
    using Nil.prems(2) by (auto simp: bl_ok_def word_less_nat_alt dest: entry_Some)
  then show ?case by (auto split: option.splits)
next
  case (Cons i "is")
  let ?st = "proc_tick i st"
  have ok: "bl_ok (fst ?st)" using blocks.ok_tick [OF Cons.prems(2)] .
  have r: "\<not> renews i st a" "no_renewal is ?st a" using Cons.prems(3) by simp_all
  note IH = Cons.IH [OF _ ok r(2)] and t = tick_log [OF _ Cons.prems(2) r(1), of log] entry_tick [OF Cons.prems(2) r(1)]
  show ?case
  proof (cases "entry (fst st) a")
    case None
    then show ?thesis using IH t Cons.prems(1) by simp
  next
    case (Some sb)
    then have "0 < b_timer sb" using Cons.prems(2) by (auto simp: bl_ok_def dest: entry_Some)
    then have p: "unat (b_timer sb - 1) = unat (b_timer sb) - 1" "0 < unat (b_timer sb)" "unat (b_timer sb) = 1 \<longleftrightarrow> b_timer sb = 1"
      by (auto simp: unat_sub word_le_nat_alt word_less_nat_alt word_unat_eq_iff)
    show ?thesis
    proof (cases "b_timer sb = 1")
      case True
      then show ?thesis using IH t Cons.prems(1) Some by simp
    next
      case False
      then have "2 \<le> unat (b_timer sb)" using p(2,3) by linarith
      then show ?thesis using IH t Cons.prems(1) Some False p(1) by (auto simp: nth_Cons' less_Suc_eq_le)
    qed
  qed
qed

text \<open>(C7)
  A blocked address stays on the list for exactly the seconds its timer shows, at most ten, unless
  it turns up on more ports in between; merely being seen again does not keep it there. Until its
  last second the driver is asked nothing about it. In that second it is asked, once for each of the ports of the switches that
  the address was blocked on (not the cpu ports), to set the address to unblocked, and
  nothing more afterwards.
\<close>

theorem blocks_expire:
  assumes "bl_ok (fst st)" and "no_renewal is st a" and "entry (fst st) a = Some sb"
    and "\<forall>i \<in> set is. records log (fst i)"
  shows "unat (b_timer sb) \<le> 10
    \<and> time_left (fold proc_tick is st) a = (if length is < unat (b_timer sb) then Some (unat (b_timer sb) - length is) else None)
    \<and> requests a (log (snd (fold proc_tick is st))) = requests a (log (snd st)) @
        (if length is < unat (b_timer sb) then [] else unblocks (is ! (unat (b_timer sb) - 1)) (b_mac sb))"
  using blocks.remaining [of st "is" a "unat (b_timer sb)"] blocks.bounded [of st a "unat (b_timer sb)"]
    ticks_log [OF assms(4,1,2)] assms(1-3)
  by (simp add: no_renewal_quiet fold_tick_run BLOCK_TIME_def time_left_def)

text \<open>A switch with a cpu port 0 and ports 1 and 2, and an address blocked on the latter two.\<close>

definition demo_switch :: sw_info where
  "demo_switch = zero_switch\<lparr>s_name := ''sw'', s_info := zero_info\<lparr>i_ports := 7, i_cpu := 1\<rparr>,
     s_ports := map (\<lambda>n. zero_port\<lparr>p_num := of_nat n, p_base := of_nat n, p_mask := push_bit n 1, p_fid := of_nat n\<rparr>) [0..<3]\<rparr>"

definition two_ports :: sw_mac where
  "two_ports = \<lparr> mac_addr = [0, 0, 0, 0, 0, 5], mac_state = 0, mac_vec = 6 \<rparr>"

definition idle :: "call_log tick_in" where
  "idle = (log_drv, [demo_switch], [(0, 0), (0, 1), (0, 2)], [])"

lemma idle_unblocks:
  "unblocks idle two_ports = [(''sw0'', 1, \<lparr> e_mac = [0, 0, 0, 0, 0, 5], e_portvec = 0, e_state = 0 \<rparr>),
     (''sw0'', 2, \<lparr> e_mac = [0, 0, 0, 0, 0, 5], e_portvec = 0, e_state = 0 \<rparr>)]"
  by code_simp

lemma blocks_expire_witness:
  "requests [0, 0, 0, 0, 0, 5] (snd (fold proc_tick (replicate 12 idle) ([bl_new two_ports], []))) = unblocks idle two_ports"
proof -
  have "no_renewal is st a" if "set is \<subseteq> {idle}" for "is" st a
    using that by (induction "is" arbitrary: st) (auto simp: renews_def idle_def)
  then have "no_renewal (replicate 12 idle) ([bl_new two_ports], []) [0, 0, 0, 0, 0, 5]" by simp
  moreover have "bl_ok [bl_new two_ports]" by (simp add: bl_ok_def bl_new_def BLOCK_TIME_def)
  moreover have "entry [bl_new two_ports] [0, 0, 0, 0, 0, 5] = Some (bl_new two_ports)"
    by (simp add: addr_of_def bl_new_def two_ports_def)
  moreover have "records (\<lambda>s. s) log_drv" by (simp add: records_def log_drv_def)
  ultimately show ?thesis
    using blocks_expire [of "([bl_new two_ports], [])" "replicate 12 idle" "[0, 0, 0, 0, 0, 5]" "bl_new two_ports" "\<lambda>s. s"]
    by (simp add: bl_new_def BLOCK_TIME_def requests_def idle_def)
qed

lemma entry_handle_all_other:
  "\<forall>mac \<in> set macs. mac_addr mac \<noteq> a \<Longrightarrow> entry (fst (handle_all d sws portq macs st)) a = entry (fst st) a"
  by (rule entry_handle_all) auto

lemma handle_all_append:
  "handle_all d sws portq (xs @ ys) st = handle_all d sws portq ys (handle_all d sws portq xs st)"
  by (induction xs arbitrary: st) simp_all

text \<open>(C6)
  Every address the merge reports on more than one port, or as blocked in the switch, and
  that is not on the block list yet, is put there with its port vector; it has nine
  seconds left when the round is over.
\<close>

theorem loop_is_blocked:
  assumes "bl_ok (fst st)" and "mac \<in> set macs" and "looped mac" and "distinct (map mac_addr macs)"
    and "entry (fst st) (mac_addr mac) = None" and "\<And>s. fst (d_malloc d s)"
  shows "entry (fst (proc_macs d sws portq macs st)) (mac_addr mac) = Some \<lparr> b_mac = mac, b_timer = 9 \<rparr>"
proof -
  obtain xs ys where m: "macs = xs @ mac # ys" using split_list [OF assms(2)] by blast
  have "mac_addr mac \<notin> mac_addr ` set xs" and "mac_addr mac \<notin> mac_addr ` set ys"
    using assms(4) by (simp_all add: m)
  then have xs: "\<forall>x \<in> set xs. mac_addr x \<noteq> mac_addr mac" and ys: "\<forall>y \<in> set ys. mac_addr y \<noteq> mac_addr mac"
    by (metis imageI)+
  let ?s1 = "handle_all d sws portq xs st"
  have e1: "entry (fst ?s1) (mac_addr mac) = None"
    by (simp add: entry_handle_all_other [OF xs] assms(5))
  then have "fst (handle_mac d sws portq mac ?s1) = bl_new mac # fst ?s1"
    using assms(6) by (subst handle_mac_pair) (simp only: fst_handle_mac note_mac_def bl_lookup_None [symmetric], simp)
  then have "entry (fst (handle_all d sws portq macs st)) (mac_addr mac) = Some (bl_new mac)"
    using assms(3) by (simp add: m handle_all_append entry_handle_all_other [OF ys])
  moreover have "distinct (map addr_of (fst (handle_all d sws portq macs st)))"
    using bl_ok_handle_all [OF assms(1)] by (simp add: bl_ok_def)
  ultimately show ?thesis
    by (simp add: fst_proc_macs entry_aged bl_new_def BLOCK_TIME_def)
qed

lemma demo_looped: "looped demo_mac"
  by code_simp

lemma loop_is_blocked_witness:
  "entry (fst (proc_macs log_drv [] [] [demo_mac] ([], []))) [0, 0, 0, 0, 0, 5] = Some \<lparr> b_mac = demo_mac, b_timer = 9 \<rparr>"
  using loop_is_blocked [of "([], [])" demo_mac "[demo_mac]" log_drv "[]" "[]"] demo_looped
  by (simp add: bl_ok_def log_drv_def demo_mac_def)

section \<open>Two switches\<close>

text \<open>A loop across the two switches of an edge5x0 stays unseen when the address is learned
  on the same port number of both: the vectors the driver reports are per switch and the
  merge does not move them to the base of the switch, so their union has one bit.
\<close>

theorem cross_switch_loop_missed:
  assumes "ent_key e = k" and "ent_key f = k" and "e_portvec e = push_bit n 1" and "e_portvec f = push_bit n 1" and "n < 8"
  shows "\<not> looped (exact_entry [e, f] k)"
proof -
  have "bit (e_portvec e) n" using assms(3,5) by (simp add: bit_simps)
  then have "e_portvec e \<noteq> 0" by auto
  then have st: "mac_state (exact_entry [e, f] k) = 0"
    using assms by (simp add: exact_entry_def union_state_def blocked_bit_def)
  have "{i. bit (mac_vec (exact_entry [e, f] k)) i} = {n}"
    using assms by (auto simp: exact_entry_def bit_union_vec bit_simps)
  then have "cnt_ports (mac_vec (exact_entry [e, f] k)) = 1"
    by (simp add: cnt_ports_card)
  then show ?thesis using st by (simp add: looped_def)
qed

lemma cross_switch_loop_missed_witness:
  "\<not> looped (exact_entry [low_ent 5 4, low_ent 5 4] 5)"
  by (rule cross_switch_loop_missed [of _ _ _ 2]) (simp_all add: low_ent_key, simp_all add: low_ent_def)

end
