(* ===== verification/Abr_Main.thy ===== *)
theory Abr_Main
  imports Abr_Block
begin

text \<open>
  abrloop.c, \<open>main\<close>: setting up the switches of a board, and the round that runs every
  second. The lemmas about the set-up show what \<open>sw_init\<close> leaves in the ports; the
  properties are about the whole daemon.
\<close>

section \<open>The daemon\<close>

definition edge500 :: "string list" where "edge500 = [''sw'']"
definition edge5x0 :: "string list" where "edge5x0 = [''sw0p'', ''sw1p'']"

text \<open>How the daemon ends: an exit code, or the failing assertion or access of the merge.\<close>

datatype abr_stop = Exit int | Abort merge_err | Stuck

record 's abr =
  a_switches :: "sw_info list"
  a_portq :: "port_ref list"
  a_nbuf :: nat
  a_bl :: "sw_block list"
  a_kernel :: 's

text \<open>
  The loop over the switch names: the base is stored in the switch after \<open>sw_init\<close> has
  run. The result of \<open>sw_fid_update\<close> is ignored.
\<close>

fun init_switches ::
  "'s drv \<Rightarrow> string list \<Rightarrow> u8 \<Rightarrow> sw_info list \<Rightarrow> port_ref list \<Rightarrow> 's \<Rightarrow> abr_stop + sw_info list \<times> port_ref list \<times> 's" where
  "init_switches d [] base sws q s = Inr (sws, q, s)"
| "init_switches d (name # names) base sws q s =
     (let (rv, sw, q, s) = sw_init d (length sws) name 0 q s in
      if rv \<noteq> 0 then Inl (Exit (-1))
      else (let sw = sw\<lparr>s_base := base\<rparr>; (update, sw) = sw_fid_check sw;
                s = (if update \<noteq> 0 then snd (sw_fid_update d sw s) else s)
            in init_switches d names (base + 8) (sws @ [sw]) q s))"

definition sw_mbuf_alloc :: "'s drv \<Rightarrow> nat \<Rightarrow> 's \<Rightarrow> nat option \<times> 's" where
  "sw_mbuf_alloc d nmacs s = (let (ok, s) = d_malloc d s in (if ok then Some nmacs else None, s))"

definition abr_init :: "'s drv \<Rightarrow> string \<Rightarrow> 's \<Rightarrow> abr_stop + 's abr" where
  "abr_init d name s =
     (if name \<noteq> ''edge500'' \<and> name \<noteq> ''edge5x0'' then Inl (Exit (-10))
      else case init_switches d (if name = ''edge500'' then edge500 else edge5x0) 0 [] [] s of
        Inl e \<Rightarrow> Inl e
      | Inr (sws, q, s) \<Rightarrow>
          (let (n, s) = sw_mbuf_alloc d (sum_list (map (\<lambda>sw. unat (i_nmacs (s_info sw))) sws)) s in
           case n of None \<Rightarrow> Inl (Exit (-1))
           | Some n \<Rightarrow> Inr \<lparr> a_switches = sws, a_portq = q, a_nbuf = n, a_bl = [], a_kernel = s \<rparr>))"

text \<open>Reading all switches: one that did not deliver all its ports ends the daemon.\<close>

fun get_all :: "'s drv \<Rightarrow> sw_info list \<Rightarrow> 's \<Rightarrow> abr_stop + sw_info list \<times> 's" where
  "get_all d [] s = Inr ([], s)"
| "get_all d (sw # sws) s =
     (let (got, sw, s) = sw_get_atu d sw s in
      if got \<noteq> ucast (i_ports (s_info sw)) then Inl (Exit (-1))
      else map_sum id (\<lambda>(sws, s). (sw # sws, s)) (get_all d sws s))"

definition port_tables :: "sw_info list \<Rightarrow> port_ref list \<Rightarrow> atuent list list" where
  "port_tables sws q = map (\<lambda>r. port_ents (the_port sws r)) q"

definition abr_tick :: "'s drv \<Rightarrow> 's abr \<Rightarrow> abr_stop + 's abr" where
  "abr_tick d a = (case get_all d (a_switches a) (a_kernel a) of
       Inl e \<Rightarrow> Inl e
     | Inr (sws, s) \<Rightarrow>
        (case sw_merge (a_nbuf a) (port_tables sws (a_portq a)) of
           None \<Rightarrow> Inl Stuck
         | Some (Inl e) \<Rightarrow> Inl (Abort e)
         | Some (Inr macs) \<Rightarrow>
             (let (bl, s) = proc_macs d sws (a_portq a) macs (a_bl a, s)
              in Inr (a\<lparr>a_switches := sws, a_bl := bl, a_kernel := s\<rparr>))))"

fun abr_run :: "'s drv \<Rightarrow> nat \<Rightarrow> 's abr \<Rightarrow> abr_stop + 's abr" where
  "abr_run d 0 a = Inr a"
| "abr_run d (Suc n) a = (case abr_tick d a of Inl e \<Rightarrow> Inl e | Inr a \<Rightarrow> abr_run d n a)"

section \<open>What the set-up leaves in the ports\<close>

definition wf_port :: "sw_info \<Rightarrow> nat \<Rightarrow> bool" where
  "wf_port sw i \<longleftrightarrow> (let p = s_ports sw ! i in
     if bit (i_ports (s_info sw)) i then p_mask p = push_bit i 1 \<and> p_num p = of_nat i \<and> p_base p = of_nat i
     else p_mask p = 0)"

definition wf_upto :: "nat \<Rightarrow> sw_info \<Rightarrow> bool" where
  "wf_upto n sw \<longleftrightarrow> length (s_ports sw) = 16 \<and> (\<forall>i < n. wf_port sw i) \<and> (\<forall>i < 16. n \<le> i \<longrightarrow> p_mask (s_ports sw ! i) = 0)
     \<and> unat (s_nports sw) = card {i. i < n \<and> bit (i_ports (s_info sw)) i}
     \<and> (\<forall>i < n. bit (i_ports (s_info sw)) i \<longrightarrow> i \<le> unat (s_maxport sw)) \<and> unat (s_maxport sw) < 16"

lemma upd_port_simps [simp]:
  "s_info (upd_port n f sw) = s_info sw" "s_base (upd_port n f sw) = s_base sw"
  "s_nports (upd_port n f sw) = s_nports sw" "s_maxport (upd_port n f sw) = s_maxport sw"
  "s_name (upd_port n f sw) = s_name sw"
  "length (s_ports (upd_port n f sw)) = length (s_ports sw)"
  by (simp_all add: upd_port_def)

lemma nth_upd_port: "i < length (s_ports sw) \<Longrightarrow> s_ports (upd_port n f sw) ! i = (if i = n then f (s_ports sw ! i) else s_ports sw ! i)"
  by (simp add: upd_port_def nth_list_update)

lemma init_port_regs_result:
  assumes "init_port_regs d ifr port sw s = (rv, sw', s')"
  shows "\<exists>f. sw' = sw \<or> sw' = upd_port port (\<lambda>p. p\<lparr>p_fid := f\<rparr>) sw"
  using assms by (auto simp: init_port_regs_def Let_def split: prod.splits if_splits)

lemma card_upto_Suc:
  "card {i. i < Suc n \<and> bit v i} = card {i. i < n \<and> bit v i} + (if bit v n then 1 else (0::nat))"
proof -
  have "{i. i < Suc n \<and> bit v i} = {i. i < n \<and> bit v i} \<union> (if bit v n then {n} else {})"
    by (auto simp: less_Suc_eq)
  then show ?thesis by (simp split: if_splits)
qed

lemma init_port_wf:
  assumes "init_port d k nm n sw q s = (0, sw', q', s')" and "wf_upto n sw" and "n < 16" and "s_base sw = 0"
  shows "wf_upto (Suc n) sw' \<and> s_base sw' = 0"
proof (cases "bit (i_ports (s_info sw)) n")
  case False
  then have "sw' = sw" using assms(1) by (simp add: init_port_def)
  moreover have "wf_port sw n" using assms(2,3) False by (simp add: wf_upto_def wf_port_def)
  ultimately show ?thesis using assms(2-4) False
    by (auto simp: wf_upto_def card_upto_Suc elim!: less_SucE)
next
  case True
  let ?f = "\<lambda>p. p\<lparr>p_num := of_nat n, p_base := s_base sw + of_nat n, p_mask := push_bit n 1, p_fid := 0,
     p_nbuf := of_int nm, p_name := ifname_of (s_name sw) n\<rparr>"
  let ?sw = "upd_port n ?f (sw\<lparr>s_nports := s_nports sw + 1, s_maxport := of_nat n\<rparr>)"
  obtain f where sw': "sw' = ?sw \<or> sw' = upd_port n (\<lambda>p. p\<lparr>p_fid := f\<rparr>) ?sw"
    using assms(1) True init_port_regs_result
    by (fastforce simp: init_port_def Let_def split: prod.splits if_splits)
  have len: "length (s_ports sw) = 16" using assms(2) by (simp add: wf_upto_def)
  have "card {i. i < n \<and> bit (i_ports (s_info sw)) i} \<le> card {..<n}" by (rule card_mono) auto
  then have "unat (s_nports sw) < 16" using assms(2,3) by (simp add: wf_upto_def)
  then have "unat (s_nports sw + 1) = Suc (unat (s_nports sw))"
    by (simp add: unat_word_ariths)
  moreover have "\<forall>i < 16. wf_port sw' i = (if i = n then True else wf_port sw i)"
    using sw' len True assms(4) by (auto simp: wf_port_def nth_upd_port Let_def)
  moreover have "\<forall>i < 16. i \<noteq> n \<longrightarrow> p_mask (s_ports sw' ! i) = p_mask (s_ports sw ! i)"
    using sw' len by (auto simp: nth_upd_port)
  moreover have "s_info sw' = s_info sw" "s_nports sw' = s_nports sw + 1" "s_base sw' = 0" "length (s_ports sw') = 16"
    "s_maxport sw' = of_nat n"
    using sw' len assms(4) by auto
  moreover have "unat (of_nat n :: u8) = n" using assms(3) by (simp add: unat_of_nat)
  ultimately show ?thesis
    using assms(2,3) True by (auto simp: wf_upto_def card_upto_Suc elim!: less_SucE)
qed

lemma init_ports_wf:
  "init_ports d k nm [n..<16] sw q s = (0, sw', q', s') \<Longrightarrow> wf_upto n sw \<Longrightarrow> n \<le> 16 \<Longrightarrow> s_base sw = 0 \<Longrightarrow>
   wf_upto 16 sw' \<and> s_base sw' = 0"
proof (induction "16 - n" arbitrary: n sw q s)
  case (Suc m)
  then have n: "n < 16" by simp
  then have u: "[n..<16] = n # [Suc n..<16]" by (rule upt_conv_Cons)
  obtain rv sw1 q1 s1 where i: "init_port d k nm n sw q s = (rv, sw1, q1, s1)" by (metis prod_cases4)
  then have rv: "rv = 0" and r: "init_ports d k nm [Suc n..<16] sw1 q1 s1 = (0, sw', q', s')"
    using Suc.prems(1) by (auto simp: u split: if_splits)
  have "wf_upto (Suc n) sw1 \<and> s_base sw1 = 0"
    using init_port_wf [OF i [unfolded rv] Suc.prems(2) n Suc.prems(4)] .
  then show ?case using Suc.hyps(1) [OF _ r] Suc.hyps(2) n by simp
qed simp

definition wf_switch :: "sw_info \<Rightarrow> bool" where
  "wf_switch sw \<longleftrightarrow> wf_upto 16 sw"

lemma sw_init_wf:
  assumes "sw_init d k name nm q s = (0, sw, q', s')"
  shows "wf_switch sw \<and> s_base sw = 0"
proof -
  have "wf_upto 0 (zero_switch\<lparr>s_name := name, s_info := i\<rparr>)" for i
    by (simp add: wf_upto_def zero_switch_def zero_port_def)
  moreover have "s_base zero_switch = 0" by (simp add: zero_switch_def)
  ultimately show ?thesis
    using assms init_ports_wf [of d k _ 0]
    by (auto simp: sw_init_def wf_switch_def Let_def split: prod.splits if_splits)
qed

text \<open>Fixing the filtering ids and reading the tables keep the shape of the ports.\<close>

definition same_shape :: "sw_info \<Rightarrow> sw_info \<Rightarrow> bool" where
  "same_shape sw sw' \<longleftrightarrow> s_info sw' = s_info sw \<and> s_nports sw' = s_nports sw \<and> s_maxport sw' = s_maxport sw
     \<and> length (s_ports sw') = length (s_ports sw)
     \<and> (\<forall>i < length (s_ports sw). p_mask (s_ports sw' ! i) = p_mask (s_ports sw ! i)
          \<and> p_num (s_ports sw' ! i) = p_num (s_ports sw ! i) \<and> p_base (s_ports sw' ! i) = p_base (s_ports sw ! i))"

lemma same_shape_refl [simp]: "same_shape sw sw"
  by (simp add: same_shape_def)

lemma same_shape_trans: "same_shape a b \<Longrightarrow> same_shape b c \<Longrightarrow> same_shape a c"
  by (simp add: same_shape_def)

lemma same_shape_upd:
  "(\<And>p. p_mask (f p) = p_mask p \<and> p_num (f p) = p_num p \<and> p_base (f p) = p_base p) \<Longrightarrow> same_shape sw (upd_port n f sw)"
  by (simp add: same_shape_def nth_upd_port)

lemma same_shape_wf: "same_shape sw sw' \<Longrightarrow> wf_switch sw \<Longrightarrow> wf_switch sw'"
  by (simp add: same_shape_def wf_switch_def wf_upto_def wf_port_def Let_def)

lemma fid_check_shape: "same_shape sw (snd (fid_check_ports ps sw u))"
proof (induction ps sw u rule: fid_check_ports.induct)
  case (2 port ps sw u)
  have "same_shape sw (upd_port port (\<lambda>p. p\<lparr>p_fid := want_fid sw port\<rparr>) sw)" by (rule same_shape_upd) simp
  then show ?case using 2 by (auto intro: same_shape_trans)
qed simp

text \<open>The filtering id of every port that exists, after the check.\<close>

lemma fid_check_fids:
  assumes "distinct ps" and "\<forall>n \<in> set ps. n < length (s_ports sw)"
  shows "i < length (s_ports sw) \<Longrightarrow> p_fid (s_ports (snd (fid_check_ports ps sw u)) ! i) =
    (if i \<in> set ps \<and> p_mask (s_ports sw ! i) AND i_ports (s_info sw) \<noteq> 0 then want_fid sw i else p_fid (s_ports sw ! i))"
  using assms
proof (induction ps sw u rule: fid_check_ports.induct)
  case (2 port ps sw u)
  have w: "want_fid (upd_port port (\<lambda>p. p\<lparr>p_fid := x\<rparr>) sw) i = want_fid sw i" for x
    using "2.prems"(1) by (simp add: want_fid_def nth_upd_port)
  show ?case using 2 w by (auto simp: nth_upd_port)
qed simp

section \<open>Reading the tables\<close>

text \<open>One port of the loop: what it leaves in the switch.\<close>

lemma get_atu_cases:
  assumes "get_atu_ports d (port # ps) sw got s = r"
  obtains
    (skip) sw1 where "same_shape sw sw1" "p_mask (s_ports sw1 ! port) = 0" "r = get_atu_ports d ps sw1 got s"
  | (fail) sw1 s1 where "same_shape sw sw1" "r = (got, sw1, s1)"
  | (next_port) sw1 s1 where "same_shape sw sw1" "r = get_atu_ports d ps sw1 (got OR ucast (p_mask (s_ports sw1 ! port))) s1"
proof -
  let ?sw1 = "upd_port port (\<lambda>p. p\<lparr>p_nent := 0\<rparr>) sw"
  let ?p = "s_ports ?sw1 ! port"
  have 1: "same_shape sw ?sw1" by (rule same_shape_upd) simp
  show ?thesis
  proof (cases "p_mask ?p = 0")
    case True
    then show ?thesis using skip [OF 1] assms by (simp add: Let_def)
  next
    case False
    obtain rv es s1 where g: "d_getatu d (ifname_of (s_name ?sw1) 0) (p_nbuf ?p) (p_fid ?p) s = (rv, es, s1)"
      by (metis prod_cases3)
    let ?sw2 = "upd_port port (\<lambda>p. p\<lparr>p_ent := es @ drop (length es) (p_ent p)\<rparr>) ?sw1"
    let ?sw3 = "upd_port port (\<lambda>p. p\<lparr>p_nent := of_int rv\<rparr>) ?sw2"
    have 2: "same_shape ?sw1 ?sw2" and 3: "same_shape ?sw2 ?sw3" by (rule same_shape_upd, simp)+
    have "p_mask ?p = p_mask (s_ports ?sw3 ! port)"
      by (cases "port < length (s_ports sw)") (simp_all add: nth_upd_port upd_port_def list_update_beyond)
    then show ?thesis
      using fail [OF same_shape_trans [OF 1 2]] next_port [OF same_shape_trans [OF 1 same_shape_trans [OF 2 3]]]
        assms g False by (cases "rv < 0") (auto simp: Let_def)
  qed
qed

lemma get_atu_shape: "same_shape sw (fst (snd (get_atu_ports d ps sw got s)))"
proof (induction ps arbitrary: sw got s)
  case (Cons port ps)
  show ?case
    by (rule get_atu_cases [where d = d and port = port and ps = ps and sw = sw and got = got and s = s, OF refl]) (auto intro: same_shape_trans Cons.IH)
qed simp

text \<open>Only ports in the list of the loop end up in the mask of the ports read.\<close>

lemma get_atu_bits:
  "bit (fst (get_atu_ports d ps sw got s)) b \<Longrightarrow> \<forall>n \<in> set ps. n < length (s_ports sw) \<Longrightarrow>
   bit got b \<or> (\<exists>n \<in> set ps. bit (ucast (p_mask (s_ports sw ! n)) :: u32) b)"
proof (induction ps arbitrary: sw got s)
  case (Cons port ps)
  have keep: "p_mask (s_ports sw1 ! n) = p_mask (s_ports sw ! n)" if "same_shape sw sw1" "n \<in> set (port # ps)" for sw1 n
    using that Cons.prems(2) unfolding same_shape_def by auto
  have len: "\<forall>n \<in> set ps. n < length (s_ports sw1)" if "same_shape sw sw1" for sw1
    using that Cons.prems(2) by (simp add: same_shape_def)
  show ?case
  proof (rule get_atu_cases [where d = d and port = port and ps = ps and sw = sw and got = got and s = s, OF refl], goal_cases)
    case (1 sw1)
    then show ?case using Cons.IH [of sw1 got s] Cons.prems(1) len [of sw1] keep [of sw1] by auto
  next
    case (2 sw1 s1)
    then show ?case using Cons.prems(1) by simp
  next
    case (3 sw1 s1)
    then have "bit (got OR ucast (p_mask (s_ports sw1 ! port))) b \<or> (\<exists>n \<in> set ps. bit (ucast (p_mask (s_ports sw1 ! n)) :: u32) b)"
      using Cons.IH [of sw1 _ s1] Cons.prems(1) len [of sw1] by simp
    then show ?case using keep [OF 3(1)] by (auto simp: bit_or_iff)
  qed
qed simp

text \<open>A switch whose ports all fit the loop of \<open>sw_get_atu\<close>: they are numbered without a gap.\<close>

lemma sw_get_atu_complete:
  assumes "wf_switch sw" and "fst (sw_get_atu d sw s) = ucast (i_ports (s_info sw))"
    and "bit (i_ports (s_info sw)) b" and "b < 16"
  shows "b < unat (s_nports sw)"
proof -
  have np: "unat (s_nports sw) \<le> 16"
  proof -
    have "card {i. i < 16 \<and> bit (i_ports (s_info sw)) i} \<le> card {..<16::nat}" by (rule card_mono) auto
    then show ?thesis using assms(1) by (simp add: wf_switch_def wf_upto_def)
  qed
  have "bit (fst (sw_get_atu d sw s)) b" using assms(2-4) by (simp add: bit_simps)
  then obtain n where n: "n < unat (s_nports sw)" "bit (ucast (p_mask (s_ports sw ! n)) :: u32) b"
    using get_atu_bits [of d "[0..<unat (s_nports sw)]" sw 0 s b] np assms(1)
    by (auto simp: sw_get_atu_def wf_switch_def wf_upto_def)
  have wp: "wf_port sw n" using n(1) np assms(1) by (simp add: wf_switch_def wf_upto_def)
  have "bit (p_mask (s_ports sw ! n)) b" using n(2) by (simp add: bit_simps)
  then have "bit (push_bit n (1::u16)) b" using wp unfolding wf_port_def Let_def by (metis bit_0_eq bot_apply bot_bool_def)
  then have "n = b" by (auto simp only: bit_push_bit_iff bit_1_iff)
  then show ?thesis using n(1) by simp
qed

section \<open>Properties of the daemon\<close>

text \<open>The switches a set-up ends with.\<close>

definition switch_ready :: "sw_info \<Rightarrow> bool" where
  "switch_ready sw \<longleftrightarrow> wf_switch sw \<and> (\<forall>i < 16. bit (i_ports (s_info sw)) i \<longrightarrow> p_fid (s_ports sw ! i) = want_fid sw i)"

lemma fid_check_ready:
  assumes "wf_switch sw"
  shows "switch_ready (snd (sw_fid_check sw))"
proof -
  let ?sw = "snd (sw_fid_check sw)"
  have sh: "same_shape sw ?sw" unfolding sw_fid_check_def by (rule fid_check_shape)
  have wf: "length (s_ports sw) = 16" "unat (s_maxport sw) < 16"
    "\<forall>i < 16. bit (i_ports (s_info sw)) i \<longrightarrow> i \<le> unat (s_maxport sw)" "\<forall>i < 16. wf_port sw i"
    using assms by (simp_all add: wf_switch_def wf_upto_def)
  have "p_fid (s_ports ?sw ! i) = want_fid ?sw i" if "i < 16" "bit (i_ports (s_info ?sw)) i" for i
  proof -
    have b: "bit (i_ports (s_info sw)) i" using that(2) sh by (simp add: same_shape_def)
    then have "p_mask (s_ports sw ! i) = push_bit i 1" using wf(4) that(1) by (simp add: wf_port_def Let_def)
    moreover have "bit (push_bit i (1::u16) AND i_ports (s_info sw)) i"
      using b that(1) by (simp add: bit_simps del: push_bit_of_1)
    ultimately have "p_mask (s_ports sw ! i) AND i_ports (s_info sw) \<noteq> 0" by auto
    moreover have "i \<in> set [0..<Suc (unat (s_maxport sw))]"
      using wf(3) that(1) b by (auto simp: less_Suc_eq_le simp del: upt_Suc)
    ultimately have "p_fid (s_ports ?sw ! i) = want_fid sw i"
      using fid_check_fids [of "[0..<Suc (unat (s_maxport sw))]" sw i 0] wf(1,2) that(1)
      by (simp add: sw_fid_check_def)
    also have "want_fid sw i = want_fid ?sw i"
      using sh wf(1) that(1) by (simp add: want_fid_def same_shape_def)
    finally show ?thesis .
  qed
  then show ?thesis using same_shape_wf [OF sh assms] by (simp add: switch_ready_def)
qed

lemma init_switches_ready:
  "init_switches d names base sws q s = Inr (sws', q', s') \<Longrightarrow> list_all switch_ready sws \<Longrightarrow> list_all switch_ready sws'"
proof (induction d names base sws q s rule: init_switches.induct)
  case (2 d name names base sws q s)
  obtain rv sw q1 s1 where i: "sw_init d (length sws) name 0 q s = (rv, sw, q1, s1)" by (metis prod_cases4)
  obtain u sw2 where f: "sw_fid_check (sw\<lparr>s_base := base\<rparr>) = (u, sw2)" by fastforce
  have rv: "rv = 0" using "2.prems"(1) i by (auto simp: Let_def split: if_splits)
  have "wf_switch (sw\<lparr>s_base := base\<rparr>)"
    using sw_init_wf [OF i [unfolded rv]] by (simp add: wf_switch_def wf_upto_def wf_port_def)
  then have "switch_ready sw2" using fid_check_ready f by (metis snd_conv)
  then show ?case
    using "2.IH" [OF i [symmetric] refl refl refl _ refl f [symmetric] refl] "2.prems" i f rv by (simp add: Let_def)
qed simp

text \<open>After the set-up every port of every switch that exists has its bit mask and number, and
  its filtering id is 0 on a cpu port and its number plus one elsewhere, so the address
  tables of the ports are separate.
\<close>

theorem setup_separates_ports:
  assumes "abr_init d name s = Inr a" and "sw \<in> set (a_switches a)"
    and "i < 16" and "bit (i_ports (s_info sw)) i" and "\<not> bit (i_cpu (s_info sw)) i"
    and "j < 16" and "bit (i_ports (s_info sw)) j" and "i \<noteq> j"
  shows "p_fid (s_ports sw ! i) = of_nat i + 1 \<and> p_fid (s_ports sw ! i) \<noteq> p_fid (s_ports sw ! j)
    \<and> p_base (s_ports sw ! i) = of_nat i"
proof -
  have "switch_ready sw"
    using assms(1,2) init_switches_ready [of d _ 0 "[]" "[]" s]
    by (auto simp: abr_init_def Let_def list_all_iff split: if_splits sum.splits prod.splits option.splits)
  then have wf: "wf_port sw i" "wf_port sw j" and f: "p_fid (s_ports sw ! i) = want_fid sw i" "p_fid (s_ports sw ! j) = want_fid sw j"
    using assms(3,4,6,7) by (simp_all add: switch_ready_def wf_switch_def wf_upto_def)
  have "push_bit i 1 AND i_cpu (s_info sw) = 0"
    using assms(5) by (intro bit_word_eqI) (auto simp: bit_simps simp del: push_bit_of_1)
  then have i: "want_fid sw i = of_nat i + 1"
    using wf(1) assms(4) by (simp add: want_fid_def wf_port_def Let_def)
  have "unat (of_nat n + 1 :: u16) = Suc n" if "n < 16" for n
    using that by (simp add: unat_word_ariths unat_of_nat)
  then have "of_nat i + 1 \<noteq> (0 :: u16)" "of_nat i + 1 \<noteq> (of_nat j + 1 :: u16)"
    using assms(3,6,8) by (metis unat_0 nat.distinct(1), metis nat.inject)
  then show ?thesis
    using i f wf(1) assms(4) by (auto simp: want_fid_def wf_port_def Let_def split: if_splits)
qed

text \<open>A switch with port 0 and the cpu port 4, whose registers are zero.\<close>

definition quiet_drv :: "unit drv" where
  "quiet_drv = \<lparr> d_info = (\<lambda>n s. (0, zero_info\<lparr>i_nmacs := 8192, i_ports := 0x11, i_cpu := 0x10\<rparr>, s)),
     d_getreg = (\<lambda>n t p r s. (0, 0, s)), d_setreg = (\<lambda>n t p r v s. (0, s)),
     d_getatu = (\<lambda>n k f s. (0, [], s)), d_setatu = (\<lambda>n f e s. (0, s)), d_malloc = (\<lambda>s. (True, s)) \<rparr>"

lemma quiet_init:
  "case abr_init quiet_drv ''edge500'' () of Inl e \<Rightarrow> False
   | Inr a \<Rightarrow> i_ports (s_info (hd (a_switches a))) = 0x11 \<and> i_cpu (s_info (hd (a_switches a))) = 0x10
       \<and> length (a_switches a) = 1"
  by code_simp

lemma quiet_switch: "\<exists>a sw. abr_init quiet_drv ''edge500'' () = Inr a \<and> a_switches a = [sw]
    \<and> i_ports (s_info sw) = 0x11 \<and> i_cpu (s_info sw) = 0x10"
proof (cases "abr_init quiet_drv ''edge500'' ()")
  case (Inr a)
  then show ?thesis using quiet_init by (cases "a_switches a") auto
qed (use quiet_init in simp)

lemma setup_separates_ports_witness:
  "\<exists>a sw. abr_init quiet_drv ''edge500'' () = Inr a \<and> a_switches a = [sw] \<and> p_fid (s_ports sw ! 0) = 1
     \<and> p_fid (s_ports sw ! 4) \<noteq> 1"
proof -
  obtain a sw where a: "abr_init quiet_drv ''edge500'' () = Inr a" "a_switches a = [sw]"
    "i_ports (s_info sw) = 0x11" "i_cpu (s_info sw) = 0x10"
    using quiet_switch by blast
  show ?thesis
    using setup_separates_ports [OF a(1), of sw 0 4] a by auto
qed

lemma get_all_gap:
  assumes "sw \<in> set sws" and "list_all wf_switch sws" and "bit (i_ports (s_info sw)) b" and "b < 16"
    and "c < b" and "\<not> bit (i_ports (s_info sw)) c"
  shows "get_all d sws s = Inl (Exit (-1))"
  using assms(1,2)
proof (induction sws arbitrary: s)
  case (Cons x sws)
  obtain got x1 s1 where g: "sw_get_atu d x s = (got, x1, s1)" by (metis prod_cases3)
  have i: "s_info x1 = s_info x"
    using get_atu_shape [of x d "[0..<unat (s_nports x)]" 0 s] g by (simp add: sw_get_atu_def same_shape_def)
  show ?case
  proof (cases "x = sw")
    case True
    have wf: "wf_switch sw" using Cons.prems True by simp
    let ?B = "{i. i < 16 \<and> bit (i_ports (s_info sw)) i}"
    have "got \<noteq> ucast (i_ports (s_info sw))"
    proof
      assume "got = ucast (i_ports (s_info sw))"
      then have "?B \<subseteq> {..<unat (s_nports sw)} - {c}"
        using sw_get_atu_complete [OF wf, of d s] g True assms(6) by auto
      then have "card ?B \<le> card ({..<unat (s_nports sw)} - {c})" by (intro card_mono) auto
      moreover have "c < unat (s_nports sw)"
        using sw_get_atu_complete [OF wf _ assms(3,4), of d s] g True \<open>got = _\<close> assms(5) by simp
      moreover have "unat (s_nports sw) = card ?B" using wf by (simp add: wf_switch_def wf_upto_def)
      ultimately show False by simp
    qed
    then show ?thesis using g i True by simp
  next
    case False
    then show ?thesis using Cons g i by auto
  qed
qed simp

text \<open>The daemon only survives on switches whose ports are numbered without a gap:
  \<open>sw_get_atu\<close> visits as many port numbers as there are ports, counted from 0, so a port
  above a missing one is never read and the first round ends the program.
\<close>

theorem gap_ends_daemon:
  assumes "abr_init d name s = Inr a" and "sw \<in> set (a_switches a)"
    and "bit (i_ports (s_info sw)) b" and "b < 16" and "c < b" and "\<not> bit (i_ports (s_info sw)) c"
  shows "abr_tick d a = Inl (Exit (-1))"
proof -
  have "list_all switch_ready (a_switches a)"
    using assms(1) init_switches_ready [of d _ 0 "[]" "[]" s]
    by (auto simp: abr_init_def Let_def split: if_splits sum.splits prod.splits option.splits)
  then have "list_all wf_switch (a_switches a)" by (simp add: list_all_iff switch_ready_def)
  then show ?thesis by (simp add: abr_tick_def get_all_gap [OF assms(2) _ assms(3-6)])
qed

lemma gap_ends_daemon_witness:
  "\<exists>a. abr_init quiet_drv ''edge500'' () = Inr a \<and> abr_tick quiet_drv a = Inl (Exit (-1))"
proof -
  obtain a sw where a: "abr_init quiet_drv ''edge500'' () = Inr a" "a_switches a = [sw]"
    "i_ports (s_info sw) = 0x11" "i_cpu (s_info sw) = 0x10"
    using quiet_switch by blast
  then show ?thesis using gap_ends_daemon [OF a(1), of sw 4 1] by simp
qed

section \<open>No address is blocked without a reason\<close>

definition tables_of :: "'s abr \<Rightarrow> 's drv \<Rightarrow> atuent list list" where
  "tables_of a d = (case get_all d (a_switches a) (a_kernel a) of Inl e \<Rightarrow> [] | Inr (sws, s) \<Rightarrow> port_tables sws (a_portq a))"

lemma entry_aged_None: "entry bl x = None \<Longrightarrow> entry (aged bl) x = None"
  using addrs_aged [of bl] by (auto simp: entry_None)

lemma new_entry_reason:
  assumes "entry (fst st) x = None" and "entry (fst (handle_all d sws q macs st)) x \<noteq> None"
  shows "\<exists>mac \<in> set macs. looped mac \<and> mac_addr mac = x"
proof (rule ccontr)
  assume "\<not> ?thesis"
  then have "entry (fst (handle_all d sws q macs st)) x = entry (fst st) x"
    by (intro entry_handle_all) auto
  then show False using assms by simp
qed

lemma abr_tick_steps:
  assumes "abr_tick d a = Inr a'"
  obtains sws s macs where "get_all d (a_switches a) (a_kernel a) = Inr (sws, s)"
    and "sw_merge (a_nbuf a) (port_tables sws (a_portq a)) = Some (Inr macs)"
    and "a_bl a' = fst (proc_macs d sws (a_portq a) macs (a_bl a, s))"
proof (cases "get_all d (a_switches a) (a_kernel a)")
  case (Inr r)
  obtain sws s where r: "r = (sws, s)" by (cases r)
  show ?thesis
  proof (cases "sw_merge (a_nbuf a) (port_tables sws (a_portq a))")
    case (Some m)
    then show ?thesis using that [OF Inr [unfolded r]] assms Inr
      by (cases m) (auto simp: abr_tick_def r case_prod_beta Let_def)
  qed (use assms Inr in \<open>simp add: abr_tick_def r\<close>)
qed (use assms in \<open>simp add: abr_tick_def\<close>)

lemma two_members: "1 < card A \<Longrightarrow> \<exists>m \<in> A. \<exists>n \<in> A. m \<noteq> n"
  using card_le_Suc0_iff_eq [of A] card.infinite [of A] by (cases "finite A") force+

definition loop_reason :: "atuent list \<Rightarrow> mac \<Rightarrow> bool" where
  "loop_reason es x \<longleftrightarrow> (\<exists>k. mac_unpack k = x \<and>
     ((\<exists>e \<in> set es. ent_key e = k \<and> e_portvec e = 0)
      \<or> (\<exists>e \<in> set es. \<exists>f \<in> set es. \<exists>m n. m \<noteq> n \<and> ent_key e = k \<and> ent_key f = k
           \<and> bit (e_portvec e) m \<and> bit (e_portvec f) n)))"

text \<open>(C5)
  An address that a round puts on the block list really is in a loop, or was blocked in
  the switch before: the tables hold entries for it with two different ports, or one with
  an empty port vector.
\<close>

theorem block_has_reason:
  assumes "abr_tick d a = Inr a'" and "list_all table_ok (tables_of a d)"
    and "entry (a_bl a) x = None" and "entry (a_bl a') x \<noteq> None"
  shows "loop_reason (concat (tables_of a d)) x"
proof -
  obtain sws s macs where g: "get_all d (a_switches a) (a_kernel a) = Inr (sws, s)"
    and m: "sw_merge (a_nbuf a) (port_tables sws (a_portq a)) = Some (Inr macs)"
    and bl: "a_bl a' = fst (proc_macs d sws (a_portq a) macs (a_bl a, s))"
    using assms(1) by (rule abr_tick_steps)
  let ?cs = "port_tables sws (a_portq a)"
  have cs: "tables_of a d = ?cs" by (simp add: tables_of_def g)
  have "entry (fst (handle_all d sws (a_portq a) macs (a_bl a, s))) x \<noteq> None"
    by (rule notI) (use assms(4) in \<open>simp add: bl fst_proc_macs entry_aged_None\<close>)
  then obtain mac where mac: "mac \<in> set macs" "looped mac" "mac_addr mac = x"
    using new_entry_reason [of "(a_bl a, s)" x d sws "a_portq a" macs] assms(3) by auto
  obtain D where D: "set D \<subseteq> set (concat ?cs)" "macs = exact_merge D"
    using merge_loop_spec [OF m [unfolded sw_merge_def] merge_inv_init] assms(2) cs by auto
  obtain k where k: "mac = exact_entry D k" using mac(1) D(2) by (auto simp: exact_merge_def)
  show ?thesis
  proof (cases "mac_state mac = 0")
    case False
    then obtain b where "bit (union_state k D) b" by (auto simp: k exact_entry_def bit_eq_iff)
    then obtain e where "e \<in> set D" "ent_key e = k" "e_portvec e = 0"
      by (auto simp: bit_union_state blocked_bit_def split: if_splits)
    then show ?thesis using D(1) mac(3) unfolding cs loop_reason_def
      by (intro exI [of _ k] conjI disjI1) (simp add: k exact_entry_def, blast)
  next
    case True
    then have "1 < card {i. bit (union_vec k D) i}" using mac(2) by (simp add: looped_def cnt_ports_card k exact_entry_def)
    then obtain m n where mn: "m \<noteq> n" "bit (union_vec k D) m" "bit (union_vec k D) n"
      using two_members by blast
    then obtain e f where "e \<in> set D" "f \<in> set D" "ent_key e = k" "ent_key f = k"
      "bit (e_portvec e) m" "bit (e_portvec f) n"
      by (auto simp: bit_union_vec bit_ucast_iff)
    then show ?thesis using D(1) mac(3) mn(1) unfolding cs loop_reason_def
      by (intro exI [of _ k] conjI disjI2) (simp add: k exact_entry_def, blast)
  qed
qed

text \<open>A switch with one port, whose table has an address that two ports have learned.\<close>

definition loop_drv :: "unit drv" where
  "loop_drv = quiet_drv\<lparr>d_getatu := (\<lambda>n k f s. (1, [low_ent 5 3], s))\<rparr>"

definition loop_abr :: "unit abr" where
  "loop_abr = \<lparr> a_switches = [zero_switch\<lparr>s_nports := 1, s_info := zero_info\<lparr>i_ports := 1\<rparr>,
       s_ports := (replicate 16 zero_port)[0 := zero_port\<lparr>p_mask := 1, p_nbuf := 8\<rparr>]\<rparr>],
     a_portq = [(0, 0)], a_nbuf = 8, a_bl = [], a_kernel = () \<rparr>"

lemma loop_tick: "case abr_tick loop_drv loop_abr of Inl e \<Rightarrow> False
    | Inr a' \<Rightarrow> entry (a_bl a') [0, 0, 0, 0, 0, 5] \<noteq> None"
  by code_simp

lemma loop_tables: "tables_of loop_abr loop_drv = [[low_ent 5 3]]"
  by code_simp

lemma block_has_reason_witness:
  "\<exists>a'. abr_tick loop_drv loop_abr = Inr a' \<and> loop_reason [low_ent 5 3] [0, 0, 0, 0, 0, 5]"
proof (cases "abr_tick loop_drv loop_abr")
  case (Inr a')
  have "loop_reason (concat (tables_of loop_abr loop_drv)) [0, 0, 0, 0, 0, 5]"
  proof (rule block_has_reason [OF Inr])
    show "list_all table_ok (tables_of loop_abr loop_drv)"
      by (simp add: loop_tables low_ent_key ALL_ONES_def)
    show "entry (a_bl loop_abr) [0, 0, 0, 0, 0, 5] = None" by (simp add: loop_abr_def)
    show "entry (a_bl a') [0, 0, 0, 0, 0, 5] \<noteq> None" using loop_tick Inr by simp
  qed
  then show ?thesis using Inr by (simp add: loop_tables)
qed (use loop_tick in simp)

end
