(* ===== verification/Sw_Bands.thy ===== *)
theory Sw_Bands
  imports C_Strings
begin

text \<open>
  Band, channel, bandwidth and modulation tables of the modem test
  (\<open>package/mfgtest/swtest/swtest.c\<close>): \<open>struct smap\<close>, the frequency mapper functions, the
  tables and their look-ups. A table is a list without its terminating entry whose
  \<open>str\<close> is NULL. Channels and frequencies are integers: a channel is a C \<open>int\<close>, the
  products are computed in 64 bits, and \<open>uarfcn - base\<close> cannot overflow because
  \<open>rfm_validate\<close> calls the mappers for positive channels only.
\<close>

section \<open>Map entries\<close>

datatype smval = SInt int | SRange int int | SFreq "int \<Rightarrow> int"

record smap =
  sm_str :: string
  sm_val :: smval
  sm_flags :: u32

definition SM_GSM :: u32 where "SM_GSM = 1"
definition SM_WCDMA :: u32 where "SM_WCDMA = 2"
definition SM_LTE :: u32 where "SM_LTE = 4"
definition SM_ALL :: u32 where "SM_ALL = SM_GSM OR SM_WCDMA OR SM_LTE"

lemmas SM_defs = SM_GSM_def SM_WCDMA_def SM_LTE_def SM_ALL_def

abbreviation smap_ent :: "string \<Rightarrow> smval \<Rightarrow> u32 \<Rightarrow> smap" where
  "smap_ent s v f \<equiv> \<lparr>sm_str = s, sm_val = v, sm_flags = f\<rparr>"

text \<open>
  The members of the union: \<open>i\<close> and \<open>ir[0]\<close> share their storage. \<open>freq\<close> is NULL unless
  it was set; \<open>ir\<close> is never read from an entry with a function.
\<close>

definition sm_ir0 :: "smap \<Rightarrow> int" where
  "sm_ir0 m = (case sm_val m of SRange a b \<Rightarrow> a | SInt i \<Rightarrow> i | SFreq f \<Rightarrow> 0)"

definition sm_ir1 :: "smap \<Rightarrow> int" where
  "sm_ir1 m = (case sm_val m of SRange a b \<Rightarrow> b | _ \<Rightarrow> 0)"

definition sm_freq :: "smap \<Rightarrow> (int \<Rightarrow> int) option" where
  "sm_freq m = (case sm_val m of SFreq f \<Rightarrow> Some f | _ \<Rightarrow> None)"

section \<open>Uplink frequencies\<close>

definition utra_add5 :: "int set" where
  "utra_add5 = {782, 787, 807, 812, 837, 862}"

definition ufreq_utra_1 :: "int \<Rightarrow> int" where
  "ufreq_utra_1 uarfcn = (let f = uarfcn * 1000000 div 5 in
     if uarfcn < 9612 then -1 else if uarfcn > 9888 then -1 else f)"

definition ufreq_utra_2 :: "int \<Rightarrow> int" where
  "ufreq_utra_2 uarfcn = (let f = uarfcn * 1000000 div 5 in
     if uarfcn < 9262 then -1 else if uarfcn > 9538 then -1 else f)"

definition ufreq_utra_5 :: "int \<Rightarrow> int" where
  "ufreq_utra_5 uarfcn = (let f = uarfcn * 1000000 div 5 in
     if uarfcn \<in> utra_add5 then f + 670100000
     else if uarfcn < 4132 then -1 else if uarfcn > 4233 then -1 else f)"

definition ufreq_utra_8 :: "int \<Rightarrow> int" where
  "ufreq_utra_8 uarfcn = (let f = uarfcn * 1000000 div 5 in
     if uarfcn < 2712 then -1 else if uarfcn > 2863 then -1 else f + 340000000)"

definition ufreq_eutra_1 :: "int \<Rightarrow> int" where
  "ufreq_eutra_1 uarfcn = 1920000000 + (uarfcn - 18000) * 100000"

definition ufreq_eutra_2 :: "int \<Rightarrow> int" where
  "ufreq_eutra_2 uarfcn = 1850000000 + (uarfcn - 18600) * 100000"

definition ufreq_eutra_3 :: "int \<Rightarrow> int" where
  "ufreq_eutra_3 uarfcn = 1710000000 + (uarfcn - 19200) * 100000"

definition ufreq_eutra_4 :: "int \<Rightarrow> int" where
  "ufreq_eutra_4 uarfcn = 1710000000 + (uarfcn - 19950) * 100000"

definition ufreq_eutra_5 :: "int \<Rightarrow> int" where
  "ufreq_eutra_5 uarfcn = 824000000 + (uarfcn - 20400) * 100000"

definition ufreq_eutra_6 :: "int \<Rightarrow> int" where
  "ufreq_eutra_6 uarfcn = 830000000 + (uarfcn - 20650) * 100000"

definition ufreq_eutra_7 :: "int \<Rightarrow> int" where
  "ufreq_eutra_7 uarfcn = 2500000000 + (uarfcn - 20750) * 100000"

definition ufreq_eutra_8 :: "int \<Rightarrow> int" where
  "ufreq_eutra_8 uarfcn = 880000000 + (uarfcn - 21450) * 100000"

definition ufreq_eutra_9 :: "int \<Rightarrow> int" where
  "ufreq_eutra_9 uarfcn = 1749900000 + (uarfcn - 21800) * 100000"

definition ufreq_eutra_10 :: "int \<Rightarrow> int" where
  "ufreq_eutra_10 uarfcn = 1710000000 + (uarfcn - 22150) * 100000"

definition ufreq_eutra_11 :: "int \<Rightarrow> int" where
  "ufreq_eutra_11 uarfcn = 1428900000 + (uarfcn - 22750) * 100000"

definition ufreq_eutra_12 :: "int \<Rightarrow> int" where
  "ufreq_eutra_12 uarfcn = 698000000 + (uarfcn - 23000) * 100000"

definition ufreq_eutra_13 :: "int \<Rightarrow> int" where
  "ufreq_eutra_13 uarfcn = 777000000 + (uarfcn - 23180) * 100000"

definition ufreq_eutra_14 :: "int \<Rightarrow> int" where
  "ufreq_eutra_14 uarfcn = 788000000 + (uarfcn - 23280) * 100000"

definition ufreq_eutra_17 :: "int \<Rightarrow> int" where
  "ufreq_eutra_17 uarfcn = 704000000 + (uarfcn - 23730) * 100000"

definition ufreq_eutra_18 :: "int \<Rightarrow> int" where
  "ufreq_eutra_18 uarfcn = 815000000 + (uarfcn - 23850) * 100000"

definition ufreq_eutra_19 :: "int \<Rightarrow> int" where
  "ufreq_eutra_19 uarfcn = 830000000 + (uarfcn - 24000) * 100000"

definition ufreq_eutra_20 :: "int \<Rightarrow> int" where
  "ufreq_eutra_20 uarfcn = 832000000 + (uarfcn - 24150) * 100000"

definition ufreq_eutra_21 :: "int \<Rightarrow> int" where
  "ufreq_eutra_21 uarfcn = 1447900000 + (uarfcn - 24450) * 100000"

definition ufreq_eutra_22 :: "int \<Rightarrow> int" where
  "ufreq_eutra_22 uarfcn = 3410000000 + (uarfcn - 24600) * 100000"

definition ufreq_eutra_23 :: "int \<Rightarrow> int" where
  "ufreq_eutra_23 uarfcn = 2000000000 + (uarfcn - 25500) * 100000"

definition ufreq_eutra_24 :: "int \<Rightarrow> int" where
  "ufreq_eutra_24 uarfcn = 1626500000 + (uarfcn - 25700) * 100000"

definition ufreq_eutra_25 :: "int \<Rightarrow> int" where
  "ufreq_eutra_25 uarfcn = 1850000000 + (uarfcn - 26040) * 100000"

definition ufreq_eutra_26 :: "int \<Rightarrow> int" where
  "ufreq_eutra_26 uarfcn = 814000000 + (uarfcn - 26690) * 100000"

definition ufreq_eutra_27 :: "int \<Rightarrow> int" where
  "ufreq_eutra_27 uarfcn = 807000000 + (uarfcn - 27040) * 100000"

definition ufreq_eutra_28 :: "int \<Rightarrow> int" where
  "ufreq_eutra_28 uarfcn = 703000000 + (uarfcn - 27210) * 100000"

definition ufreq_eutra_30 :: "int \<Rightarrow> int" where
  "ufreq_eutra_30 uarfcn = 2305000000 + (uarfcn - 27660) * 100000"

definition ufreq_eutra_31 :: "int \<Rightarrow> int" where
  "ufreq_eutra_31 uarfcn = 452500000 + (uarfcn - 27760) * 100000"

definition ufreq_eutra_33 :: "int \<Rightarrow> int" where
  "ufreq_eutra_33 uarfcn = 1900000000 + (uarfcn - 36000) * 100000"

definition ufreq_eutra_34 :: "int \<Rightarrow> int" where
  "ufreq_eutra_34 uarfcn = 2010000000 + (uarfcn - 36200) * 100000"

definition ufreq_eutra_35 :: "int \<Rightarrow> int" where
  "ufreq_eutra_35 uarfcn = 1850000000 + (uarfcn - 36350) * 100000"

definition ufreq_eutra_36 :: "int \<Rightarrow> int" where
  "ufreq_eutra_36 uarfcn = 1930000000 + (uarfcn - 36950) * 100000"

definition ufreq_eutra_37 :: "int \<Rightarrow> int" where
  "ufreq_eutra_37 uarfcn = 1910000000 + (uarfcn - 37550) * 100000"

definition ufreq_eutra_38 :: "int \<Rightarrow> int" where
  "ufreq_eutra_38 uarfcn = 2570000000 + (uarfcn - 37750) * 100000"

definition ufreq_eutra_39 :: "int \<Rightarrow> int" where
  "ufreq_eutra_39 uarfcn = 1880000000 + (uarfcn - 38250) * 100000"

definition ufreq_eutra_40 :: "int \<Rightarrow> int" where
  "ufreq_eutra_40 uarfcn = 2300000000 + (uarfcn - 38650) * 100000"

definition ufreq_eutra_41 :: "int \<Rightarrow> int" where
  "ufreq_eutra_41 uarfcn = 2496000000 + (uarfcn - 39650) * 100000"

text \<open>Bands without an uplink, GSM, and every downlink.\<close>

definition freq_invalid :: "int \<Rightarrow> int" where
  "freq_invalid uarfcn = -1"

section \<open>The tables\<close>

definition ufreq_map :: "smap list" where
  "ufreq_map = [
     smap_ent ''GSM-850'' (SFreq freq_invalid) SM_GSM,
     smap_ent ''GSM-900'' (SFreq freq_invalid) SM_GSM,
     smap_ent ''GSM-900'' (SFreq freq_invalid) SM_GSM,
     smap_ent ''GSM-1800'' (SFreq freq_invalid) SM_GSM,
     smap_ent ''GSM-1900'' (SFreq freq_invalid) SM_GSM,
     smap_ent ''WCDMA-850'' (SFreq ufreq_utra_5) SM_WCDMA,
     smap_ent ''WCDMA-900'' (SFreq ufreq_utra_8) SM_WCDMA,
     smap_ent ''WCDMA-1900'' (SFreq ufreq_utra_2) SM_WCDMA,
     smap_ent ''WCDMA-2100'' (SFreq ufreq_utra_1) SM_WCDMA,
     smap_ent ''LTE-B1'' (SFreq ufreq_eutra_1) SM_LTE,
     smap_ent ''LTE-B2'' (SFreq ufreq_eutra_2) SM_LTE,
     smap_ent ''LTE-B3'' (SFreq ufreq_eutra_3) SM_LTE,
     smap_ent ''LTE-B4'' (SFreq ufreq_eutra_4) SM_LTE,
     smap_ent ''LTE-B5'' (SFreq ufreq_eutra_5) SM_LTE,
     smap_ent ''LTE-B6'' (SFreq ufreq_eutra_6) SM_LTE,
     smap_ent ''LTE-B7'' (SFreq ufreq_eutra_7) SM_LTE,
     smap_ent ''LTE-B8'' (SFreq ufreq_eutra_8) SM_LTE,
     smap_ent ''LTE-B9'' (SFreq ufreq_eutra_9) SM_LTE,
     smap_ent ''LTE-B10'' (SFreq ufreq_eutra_10) SM_LTE,
     smap_ent ''LTE-B11'' (SFreq ufreq_eutra_11) SM_LTE,
     smap_ent ''LTE-B12'' (SFreq ufreq_eutra_12) SM_LTE,
     smap_ent ''LTE-B13'' (SFreq ufreq_eutra_13) SM_LTE,
     smap_ent ''LTE-B14'' (SFreq ufreq_eutra_14) SM_LTE,
     smap_ent ''LTE-B15'' (SFreq freq_invalid) SM_LTE,
     smap_ent ''LTE-B16'' (SFreq freq_invalid) SM_LTE,
     smap_ent ''LTE-B17'' (SFreq ufreq_eutra_17) SM_LTE,
     smap_ent ''LTE-B18'' (SFreq ufreq_eutra_18) SM_LTE,
     smap_ent ''LTE-B19'' (SFreq ufreq_eutra_19) SM_LTE,
     smap_ent ''LTE-B20'' (SFreq ufreq_eutra_20) SM_LTE,
     smap_ent ''LTE-B21'' (SFreq ufreq_eutra_21) SM_LTE,
     smap_ent ''LTE-B22'' (SFreq ufreq_eutra_22) SM_LTE,
     smap_ent ''LTE-B23'' (SFreq ufreq_eutra_23) SM_LTE,
     smap_ent ''LTE-B24'' (SFreq ufreq_eutra_24) SM_LTE,
     smap_ent ''LTE-B25'' (SFreq ufreq_eutra_25) SM_LTE,
     smap_ent ''LTE-B26'' (SFreq ufreq_eutra_26) SM_LTE,
     smap_ent ''LTE-B27'' (SFreq ufreq_eutra_27) SM_LTE,
     smap_ent ''LTE-B28'' (SFreq ufreq_eutra_28) SM_LTE,
     smap_ent ''LTE-B29'' (SFreq freq_invalid) SM_LTE,
     smap_ent ''LTE-B30'' (SFreq ufreq_eutra_30) SM_LTE,
     smap_ent ''LTE-B31'' (SFreq ufreq_eutra_31) SM_LTE,
     smap_ent ''LTE-B32'' (SFreq freq_invalid) SM_LTE,
     smap_ent ''LTE-B33'' (SFreq ufreq_eutra_33) SM_LTE,
     smap_ent ''LTE-B34'' (SFreq ufreq_eutra_34) SM_LTE,
     smap_ent ''LTE-B35'' (SFreq ufreq_eutra_35) SM_LTE,
     smap_ent ''LTE-B36'' (SFreq ufreq_eutra_36) SM_LTE,
     smap_ent ''LTE-B37'' (SFreq ufreq_eutra_37) SM_LTE,
     smap_ent ''LTE-B38'' (SFreq ufreq_eutra_38) SM_LTE,
     smap_ent ''LTE-B39'' (SFreq ufreq_eutra_39) SM_LTE,
     smap_ent ''LTE-B40'' (SFreq ufreq_eutra_40) SM_LTE,
     smap_ent ''LTE-B41'' (SFreq ufreq_eutra_41) SM_LTE]"

definition dfreq_map :: "smap list" where
  "dfreq_map = [
     smap_ent ''GSM-850'' (SFreq freq_invalid) SM_GSM,
     smap_ent ''GSM-900'' (SFreq freq_invalid) SM_GSM,
     smap_ent ''GSM-900'' (SFreq freq_invalid) SM_GSM,
     smap_ent ''GSM-1800'' (SFreq freq_invalid) SM_GSM,
     smap_ent ''GSM-1900'' (SFreq freq_invalid) SM_GSM,
     smap_ent ''WCDMA-850'' (SFreq freq_invalid) SM_WCDMA,
     smap_ent ''WCDMA-900'' (SFreq freq_invalid) SM_WCDMA,
     smap_ent ''WCDMA-1900'' (SFreq freq_invalid) SM_WCDMA,
     smap_ent ''WCDMA-2100'' (SFreq freq_invalid) SM_WCDMA,
     smap_ent ''LTE-B1'' (SFreq freq_invalid) SM_LTE,
     smap_ent ''LTE-B2'' (SFreq freq_invalid) SM_LTE,
     smap_ent ''LTE-B3'' (SFreq freq_invalid) SM_LTE,
     smap_ent ''LTE-B4'' (SFreq freq_invalid) SM_LTE,
     smap_ent ''LTE-B5'' (SFreq freq_invalid) SM_LTE,
     smap_ent ''LTE-B6'' (SFreq freq_invalid) SM_LTE,
     smap_ent ''LTE-B7'' (SFreq freq_invalid) SM_LTE,
     smap_ent ''LTE-B8'' (SFreq freq_invalid) SM_LTE,
     smap_ent ''LTE-B9'' (SFreq freq_invalid) SM_LTE,
     smap_ent ''LTE-B10'' (SFreq freq_invalid) SM_LTE,
     smap_ent ''LTE-B11'' (SFreq freq_invalid) SM_LTE,
     smap_ent ''LTE-B12'' (SFreq freq_invalid) SM_LTE,
     smap_ent ''LTE-B13'' (SFreq freq_invalid) SM_LTE,
     smap_ent ''LTE-B14'' (SFreq freq_invalid) SM_LTE,
     smap_ent ''LTE-B15'' (SFreq freq_invalid) SM_LTE,
     smap_ent ''LTE-B16'' (SFreq freq_invalid) SM_LTE,
     smap_ent ''LTE-B17'' (SFreq freq_invalid) SM_LTE,
     smap_ent ''LTE-B18'' (SFreq freq_invalid) SM_LTE,
     smap_ent ''LTE-B19'' (SFreq freq_invalid) SM_LTE,
     smap_ent ''LTE-B20'' (SFreq freq_invalid) SM_LTE,
     smap_ent ''LTE-B21'' (SFreq freq_invalid) SM_LTE,
     smap_ent ''LTE-B22'' (SFreq freq_invalid) SM_LTE,
     smap_ent ''LTE-B23'' (SFreq freq_invalid) SM_LTE,
     smap_ent ''LTE-B24'' (SFreq freq_invalid) SM_LTE,
     smap_ent ''LTE-B25'' (SFreq freq_invalid) SM_LTE,
     smap_ent ''LTE-B26'' (SFreq freq_invalid) SM_LTE,
     smap_ent ''LTE-B27'' (SFreq freq_invalid) SM_LTE,
     smap_ent ''LTE-B28'' (SFreq freq_invalid) SM_LTE,
     smap_ent ''LTE-B29'' (SFreq freq_invalid) SM_LTE,
     smap_ent ''LTE-B30'' (SFreq freq_invalid) SM_LTE,
     smap_ent ''LTE-B31'' (SFreq freq_invalid) SM_LTE,
     smap_ent ''LTE-B32'' (SFreq freq_invalid) SM_LTE,
     smap_ent ''LTE-B33'' (SFreq freq_invalid) SM_LTE,
     smap_ent ''LTE-B34'' (SFreq freq_invalid) SM_LTE,
     smap_ent ''LTE-B35'' (SFreq freq_invalid) SM_LTE,
     smap_ent ''LTE-B36'' (SFreq freq_invalid) SM_LTE,
     smap_ent ''LTE-B37'' (SFreq freq_invalid) SM_LTE,
     smap_ent ''LTE-B38'' (SFreq freq_invalid) SM_LTE,
     smap_ent ''LTE-B39'' (SFreq freq_invalid) SM_LTE,
     smap_ent ''LTE-B40'' (SFreq freq_invalid) SM_LTE,
     smap_ent ''LTE-B41'' (SFreq freq_invalid) SM_LTE]"

definition channel_map :: "smap list" where
  "channel_map = [
     smap_ent ''GSM-850'' (SRange 128 251) SM_GSM,
     smap_ent ''GSM-900'' (SRange 1 24) SM_GSM,
     smap_ent ''GSM-900'' (SRange 975 1023) SM_GSM,
     smap_ent ''GSM-1800'' (SRange 512 885) SM_GSM,
     smap_ent ''GSM-1900'' (SRange 512 810) SM_GSM,
     smap_ent ''WCDMA-850'' (SRange 4132 4233) SM_WCDMA,
     smap_ent ''WCDMA-900'' (SRange 2712 2863) SM_WCDMA,
     smap_ent ''WCDMA-1900'' (SRange 9262 9538) SM_WCDMA,
     smap_ent ''WCDMA-2100'' (SRange 9612 9888) SM_WCDMA,
     smap_ent ''LTE-B1'' (SRange 18000 18599) SM_LTE,
     smap_ent ''LTE-B2'' (SRange 18600 19199) SM_LTE,
     smap_ent ''LTE-B3'' (SRange 19200 19949) SM_LTE,
     smap_ent ''LTE-B4'' (SRange 19950 20399) SM_LTE,
     smap_ent ''LTE-B5'' (SRange 20400 20649) SM_LTE,
     smap_ent ''LTE-B6'' (SRange 20650 20749) SM_LTE,
     smap_ent ''LTE-B7'' (SRange 20750 21449) SM_LTE,
     smap_ent ''LTE-B8'' (SRange 21450 21799) SM_LTE,
     smap_ent ''LTE-B9'' (SRange 21800 22149) SM_LTE,
     smap_ent ''LTE-B10'' (SRange 22150 22749) SM_LTE,
     smap_ent ''LTE-B11'' (SRange 22750 22999) SM_LTE,
     smap_ent ''LTE-B12'' (SRange 23000 23179) SM_LTE,
     smap_ent ''LTE-B13'' (SRange 23180 23279) SM_LTE,
     smap_ent ''LTE-B14'' (SRange 23280 23379) SM_LTE,
     smap_ent ''LTE-B15'' (SRange 0 0) SM_LTE,
     smap_ent ''LTE-B16'' (SRange 0 0) SM_LTE,
     smap_ent ''LTE-B17'' (SRange 23730 23849) SM_LTE,
     smap_ent ''LTE-B18'' (SRange 23850 23999) SM_LTE,
     smap_ent ''LTE-B19'' (SRange 24000 24149) SM_LTE,
     smap_ent ''LTE-B20'' (SRange 24150 24449) SM_LTE,
     smap_ent ''LTE-B21'' (SRange 24450 24599) SM_LTE,
     smap_ent ''LTE-B22'' (SRange 24600 25399) SM_LTE,
     smap_ent ''LTE-B23'' (SRange 25500 25699) SM_LTE,
     smap_ent ''LTE-B24'' (SRange 25700 26039) SM_LTE,
     smap_ent ''LTE-B25'' (SRange 26040 26689) SM_LTE,
     smap_ent ''LTE-B26'' (SRange 26690 27039) SM_LTE,
     smap_ent ''LTE-B27'' (SRange 27040 27209) SM_LTE,
     smap_ent ''LTE-B28'' (SRange 27210 27659) SM_LTE,
     smap_ent ''LTE-B29'' (SRange 0 0) SM_LTE,
     smap_ent ''LTE-B30'' (SRange 27660 27759) SM_LTE,
     smap_ent ''LTE-B31'' (SRange 27760 27809) SM_LTE,
     smap_ent ''LTE-B32'' (SRange 0 0) SM_LTE,
     smap_ent ''LTE-B33'' (SRange 36000 36199) SM_LTE,
     smap_ent ''LTE-B34'' (SRange 36200 36349) SM_LTE,
     smap_ent ''LTE-B35'' (SRange 36350 36949) SM_LTE,
     smap_ent ''LTE-B36'' (SRange 36950 37549) SM_LTE,
     smap_ent ''LTE-B37'' (SRange 37550 37749) SM_LTE,
     smap_ent ''LTE-B38'' (SRange 37750 38249) SM_LTE,
     smap_ent ''LTE-B39'' (SRange 38250 38649) SM_LTE,
     smap_ent ''LTE-B40'' (SRange 38650 39649) SM_LTE,
     smap_ent ''LTE-B41'' (SRange 39650 41589) SM_LTE]"

definition band_map :: "smap list" where
  "band_map = [
     smap_ent ''GSM-850'' (SInt 18) SM_GSM,
     smap_ent ''GSM-900'' (SInt 10) SM_GSM,
     smap_ent ''GSM-1800'' (SInt 11) SM_GSM,
     smap_ent ''GSM-1900'' (SInt 12) SM_GSM,
     smap_ent ''WCDMA-850'' (SInt 22) SM_WCDMA,
     smap_ent ''WCDMA-900'' (SInt 29) SM_WCDMA,
     smap_ent ''WCDMA-1900'' (SInt 16) SM_WCDMA,
     smap_ent ''WCDMA-2100'' (SInt 9) SM_WCDMA,
     smap_ent ''LTE-B1'' (SInt 34) SM_LTE,
     smap_ent ''LTE-B2'' (SInt 43) SM_LTE,
     smap_ent ''LTE-B3'' (SInt 44) SM_LTE,
     smap_ent ''LTE-B4'' (SInt 42) SM_LTE,
     smap_ent ''LTE-B5'' (SInt 45) SM_LTE,
     smap_ent ''LTE-B6'' (SInt 46) SM_LTE,
     smap_ent ''LTE-B7'' (SInt 35) SM_LTE,
     smap_ent ''LTE-B8'' (SInt 47) SM_LTE,
     smap_ent ''LTE-B9'' (SInt 48) SM_LTE,
     smap_ent ''LTE-B10'' (SInt 49) SM_LTE,
     smap_ent ''LTE-B11'' (SInt 41) SM_LTE,
     smap_ent ''LTE-B12'' (SInt 50) SM_LTE,
     smap_ent ''LTE-B13'' (SInt 36) SM_LTE,
     smap_ent ''LTE-B14'' (SInt 51) SM_LTE,
     smap_ent ''LTE-B15'' (SInt 52) SM_LTE,
     smap_ent ''LTE-B16'' (SInt 53) SM_LTE,
     smap_ent ''LTE-B17'' (SInt 37) SM_LTE,
     smap_ent ''LTE-B18'' (SInt 54) SM_LTE,
     smap_ent ''LTE-B19'' (SInt 55) SM_LTE,
     smap_ent ''LTE-B20'' (SInt 56) SM_LTE,
     smap_ent ''LTE-B21'' (SInt 57) SM_LTE,
     smap_ent ''LTE-B22'' (SInt 58) SM_LTE,
     smap_ent ''LTE-B23'' (SInt 59) SM_LTE,
     smap_ent ''LTE-B24'' (SInt 60) SM_LTE,
     smap_ent ''LTE-B25'' (SInt 61) SM_LTE,
     smap_ent ''LTE-B26'' (SInt 62) SM_LTE,
     smap_ent ''LTE-B27'' (SInt 63) SM_LTE,
     smap_ent ''LTE-B28'' (SInt 64) SM_LTE,
     smap_ent ''LTE-B29'' (SInt 65) SM_LTE,
     smap_ent ''LTE-B30'' (SInt 66) SM_LTE,
     smap_ent ''LTE-B31'' (SInt 67) SM_LTE,
     smap_ent ''LTE-B32'' (SInt 68) SM_LTE,
     smap_ent ''LTE-B33'' (SInt 69) SM_LTE,
     smap_ent ''LTE-B34'' (SInt 70) SM_LTE,
     smap_ent ''LTE-B35'' (SInt 71) SM_LTE,
     smap_ent ''LTE-B36'' (SInt 72) SM_LTE,
     smap_ent ''LTE-B37'' (SInt 73) SM_LTE,
     smap_ent ''LTE-B38'' (SInt 38) SM_LTE,
     smap_ent ''LTE-B39'' (SInt 74) SM_LTE,
     smap_ent ''LTE-B40'' (SInt 39) SM_LTE,
     smap_ent ''LTE-B41'' (SInt 76) SM_LTE]"

definition bwidth_map :: "smap list" where
  "bwidth_map = [
     smap_ent ''1.4'' (SRange 0 2000000) SM_LTE,
     smap_ent ''3'' (SRange 1 3500000) SM_LTE,
     smap_ent ''5'' (SRange 2 6000000) SM_LTE,
     smap_ent ''10'' (SRange 3 12000000) SM_LTE,
     smap_ent ''15'' (SRange 4 18000000) SM_LTE,
     smap_ent ''20'' (SRange 5 24000000) SM_LTE]"

definition txmod_map :: "smap list" where
  "txmod_map = [
     smap_ent ''WCDMA'' (SInt 0) SM_WCDMA,
     smap_ent ''CW'' (SInt 1) SM_WCDMA,
     smap_ent ''QPSK'' (SInt 0) SM_LTE,
     smap_ent ''QAM16'' (SInt 1) SM_LTE,
     smap_ent ''QAM256'' (SInt 2) SM_LTE]"

section \<open>Look-ups\<close>

definition smap_lookup :: "smap list \<Rightarrow> string \<Rightarrow> smap option" where
  "smap_lookup mp str = List.find (\<lambda>m. sm_str m = str) mp"

definition smap_channel :: "smap \<Rightarrow> smap option" where
  "smap_channel band = List.find (\<lambda>chan. sm_str band = sm_str chan) channel_map"

definition smap_freq :: "smap \<Rightarrow> smap list \<Rightarrow> smap option" where
  "smap_freq band freq = List.find (\<lambda>m. sm_str band = sm_str m) freq"

text \<open>\<open>channel_valid\<close>, used by \<open>prof_chan\<close>.\<close>

definition channel_valid :: "smap \<Rightarrow> int \<Rightarrow> bool" where
  "channel_valid chan channel \<longleftrightarrow> channel \<ge> sm_ir0 chan \<and> channel \<le> sm_ir1 chan"

section \<open>What the tables give for a band\<close>

text \<open>
  The facts about the 49 bands come from two evaluations: a walk over \<open>ufreq_map\<close> that
  shows the form of every mapper, and a walk over \<open>band_map\<close> that looks each band up and
  evaluates its mapper at both ends of the channel range.
\<close>

lemmas ufreq_defs = ufreq_utra_1_def ufreq_utra_2_def ufreq_utra_5_def ufreq_utra_8_def
  ufreq_eutra_1_def ufreq_eutra_2_def ufreq_eutra_3_def ufreq_eutra_4_def ufreq_eutra_5_def
  ufreq_eutra_6_def ufreq_eutra_7_def ufreq_eutra_8_def ufreq_eutra_9_def ufreq_eutra_10_def
  ufreq_eutra_11_def ufreq_eutra_12_def ufreq_eutra_13_def ufreq_eutra_14_def
  ufreq_eutra_17_def ufreq_eutra_18_def ufreq_eutra_19_def ufreq_eutra_20_def
  ufreq_eutra_21_def ufreq_eutra_22_def ufreq_eutra_23_def ufreq_eutra_24_def
  ufreq_eutra_25_def ufreq_eutra_26_def ufreq_eutra_27_def ufreq_eutra_28_def
  ufreq_eutra_30_def ufreq_eutra_31_def ufreq_eutra_33_def ufreq_eutra_34_def
  ufreq_eutra_35_def ufreq_eutra_36_def ufreq_eutra_37_def ufreq_eutra_38_def
  ufreq_eutra_39_def ufreq_eutra_40_def ufreq_eutra_41_def

definition linear_100k :: "(int \<Rightarrow> int) \<Rightarrow> bool" where
  "linear_100k f \<longleftrightarrow> f 0 mod 100000 = 0 \<and> (\<forall>ch. f ch = f 0 + ch * 100000)"

definition mapper_form :: "smap \<Rightarrow> bool" where
  "mapper_form u \<longleftrightarrow> (case sm_val u of SFreq f \<Rightarrow> f = freq_invalid
     \<or> sm_flags u = SM_LTE \<and> linear_100k f
     \<or> sm_flags u = SM_WCDMA \<and> f \<in> {ufreq_utra_1, ufreq_utra_2, ufreq_utra_5, ufreq_utra_8} | _ \<Rightarrow> False)"

lemma ufreq_map_form: "list_all mapper_form ufreq_map"
  unfolding ufreq_map_def list.pred_inject
  by (intro conjI TrueI; simp add: mapper_form_def linear_100k_def SM_defs ufreq_defs)

lemma ufreq_map_entry:
  assumes "smap_freq b ufreq_map = Some u"
  obtains f where "sm_freq u = Some f"
    "f = freq_invalid \<or> sm_flags u = SM_LTE \<and> linear_100k f
       \<or> sm_flags u = SM_WCDMA \<and> f \<in> {ufreq_utra_1, ufreq_utra_2, ufreq_utra_5, ufreq_utra_8}"
proof -
  have "mapper_form u"
    using assms ufreq_map_form
    by (auto simp: smap_freq_def list_all_iff dest: find_Some_iff2)
  then show ?thesis
    using that by (auto simp: mapper_form_def sm_freq_def split: smval.splits)
qed

text \<open>The bands that transmit: no mapper exists for GSM and for the four LTE bands left out.\<close>

definition has_uplink :: "smap \<Rightarrow> bool" where
  "has_uplink b \<longleftrightarrow> sm_flags b \<noteq> SM_GSM
     \<and> sm_str b \<notin> {''LTE-B15'', ''LTE-B16'', ''LTE-B29'', ''LTE-B32''}"

definition band_check :: "smap \<Rightarrow> bool" where
  "band_check b = (case (smap_channel b, smap_freq b ufreq_map, smap_freq b dfreq_map) of
     (Some c, Some u, Some d) \<Rightarrow>
       sm_flags c = sm_flags b \<and> sm_flags u = sm_flags b \<and> sm_ir0 c \<le> sm_ir1 c \<and> 0 \<le> sm_ir0 c
       \<and> sm_ir1 c \<le> 41589 \<and> sm_flags b \<in> {SM_GSM, SM_WCDMA, SM_LTE} \<and> (sm_flags b = SM_WCDMA \<longrightarrow> has_uplink b)
       \<and> (case (sm_freq u, sm_freq d) of
            (Some f, Some g) \<Rightarrow> g (sm_ir0 c) = -1 \<and>
              (if has_uplink b then 1000 < sm_ir0 c \<and> 0 < f (sm_ir0 c) \<and> 0 < f (sm_ir1 c)
               else f (sm_ir0 c) = -1 \<and> f (sm_ir1 c) = -1)
          | _ \<Rightarrow> False)
   | _ \<Rightarrow> False)"

lemma band_map_checked: "list_all band_check band_map"
  by code_simp

definition chan_step :: "smap \<Rightarrow> int" where
  "chan_step b = (if sm_flags b = SM_LTE then 100000 else 200000)"

lemma utra_form:
  assumes "f \<in> {ufreq_utra_1, ufreq_utra_2, ufreq_utra_5, ufreq_utra_8}"
  shows "\<exists>lo hi k. \<forall>ch > 1000. f ch = (if lo \<le> ch \<and> ch \<le> hi then ch * 200000 + k else -1)"
proof -
  have d: "x * 1000000 div 5 = x * (200000 :: int)" for x by simp
  have "\<forall>ch > 1000. ufreq_utra_1 ch = (if 9612 \<le> ch \<and> ch \<le> 9888 then ch * 200000 + 0 else -1)"
    "\<forall>ch > 1000. ufreq_utra_2 ch = (if 9262 \<le> ch \<and> ch \<le> 9538 then ch * 200000 + 0 else -1)"
    "\<forall>ch > 1000. ufreq_utra_5 ch = (if 4132 \<le> ch \<and> ch \<le> 4233 then ch * 200000 + 0 else -1)"
    "\<forall>ch > 1000. ufreq_utra_8 ch =
       (if 2712 \<le> ch \<and> ch \<le> 2863 then ch * 200000 + 340000000 else -1)"
    by (simp_all add: ufreq_utra_1_def ufreq_utra_2_def ufreq_utra_5_def ufreq_utra_8_def
        utra_add5_def d)
  then show ?thesis using assms by blast
qed

lemma utra_steps:
  assumes "f \<in> {ufreq_utra_1, ufreq_utra_2, ufreq_utra_5, ufreq_utra_8}"
    and "1000 < lo" and "0 < f lo" and "0 < f hi" and "lo \<le> ch" and "ch \<le> hi"
  shows "f ch = f lo + (ch - lo) * 200000" "0 < f ch"
proof -
  from utra_form [OF assms(1)] obtain a b k
    where f: "\<And>ch. 1000 < ch \<Longrightarrow> f ch = (if a \<le> ch \<and> ch \<le> b then ch * 200000 + k else -1)"
    by blast
  have "a \<le> lo \<and> lo \<le> b" using f [of lo] assms(2,3) by (simp split: if_splits)
  moreover have "a \<le> hi \<and> hi \<le> b" using f [of hi] assms(2,4,5,6) by (simp split: if_splits)
  ultimately show "f ch = f lo + (ch - lo) * 200000"
    using f [of lo] f [of ch] assms(2,5,6) by simp
  then show "0 < f ch" using assms(3,5) by simp
qed

lemma linear_steps:
  assumes "linear_100k f" and "0 < f lo" and "lo \<le> ch"
  shows "f ch = f lo + (ch - lo) * 100000" "0 < f ch"
proof -
  have "f x = f 0 + x * 100000" for x using assms(1) unfolding linear_100k_def by blast
  from this [of ch] this [of lo] show "f ch = f lo + (ch - lo) * 100000"
    by (simp add: algebra_simps)
  then show "0 < f ch" using assms(2,3) by simp
qed

lemma band_maps:
  assumes "b \<in> set band_map"
  obtains c u f d g where "smap_channel b = Some c" "smap_freq b ufreq_map = Some u"
    "sm_freq u = Some f" "smap_freq b dfreq_map = Some d" "sm_freq d = Some g"
    "sm_flags c = sm_flags b" "sm_ir0 c \<le> sm_ir1 c" "0 \<le> sm_ir0 c" "sm_ir1 c \<le> 41589"
    "sm_flags b \<in> {SM_GSM, SM_WCDMA, SM_LTE}"
    "has_uplink b \<longrightarrow> 1000 < sm_ir0 c \<and> (\<forall>ch. channel_valid c ch \<longrightarrow> 0 < f ch \<and>
       f ch = f (sm_ir0 c) + (ch - sm_ir0 c) * chan_step b)"
    "\<not> has_uplink b \<longrightarrow> (\<forall>ch. f ch = -1)"
proof -
  have chk: "band_check b" using assms band_map_checked by (simp add: list_all_iff)
  obtain c where c: "smap_channel b = Some c"
    using chk by (cases "smap_channel b") (simp_all add: band_check_def)
  obtain u where u: "smap_freq b ufreq_map = Some u"
    using chk by (cases "smap_freq b ufreq_map") (simp_all add: band_check_def c)
  obtain d where d: "smap_freq b dfreq_map = Some d"
    using chk by (cases "smap_freq b dfreq_map") (simp_all add: band_check_def c u)
  note l = c u d
  obtain f where f: "sm_freq u = Some f"
    using chk by (cases "sm_freq u") (simp_all add: band_check_def l)
  obtain g where g: "sm_freq d = Some g"
    using chk by (cases "sm_freq d") (simp_all add: band_check_def l f)
  note l' = f g
  note facts = chk [unfolded band_check_def l l' prod.case option.case]
  from ufreq_map_entry [OF l(2)] obtain f' where "sm_freq u = Some f'" and form': "f' = freq_invalid
      \<or> sm_flags u = SM_LTE \<and> linear_100k f'
      \<or> sm_flags u = SM_WCDMA \<and> f' \<in> {ufreq_utra_1, ufreq_utra_2, ufreq_utra_5, ufreq_utra_8}"
    by blast
  then have form: "f = freq_invalid \<or> sm_flags b = SM_LTE \<and> linear_100k f
      \<or> sm_flags b = SM_WCDMA \<and> f \<in> {ufreq_utra_1, ufreq_utra_2, ufreq_utra_5, ufreq_utra_8}"
    using l' facts by simp
  have dif: "SM_LTE \<noteq> SM_WCDMA" by (simp add: SM_defs)
  have up: "1000 < sm_ir0 c \<and> (\<forall>ch. channel_valid c ch \<longrightarrow> 0 < f ch \<and>
      f ch = f (sm_ir0 c) + (ch - sm_ir0 c) * chan_step b)" if "has_uplink b"
  proof -
    have lo: "1000 < sm_ir0 c" "0 < f (sm_ir0 c)" "0 < f (sm_ir1 c)" using facts that by simp_all
    then have "f \<noteq> freq_invalid" by (auto simp: freq_invalid_def)
    with form consider "sm_flags b = SM_LTE" "linear_100k f"
      | "sm_flags b = SM_WCDMA" "f \<in> {ufreq_utra_1, ufreq_utra_2, ufreq_utra_5, ufreq_utra_8}"
      by blast
    then show ?thesis
    proof cases
      case 1
      then have "chan_step b = 100000" by (simp add: chan_step_def)
      then show ?thesis
        using lo(1) linear_steps [OF 1(2) lo(2)] unfolding channel_valid_def by metis
    next
      case 2
      then have "chan_step b = 200000" using dif by (simp add: chan_step_def)
      then show ?thesis
        using lo(1) utra_steps [OF 2(2) lo] unfolding channel_valid_def by metis
    qed
  qed
  have no: "f ch = -1" if "\<not> has_uplink b" for ch
  proof -
    have m1: "f (sm_ir0 c) = -1" using facts that by simp
    have "\<not> linear_100k f"
    proof
      assume "linear_100k f"
      then have "f 0 mod 100000 = 0" and "f (sm_ir0 c) = f 0 + sm_ir0 c * 100000"
        unfolding linear_100k_def by blast+
      then have "100000 dvd f (sm_ir0 c)" by (simp add: dvd_eq_mod_eq_0)
      then show False unfolding m1 by simp
    qed
    moreover have "sm_flags b \<noteq> SM_WCDMA" using facts that by blast
    ultimately have "f = freq_invalid" using form by (elim disjE) simp_all
    then show ?thesis by (simp only: freq_invalid_def)
  qed
  show ?thesis
  proof (rule that [OF l(1,2) l'(1) l(3) l'(2)])
    show "sm_flags c = sm_flags b" "sm_ir0 c \<le> sm_ir1 c" "0 \<le> sm_ir0 c" "sm_ir1 c \<le> 41589"
      "sm_flags b \<in> {SM_GSM, SM_WCDMA, SM_LTE}"
      using facts by blast+
  qed (use up no in blast)+
qed

end
