(* ===== verification/Sw_Profile.thy ===== *)
theory Sw_Profile
  imports Sw_Bands
begin

text \<open>
  Measurement descriptors and test profiles of the modem test
  (\<open>package/mfgtest/swtest/swtest.c\<close>): \<open>struct rfm\<close> and \<open>struct rfpe\<close>, the profile commands
  \<open>prof_*\<close>, \<open>prof_lookup\<close>, \<open>rfm_opt\<close>, \<open>parse_profile\<close>, \<open>rfm_validate\<close> and the options of \<open>main\<close>.

  The list \<open>g->rfm\<close> is a list of records; \<open>g->rfmc\<close> always points to its last element
  (NULL when it is empty), first to the measurement of the options. A handler returns
  its error text (\<open>Inl\<close>) or the updated list; every error text ends in \<open>Fatal\<close>, that is in
  \<open>exit(1)\<close>. Single precision floats are a type \<open>'f\<close> with the operations of \<open>fops\<close>.
\<close>

section \<open>C conversions\<close>

text \<open>A \<open>long\<close> stored into an \<open>int\<close>; \<open>abs\<close> of the smallest \<open>int\<close> wraps to itself.\<close>

definition int32 :: "int \<Rightarrow> int" where
  "int32 x = (x + 2147483648) mod 4294967296 - 2147483648"

definition c_abs :: "int \<Rightarrow> int" where
  "c_abs x = (if int32 x = -2147483648 then -2147483648 else \<bar>int32 x\<bar>)"

text \<open>Floats: conversion from text and from integers, comparison, arithmetic.\<close>

record 'f fops =
  f_strtof :: "string \<Rightarrow> 'f \<times> nat"
  f_of_int :: "int \<Rightarrow> 'f"
  f_less :: "'f \<Rightarrow> 'f \<Rightarrow> bool"
  f_add :: "'f \<Rightarrow> 'f \<Rightarrow> 'f"
  f_sub :: "'f \<Rightarrow> 'f \<Rightarrow> 'f"
  f_mul :: "'f \<Rightarrow> 'f \<Rightarrow> 'f"
  f_div :: "'f \<Rightarrow> 'f \<Rightarrow> 'f"
  f_db_bin :: 'f

section \<open>Measurements\<close>

record 'f rfpe =
  pe_ofc :: int
  pe_r0 :: 'f
  pe_r1 :: 'f

record 'f rfm =
  m_msg :: "string option"
  m_band :: "smap option"
  m_chan :: "smap option"
  m_bwidth :: "smap option"
  m_ufreq :: "smap option"
  m_dfreq :: "smap option"
  m_txmod :: "smap option"
  m_pe :: "'f rfpe list"
  m_channel :: int
  m_bandwidth :: int
  m_txpwr :: int
  m_tech :: nat
  m_sr :: u32
  m_uf :: int
  m_df :: int
  m_dbin0 :: 'f
  m_dbin1 :: 'f
  m_dbin2 :: 'f
  m_nbin :: int

definition TX_PWR_MIN :: int where "TX_PWR_MIN = -200"

text \<open>A zeroed descriptor: \<open>bzero\<close>, and the static \<open>g->rfmo\<close>.\<close>

definition rfm_zero :: "'f fops \<Rightarrow> 'f rfm" where
  "rfm_zero F = \<lparr>m_msg = None, m_band = None, m_chan = None, m_bwidth = None, m_ufreq = None,
     m_dfreq = None, m_txmod = None, m_pe = [], m_channel = 0, m_bandwidth = 0, m_txpwr = 0,
     m_tech = 0, m_sr = 0, m_uf = 0, m_df = 0, m_dbin0 = f_of_int F 0,
     m_dbin1 = f_of_int F 0, m_dbin2 = f_of_int F 0, m_nbin = 0\<rparr>"

section \<open>Text\<close>

definition isblank :: "char \<Rightarrow> bool" where
  "isblank c \<longleftrightarrow> c = CHR '' '' \<or> c = CHR 0x09"

definition skip_spc :: "string \<Rightarrow> string" where
  "skip_spc s = dropWhile isblank s"

text \<open>The position after the blanks that follow position \<open>k\<close>: \<open>xp = skip_spc(ep)\<close>.\<close>

definition skip_from :: "string \<Rightarrow> nat \<Rightarrow> nat" where
  "skip_from s k = k + length (takeWhile isblank (drop k s))"

section \<open>Profile commands\<close>

text \<open>\<open>rfm = g->rfmc; if(!rfm) return(...)\<close> around a handler's body.\<close>

definition on_cur :: "('f rfm \<Rightarrow> string + 'f rfm) \<Rightarrow> 'f rfm list \<Rightarrow> string + 'f rfm list" where
  "on_cur body rs = (if rs = [] then Inl ''no rf measurement declared''
     else case body (last rs) of Inl e \<Rightarrow> Inl e | Inr r \<Rightarrow> Inr (butlast rs @ [r]))"

definition prof_new :: "'f fops \<Rightarrow> string \<Rightarrow> 'f rfm list \<Rightarrow> string + 'f rfm list" where
  "prof_new F s rs = Inr (rs @ [(rfm_zero F)\<lparr>m_txpwr := TX_PWR_MIN, m_msg := Some s,
     m_dbin0 := f_db_bin F\<rparr>])"

definition prof_band :: "string \<Rightarrow> 'f rfm \<Rightarrow> string + 'f rfm" where
  "prof_band s r = (if m_band r \<noteq> None then Inl ''redefinition of band''
     else case smap_lookup band_map s of
       None \<Rightarrow> Inl ''unknown band''
     | Some b \<Rightarrow> Inr (r\<lparr>m_band := Some b\<rparr>))"

definition chan_number :: "smap \<Rightarrow> string \<Rightarrow> string + int" where
  "chan_number c s =
     (if s = ''low'' then Inr (sm_ir0 c)
      else if s = ''mid'' then Inr ((sm_ir0 c + sm_ir1 c + 1) div 2)
      else if s = ''high'' then Inr (sm_ir1 c)
      else let (v, ep) = strtol 0 s; xp = skip_from s ep
           in if xp = 0 \<or> drop xp s \<noteq> [] then Inl ''invalid channel number''
              else if \<not> channel_valid c (int32 v) then Inl ''channel not valid for band''
              else Inr v)"

definition prof_chan :: "string \<Rightarrow> 'f rfm \<Rightarrow> string + 'f rfm" where
  "prof_chan s r = (case m_band r of None \<Rightarrow> Inl ''no band defined yet''
     | Some b \<Rightarrow> if m_chan r \<noteq> None then Inl ''redefinition of channel''
         else case smap_channel b of
           None \<Rightarrow> Inl ''no channel list for band''
         | Some c \<Rightarrow> case chan_number c s of
             Inl e \<Rightarrow> Inl e
           | Inr v \<Rightarrow> Inr (r\<lparr>m_chan := Some c, m_channel := int32 v\<rparr>))"

definition prof_srate :: "string \<Rightarrow> 'f rfm \<Rightarrow> string + 'f rfm" where
  "prof_srate s r = (let (v, ep) = strtoul 0 s; sr = ucast v :: u32
     in if ep = 0 \<or> drop ep s \<noteq> [] \<or> sr = 0 then Inl ''invalid sample rate value''
        else Inr (r\<lparr>m_sr := sr\<rparr>))"

definition prof_bwidth :: "string \<Rightarrow> 'f rfm \<Rightarrow> string + 'f rfm" where
  "prof_bwidth s r = (if m_band r = None then Inl ''no band defined yet''
     else if m_bwidth r \<noteq> None then Inl ''redefinition of bandwidth''
     else case smap_lookup bwidth_map s of
       Some w \<Rightarrow> Inr (r\<lparr>m_bwidth := Some w, m_bandwidth := sm_ir1 w\<rparr>)
     | None \<Rightarrow> (let (v, ep) = strtol 0 s
         in if ep = 0 \<or> drop ep s \<noteq> [] then Inl ''invalid bandwidth value''
            else Inr (r\<lparr>m_bwidth := None, m_bandwidth := int32 v\<rparr>)))"

definition prof_txmod :: "string \<Rightarrow> 'f rfm \<Rightarrow> string + 'f rfm" where
  "prof_txmod s r = (case m_band r of None \<Rightarrow> Inl ''no band defined yet''
     | Some b \<Rightarrow> if m_txmod r \<noteq> None then Inl ''redefinition of txmod''
         else case smap_lookup txmod_map s of
           None \<Rightarrow> Inl ''invalid tx modulation''
         | Some t \<Rightarrow> if sm_flags b AND sm_flags t = 0 then Inl ''invalid txmod for band''
             else Inr (r\<lparr>m_txmod := Some t\<rparr>))"

definition prof_txpwr :: "string \<Rightarrow> 'f rfm \<Rightarrow> string + 'f rfm" where
  "prof_txpwr s r = (if m_band r = None then Inl ''no band defined yet''
     else if m_txpwr r > TX_PWR_MIN then Inl ''redefinition of tx power''
     else let (v, ep) = strtol 0 s; xp = skip_from s ep
          in if xp = 0 \<or> drop xp s \<noteq> [] then Inl ''invalid tx power''
             else Inr (r\<lparr>m_txpwr := int32 v\<rparr>))"

text \<open>
  The search for a duplicate offset and for the link the new point is put behind: \<open>i\<close>
  counts the points passed, \<open>pn\<close> is the number of points before that link.
\<close>

fun pe_find :: "int \<Rightarrow> nat \<Rightarrow> nat \<Rightarrow> 'f rfpe list \<Rightarrow> nat option" where
  "pe_find ofc i pn [] = Some pn"
| "pe_find ofc i pn (pe # ps) =
     (if pe_ofc pe = ofc then None
      else pe_find ofc (Suc i) (if pe_ofc pe < ofc then Suc i else pn) ps)"

definition pe_add :: "int \<Rightarrow> 'f \<Rightarrow> 'f \<Rightarrow> 'f rfpe list \<Rightarrow> string + 'f rfpe list" where
  "pe_add ofc lo hi ps = (case pe_find ofc 0 0 ps of
       None \<Rightarrow> Inl ''duplicate pwr envelope point''
     | Some n \<Rightarrow> Inr (take n ps @ \<lparr>pe_ofc = int32 ofc, pe_r0 = lo, pe_r1 = hi\<rparr> # drop n ps))"

definition prof_pe :: "'f fops \<Rightarrow> string \<Rightarrow> 'f rfm \<Rightarrow> string + 'f rfm" where
  "prof_pe F s r = (if m_bandwidth r \<le> 0 then Inl ''no bandwidth declared yet''
     else let (ofc, ep) = strtol 0 s; xp = skip_from s ep
     in if ep = 0 \<or> xp \<le> ep then Inl ''invalid frequency offset''
     else if c_abs ofc > m_bandwidth r div 2 then Inl ''point outside bandwidth''
     else let s = drop xp s; (lo, ep) = f_strtof F s; xp = skip_from s ep
     in if ep = 0 \<or> xp \<le> ep then Inl ''invalid min dbm''
     else let s = drop xp s; (hi, ep) = f_strtof F s; xp = skip_from s ep
     in if ep = 0 \<or> drop xp s \<noteq> [] then Inl ''invalid max dbm''
     else if f_less F hi lo then Inl ''invalid dbm range''
     else case pe_add ofc lo hi (m_pe r) of
       Inl e \<Rightarrow> Inl e
     | Inr ps \<Rightarrow> Inr (r\<lparr>m_pe := ps\<rparr>))"

definition prof_dbin :: "'f fops \<Rightarrow> string \<Rightarrow> 'f rfm \<Rightarrow> string + 'f rfm" where
  "prof_dbin F s r = (let (v, ep) = f_strtof F s
     in if ep = 0 \<or> drop ep s \<noteq> [] then Inl ''invalid db/bin''
        else Inr (r\<lparr>m_dbin0 := v\<rparr>))"

datatype pfc = PROF_NEW | PROF_SRATE | PROF_BWIDTH | PROF_BAND | PROF_CHAN | PROF_TXMOD
  | PROF_TXPWR | PROF_PE | PROF_DBIN

text \<open>Command names, in the order of the table; every entry has the flags \<open>SM_ALL\<close>.\<close>

definition profile_cmds :: "(string \<times> pfc \<times> u32) list" where
  "profile_cmds = [(''new'', PROF_NEW, SM_ALL), (''srate'', PROF_SRATE, SM_ALL),
     (''bandwidth'', PROF_BWIDTH, SM_ALL), (''band'', PROF_BAND, SM_ALL),
     (''channel'', PROF_CHAN, SM_ALL), (''txmod'', PROF_TXMOD, SM_ALL),
     (''txpwr'', PROF_TXPWR, SM_ALL), (''pe'', PROF_PE, SM_ALL), (''dbin'', PROF_DBIN, SM_ALL)]"

fun pfc_hdl :: "'f fops \<Rightarrow> pfc \<Rightarrow> string \<Rightarrow> 'f rfm list \<Rightarrow> string + 'f rfm list" where
  "pfc_hdl F PROF_NEW s = prof_new F s"
| "pfc_hdl F PROF_SRATE s = on_cur (prof_srate s)"
| "pfc_hdl F PROF_BWIDTH s = on_cur (prof_bwidth s)"
| "pfc_hdl F PROF_BAND s = on_cur (prof_band s)"
| "pfc_hdl F PROF_CHAN s = on_cur (prof_chan s)"
| "pfc_hdl F PROF_TXMOD s = on_cur (prof_txmod s)"
| "pfc_hdl F PROF_TXPWR s = on_cur (prof_txpwr s)"
| "pfc_hdl F PROF_PE s = on_cur (prof_pe F s)"
| "pfc_hdl F PROF_DBIN s = on_cur (prof_dbin F s)"

text \<open>A command that matches without a blank behind it has moved \<open>str\<close> all the same.\<close>

fun lookup_in :: "(string \<times> pfc \<times> u32) list \<Rightarrow> string \<Rightarrow> ((pfc \<times> u32) \<times> string) option" where
  "lookup_in [] str = None"
| "lookup_in ((cmd, pfc) # tab) str =
     (let n = length cmd
      in if \<not> strncmp_eq cmd str n then lookup_in tab str
         else let str = drop n str; s = skip_spc str
              in if length s < length str then Some (pfc, s) else lookup_in tab str)"

definition prof_lookup :: "string \<Rightarrow> ((pfc \<times> u32) \<times> string) option" where
  "prof_lookup str = lookup_in profile_cmds str"

text \<open>The check that a parameter fits the band of the current measurement.\<close>

definition band_refuses :: "u32 \<Rightarrow> 'f rfm list \<Rightarrow> bool" where
  "band_refuses flags rs \<longleftrightarrow> rs \<noteq> [] \<and>
     (case m_band (last rs) of None \<Rightarrow> False | Some b \<Rightarrow> sm_flags b AND flags = 0)"

section \<open>The profile file\<close>

text \<open>\<open>fgets(line, 255, fp)\<close>: at most 254 characters, up to and including a newline.\<close>

fun fgets :: "nat \<Rightarrow> string \<Rightarrow> string \<times> string" where
  "fgets 0 s = ([], s)"
| "fgets (Suc n) [] = ([], [])"
| "fgets (Suc n) (c # s) = (if c = CHR 0x0A then ([c], s)
     else let (l, r) = fgets n s in (c # l, r))"

lemma fgets_rest: "s \<noteq> [] \<Longrightarrow> 0 < n \<Longrightarrow> length (snd (fgets n s)) < length s"
proof (induction n s rule: fgets.induct)
  case (3 n c s)
  then show ?case
    by (cases "s = [] \<or> n = 0") (auto split: prod.splits elim: fgets.elims)
qed simp_all

text \<open>One line, as a C string: what follows a NUL is not seen.\<close>

definition profile_line :: "'f fops \<Rightarrow> string \<Rightarrow> 'f rfm list \<Rightarrow> string + 'f rfm list" where
  "profile_line F line rs =
     (let s = skip_spc (takeWhile (\<lambda>c. c \<noteq> CHR 0x00) line)
      in if s \<noteq> [] \<and> hd s = CHR ''#'' then Inr rs
         else if s \<noteq> [] \<and> hd s = CHR 0x0A then Inr rs
         else let s = takeWhile (\<lambda>c. c \<noteq> CHR 0x0A) s
         in case prof_lookup s of
              None \<Rightarrow> Inl ''unknown command''
            | Some ((pfc, flags), s) \<Rightarrow>
                if band_refuses flags rs then Inl ''invalid for band''
                else pfc_hdl F pfc s rs)"

function parse_profile :: "'f fops \<Rightarrow> string \<Rightarrow> 'f rfm list \<Rightarrow> string + 'f rfm list" where
  "parse_profile F fp rs = (if fp = [] then Inr rs
     else let (line, fp) = fgets 254 fp
          in case profile_line F line rs of
               Inl e \<Rightarrow> Inl e
             | Inr rs \<Rightarrow> parse_profile F fp rs)"
  by pat_completeness auto
termination
proof (relation "measure (\<lambda>(F, fp, rs). length fp)", goal_cases)
  case (2 F fp rs x line fp' rs')
  then show ?case using fgets_rest [of fp 254] by (metis in_measure case_prod_conv snd_conv zero_less_numeral)
qed simp

declare parse_profile.simps [simp del]

section \<open>Validation\<close>

definition mid_channel :: "smap \<Rightarrow> int" where
  "mid_channel c = (sm_ir0 c + sm_ir1 c + 1) div 2"

definition band_tech :: "smap \<Rightarrow> nat option" where
  "band_tech b = (if sm_flags b AND SM_GSM \<noteq> 0 then Some 1
     else if sm_flags b AND SM_WCDMA \<noteq> 0 then Some 2
     else if sm_flags b AND SM_LTE \<noteq> 0 then Some 3 else None)"

text \<open>The channel: the middle of the band when none was given.\<close>

definition validate_chan :: "smap \<Rightarrow> 'f rfm \<Rightarrow> string + 'f rfm" where
  "validate_chan b r = (if m_channel r \<le> 0 then
       (case smap_channel b of None \<Rightarrow> Inl ''no channel list for band''
        | Some c \<Rightarrow> Inr (r\<lparr>m_chan := Some c, m_channel := mid_channel c\<rparr>))
     else Inr r)"

definition validate_freq :: "smap \<Rightarrow> 'f rfm \<Rightarrow> string + 'f rfm" where
  "validate_freq b r = (case smap_freq b ufreq_map of
       None \<Rightarrow> Inl ''no uplink frequency map''
     | Some u \<Rightarrow> case sm_freq u of None \<Rightarrow> Inl ''no uplink frequency handler''
     | Some uf \<Rightarrow> if uf (m_channel r) \<le> 0 then Inl ''invalid frequency''
     else case smap_freq b dfreq_map of
       None \<Rightarrow> Inl ''no downlink frequency map''
     | Some d \<Rightarrow> case sm_freq d of None \<Rightarrow> Inl ''no downlink frequency handler''
     | Some df \<Rightarrow> Inr (r\<lparr>m_ufreq := Some u, m_uf := uf (m_channel r),
                         m_dfreq := Some d, m_df := df (m_channel r)\<rparr>))"

definition rfm_validate :: "'f rfm \<Rightarrow> string + 'f rfm" where
  "rfm_validate r = (case m_band r of None \<Rightarrow> Inl ''no band specified''
     | Some b \<Rightarrow> case band_tech b of None \<Rightarrow> Inl ''unknown band technology''
     | Some tech \<Rightarrow>
         if m_bandwidth r \<le> 0 then Inl ''no bandwidth specified''
         else case validate_chan b (r\<lparr>m_tech := tech\<rparr>) of Inl e \<Rightarrow> Inl e
         | Inr r \<Rightarrow> case validate_freq b r of Inl e \<Rightarrow> Inl e
         | Inr r \<Rightarrow>
             if m_txmod r = None then Inl ''no tx modulation specified''
             else if m_txpwr r \<le> TX_PWR_MIN then Inl ''no tx power specified''
             else Inr r)"

fun validate_all :: "'f rfm list \<Rightarrow> string + 'f rfm list" where
  "validate_all [] = Inr []"
| "validate_all (r # rs) = (case rfm_validate r of Inl e \<Rightarrow> Inl e
     | Inr r \<Rightarrow> case validate_all rs of Inl e \<Rightarrow> Inl e | Inr rs \<Rightarrow> Inr (r # rs))"

section \<open>Options\<close>

datatype sw_opt = OptT string | OptF string | OptB string | OptC string | OptM string
  | OptS string | OptW string | OptP string | OptO string | OptHost string | OptN string
  | OptD | OptH | OptBad

record sw_args =
  a_tty :: "string option"
  a_profile :: "string option"
  a_dur :: int
  a_host :: "string option"
  a_vcid :: string
  a_debug :: bool

definition args_init :: sw_args where
  "args_init = \<lparr>a_tty = None, a_profile = None, a_dur = 0, a_host = None, a_vcid = [],
     a_debug = False\<rparr>"

definition pfc_flags :: "pfc \<Rightarrow> u32" where
  "pfc_flags p = SM_ALL"

text \<open>The measurement of the options, \<open>rfmo\<close>, is the only one while options are read.\<close>

definition rfm_opt :: "'f fops \<Rightarrow> pfc \<Rightarrow> string \<Rightarrow> 'f rfm \<Rightarrow> string + 'f rfm" where
  "rfm_opt F p arg rfmo = (let rfmo = rfmo\<lparr>m_msg := Some ''cmdline''\<rparr>
     in if band_refuses (pfc_flags p) [rfmo] then Inl ''invalid for band''
        else case pfc_hdl F p arg [rfmo] of Inl e \<Rightarrow> Inl e | Inr rs \<Rightarrow> Inr (hd rs))"

definition opt_rfm :: "'f fops \<Rightarrow> pfc \<Rightarrow> string \<Rightarrow> sw_args \<times> 'f rfm \<Rightarrow> string + sw_args \<times> 'f rfm"
  where "opt_rfm F p arg = (\<lambda>(a, rfmo). case rfm_opt F p arg rfmo of Inl e \<Rightarrow> Inl e
     | Inr rfmo \<Rightarrow> Inr (a, rfmo))"

fun sw_opt_step :: "'f fops \<Rightarrow> sw_opt \<Rightarrow> sw_args \<times> 'f rfm \<Rightarrow> string + sw_args \<times> 'f rfm" where
  "sw_opt_step F (OptT s) (a, r) = Inr (a\<lparr>a_tty := Some s\<rparr>, r)"
| "sw_opt_step F (OptF s) (a, r) = Inr (a\<lparr>a_profile := Some s\<rparr>, r)"
| "sw_opt_step F (OptB s) (a, r) = opt_rfm F PROF_BAND s (a, r)"
| "sw_opt_step F (OptC s) (a, r) = opt_rfm F PROF_CHAN s (a, r)"
| "sw_opt_step F (OptM s) (a, r) = opt_rfm F PROF_TXMOD s (a, r)"
| "sw_opt_step F (OptS s) (a, r) = opt_rfm F PROF_SRATE s (a, r)"
| "sw_opt_step F (OptW s) (a, r) = opt_rfm F PROF_BWIDTH s (a, r)"
| "sw_opt_step F (OptP s) (a, r) = opt_rfm F PROF_TXPWR s (a, r)"
| "sw_opt_step F (OptO s) (a, r) = Inr (a\<lparr>a_dur := int32 (fst (strtol 0 s))\<rparr>, r)"
| "sw_opt_step F (OptHost s) (a, r) = Inr (a\<lparr>a_host := Some s\<rparr>, r)"
| "sw_opt_step F (OptN s) (a, r) = Inr (a\<lparr>a_vcid := s\<rparr>, r)"
| "sw_opt_step F OptD (a, r) = Inr (a\<lparr>a_debug := True\<rparr>, r)"
| "sw_opt_step F OptH (a, r) = Inl ''usage''"
| "sw_opt_step F OptBad (a, r) = Inl ''usage''"

fun sw_opts :: "'f fops \<Rightarrow> sw_opt list \<Rightarrow> sw_args \<times> 'f rfm \<Rightarrow> string + sw_args \<times> 'f rfm" where
  "sw_opts F [] s = Inr s"
| "sw_opts F (c # cs) s = (case sw_opt_step F c s of Inl e \<Rightarrow> Inl e | Inr s \<Rightarrow> sw_opts F cs s)"

text \<open>
  \<open>main\<close> up to the validated list of measurements. \<open>open_file\<close> gives the contents of the
  profile, or \<open>None\<close> when it cannot be opened.
\<close>

definition sw_measurements :: "'f fops \<Rightarrow> (string \<Rightarrow> string option) \<Rightarrow> sw_opt list \<Rightarrow>
    string + sw_args \<times> 'f rfm list" where
  "sw_measurements F open_file opts = (case sw_opts F opts (args_init, rfm_zero F) of
       Inl e \<Rightarrow> Inl e
     | Inr (a, rfmo) \<Rightarrow>
         let rs = (if m_msg rfmo = None then [] else [rfmo]);
             parsed = (case a_profile a of None \<Rightarrow> Inr rs
               | Some p \<Rightarrow> case open_file p of None \<Rightarrow> Inl ''cannot open profile''
                   | Some text \<Rightarrow> parse_profile F text rs)
         in case parsed of Inl e \<Rightarrow> Inl e
            | Inr rs \<Rightarrow> case validate_all rs of Inl e \<Rightarrow> Inl e | Inr rs \<Rightarrow> Inr (a, rs))"

end
