(* ===== verification/Sw_Sdr.thy ===== *)
theory Sw_Sdr
  imports Sw_Profile "HOL-Library.Signed_Division"
begin

text \<open>
  The measurement of the modem test (\<open>package/mfgtest/swtest/swtest.c\<close>): the request and
  reply exchange with the spectrum analyzer (\<open>sdr_req\<close>), the comparison of the spectrum
  with the power envelope (\<open>pe_check\<close>) and the measurement step (\<open>rf_pwr_measure\<close>).
  What \<open>recv\<close> does is a list of events. A float and a double are the same type \<open>'f\<close>.
\<close>

definition SZ_SDR_REP :: nat where "SZ_SDR_REP = 200"
definition SDR_SRATE :: u32 where "SDR_SRATE = 20000000"
definition SDR_DFTSZ :: nat where "SDR_DFTSZ = 1024"
definition SDR_RXGAIN :: nat where "SDR_RXGAIN = 0"

text \<open>\<open>sizeof(rfpm_rxb)\<close>\<close>

definition SZ_RXB :: nat where "SZ_RXB = SZ_SDR_REP + SDR_DFTSZ * 4"

section \<open>Requests and replies\<close>

text \<open>
  One return of \<open>recv\<close>: some bytes, nothing yet (\<open>EWOULDBLOCK\<close>), or an error. After the
  last event nothing arrives any more. Bytes that do not fit wait for the next call.
\<close>

datatype rxev = RxData string | RxNone | RxErr

definition cstr :: "string \<Rightarrow> string" where
  "cstr s = takeWhile (\<lambda>c. c \<noteq> CHR 0x00) s"

definition ev_size :: "rxev \<Rightarrow> nat" where
  "ev_size e = (case e of RxData s \<Rightarrow> Suc (length s) | _ \<Rightarrow> 1)"

text \<open>What is to be done with the bytes received so far.\<close>

datatype sdres = SdMore string | SdDone "nat \<times> string" | SdFail string

text \<open>
  \<open>rxb\<close> is the buffer after the chunk \<open>new\<close> has been put behind the \<open>old\<close> bytes: a newline
  in the chunk is overwritten by a NUL, then the start of the buffer is read as a number.
\<close>

definition sdr_chunk :: "string \<Rightarrow> string \<Rightarrow> sdres" where
  "sdr_chunk old new =
     (let rxb = old @ new
      in if cstr rxb = ''ok'' @ [CHR 0x0A] then SdDone (0, [])
         else case strchr (cstr new) (CHR 0x0A) of
           None \<Rightarrow> SdMore rxb
         | Some nl \<Rightarrow>
             let rxb = old @ new[nl := CHR 0x00];
                 (v, len) = strtoul 0 (cstr rxb);
                 ndata = unat (ucast v :: u32)
             in if 0 < len \<and> drop len (cstr rxb) = []
                then (if int (length rxb) \<ge> int32 (int len + 1 + int ndata)
                      then SdDone (ndata, take ndata (drop (len + 1) rxb))
                      else SdMore rxb)
                else SdFail (cstr rxb))"

text \<open>\<open>to\<close> is the time left in microseconds.\<close>

function sdr_recv :: "string \<Rightarrow> int \<Rightarrow> rxev list \<Rightarrow> string + nat \<times> string" where
  "sdr_recv rxb to evs =
     (if SZ_RXB - 1 \<le> length rxb then Inl ''too much sdr data''
      else if to \<le> 0 then Inl ''sdr receive timeout''
      else case evs of
        [] \<Rightarrow> Inl ''sdr receive timeout''
      | RxNone # evs \<Rightarrow> sdr_recv rxb (to - 10000) evs
      | RxErr # evs \<Rightarrow> Inl ''sdr receive error''
      | RxData s # evs \<Rightarrow>
          let left = SZ_RXB - 1 - length rxb;
              evs = (if left < length s then RxData (drop left s) # evs else evs)
          in if s = [] then Inl ''sdr receive error''
             else case sdr_chunk rxb (take left s) of
               SdMore rxb \<Rightarrow> sdr_recv rxb to evs
             | SdDone r \<Rightarrow> Inr r
             | SdFail e \<Rightarrow> Inl e)"
  by pat_completeness auto
termination
  by (relation "measure (\<lambda>(rxb, to, evs). sum_list (map ev_size evs))")
    (auto simp: ev_size_def split: if_splits)

declare sdr_recv.simps [simp del]

text \<open>The whole exchange; \<open>sent\<close> is the number of bytes \<open>send\<close> took.\<close>

definition sdr_req :: "(string \<Rightarrow> int) \<Rightarrow> (string \<Rightarrow> rxev list) \<Rightarrow> string \<Rightarrow> string + nat \<times> string" where
  "sdr_req sent reply req = (if sent req \<noteq> int (length req) then Inl ''send to sdr failed''
     else sdr_recv [] 2000000 (reply req))"

section \<open>The power envelope\<close>

text \<open>
  The bins from \<open>ofe\<close> to \<open>ofn\<close> of one segment of the envelope. The state is the power outside
  the limits and the number of bins; \<open>None\<close> is an access outside the spectrum.
\<close>

function pe_bins :: "'f fops \<Rightarrow> int \<Rightarrow> int \<Rightarrow> 'f list \<Rightarrow> 'f rfpe \<Rightarrow> 'f \<Rightarrow> 'f \<Rightarrow> int \<Rightarrow> int
    \<Rightarrow> 'f \<times> int \<Rightarrow> ('f \<times> int) option" where
  "pe_bins F sr dftsz spec pe dmin dmax ofe ofn (pout, nbin) =
     (let dft2 = (dftsz + 1) div 2
      in if \<not> ofe < ofn then Some (pout, nbin)
         else if ofe < - dft2 then pe_bins F sr dftsz spec pe dmin dmax (ofe + 1) ofn (pout, nbin)
         else if ofe \<ge> dft2 then Some (pout, nbin)
         else if ofe + dft2 < 0 \<or> ofe + dft2 \<ge> int (length spec) then None
         else
           let ofc = (ofe * sr) sdiv dftsz;
               df = f_of_int F (ofc - pe_ofc pe);
               lmin = f_add F (pe_r0 pe) (f_mul F df dmin);
               lmax = f_add F (pe_r1 pe) (f_mul F df dmax);
               pwr = spec ! nat (ofe + dft2);
               pmin = f_sub F lmin pwr; below = f_less F (f_of_int F 0) pmin;
               pout = (if below then f_add F pout pmin else pout);
               pmax = f_sub F pwr lmax; above = f_less F (f_of_int F 0) pmax;
               pout = (if above then f_add F pout pmax else pout)
           in pe_bins F sr dftsz spec pe dmin dmax (ofe + 1) ofn
                (pout, if below \<or> above then nbin + 1 else nbin))"
  by pat_completeness auto
termination
  by (relation "measure (\<lambda>(F, sr, dftsz, spec, pe, dmin, dmax, ofe, ofn, acc). nat (ofn - ofe))") auto

declare pe_bins.simps [simp del]

text \<open>
  The segments. The difference of two offsets is that of two \<open>int\<close>; \<open>None\<close> also stands for its
  overflow and for the failed assertion that offsets ascend.
\<close>

fun pe_segments :: "'f fops \<Rightarrow> int \<Rightarrow> int \<Rightarrow> 'f list \<Rightarrow> 'f rfpe list \<Rightarrow> 'f \<times> int \<Rightarrow> ('f \<times> int) option"
  where
  "pe_segments F sr dftsz spec (pe # pn # ps) acc =
     (let ofe = (pe_ofc pe * dftsz) sdiv sr;
          ofn = (pe_ofc pn * dftsz) sdiv sr;
          dofc = f_of_int F (pe_ofc pn - pe_ofc pe);
          dmin = f_div F (f_sub F (pe_r0 pn) (pe_r0 pe)) dofc;
          dmax = f_div F (f_sub F (pe_r1 pn) (pe_r1 pe)) dofc
      in if pe_ofc pn - pe_ofc pe < 0 \<or> 2 ^ 31 \<le> pe_ofc pn - pe_ofc pe then None
         else case pe_bins F sr dftsz spec pe dmin dmax ofe ofn acc of
           None \<Rightarrow> None
         | Some acc \<Rightarrow> pe_segments F sr dftsz spec (pn # ps) acc)"
| "pe_segments F sr dftsz spec ps acc = Some acc"

definition pe_check :: "'f fops \<Rightarrow> 'f rfm \<Rightarrow> 'f list \<Rightarrow> nat \<Rightarrow> 'f rfm option" where
  "pe_check F r spec dftsz =
     map_option (\<lambda>(pout, nbin). r\<lparr>m_nbin := nbin, m_dbin1 := pout,
         m_dbin2 := f_div F pout (f_of_int F nbin)\<rparr>)
       (pe_segments F (uint (m_sr r)) (int dftsz) spec (m_pe r) (f_of_int F 0, 0))"

section \<open>The measurement\<close>

text \<open>
  The analyzer as the program sees it: what \<open>send\<close> and \<open>recv\<close> do for a request, how the
  bytes of a spectrum are floats, and the outcome of writing the plot file.
\<close>

record 'f analyzer =
  z_send :: "string \<Rightarrow> int"
  z_recv :: "string \<Rightarrow> rxev list"
  z_floats :: "string \<Rightarrow> 'f list"
  z_plot :: "'f rfm \<Rightarrow> string option"

definition line :: "string \<Rightarrow> string" where
  "line s = s @ [CHR 0x0A]"

definition sdr_requests :: "'f rfm \<Rightarrow> string list" where
  "sdr_requests r =
     [line (''sr='' @ show_int (sint (m_sr r))), line (''bw='' @ show_int (m_bandwidth r)),
      line (''f='' @ show_int (m_uf r)), line (''rxgain='' @ show_nat SDR_RXGAIN),
      line (''ns='' @ show_nat (unat (m_sr r) div 2)), line ''sample'',
      line (''comps '' @ show_nat SDR_DFTSZ @ '' hann''), line ''getps avg'']"

text \<open>Requests one after the other, up to the first error; the reply of the last one.\<close>

fun sdr_all :: "'f analyzer \<Rightarrow> string list \<Rightarrow> nat \<times> string \<Rightarrow> string + nat \<times> string" where
  "sdr_all Z [] d = Inr d"
| "sdr_all Z (q # qs) d = (case sdr_req (z_send Z) (z_recv Z) q of
     Inl e \<Rightarrow> Inl e | Inr d \<Rightarrow> sdr_all Z qs d)"

text \<open>
  With an analyzer and a current measurement: the measurement with its results, whether
  it failed, and the error. \<open>None\<close> when the program aborts.
\<close>

definition sdr_measure :: "'f fops \<Rightarrow> 'f analyzer \<Rightarrow> 'f rfm \<Rightarrow> ('f rfm \<times> bool \<times> string option) option"
  where
  "sdr_measure F Z r =
     (let r = (if m_sr r = 0 then r\<lparr>m_sr := SDR_SRATE\<rparr> else r)
      in case sdr_all Z (sdr_requests r) (0, []) of
        Inl e \<Rightarrow> Some (r, False, Some e)
      | Inr (ndata, bytes) \<Rightarrow>
          if ndata \<noteq> SDR_DFTSZ * 4 then Some (r, False, Some ''bad data reply'')
          else case pe_check F r (z_floats Z bytes) SDR_DFTSZ of
            None \<Rightarrow> None
          | Some r \<Rightarrow> Some (r, f_less F (m_dbin0 r) (m_dbin2 r), z_plot Z r))"

end
