(* ===== verification/Sw_At.thy ===== *)
theory Sw_At
  imports Sw_Sdr
begin

text \<open>
  The AT command engine of the modem test (\<open>package/mfgtest/swtest/swtest.c\<close>): command
  descriptors (\<open>struct atc\<close>, \<open>struct rea\<close>), the command sequences (\<open>struct ats\<close>, \<open>struct atl\<close>),
  the compose and reply handlers, \<open>tty_issue\<close>, \<open>tty_proc\<close>, \<open>ats_next\<close> and the main loop.

  A function pointer is a constructor of \<open>comp\<close> or \<open>rhdl\<close>; the array \<open>buf\<close> is a list of
  1000 characters. \<open>g_sent\<close> records the commands written to the modem. A run that ends
  keeps the state in which it ended.
\<close>

definition SZ_RBUF :: nat where "SZ_RBUF = 1000"
definition SZ_ARGV :: nat where "SZ_ARGV = 20"

section \<open>Descriptors\<close>

datatype comp = C_mfg_info | C_mfg_post | C_rfm_info | C_rf_pwr_measure | C_dawstxcw
  | C_dawstxpwr | C_dawsparange | C_dalsnsval | C_dalswaveform | C_dalstxpwr | C_dalstxpwr0
  | C_dalstxmod | C_daschan | C_dalsrxbw | C_dalstxbw | C_dasband

datatype rhdl = H_ok | H_error | H_daschan | H_dasband | H_i9

record rea =
  r_pat :: string
  r_hdl :: "rhdl option"

record atc =
  c_comp :: "comp option"
  c_cmd :: string
  c_rto :: nat
  c_delay :: nat
  c_re :: "rea list"

record ats =
  s_atc :: "atc option"
  s_rei :: "int list"

text \<open>\<open>rei[]\<close> has seven entries; those not given are 0.\<close>

definition rei_at :: "ats \<Rightarrow> nat \<Rightarrow> int" where
  "rei_at s i = (if i < length (s_rei s) then s_rei s ! i else 0)"

abbreviation mk_atc :: "comp option \<Rightarrow> string \<Rightarrow> nat \<Rightarrow> nat \<Rightarrow> rea list \<Rightarrow> atc" where
  "mk_atc c s r d re \<equiv> \<lparr>c_comp = c, c_cmd = s, c_rto = r, c_delay = d, c_re = re\<rparr>"

section \<open>Reply patterns and commands\<close>

definition rea_ok :: rea where "rea_ok = \<lparr>r_pat = ''.*^OK'', r_hdl = Some H_ok\<rparr>"
definition rea_error :: rea where "rea_error = \<lparr>r_pat = ''.*^ERROR'', r_hdl = Some H_error\<rparr>"
definition rea_daschan :: rea where
  "rea_daschan = \<lparr>r_pat = ''.*^[0-9]*.*^OK'', r_hdl = Some H_daschan\<rparr>"
definition rea_dasband :: rea where
  "rea_dasband = \<lparr>r_pat = ''.*[0-9].*^OK'', r_hdl = Some H_dasband\<rparr>"
definition rea_daftmact :: rea where "rea_daftmact = \<lparr>r_pat = ''.*290300.*^OK'', r_hdl = None\<rparr>"
definition rea_gstatus_fact :: rea where
  "rea_gstatus_fact = \<lparr>r_pat = ''.*Mode.*FACTORY.*TEST.*^OK'', r_hdl = None\<rparr>"
definition rea_gstatus_norm :: rea where
  "rea_gstatus_norm = \<lparr>r_pat = ''.*Mode.*^OK'', r_hdl = None\<rparr>"
definition rea_7430 :: rea where "rea_7430 = \<lparr>r_pat = ''.*Model: EM7430.*^OK'', r_hdl = Some H_i9\<rparr>"
definition rea_7455 :: rea where "rea_7455 = \<lparr>r_pat = ''.*Model: EM7455.*^OK'', r_hdl = Some H_i9\<rparr>"

lemmas rea_defs = rea_ok_def rea_error_def rea_daschan_def rea_dasband_def rea_daftmact_def
  rea_gstatus_fact_def rea_gstatus_norm_def rea_7430_def rea_7455_def

definition exe_mfg :: atc where "exe_mfg = mk_atc (Some C_mfg_info) [] 100 0 []"
definition exe_post :: atc where "exe_post = mk_atc (Some C_mfg_post) [] 100 0 []"
definition exe_info :: atc where "exe_info = mk_atc (Some C_rfm_info) [] 100 0 []"
definition exe_rfpm :: atc where "exe_rfpm = mk_atc (Some C_rf_pwr_measure) [] 2000 0 []"

definition at_dastxon :: atc where
  "at_dastxon = mk_atc None ''!DASTXON'' 1000 0 [rea_error, rea_ok]"
definition at_dastxoff :: atc where
  "at_dastxoff = mk_atc None ''!DASTXOFF'' 1000 0 [rea_error, rea_ok]"
definition at_dawstxcw :: atc where
  "at_dawstxcw = mk_atc (Some C_dawstxcw) [] 1000 0 [rea_error, rea_ok]"
definition at_dawstxpwr :: atc where
  "at_dawstxpwr = mk_atc (Some C_dawstxpwr) [] 1000 0 [rea_error, rea_ok]"
definition at_dawsparange :: atc where
  "at_dawsparange = mk_atc (Some C_dawsparange) [] 1000 0 [rea_error, rea_ok]"
definition at_dalsnsval :: atc where
  "at_dalsnsval = mk_atc (Some C_dalsnsval) [] 1000 0 [rea_error, rea_ok]"
definition at_dalswaveform :: atc where
  "at_dalswaveform = mk_atc (Some C_dalswaveform) [] 1000 0 [rea_error, rea_ok]"
definition at_dalstxpwr :: atc where
  "at_dalstxpwr = mk_atc (Some C_dalstxpwr) [] 1000 0 [rea_error, rea_ok]"
definition at_dalstxpwr0 :: atc where
  "at_dalstxpwr0 = mk_atc (Some C_dalstxpwr0) [] 1000 0 [rea_error, rea_ok]"
definition at_dalstxmod :: atc where
  "at_dalstxmod = mk_atc (Some C_dalstxmod) [] 1000 0 [rea_error, rea_ok]"
definition at_daschan :: atc where
  "at_daschan = mk_atc (Some C_daschan) [] 2000 1000 [rea_error, rea_daschan]"
definition at_dalsrxbw :: atc where
  "at_dalsrxbw = mk_atc (Some C_dalsrxbw) [] 1000 0 [rea_error, rea_ok]"
definition at_dalstxbw :: atc where
  "at_dalstxbw = mk_atc (Some C_dalstxbw) [] 1000 0 [rea_error, rea_ok]"
definition at_dasband :: atc where
  "at_dasband = mk_atc (Some C_dasband) [] 1000 1000 [rea_error, rea_dasband]"
definition at_daftmact :: atc where
  "at_daftmact = mk_atc None ''!DAFTMACT'' 1000 2000 [rea_error, rea_daftmact]"
definition at_daftmdeact :: atc where
  "at_daftmdeact = mk_atc None ''!DAFTMDEACT'' 1000 0 [rea_error, rea_ok]"
definition at_reset :: atc where
  "at_reset = mk_atc None ''!RESET'' 1000 0 [rea_error, rea_ok]"
definition at_entercnd :: atc where
  "at_entercnd = mk_atc None (''!ENTERCND='' @ [CHR 0x22] @ ''A710'' @ [CHR 0x22]) 1000 0 [rea_error, rea_ok]"
definition at_gstatus :: atc where
  "at_gstatus = mk_atc None ''!GSTATUS?'' 1000 0 [rea_error, rea_gstatus_fact, rea_gstatus_norm]"
definition at_i9 :: atc where
  "at_i9 = mk_atc None ''I9'' 1000 0 [rea_error, rea_7455, rea_7430]"

lemmas atc_defs = exe_mfg_def exe_post_def exe_info_def exe_rfpm_def at_dastxon_def
  at_dastxoff_def at_dawstxcw_def at_dawstxpwr_def at_dawsparange_def at_dalsnsval_def
  at_dalswaveform_def at_dalstxpwr_def at_dalstxpwr0_def at_dalstxmod_def at_daschan_def
  at_dalsrxbw_def at_dalstxbw_def at_dasband_def at_daftmact_def at_daftmdeact_def at_reset_def
  at_entercnd_def at_gstatus_def at_i9_def

section \<open>Command sequences\<close>

abbreviation mk_ats :: "atc \<Rightarrow> int list \<Rightarrow> ats" where
  "mk_ats c r \<equiv> \<lparr>s_atc = Some c, s_rei = r\<rparr>"

definition ats_nil :: ats where "ats_nil = \<lparr>s_atc = None, s_rei = []\<rparr>"

definition ats_mode :: "ats list" where
  "ats_mode = [mk_ats at_i9 [5, 1, 1], mk_ats exe_mfg [1, 1], mk_ats at_gstatus [3, 4, 1],
     mk_ats at_entercnd [2, 1], mk_ats at_daftmact [1, 2], mk_ats at_reset [-1, -1], ats_nil]"

definition ats_lte :: "ats list" where
  "ats_lte = [mk_ats exe_info [1, 1], mk_ats at_dasband [10, 1], mk_ats at_dalstxbw [9, 1],
     mk_ats at_dalsrxbw [8, 1], mk_ats at_daschan [7, 1], mk_ats at_dalstxmod [6, 1],
     mk_ats at_dalswaveform [5, 1], mk_ats at_dalsnsval [4, 1], mk_ats at_dalstxpwr [3, 1],
     mk_ats at_dastxon [2, 1], mk_ats exe_rfpm [1, 1], mk_ats at_dastxoff [1, 1],
     mk_ats at_dalstxpwr0 [1, 1], ats_nil]"

definition ats_gsm :: "ats list" where
  "ats_gsm = [ats_nil]"

definition ats_wcdma :: "ats list" where
  "ats_wcdma = [mk_ats exe_info [1, 1], mk_ats at_dasband [7, 1], mk_ats at_daschan [6, 1],
     mk_ats at_dawsparange [5, 1], mk_ats at_dastxon [4, 1], mk_ats at_dawstxpwr [3, 1],
     mk_ats at_dawstxcw [2, 1], mk_ats exe_rfpm [1, 1], mk_ats at_dastxoff [1, 1], ats_nil]"

definition ats_end :: "ats list" where
  "ats_end = [mk_ats exe_post [1, 1], mk_ats at_daftmdeact [1, 1], mk_ats at_reset [-1, -1], ats_nil]"

lemmas ats_tables = ats_mode_def ats_lte_def ats_gsm_def ats_wcdma_def ats_end_def

definition tech_ats :: "(ats list) option list" where
  "tech_ats = [None, Some ats_gsm, Some ats_wcdma, Some ats_lte]"

text \<open>An entry of the list of sequences; the last one has no sequence.\<close>

record 'f atl =
  l_rfm :: "'f rfm option"
  l_ats :: "(ats list) option"

section \<open>State\<close>

datatype model = MODEL_NONE | MODEL_EM7455 | MODEL_EM7430

record 'f swg =
  g_nerr :: nat
  g_failed :: nat
  g_stop :: bool
  g_model :: model
  g_atl :: "'f atl list"
  g_pc :: nat
  g_rfmc :: "'f rfm option"
  g_buf :: string
  g_nbuf :: nat
  g_argv :: "nat list"
  g_rrt :: "atc option"
  g_sock :: bool
  g_sent :: "string list"

text \<open>
  How a run ends: the loop is left, or \<open>Fatal\<close>, a failed assertion, or an access that C
  leaves undefined.
\<close>

datatype swerr = FatalS string | AbortS | FaultS

datatype swstop = Done | Stop swerr

text \<open>
  The environment: regular expressions, \<open>write\<close> on the tty, the analyzer. \<open>write\<close> returns
  the number of bytes it took, or a negative number.
\<close>

record 'f swenv =
  e_regcomp :: "string \<Rightarrow> bool"
  e_regexec :: "string \<Rightarrow> string \<Rightarrow> bool"
  e_write :: "string \<Rightarrow> int"
  e_sdr :: "'f analyzer"
  e_fops :: "'f fops"

text \<open>The current sequence and the entry \<open>g->ats\<close> points to.\<close>

definition cur_tab :: "'f swg \<Rightarrow> ats list" where
  "cur_tab g = (case g_atl g of [] \<Rightarrow> [] | l # ls \<Rightarrow> (case l_ats l of None \<Rightarrow> [] | Some t \<Rightarrow> t))"

definition cur_ats :: "'f swg \<Rightarrow> ats" where
  "cur_ats g = cur_tab g ! g_pc g"

section \<open>Splitting a response\<close>

text \<open>
  \<open>s\<close> is the position in \<open>buf\<close>, \<open>i\<close> the number of lines, \<open>argv\<close> the offsets stored. A carriage
  return is replaced together with the character behind it, so a carriage return at the
  end of the text takes the loop past its end; \<open>None\<close> is the end of the array.
\<close>

function split_loop :: "string \<Rightarrow> nat \<Rightarrow> nat \<Rightarrow> nat list \<Rightarrow> (string \<times> nat list \<times> nat) option" where
  "split_loop buf s i argv =
     (if s \<ge> length buf then None
      else let c = buf ! s in
      if c = CHR 0x00 then Some (buf, argv, i)
      else if c = CHR 0x0D \<and> Suc s \<ge> length buf then None
      else let (buf, s, c) = (if c = CHR 0x0D then (buf[s := CHR 0x00], Suc s, buf ! Suc s) else (buf, s, c))
      in if c = CHR 0x0A
         then split_loop (buf[s := CHR 0x00]) (Suc s) (Suc i)
                (if i < SZ_ARGV - 1 then argv @ [Suc s] else argv)
         else split_loop buf (Suc s) i argv)"
  by pat_completeness auto
termination
  by (relation "measure (\<lambda>(buf, s, i, argv). length buf - s)") (auto split: if_splits)

declare split_loop.simps [simp del]

definition resp_split :: "'f swg \<Rightarrow> ('f swg \<times> nat) option" where
  "resp_split g = map_option (\<lambda>(buf, argv, n). (g\<lparr>g_buf := buf, g_argv := argv\<rparr>, n))
     (split_loop (g_buf g) 0 1 [0])"

text \<open>The string \<open>argv[k]\<close>, \<open>None\<close> for the NULL behind the last line.\<close>

definition argv_at :: "'f swg \<Rightarrow> nat \<Rightarrow> string option" where
  "argv_at g k = (if k < length (g_argv g) then Some (cstr (drop (g_argv g ! k) (g_buf g))) else None)"

end
