(* ===== verification/Sw_Run.thy ===== *)
theory Sw_Run
  imports Sw_At
begin

text \<open>
  The engine of the modem test (\<open>package/mfgtest/swtest/swtest.c\<close>): compose and reply
  handlers, issuing a command, reading and matching a reply, going on to the next entry,
  and \<open>main\<close> from the measurements to the exit status.
\<close>

section \<open>Compose handlers\<close>

text \<open>
  A handler of a pseudo command returns an index into \<open>rei[]\<close>, the others return -1 with
  the command text in \<open>atc->cmd\<close>.
\<close>

datatype composed = Rei nat | Cmd string

definition with_rfm :: "'f swg \<Rightarrow> ('f rfm \<Rightarrow> swerr + 'f swg \<times> composed) \<Rightarrow> swerr + 'f swg \<times> composed"
  where "with_rfm g k = (case g_rfmc g of None \<Rightarrow> Inl AbortS | Some r \<Rightarrow> k r)"

definition with_smap :: "smap option \<Rightarrow> (smap \<Rightarrow> swerr + 'f swg \<times> composed) \<Rightarrow> swerr + 'f swg \<times> composed"
  where "with_smap m k = (case m of None \<Rightarrow> Inl AbortS | Some m \<Rightarrow> k m)"

text \<open>
  Without an analyzer the power stays on for a time or until a key is pressed
  (\<open>rf_pwr_timed\<close>), which changes nothing here.
\<close>

definition rf_pwr_measure :: "'f swenv \<Rightarrow> 'f swg \<Rightarrow> swerr + 'f swg \<times> composed" where
  "rf_pwr_measure E g = (if \<not> g_sock g then Inr (g, Rei 1)
     else case g_rfmc g of None \<Rightarrow> Inr (g, Rei 0)
     | Some r \<Rightarrow> case sdr_measure (e_fops E) (e_sdr E) r of
         None \<Rightarrow> Inl AbortS
       | Some (r, failed, err) \<Rightarrow>
           Inr (g\<lparr>g_rfmc := Some r, g_failed := g_failed g + (if failed then 1 else 0)\<rparr>,
                if err = None then Rei 1 else Rei 0))"

definition mfg_info :: "'f swg \<Rightarrow> swerr + 'f swg \<times> composed" where
  "mfg_info g = Inr (g, Rei 1)"

definition mfg_post :: "'f swg \<Rightarrow> swerr + 'f swg \<times> composed" where
  "mfg_post g = Inr (g, Rei 1)"

definition rfm_info :: "'f swg \<Rightarrow> swerr + 'f swg \<times> composed" where
  "rfm_info g = with_rfm g (\<lambda>r. with_smap (m_band r) (\<lambda>b. Inr (g, Rei 1)))"

definition atc_dawstxcw :: "'f swg \<Rightarrow> swerr + 'f swg \<times> composed" where
  "atc_dawstxcw g = with_rfm g (\<lambda>r. with_smap (m_txmod r) (\<lambda>t.
     Inr (g, Cmd (''!DAWSTXCW='' @ show_int (sm_ir0 t)))))"

definition atc_dawstxpwr :: "'f swg \<Rightarrow> swerr + 'f swg \<times> composed" where
  "atc_dawstxpwr g = with_rfm g (\<lambda>r. Inr (g, Cmd (''!DAWSTXPWR=1,'' @ show_int (m_txpwr r))))"

definition atc_dawsparange :: "'f swg \<Rightarrow> swerr + 'f swg \<times> composed" where
  "atc_dawsparange g = Inr (g, Cmd (''!DAWSPARANGE='' @ show_int 3))"

definition atc_dalsnsval :: "'f swg \<Rightarrow> swerr + 'f swg \<times> composed" where
  "atc_dalsnsval g = Inr (g, Cmd (''!DALSNSVAL='' @ show_int 1))"

definition atc_dalswaveform :: "'f swg \<Rightarrow> swerr + 'f swg \<times> composed" where
  "atc_dalswaveform g = Inr (g, Cmd (''!DALSWAVEFORM='' @ show_int 1 @ '','' @ show_int 12
     @ '','' @ show_int 0 @ '','' @ show_int 19))"

definition atc_dalstxpwr :: "'f swg \<Rightarrow> swerr + 'f swg \<times> composed" where
  "atc_dalstxpwr g = with_rfm g (\<lambda>r. Inr (g, Cmd (''!DALSTXPWR=1,'' @ show_int (m_txpwr r))))"

definition atc_dalstxpwr0 :: "'f swg \<Rightarrow> swerr + 'f swg \<times> composed" where
  "atc_dalstxpwr0 g = Inr (g, Cmd ''!DALSTXPWR=0,0'')"

definition atc_dalstxmod :: "'f swg \<Rightarrow> swerr + 'f swg \<times> composed" where
  "atc_dalstxmod g = with_rfm g (\<lambda>r. with_smap (m_txmod r) (\<lambda>t.
     Inr (g, Cmd (''!DALSTXMOD='' @ show_int (sm_ir0 t)))))"

definition atc_daschan :: "'f swg \<Rightarrow> swerr + 'f swg \<times> composed" where
  "atc_daschan g = with_rfm g (\<lambda>r. Inr (g, Cmd (''!DASCHAN='' @ show_int (m_channel r))))"

definition atc_dalsrxbw :: "'f swg \<Rightarrow> swerr + 'f swg \<times> composed" where
  "atc_dalsrxbw g = with_rfm g (\<lambda>r. with_smap (m_bwidth r) (\<lambda>w.
     Inr (g, Cmd (''!DALSRXBW='' @ show_int (sm_ir0 w)))))"

definition atc_dalstxbw :: "'f swg \<Rightarrow> swerr + 'f swg \<times> composed" where
  "atc_dalstxbw g = with_rfm g (\<lambda>r. with_smap (m_bwidth r) (\<lambda>w.
     Inr (g, Cmd (''!DALSTXBW='' @ show_int (sm_ir0 w)))))"

definition atc_dasband :: "'f swg \<Rightarrow> swerr + 'f swg \<times> composed" where
  "atc_dasband g = with_rfm g (\<lambda>r. with_smap (m_band r) (\<lambda>b.
     Inr (g, Cmd (''!DASBAND='' @ show_int (sm_ir0 b)))))"

lemmas comp_defs = mfg_info_def mfg_post_def rfm_info_def atc_dawstxcw_def atc_dawstxpwr_def atc_dawsparange_def
  atc_dalsnsval_def atc_dalswaveform_def atc_dalstxpwr_def atc_dalstxpwr0_def atc_dalstxmod_def atc_daschan_def
  atc_dalsrxbw_def atc_dalstxbw_def atc_dasband_def

declare comp_defs [simp]

fun run_comp :: "'f swenv \<Rightarrow> comp \<Rightarrow> 'f swg \<Rightarrow> swerr + 'f swg \<times> composed" where
  "run_comp E C_mfg_info g = mfg_info g"
| "run_comp E C_mfg_post g = mfg_post g"
| "run_comp E C_rfm_info g = rfm_info g"
| "run_comp E C_rf_pwr_measure g = rf_pwr_measure E g"
| "run_comp E C_dawstxcw g = atc_dawstxcw g"
| "run_comp E C_dawstxpwr g = atc_dawstxpwr g"
| "run_comp E C_dawsparange g = atc_dawsparange g"
| "run_comp E C_dalsnsval g = atc_dalsnsval g"
| "run_comp E C_dalswaveform g = atc_dalswaveform g"
| "run_comp E C_dalstxpwr g = atc_dalstxpwr g"
| "run_comp E C_dalstxpwr0 g = atc_dalstxpwr0 g"
| "run_comp E C_dalstxmod g = atc_dalstxmod g"
| "run_comp E C_daschan g = atc_daschan g"
| "run_comp E C_dalsrxbw g = atc_dalsrxbw g"
| "run_comp E C_dalstxbw g = atc_dalstxbw g"
| "run_comp E C_dasband g = atc_dasband g"

section \<open>Reply handlers\<close>

definition strtol_int :: "string \<Rightarrow> int" where
  "strtol_int s = int32 (fst (strtol 0 s))"

text \<open>\<open>argv[1]\<close> is converted without a look at the number of lines.\<close>

definition reh_daschan :: "'f swg \<Rightarrow> swerr + 'f swg \<times> string option" where
  "reh_daschan g = (if g_rfmc g = None then Inl AbortS
     else case resp_split g of None \<Rightarrow> Inl FaultS
     | Some (g, argc) \<Rightarrow> if argv_at g 1 = None then Inl FaultS else Inr (g, None))"

definition reh_dasband :: "'f swg \<Rightarrow> swerr + 'f swg \<times> string option" where
  "reh_dasband g = (case g_rfmc g of None \<Rightarrow> Inl AbortS
     | Some r \<Rightarrow> case m_band r of None \<Rightarrow> Inl AbortS
     | Some b \<Rightarrow> case resp_split g of None \<Rightarrow> Inl FaultS
     | Some (g, argc) \<Rightarrow>
         if argc < 2 then Inr (g, Some ''DASBAND reply error'')
         else case argv_at g 1 of None \<Rightarrow> Inl FaultS
         | Some s \<Rightarrow>
             let num = strtol_int s
             in if sm_flags b AND SM_LTE \<noteq> 0 \<and> num = 0 then Inr (g, None)
                else if num \<noteq> sm_ir0 b then Inr (g, Some ''band not set'')
                else Inr (g, None))"

text \<open>The model is read seven characters behind the start of line 2 (\<open>Model: \<close>).\<close>

definition reh_i9 :: "'f swg \<Rightarrow> swerr + 'f swg \<times> string option" where
  "reh_i9 g = (case resp_split g of None \<Rightarrow> Inl FaultS
     | Some (g, argc) \<Rightarrow>
         if argc < 7 then Inl (FatalS ''not enough data'')
         else let g = g\<lparr>g_argv := take 7 (g_argv g)\<rparr>; s = cstr (drop (g_argv g ! 2 + 7) (g_buf g))
           in if s = ''EM7455'' then Inr (g\<lparr>g_model := MODEL_EM7455\<rparr>, None)
              else if s = ''EM7430'' then Inr (g\<lparr>g_model := MODEL_EM7430\<rparr>, None)
              else Inl (FatalS ''unknown model''))"

definition reh_ok :: "'f swg \<Rightarrow> swerr + 'f swg \<times> string option" where
  "reh_ok g = Inr (g, None)"

definition reh_error :: "'f swg \<Rightarrow> swerr + 'f swg \<times> string option" where
  "reh_error g = Inr (g, Some ''generic error'')"

declare reh_ok_def [simp] reh_error_def [simp]

fun run_rhdl :: "rhdl \<Rightarrow> 'f swg \<Rightarrow> swerr + 'f swg \<times> string option" where
  "run_rhdl H_ok g = reh_ok g"
| "run_rhdl H_error g = reh_error g"
| "run_rhdl H_daschan g = reh_daschan g"
| "run_rhdl H_dasband g = reh_dasband g"
| "run_rhdl H_i9 g = reh_i9 g"

section \<open>Issuing a command\<close>

text \<open>
  \<open>tty_send\<close> and the \<open>Fatal\<close> of its caller: an empty command is not sent, one of 100
  characters or more is refused, and \<open>msg[100]\<close> holds the text with its prefix and line
  end (otherwise \<open>write\<close> would read past it).
\<close>

definition tty_send :: "'f swenv \<Rightarrow> string \<Rightarrow> 'f swg \<Rightarrow> swerr + 'f swg" where
  "tty_send E cmd g = (if cmd = [] then Inr g
     else if 100 \<le> length cmd then Inl (FatalS ''sending'')
     else let msg = ''AT'' @ cmd @ [CHR 0x0D, CHR 0x0A]
       in if 100 \<le> length msg then Inl FaultS
          else if e_write E msg \<noteq> int (length msg) then Inl (FatalS ''sending'')
          else Inr (g\<lparr>g_sent := g_sent g @ [cmd]\<rparr>))"

text \<open>The text of the command, or an index when the handler did the work.\<close>

definition compose :: "'f swenv \<Rightarrow> atc \<Rightarrow> 'f swg \<Rightarrow> swerr + 'f swg \<times> composed" where
  "compose E c g = (case c_comp c of None \<Rightarrow> Inr (g, Cmd (c_cmd c)) | Some h \<Rightarrow> run_comp E h g)"

definition tty_issue :: "'f swenv \<Rightarrow> atc option \<Rightarrow> 'f swg \<Rightarrow> swerr + 'f swg \<times> nat option" where
  "tty_issue E atc g = (case atc of None \<Rightarrow> Inl AbortS
     | Some c \<Rightarrow> case compose E c (g\<lparr>g_nbuf := 0\<rparr>) of Inl e \<Rightarrow> Inl e
     | Inr (g, Rei i) \<Rightarrow> Inr (g, Some i)
     | Inr (g, Cmd cmd) \<Rightarrow>
         if list_ex (\<lambda>r. \<not> e_regcomp E (r_pat r)) (c_re c) then Inl (FatalS ''at regex'')
         else case tty_send E cmd (g\<lparr>g_rrt := Some c\<rparr>) of
             Inl e \<Rightarrow> Inl e | Inr g \<Rightarrow> Inr (g, None))"

section \<open>Receiving\<close>

text \<open>\<open>chunk\<close> is what \<open>read\<close> returned, \<open>None\<close> an error.\<close>

definition tty_read :: "string option \<Rightarrow> 'f swg \<Rightarrow> swerr + 'f swg" where
  "tty_read chunk g = (let left = SZ_RBUF - 1 - g_nbuf g
     in if left = 0 then Inr g
        else case chunk of None \<Rightarrow> Inl (FatalS ''reading from tty'')
        | Some s \<Rightarrow> let s = take left s; nb = g_nbuf g + length s
            in Inr (g\<lparr>g_buf := take (g_nbuf g) (g_buf g) @ s @ [CHR 0x00] @ drop (Suc nb) (g_buf g),
                      g_nbuf := nb\<rparr>))"

fun find_match :: "(string \<Rightarrow> bool) \<Rightarrow> nat \<Rightarrow> rea list \<Rightarrow> (nat \<times> rea) option" where
  "find_match m i [] = None"
| "find_match m i (r # rs) = (if m (r_pat r) then Some (i, r) else find_match m (Suc i) rs)"

text \<open>The reply handler and the count of errors.\<close>

definition handle_reply :: "rea \<Rightarrow> 'f swg \<Rightarrow> swerr + 'f swg" where
  "handle_reply r g = (case r_hdl r of None \<Rightarrow> Inr g
     | Some h \<Rightarrow> case run_rhdl h g of Inl e \<Rightarrow> Inl e
       | Inr (g, None) \<Rightarrow> Inr g
       | Inr (g, Some err) \<Rightarrow> Inr (g\<lparr>g_nerr := Suc (g_nerr g)\<rparr>))"

text \<open>Returns the jump target, 0 for more data, -1 to stop.\<close>

definition tty_proc :: "'f swenv \<Rightarrow> string option \<Rightarrow> 'f swg \<Rightarrow> swerr + 'f swg \<times> int" where
  "tty_proc E chunk g = (case s_atc (cur_ats g) of
       None \<Rightarrow> Inr (g\<lparr>g_stop := True\<rparr>, -1)
     | Some c \<Rightarrow> case tty_read chunk g of Inl e \<Rightarrow> Inl e
     | Inr g \<Rightarrow> if g_nbuf g = 0 then Inr (g, 0)
         else case find_match (\<lambda>p. e_regexec E p (cstr (g_buf g))) 0 (c_re c) of
           None \<Rightarrow> Inr (g, 0)
         | Some (i, r) \<Rightarrow> case handle_reply r (g\<lparr>g_rrt := None\<rparr>) of Inl e \<Rightarrow> Inl e
             | Inr g \<Rightarrow> Inr (g, rei_at (cur_ats g) i))"

section \<open>The next entry\<close>

text \<open>
  The loop of \<open>ats_next\<close>: the number is the result, 0 or -1. \<open>nats\<close> is the size of the array,
  so the entry behind its last one passes the check for a jump outside the sequence. The
  fuel bounds the pseudo commands in a row.
\<close>

fun ats_next :: "nat \<Rightarrow> 'f swenv \<Rightarrow> int \<Rightarrow> 'f swg \<Rightarrow> (swerr + 'f swg \<times> int) option" where
  "ats_next 0 E tgt g = None"
| "ats_next (Suc n) E tgt g =
     (let tab = cur_tab g; k = int (g_pc g) + tgt
      in if k > int (length tab) then Some (Inr (g, -1))
         else if k < 0 \<or> k = int (length tab) then Some (Inl FaultS)
         else
           let (g, tab, k) = (case s_atc (tab ! nat k) of
                 Some c \<Rightarrow> (g, tab, nat k)
               | None \<Rightarrow> let ls = tl (g_atl g); l = hd ls
                   in (g\<lparr>g_atl := ls, g_rfmc := l_rfm l\<rparr>,
                       (case l_ats l of None \<Rightarrow> [] | Some t \<Rightarrow> t), 0))
           in if tab = [] then Some (Inr (g, -1))
              else let g = g\<lparr>g_pc := k\<rparr>
                in case tty_issue E (s_atc (tab ! k)) g of
                     Inl e \<Rightarrow> Some (Inl e)
                   | Inr (g, None) \<Rightarrow> Some (Inr (g, 0))
                   | Inr (g, Some i) \<Rightarrow> ats_next n E (rei_at (tab ! k) i) g)"

section \<open>The main loop\<close>

text \<open>
  One round: what \<open>select\<close> found readable (the tty with what \<open>read\<close> returns, the timer). When
  the timer has expired in the same round in which a reply is processed, the next
  command has set it again: \<open>read\<close> on the timer then blocks until that time is over, and
  the handler of the new command runs.
\<close>

record swev =
  v_tty :: "string option option"
  v_tmr :: bool

definition AGAIN :: nat where "AGAIN = 100"

definition timer_hdl :: "'f swg \<Rightarrow> swerr + 'f swg" where
  "timer_hdl g = (case g_rrt g of None \<Rightarrow> Inr g | Some c \<Rightarrow> Inl (FatalS ''command timeout''))"

definition sw_round :: "'f swenv \<Rightarrow> swev \<Rightarrow> 'f swg \<Rightarrow> (swstop \<times> 'f swg) + 'f swg" where
  "sw_round E v g =
     (case (case v_tty v of None \<Rightarrow> Inr (g, 0) | Some chunk \<Rightarrow> tty_proc E chunk g) of
        Inl e \<Rightarrow> Inl (Stop e, g)
      | Inr (g, ret) \<Rightarrow>
          case (if ret > 0 then ats_next AGAIN E ret g else Some (Inr (g, ret))) of
            None \<Rightarrow> Inl (Stop FaultS, g)
          | Some (Inl e) \<Rightarrow> Inl (Stop e, g)
          | Some (Inr (g, ret)) \<Rightarrow>
              if ret < 0 then Inl (Done, g)
              else if v_tmr v then (case timer_hdl g of Inl e \<Rightarrow> Inl (Stop e, g) | Inr g \<Rightarrow> Inr g)
              else Inr g)"

text \<open>\<open>Inr\<close>: the loop is still waiting after these events.\<close>

fun sw_loop :: "'f swenv \<Rightarrow> swev list \<Rightarrow> 'f swg \<Rightarrow> (swstop \<times> 'f swg) + 'f swg" where
  "sw_loop E [] g = Inr g"
| "sw_loop E (v # vs) g = (case sw_round E v g of Inl e \<Rightarrow> Inl e | Inr g \<Rightarrow> sw_loop E vs g)"

section \<open>Start and end\<close>

text \<open>Prolog, one sequence per measurement, cleanup; \<open>None\<close> when the assertion on \<open>tech\<close> fails.\<close>

definition rfm_atl :: "'f rfm \<Rightarrow> 'f atl" where
  "rfm_atl r = \<lparr>l_rfm = Some r, l_ats = tech_ats ! m_tech r\<rparr>"

definition build_atl :: "'f rfm list \<Rightarrow> ('f atl list) option" where
  "build_atl rs = (if list_ex (\<lambda>r. m_tech r = 0) rs then None
     else Some (\<lparr>l_rfm = None, l_ats = Some ats_mode\<rparr> # map rfm_atl rs
       @ [\<lparr>l_rfm = None, l_ats = Some ats_end\<rparr>, \<lparr>l_rfm = None, l_ats = None\<rparr>]))"

definition swg_init :: "'f atl list \<Rightarrow> bool \<Rightarrow> 'f swg" where
  "swg_init atl sock = \<lparr>g_nerr = 0, g_failed = 0, g_stop = False, g_model = MODEL_NONE, g_atl = atl,
     g_pc = 0, g_rfmc = None, g_buf = replicate SZ_RBUF (CHR 0x00), g_nbuf = 0, g_argv = [],
     g_rrt = None, g_sock = sock, g_sent = []\<rparr>"

text \<open>\<open>ats_start\<close>; the result of \<open>tty_issue\<close> is not used.\<close>

definition ats_start :: "'f swenv \<Rightarrow> 'f swg \<Rightarrow> (swstop \<times> 'f swg) + 'f swg" where
  "ats_start E g = (case tty_issue E (s_atc (cur_ats g)) (g\<lparr>g_rfmc := l_rfm (hd (g_atl g))\<rparr>) of
     Inl e \<Rightarrow> Inl (Stop e, g) | Inr (g, _) \<Rightarrow> Inr g)"

text \<open>
  \<open>main\<close>: measurements, analyzer (\<open>connect\<close> tells whether the host could be reached), tty, then
  the loop on the events.
\<close>

definition sw_main :: "'f swenv \<Rightarrow> (string \<Rightarrow> string option) \<Rightarrow> (string \<Rightarrow> bool) \<Rightarrow> (string \<Rightarrow> bool)
    \<Rightarrow> sw_opt list \<Rightarrow> swev list \<Rightarrow> (string + swstop \<times> 'f swg) + 'f swg" where
  "sw_main E open_file connect open_tty opts vs =
     (case sw_measurements (e_fops E) open_file opts of
        Inl e \<Rightarrow> Inl (Inl e)
      | Inr (a, rs) \<Rightarrow>
          if (case a_host a of None \<Rightarrow> False | Some h \<Rightarrow> \<not> connect h) then Inl (Inl ''connect error'')
          else if (case a_tty a of None \<Rightarrow> True | Some t \<Rightarrow> \<not> open_tty t) then Inl (Inl ''no tty'')
          else case build_atl rs of None \<Rightarrow> Inl (Inl ''assertion'')
          | Some atl \<Rightarrow>
              case ats_start E (swg_init atl (a_host a \<noteq> None)) of
                Inl e \<Rightarrow> Inl (Inr e)
              | Inr g \<Rightarrow> (case sw_loop E vs g of Inl e \<Rightarrow> Inl (Inr e) | Inr g \<Rightarrow> Inr g))"

text \<open>The exit status: what is left of \<open>nerr + failed\<close> in a byte, or 1 after \<open>Fatal\<close>.\<close>

definition sw_status :: "swstop \<Rightarrow> 'f swg \<Rightarrow> nat option" where
  "sw_status s g = (case s of Done \<Rightarrow> Some ((g_nerr g + g_failed g) mod 256)
     | Stop (FatalS m) \<Rightarrow> Some 1 | _ \<Rightarrow> None)"

end
