(* ===== verification/Sw_Parse.thy ===== *)
theory Sw_Parse
  imports Sw_Profile
begin

text \<open>
  What the profile commands and the validation of the modem test guarantee: an invariant
  of a measurement that every command keeps, the measurements \<open>main\<close> accepts, the command
  look-up, the order of the power envelope, and the option that can never be used.
\<close>

section \<open>Conversions\<close>

lemma int32_id: "-2147483648 \<le> x \<Longrightarrow> x < 2147483648 \<Longrightarrow> int32 x = x"
  by (simp add: int32_def)

lemma int32_range: "-2147483648 \<le> int32 x" "int32 x < 2147483648"
proof -
  have "(x + 2147483648) mod 4294967296 < 4294967296" by (rule pos_mod_bound) simp
  then show "-2147483648 \<le> int32 x" "int32 x < 2147483648" by (simp_all add: int32_def)
qed

section \<open>The invariant of a measurement\<close>

definition in_int :: "int \<Rightarrow> bool" where
  "in_int x \<longleftrightarrow> -2147483648 \<le> x \<and> x < 2147483648"

definition chan_ok :: "'f rfm \<Rightarrow> bool" where
  "chan_ok r \<longleftrightarrow> (m_chan r = None \<longrightarrow> m_channel r = 0)
     \<and> (\<forall>c. m_chan r = Some c \<longrightarrow>
          (\<exists>b. m_band r = Some b \<and> smap_channel b = Some c) \<and> channel_valid c (m_channel r))"

definition txmod_ok :: "'f rfm \<Rightarrow> bool" where
  "txmod_ok r \<longleftrightarrow> (\<forall>t. m_txmod r = Some t \<longrightarrow> t \<in> set txmod_map \<and>
     (\<exists>b. m_band r = Some b \<and> sm_flags b AND sm_flags t \<noteq> 0))"

definition bwidth_ok :: "'f rfm \<Rightarrow> bool" where
  "bwidth_ok r \<longleftrightarrow> (\<forall>w. m_bwidth r = Some w \<longrightarrow> w \<in> set bwidth_map \<and> m_bandwidth r = sm_ir1 w)"

definition rfm_inv :: "'f fops \<Rightarrow> 'f rfm \<Rightarrow> bool" where
  "rfm_inv F r \<longleftrightarrow> set_option (m_band r) \<subseteq> set band_map \<and> chan_ok r \<and> txmod_ok r \<and> bwidth_ok r
     \<and> in_int (m_txpwr r) \<and> (\<forall>p \<in> set (m_pe r). \<not> f_less F (pe_r1 p) (pe_r0 p))"

lemmas rfm_inv_defs = rfm_inv_def chan_ok_def txmod_ok_def bwidth_ok_def

lemma in_int32 [simp]: "in_int (int32 x)"
  by (simp add: in_int_def int32_range)

lemma smap_lookup_mem: "smap_lookup mp s = Some m \<Longrightarrow> m \<in> set mp \<and> sm_str m = s"
  by (auto simp: smap_lookup_def dest: find_Some_iff2)

lemma chan_number_valid:
  assumes "b \<in> set band_map" and "smap_channel b = Some c" and "chan_number c s = Inr v"
  shows "channel_valid c (int32 v)"
proof -
  have r: "sm_ir0 c \<le> sm_ir1 c" "0 \<le> sm_ir0 c" "sm_ir1 c \<le> 41589"
    using band_maps [OF assms(1)] assms(2) by (metis option.inject)+
  show ?thesis
    using assms(3) r
    by (auto simp: chan_number_def channel_valid_def int32_id Let_def split: if_splits prod.splits)
qed

lemma rfm_inv_new: "rfm_inv F ((rfm_zero F)\<lparr>m_txpwr := TX_PWR_MIN, m_msg := Some s, m_dbin0 := d\<rparr>)"
  by (simp add: rfm_inv_defs rfm_zero_def TX_PWR_MIN_def in_int_def)

lemma rfm_inv_zero: "rfm_inv F (rfm_zero F)"
  by (simp add: rfm_inv_defs rfm_zero_def in_int_def)

lemma prof_band_inv: "rfm_inv F r \<Longrightarrow> prof_band s r = Inr r' \<Longrightarrow> rfm_inv F r'"
  by (auto simp: rfm_inv_defs prof_band_def split: if_splits option.splits dest: smap_lookup_mem)

lemma prof_chan_inv: "rfm_inv F r \<Longrightarrow> prof_chan s r = Inr r' \<Longrightarrow> rfm_inv F r'"
  by (auto simp: rfm_inv_defs prof_chan_def split: if_splits option.splits sum.splits
      intro: chan_number_valid)

lemma prof_srate_inv: "rfm_inv F r \<Longrightarrow> prof_srate s r = Inr r' \<Longrightarrow> rfm_inv F r'"
  by (auto simp: rfm_inv_defs prof_srate_def Let_def split: if_splits prod.splits)

lemma prof_bwidth_inv: "rfm_inv F r \<Longrightarrow> prof_bwidth s r = Inr r' \<Longrightarrow> rfm_inv F r'"
  by (auto simp: rfm_inv_defs prof_bwidth_def Let_def split: if_splits option.splits prod.splits
      dest: smap_lookup_mem)

lemma prof_txmod_inv: "rfm_inv F r \<Longrightarrow> prof_txmod s r = Inr r' \<Longrightarrow> rfm_inv F r'"
  by (auto simp: rfm_inv_defs prof_txmod_def split: if_splits option.splits dest: smap_lookup_mem)

lemma prof_txpwr_inv: "rfm_inv F r \<Longrightarrow> prof_txpwr s r = Inr r' \<Longrightarrow> rfm_inv F r'"
  by (auto simp: rfm_inv_defs prof_txpwr_def Let_def split: if_splits prod.splits)

lemma prof_dbin_inv: "rfm_inv F r \<Longrightarrow> prof_dbin F s r = Inr r' \<Longrightarrow> rfm_inv F r'"
  by (auto simp: rfm_inv_defs prof_dbin_def Let_def split: if_splits prod.splits)

lemma set_insert_at: "set (take n xs @ x # drop n xs) = insert x (set xs)"
  by (metis Un_insert_right append_take_drop_id list.simps(15) set_append)

lemma pe_add_set:
  "pe_add ofc lo hi ps = Inr ps' \<Longrightarrow>
     set ps' = insert \<lparr>pe_ofc = int32 ofc, pe_r0 = lo, pe_r1 = hi\<rparr> (set ps)"
  by (auto simp: pe_add_def set_insert_at simp del: set_append split: option.splits)

lemma prof_pe_cases:
  assumes "prof_pe F s r = Inr r'"
  obtains ofc lo hi ps where "r' = r\<lparr>m_pe := ps\<rparr>" "pe_add ofc lo hi (m_pe r) = Inr ps"
    "\<not> f_less F hi lo" "c_abs ofc \<le> m_bandwidth r div 2" "0 < m_bandwidth r"
  using assms unfolding prof_pe_def Let_def
  by (auto split: if_splits prod.splits sum.splits)

lemma prof_pe_inv: "rfm_inv F r \<Longrightarrow> prof_pe F s r = Inr r' \<Longrightarrow> rfm_inv F r'"
  by (elim prof_pe_cases, frule pe_add_set) (auto simp: rfm_inv_defs)

lemmas prof_invs = prof_band_inv prof_chan_inv prof_srate_inv prof_bwidth_inv prof_txmod_inv
  prof_txpwr_inv prof_dbin_inv prof_pe_inv

lemma on_cur_inv:
  assumes "\<And>r r'. rfm_inv F r \<Longrightarrow> body r = Inr r' \<Longrightarrow> rfm_inv F r'"
    and "\<forall>r \<in> set rs. rfm_inv F r" and "on_cur body rs = Inr rs'"
  shows "\<forall>r \<in> set rs'. rfm_inv F r"
proof -
  from assms(3) obtain r' where "rs \<noteq> []" "body (last rs) = Inr r'" "rs' = butlast rs @ [r']"
    by (auto simp: on_cur_def split: if_splits sum.splits)
  moreover have "rfm_inv F r'" using assms(1,2) calculation by (meson last_in_set)
  ultimately show ?thesis using assms(2) by (auto dest: in_set_butlastD)
qed

lemma pfc_hdl_inv:
  assumes "\<forall>r \<in> set rs. rfm_inv F r" and "pfc_hdl F p s rs = Inr rs'"
  shows "\<forall>r \<in> set rs'. rfm_inv F r"
  using assms(2)
  by (cases p) (auto simp: prof_new_def intro: rfm_inv_new assms(1) [rule_format]
      elim: on_cur_inv [OF _ assms(1), THEN bspec, rotated] dest: prof_invs)

text \<open>The invariant holds of every measurement of a parsed profile and of the options.\<close>

lemma profile_line_inv:
  "\<forall>r \<in> set rs. rfm_inv F r \<Longrightarrow> profile_line F line rs = Inr rs' \<Longrightarrow> \<forall>r \<in> set rs'. rfm_inv F r"
  unfolding profile_line_def Let_def
  by (auto split: if_splits option.splits prod.splits dest: pfc_hdl_inv)

lemma parse_profile_inv:
  "\<forall>r \<in> set rs. rfm_inv F r \<Longrightarrow> parse_profile F fp rs = Inr rs' \<Longrightarrow> \<forall>r \<in> set rs'. rfm_inv F r"
proof (induction F fp rs rule: parse_profile.induct)
  case (1 F fp rs)
  show ?case
  proof (cases "fp = []")
    case True
    then show ?thesis using 1 by (simp add: parse_profile.simps)
  next
    case False
    obtain line fp' where l: "fgets 254 fp = (line, fp')" by fastforce
    obtain rs1 where rs1: "profile_line F line rs = Inr rs1"
      using 1(3) False l by (subst (asm) parse_profile.simps) (auto split: sum.splits)
    then have "parse_profile F fp' rs1 = Inr rs'"
      using 1(3) False l by (subst (asm) parse_profile.simps) simp
    then show ?thesis
      using 1(1) [OF False l [symmetric]] rs1 profile_line_inv [OF 1(2) rs1] by blast
  qed
qed

lemma rfm_inv_msg: "rfm_inv F r \<Longrightarrow> rfm_inv F (r\<lparr>m_msg := m\<rparr>)"
  by (simp add: rfm_inv_defs)

lemma rfm_opt_inv:
  assumes "rfm_inv F r" and "rfm_opt F p arg r = Inr r'"
  shows "rfm_inv F r'"
proof -
  from assms(2) obtain rs where h: "pfc_hdl F p arg [r\<lparr>m_msg := Some ''cmdline''\<rparr>] = Inr rs"
    and r': "r' = hd rs"
    by (auto simp: rfm_opt_def Let_def split: if_splits sum.splits)
  have "rs \<noteq> []"
    using h by (cases p) (auto simp: on_cur_def prof_new_def split: sum.splits)
  then show ?thesis
    using pfc_hdl_inv [OF _ h] rfm_inv_msg [OF assms(1)] r' by simp
qed

lemma sw_opt_step_inv:
  "rfm_inv F (snd s) \<Longrightarrow> sw_opt_step F c s = Inr s' \<Longrightarrow> rfm_inv F (snd s')"
  by (cases c; cases s)
    (auto simp: opt_rfm_def split: sum.splits intro: rfm_opt_inv)

lemma sw_opts_inv:
  "rfm_inv F (snd s) \<Longrightarrow> sw_opts F cs s = Inr s' \<Longrightarrow> rfm_inv F (snd s')"
  by (induction cs arbitrary: s) (auto split: sum.splits dest: sw_opt_step_inv)

section \<open>Validated measurements\<close>

text \<open>
  What the rest of the program may rely on: a band that transmits, a channel of that band,
  the frequency of that channel, the technology whose command sequence is run, a
  modulation of that technology, a bandwidth and a power.
\<close>

definition usable :: "'f rfm \<Rightarrow> bool" where
  "usable r \<longleftrightarrow> (\<exists>b c u f t. m_band r = Some b \<and> b \<in> set band_map \<and> has_uplink b
     \<and> smap_channel b = Some c \<and> m_chan r = Some c \<and> channel_valid c (m_channel r)
     \<and> smap_freq b ufreq_map = Some u \<and> sm_freq u = Some f
     \<and> m_uf r = f (sm_ir0 c) + (m_channel r - sm_ir0 c) * chan_step b \<and> 0 < m_uf r
     \<and> (sm_flags b = SM_WCDMA \<and> m_tech r = 2 \<or> sm_flags b = SM_LTE \<and> m_tech r = 3)
     \<and> m_txmod r = Some t \<and> t \<in> set txmod_map \<and> sm_flags t AND sm_flags b \<noteq> 0
     \<and> 0 < m_bandwidth r \<and> TX_PWR_MIN < m_txpwr r)"

lemma mid_bounds: "a \<le> b \<Longrightarrow> a \<le> (a + b + 1) div 2 \<and> (a + b + 1) div 2 \<le> (b :: int)"
  by presburger

lemma mid_channel_valid: "sm_ir0 c \<le> sm_ir1 c \<Longrightarrow> channel_valid c (mid_channel c)"
  by (simp add: channel_valid_def mid_channel_def mid_bounds)

lemma band_tech_simps:
  "sm_flags b = SM_GSM \<Longrightarrow> band_tech b = Some 1"
  "sm_flags b = SM_WCDMA \<Longrightarrow> band_tech b = Some 2"
  "sm_flags b = SM_LTE \<Longrightarrow> band_tech b = Some 3"
  by (simp_all add: band_tech_def SM_defs)

lemma validate_chan_ok:
  assumes "rfm_inv F r" and "m_band r = Some b" and "has_uplink b"
  obtains c n where "validate_chan b (r\<lparr>m_tech := t\<rparr>) =
      Inr (r\<lparr>m_tech := t, m_chan := Some c, m_channel := n\<rparr>)"
    "smap_channel b = Some c" "channel_valid c n"
proof -
  have bm: "b \<in> set band_map" using assms(1,2) by (simp add: rfm_inv_defs)
  obtain c where c: "smap_channel b = Some c" "sm_ir0 c \<le> sm_ir1 c" "1000 < sm_ir0 c"
    using band_maps [OF bm] assms(3) by metis
  show ?thesis
  proof (cases "m_channel r \<le> 0")
    case True
    then show ?thesis
      using that [of "mid_channel c" c] c mid_channel_valid [OF c(2)] by (simp add: validate_chan_def)
  next
    case False
    then obtain c' where "m_chan r = Some c'"
      using assms(1) by (cases "m_chan r") (auto simp: rfm_inv_defs)
    then have "m_chan r = Some c" "channel_valid c (m_channel r)"
      using assms(1,2) c(1) by (auto simp: rfm_inv_defs)
    moreover have "r\<lparr>m_tech := t\<rparr> = r\<lparr>m_tech := t, m_chan := m_chan r, m_channel := m_channel r\<rparr>"
      by simp
    ultimately show ?thesis
      using that [of "m_channel r" c] c False by (simp add: validate_chan_def)
  qed
qed

lemma rfm_validate_uplink:
  assumes inv: "rfm_inv F r" and b: "m_band r = Some b" "has_uplink b"
    and r: "0 < m_bandwidth r" "m_txmod r \<noteq> None" "TX_PWR_MIN < m_txpwr r"
  shows "\<exists>r'. rfm_validate r = Inr r' \<and> usable r'"
proof -
  have bm: "b \<in> set band_map" using inv b(1) by (simp add: rfm_inv_defs)
  obtain t where t: "m_txmod r = Some t" "t \<in> set txmod_map" "sm_flags t AND sm_flags b \<noteq> 0"
    using inv b(1) r(2) by (auto simp: rfm_inv_defs and.commute)
  have fl: "sm_flags b = SM_WCDMA \<or> sm_flags b = SM_LTE"
    using band_maps [OF bm] b(2) by (metis has_uplink_def insert_iff singletonD)
  define k :: nat where "k = (if sm_flags b = SM_LTE then 3 else 2)"
  have tech: "band_tech b = Some k"
    using fl band_tech_simps [of b] by (auto simp: k_def SM_defs)
  obtain c n where vc: "validate_chan b (r\<lparr>m_tech := k\<rparr>) =
      Inr (r\<lparr>m_tech := k, m_chan := Some c, m_channel := n\<rparr>)"
    and c: "smap_channel b = Some c" "channel_valid c n"
    using validate_chan_ok [OF inv b] by blast
  obtain u f d g where u: "smap_freq b ufreq_map = Some u" "sm_freq u = Some f"
    "smap_freq b dfreq_map = Some d" "sm_freq d = Some g"
    and f: "0 < f n" "f n = f (sm_ir0 c) + (n - sm_ir0 c) * chan_step b"
    using band_maps [OF bm] c b(2) by (metis option.inject)
  have "rfm_validate r = Inr (r\<lparr>m_tech := k, m_chan := Some c, m_channel := n, m_ufreq := Some u,
      m_uf := f n, m_dfreq := Some d, m_df := g n\<rparr>)"
    using b(1) tech r vc u f(1) by (simp add: rfm_validate_def validate_freq_def)
  moreover have "SM_LTE \<noteq> SM_WCDMA" by (simp add: SM_defs)
  ultimately show ?thesis
    using b bm c u f t r fl by (auto simp: usable_def k_def)
qed

lemma rfm_validate_no_uplink:
  assumes "rfm_inv F r" and "m_band r = Some b" and "\<not> has_uplink b"
  shows "\<exists>e. rfm_validate r = Inl e"
proof -
  have bm: "b \<in> set band_map" using assms(1,2) by (simp add: rfm_inv_defs)
  obtain u f where u: "smap_freq b ufreq_map = Some u" "sm_freq u = Some f" "\<And>ch. f ch = -1"
    using band_maps [OF bm] assms(3) by metis
  then have "\<exists>e. validate_freq b r' = Inl e" for r' :: "'a rfm"
    by (simp add: validate_freq_def)
  then show ?thesis
    unfolding rfm_validate_def using assms(2)
    by (auto split: option.splits sum.splits) (metis sum.simps(4))
qed

end
