(* ===== verification/Sw_Parse_Props.thy ===== *)
theory Sw_Parse_Props
  imports Sw_Parse "HOL-Library.Sublist"
begin

text \<open>
  Properties of the profile parser of the modem test: accepted measurements, validation,
  the power envelope, the command look-up and the options.
\<close>

section \<open>The power envelope\<close>

lemma pe_find_shift:
  "sorted_wrt (<) (map pe_ofc ps) \<Longrightarrow> pn \<le> i \<Longrightarrow> pe_find ofc i pn ps =
     (if ofc \<in> pe_ofc ` set ps then None
      else Some (if \<exists>p \<in> set ps. pe_ofc p < ofc then i + length (filter (\<lambda>p. pe_ofc p < ofc) ps) else pn))"
proof (induction ofc i pn ps rule: pe_find.induct)
  case (2 ofc i pn pe ps)
  show ?case
  proof (cases "pe_ofc pe < ofc")
    case True
    then show ?thesis using 2 by auto
  next
    case False
    then have "\<forall>p \<in> set ps. \<not> pe_ofc p < ofc" using 2(2) by fastforce
    moreover from this have "filter (\<lambda>p. pe_ofc p < ofc) ps = []" by (simp add: filter_empty_conv)
    ultimately show ?thesis using 2 False by auto
  qed
qed simp

lemma sorted_split:
  "sorted_wrt (<) (map pe_ofc ps) \<Longrightarrow> (ofc :: int) \<notin> pe_ofc ` set ps \<Longrightarrow>
     (let n = length (filter (\<lambda>p. pe_ofc p < ofc) ps)
      in take n ps = filter (\<lambda>p. pe_ofc p < ofc) ps \<and> drop n ps = filter (\<lambda>p. ofc < pe_ofc p) ps)"
proof (induction ps)
  case (Cons p ps)
  show ?case
  proof (cases "pe_ofc p < ofc")
    case False
    then have gt: "\<forall>q \<in> set (p # ps). ofc < pe_ofc q" using Cons.prems by fastforce
    then have "filter (\<lambda>p. pe_ofc p < ofc) (p # ps) = []" by (auto simp: filter_empty_conv)
    moreover have "filter (\<lambda>p. ofc < pe_ofc p) (p # ps) = p # ps" using gt by (simp add: filter_id_conv)
    ultimately show ?thesis by simp
  qed (use Cons in \<open>simp add: Let_def\<close>)
qed simp

text \<open>On an envelope whose offsets ascend, a point with an offset in the range of an \<open>int\<close> is
  refused exactly when its offset is taken, and otherwise goes between the smaller and
  the larger ones, so the offsets still ascend.
\<close>

theorem pe_add_ordered:
  assumes "sorted_wrt (<) (map pe_ofc ps)" and "-2147483648 \<le> ofc" and "ofc < 2147483648"
  shows "pe_add ofc lo hi ps = (if ofc \<in> pe_ofc ` set ps then Inl ''duplicate pwr envelope point''
      else Inr (filter (\<lambda>p. pe_ofc p < ofc) ps @ \<lparr>pe_ofc = ofc, pe_r0 = lo, pe_r1 = hi\<rparr>
                # filter (\<lambda>p. ofc < pe_ofc p) ps))
    \<and> (\<forall>ps'. pe_add ofc lo hi ps = Inr ps' \<longrightarrow> sorted_wrt (<) (map pe_ofc ps'))"
proof -
  have f: "pe_find ofc 0 0 ps = (if ofc \<in> pe_ofc ` set ps then None
      else Some (length (filter (\<lambda>p. pe_ofc p < ofc) ps)))"
    using pe_find_shift [OF assms(1), of 0 0 ofc] by (auto simp: filter_empty_conv)
  have eq: "pe_add ofc lo hi ps = (if ofc \<in> pe_ofc ` set ps then Inl ''duplicate pwr envelope point''
      else Inr (filter (\<lambda>p. pe_ofc p < ofc) ps @ \<lparr>pe_ofc = ofc, pe_r0 = lo, pe_r1 = hi\<rparr>
                # filter (\<lambda>p. ofc < pe_ofc p) ps))"
    using sorted_split [OF assms(1), of ofc] assms(2,3)
    by (simp add: pe_add_def f int32_id Let_def)
  moreover have "sorted_wrt (<) (map pe_ofc (filter Q ps))" for Q
    using assms(1) by (simp add: sorted_wrt_map sorted_wrt_filter)
  then have "sorted_wrt (<) (map pe_ofc (filter (\<lambda>p. pe_ofc p < ofc) ps @
      \<lparr>pe_ofc = ofc, pe_r0 = lo, pe_r1 = hi\<rparr> # filter (\<lambda>p. ofc < pe_ofc p) ps))"
    by (auto simp: sorted_wrt_append)
  ultimately show ?thesis by auto
qed

theorem pe_add_ordered_witness:
  "pe_add 0 (1::nat) 2 [\<lparr>pe_ofc = -5, pe_r0 = 0, pe_r1 = 1\<rparr>, \<lparr>pe_ofc = 5, pe_r0 = 0, pe_r1 = 1\<rparr>] =
     Inr [\<lparr>pe_ofc = -5, pe_r0 = 0, pe_r1 = 1\<rparr>, \<lparr>pe_ofc = 0, pe_r0 = 1, pe_r1 = 2\<rparr>,
          \<lparr>pe_ofc = 5, pe_r0 = 0, pe_r1 = 1\<rparr>]"
  using pe_add_ordered [of "[\<lparr>pe_ofc = -5, pe_r0 = 0, pe_r1 = 1\<rparr>, \<lparr>pe_ofc = 5, pe_r0 = 0, pe_r1 = 1\<rparr>]"
      0 "1::nat" 2] by simp

text \<open>\<open>prof_pe\<close> compares the \<open>long\<close> it has read, but \<open>abs\<close> and the stored field see only its
  lower 32 bits: for every envelope, an offset of 2 to the power of 32 passes the range
  check as 0 and is appended behind all points in range as a further point at offset 0,
  even when there is one.
\<close>

theorem pe_offset_wraps:
  assumes "\<forall>p \<in> set ps. pe_ofc p < 2147483648"
  shows "c_abs 4294967296 = 0 \<and>
    pe_add 4294967296 lo hi ps = Inr (ps @ [\<lparr>pe_ofc = 0, pe_r0 = lo, pe_r1 = hi\<rparr>])"
proof -
  have "pe_find 4294967296 i i ps = Some (i + length ps)" for i
    using assms by (induction ps arbitrary: i) force+
  from this [of 0] show ?thesis by (simp add: pe_add_def c_abs_def int32_def)
qed

theorem pe_offset_wraps_witness:
  "pe_add 4294967296 (1::nat) 2 [\<lparr>pe_ofc = 0, pe_r0 = 0, pe_r1 = 1\<rparr>] =
     Inr [\<lparr>pe_ofc = 0, pe_r0 = 0, pe_r1 = 1\<rparr>, \<lparr>pe_ofc = 0, pe_r0 = 1, pe_r1 = 2\<rparr>]"
  using pe_offset_wraps [of "[\<lparr>pe_ofc = 0, pe_r0 = 0, pe_r1 = 1\<rparr>]" "1::nat" 2] by simp

section \<open>The command look-up\<close>

lemma skip_spc_split: "\<exists>bl. s = bl @ skip_spc s \<and> (\<forall>c \<in> set bl. isblank c)"
  unfolding skip_spc_def by (rule exI [of _ "takeWhile isblank s"]) (auto dest: set_takeWhileD)

lemma strncmp_eq_cmd: "strncmp_eq cmd str (length cmd) \<Longrightarrow> CHR 0x00 \<notin> set cmd \<Longrightarrow>
    str = cmd @ drop (length cmd) str"
proof -
  assume a: "strncmp_eq cmd str (length cmd)" and nz: "CHR 0x00 \<notin> set cmd"
  then have t: "cmd = take (length cmd) (str @ [CHR 0x00])" by (simp add: strncmp_eq_def)
  have "length cmd \<le> length str"
  proof (rule ccontr)
    assume "\<not> ?thesis"
    then have "CHR 0x00 \<in> set (take (length cmd) (str @ [CHR 0x00]))" by simp
    with t nz show False by simp
  qed
  with t show ?thesis by (metis append_take_drop_id diff_is_0_eq take0 take_append append_Nil2)
qed

lemma lookup_in_sound:
  assumes "lookup_in tab str = Some (e, s)" and "\<forall>(cmd, _) \<in> set tab. CHR 0x00 \<notin> set cmd"
  shows "\<exists>skipped cmd bl. (cmd, e) \<in> set tab \<and> set skipped \<subseteq> fst ` set tab
     \<and> str = concat skipped @ cmd @ bl @ s \<and> bl \<noteq> [] \<and> (\<forall>c \<in> set bl. isblank c)"
  using assms
proof (induction tab str rule: lookup_in.induct)
  case (2 cmd pfc tab str)
  show ?case
  proof (cases "strncmp_eq cmd str (length cmd)")
    case False
    with 2 show ?thesis by (fastforce simp: Let_def)
  next
    case True
    define rest where "rest = drop (length cmd) str"
    have str: "str = cmd @ rest" using strncmp_eq_cmd [OF True] 2(4) by (simp add: rest_def)
    obtain bl where bl: "rest = bl @ skip_spc rest" "\<forall>c \<in> set bl. isblank c"
      using skip_spc_split by blast
    show ?thesis
    proof (cases "length (skip_spc rest) < length rest")
      case t: True
      then have "e = pfc" "s = skip_spc rest" using 2(3) True by (simp_all add: Let_def rest_def)
      moreover have "bl \<noteq> []" using t bl(1) by (metis append_Nil less_irrefl)
      ultimately show ?thesis using str bl
        by (intro exI [of _ "[]"] exI [of _ cmd] exI [of _ bl]) auto
    next
      case f: False
      have "lookup_in tab rest = Some (e, s)" using 2(3) True f by (simp add: Let_def rest_def)
      then obtain sk cmd' bl' where "(cmd', e) \<in> set tab" "set sk \<subseteq> fst ` set tab"
        "rest = concat sk @ cmd' @ bl' @ s" "bl' \<noteq> []" "\<forall>c \<in> set bl'. isblank c"
        using 2(2) [OF refl _ refl refl] True f 2(4) unfolding rest_def by fastforce
      then show ?thesis using str
        by (intro exI [of _ "cmd # sk"] exI [of _ cmd'] exI [of _ bl']) auto
    qed
  qed
qed simp

lemma profile_cmds_plain: "\<forall>(cmd, _) \<in> set profile_cmds. CHR 0x00 \<notin> set cmd"
  by (simp add: profile_cmds_def)

lemma lookup_in_miss:
  "CHR 0x00 \<notin> set cmd \<Longrightarrow> \<not> prefix cmd str \<Longrightarrow> lookup_in ((cmd, e) # tab) str = lookup_in tab str"
  using strncmp_eq_cmd [of cmd str] by (auto simp: prefix_def Let_def)

lemma lookup_in_hit:
  "CHR 0x00 \<notin> set cmd \<Longrightarrow> length (skip_spc rest) < length rest \<Longrightarrow>
     lookup_in ((cmd, e) # tab) (cmd @ rest) = Some (e, skip_spc rest)"
  by (simp add: strncmp_eq_def Let_def)

text \<open>
  \<open>put longer commands first, due to sub-string matches\<close>: no command is a prefix of a later
  one, and none contains a blank, so the first match on a line is its command.
\<close>

definition plain_cmd :: "string \<Rightarrow> bool" where
  "plain_cmd cmd \<longleftrightarrow> CHR 0x00 \<notin> set cmd \<and> (\<forall>c \<in> set cmd. \<not> isblank c)"

lemma prefix_to_blank:
  "prefix c (cmd @ b # x) \<Longrightarrow> isblank b \<Longrightarrow> \<forall>d \<in> set c. \<not> isblank d \<Longrightarrow> prefix c cmd"
proof -
  assume p: "prefix c (cmd @ b # x)" and b: "isblank b" and nb: "\<forall>d \<in> set c. \<not> isblank d"
  from p have "prefix c cmd \<or> (\<exists>us. c = cmd @ us \<and> prefix us (b # x))" by (simp only: prefix_append)
  then show "prefix c cmd"
  proof (elim disjE exE conjE)
    fix us
    assume c: "c = cmd @ us" and us: "prefix us (b # x)"
    have "us = []" using us b nb c by (cases us) auto
    with c show ?thesis by simp
  qed
qed

lemma lookup_in_found:
  assumes "sorted_wrt (\<lambda>x y. \<not> prefix (fst x) (fst y)) tab" and "\<forall>x \<in> set tab. plain_cmd (fst x)"
    and "(cmd, e) \<in> set tab" and "isblank b" and "skip_spc (b # x) = arg" and "length arg < length (b # x)"
  shows "lookup_in tab (cmd @ b # x) = Some (e, arg)"
  using assms(1-3)
proof (induction tab)
  case (Cons y tab)
  obtain c d where y: "y = (c, d)" by (rule prod.exhaust)
  have plain: "CHR 0x00 \<notin> set c" "\<forall>z \<in> set c. \<not> isblank z"
    using Cons.prems(2) y by (auto simp: plain_cmd_def)
  show ?case
  proof (cases "(cmd, e) = (c, d)")
    case True
    then show ?thesis
      using lookup_in_hit [OF plain(1), of "b # x" d tab] assms(5,6) y by simp
  next
    case False
    then have mem: "(cmd, e) \<in> set tab" using Cons.prems(3) y by auto
    then have "\<not> prefix c cmd" using Cons.prems(1) y by fastforce
    then have "\<not> prefix c (cmd @ b # x)" using prefix_to_blank assms(4) plain(2) by blast
    then show ?thesis
      using lookup_in_miss [OF plain(1), of "cmd @ b # x" d tab] Cons mem y by simp
  qed
qed simp

lemma profile_cmds_ordered:
  "sorted_wrt (\<lambda>x y. \<not> prefix (fst x) (fst y)) profile_cmds" "\<forall>x \<in> set profile_cmds. plain_cmd (fst x)"
  by (simp_all add: profile_cmds_def plain_cmd_def isblank_def)

lemma prof_lookup_found:
  assumes "(cmd, p, fl) \<in> set profile_cmds" and "isblank b" and "\<forall>c \<in> set bl. isblank c"
    and "arg = [] \<or> \<not> isblank (hd arg)"
  shows "prof_lookup (cmd @ b # bl @ arg) = Some ((p, fl), arg)"
proof -
  have "skip_spc (b # bl @ arg) = arg"
    using assms(2,3,4) by (cases arg) (simp_all add: skip_spc_def dropWhile_append2 dropWhile_append)
  then show ?thesis
    unfolding prof_lookup_def using profile_cmds_ordered assms(1,2) by (intro lookup_in_found) simp_all
qed

text \<open>The look-up finds the command a line starts with and returns the text behind the blanks;
  whatever it finds stands in front of its argument, behind nothing but names of
  commands of the table (a name that is not followed by a blank is skipped, so
  \<open>newband\<close> is \<open>band\<close>).
\<close>

theorem prof_lookup_command:
  "(\<forall>cmd p fl b bl arg. (cmd, p, fl) \<in> set profile_cmds \<and> isblank b \<and> (\<forall>c \<in> set bl. isblank c)
      \<and> (arg = [] \<or> \<not> isblank (hd arg)) \<longrightarrow>
      prof_lookup (cmd @ b # bl @ arg) = Some ((p, fl), arg))
   \<and> (\<forall>str e s. prof_lookup str = Some (e, s) \<longrightarrow>
      (\<exists>skipped cmd bl. (cmd, e) \<in> set profile_cmds \<and> set skipped \<subseteq> fst ` set profile_cmds
        \<and> str = concat skipped @ cmd @ bl @ s \<and> bl \<noteq> [] \<and> (\<forall>c \<in> set bl. isblank c)))
   \<and> prof_lookup ''newband LTE-B1'' = Some ((PROF_BAND, SM_ALL), ''LTE-B1'')"
proof (intro conjI allI impI)
  show "prof_lookup ''newband LTE-B1'' = Some ((PROF_BAND, SM_ALL), ''LTE-B1'')"
    by (simp add: prof_lookup_def profile_cmds_def strncmp_eq_def Let_def skip_spc_def isblank_def)
next
  fix str e s
  assume "prof_lookup str = Some (e, s)"
  then show "\<exists>skipped cmd bl. (cmd, e) \<in> set profile_cmds \<and> set skipped \<subseteq> fst ` set profile_cmds
        \<and> str = concat skipped @ cmd @ bl @ s \<and> bl \<noteq> [] \<and> (\<forall>c \<in> set bl. isblank c)"
    unfolding prof_lookup_def using profile_cmds_plain by (rule lookup_in_sound)
qed (use prof_lookup_found in blast)

theorem prof_lookup_command_witness: "prof_lookup ''band  X'' = Some ((PROF_BAND, SM_ALL), ''X'')"
proof -
  have "(''band'', PROF_BAND, SM_ALL) \<in> set profile_cmds" by (simp add: profile_cmds_def)
  then show ?thesis
    using prof_lookup_command [THEN conjunct1, rule_format,
        of "''band''" PROF_BAND SM_ALL "CHR '' ''" "'' ''" "''X''"]
    by (simp add: isblank_def)
qed

section \<open>Options\<close>

lemma opt_hdl_txpwr:
  assumes "m_txpwr r = 0" and "rfm_opt F p arg r = Inr r'" and "p \<noteq> PROF_NEW"
  shows "m_txpwr r' = 0 \<and> p \<noteq> PROF_TXPWR"
proof -
  define r0 where "r0 = r\<lparr>m_msg := Some ''cmdline''\<rparr>"
  from assms(2) obtain rs where h: "pfc_hdl F p arg [r0] = Inr rs" and r': "r' = hd rs"
    unfolding r0_def [symmetric] rfm_opt_def Let_def by (auto split: if_splits sum.splits)
  have z: "m_txpwr r0 = 0" using assms(1) by (simp add: r0_def)
  have "\<forall>y \<in> set rs. m_txpwr y = 0 \<and> p \<noteq> PROF_TXPWR" and "rs \<noteq> []"
    using h z assms(3)
    by (cases p; auto simp: on_cur_def prof_band_def prof_chan_def prof_srate_def prof_bwidth_def
        prof_txmod_def prof_txpwr_def prof_dbin_def TX_PWR_MIN_def Let_def
        split: if_splits option.splits sum.splits prod.splits elim: prof_pe_cases)+
  then show ?thesis using r' by (cases rs) auto
qed

lemma sw_opts_txpwr:
  assumes "m_txpwr (snd s) = 0" and "sw_opts F opts s = Inr s'"
  shows "m_txpwr (snd s') = 0 \<and> (\<forall>arg. OptP arg \<notin> set opts)"
  using assms
proof (induction opts arbitrary: s)
  case (Cons c cs)
  obtain s1 where s1: "sw_opt_step F c s = Inr s1" "sw_opts F cs s1 = Inr s'"
    using Cons.prems(2) by (auto split: sum.splits)
  have "m_txpwr (snd s1) = 0 \<and> (\<forall>arg. c \<noteq> OptP arg)"
    using s1(1) Cons.prems(1)
    by (cases c; cases s) (auto simp: opt_rfm_def split: sum.splits dest: opt_hdl_txpwr)
  then show ?case using Cons.IH [OF _ s1(2)] by auto
qed simp

text \<open>The option \<open>-p\<close> always ends the program: the power of the measurement of the options
  starts at 0 dBm, which \<open>prof_txpwr\<close> takes for a power that has been set already. A
  measurement given by options is therefore always taken at 0 dBm.
\<close>

theorem txpwr_option_fatal:
  "(OptP arg \<in> set opts \<longrightarrow> (\<exists>e. sw_opts F opts (args_init, rfm_zero F) = Inl e))
   \<and> (sw_opts F opts (args_init, rfm_zero F) = Inr (a, rfmo) \<longrightarrow> m_txpwr rfmo = 0)"
  using sw_opts_txpwr [of "(args_init, rfm_zero F)" F opts]
  by (cases "sw_opts F opts (args_init, rfm_zero F)") (auto simp: rfm_zero_def)

text \<open>An instance of the float operations for the concrete runs: whole numbers.\<close>

definition int_ops :: "int fops" where
  "int_ops = \<lparr>f_strtof = strtol 10, f_of_int = (\<lambda>i. i), f_less = (<), f_add = (+), f_sub = (-),
     f_mul = (*), f_div = (div), f_db_bin = 1\<rparr>"

theorem txpwr_option_fatal_witness:
  "\<exists>e. sw_opts int_ops [OptB ''LTE-B2'', OptP ''23''] (args_init, rfm_zero int_ops) = Inl e"
  using txpwr_option_fatal [of "''23''" "[OptB ''LTE-B2'', OptP ''23'']" int_ops] by simp

section \<open>Accepted measurements\<close>

lemma rfm_validate_Inr:
  assumes "rfm_inv F r" and "rfm_validate r = Inr r'"
  shows "usable r'"
proof -
  from assms(2) obtain b where b: "m_band r = Some b" and r: "0 < m_bandwidth r"
    by (auto simp: rfm_validate_def split: option.splits if_splits)
  have up: "has_uplink b" using rfm_validate_no_uplink [OF assms(1) b] assms(2) by auto
  have "m_txmod r = m_txmod r' \<and> m_txmod r' \<noteq> None \<and> m_txpwr r = m_txpwr r' \<and> TX_PWR_MIN < m_txpwr r'"
    using assms(2) b unfolding rfm_validate_def validate_chan_def validate_freq_def
    by (auto split: option.splits if_splits sum.splits)
  then show ?thesis
    using rfm_validate_uplink [OF assms(1) b up r] assms(2) by auto
qed

lemma validate_all_usable:
  "\<forall>r \<in> set rs. rfm_inv F r \<Longrightarrow> validate_all rs = Inr rs' \<Longrightarrow> \<forall>r \<in> set rs'. usable r"
  by (induction rs arbitrary: rs') (auto split: sum.splits dest: rfm_validate_Inr)

lemma measurements_usable_all:
  assumes "sw_measurements F open_file opts = Inr (a, rs)"
  shows "\<forall>r \<in> set rs. usable r"
proof -
  from assms obtain a' rfmo where o: "sw_opts F opts (args_init, rfm_zero F) = Inr (a', rfmo)"
    by (auto simp: sw_measurements_def split: sum.splits)
  have "rfm_inv F rfmo" using sw_opts_inv [OF _ o] rfm_inv_zero [of F] by simp
  then have i: "\<forall>r \<in> set (if m_msg rfmo = None then [] else [rfmo]). rfm_inv F r" by simp
  from assms obtain rs0 where p: "(case a_profile a' of
        None \<Rightarrow> Inr (if m_msg rfmo = None then [] else [rfmo])
      | Some p \<Rightarrow> case open_file p of None \<Rightarrow> Inl ''cannot open profile''
          | Some text \<Rightarrow> parse_profile F text (if m_msg rfmo = None then [] else [rfmo])) = Inr rs0"
    and v: "validate_all rs0 = Inr rs"
    unfolding sw_measurements_def o sum.case prod.case Let_def by (auto split: sum.splits)
  from p have "\<forall>r \<in> set rs0. rfm_inv F r"
  proof (cases "a_profile a'")
    case None
    then show ?thesis using p i by simp
  next
    case (Some path)
    then obtain fp where "parse_profile F fp (if m_msg rfmo = None then [] else [rfmo]) = Inr rs0"
      using p by (auto simp del: if_split split: option.splits)
    then show ?thesis using parse_profile_inv [OF i] by blast
  qed
  then show ?thesis using validate_all_usable v by blast
qed

text \<open>(C10)
  Every measurement that \<open>main\<close> goes on with is usable: its band is one that transmits, its
  channel one of that band, its frequency that of the channel, its technology WCDMA or
  LTE (so the empty GSM sequence is never started), its modulation one of that
  technology, and it has a bandwidth and a power above the minimum.
\<close>

theorem measurements_usable:
  assumes "sw_measurements F open_file opts = Inr (a, rs)" and "r \<in> set rs"
  shows "usable r"
  using measurements_usable_all [OF assms(1)] assms(2) by blast

definition demo_profile :: string where
  "demo_profile = ''# lte'' @ [CHR 0x0A] @ ''new mid'' @ [CHR 0x0A] @ ''band LTE-B2'' @ [CHR 0x0A]
     @ ''bandwidth 10'' @ [CHR 0x0A] @ ''txmod QPSK'' @ [CHR 0x0A] @ ''txpwr 23'' @ [CHR 0x0A]"

lemma demo_measurements: "case sw_measurements int_ops (\<lambda>p. Some demo_profile) [OptF ''p''] of
   Inl e \<Rightarrow> False | Inr (a, rs) \<Rightarrow> map m_channel rs = [18900] \<and> map m_uf rs = [1880000000]"
  by code_simp

theorem measurements_usable_witness:
  "\<exists>r :: int rfm. usable r \<and> m_channel r = 18900 \<and> m_uf r = 1880000000"
proof -
  obtain a rs where m: "sw_measurements int_ops (\<lambda>p. Some demo_profile) [OptF ''p''] = Inr (a, rs)"
    and c: "map m_channel rs = [18900]" "map m_uf rs = [1880000000]"
    using demo_measurements by (auto split: sum.splits)
  then obtain r where "r \<in> set rs" "m_channel r = 18900" "m_uf r = 1880000000" by (cases rs) auto
  then show ?thesis using measurements_usable [OF m] by blast
qed

text \<open>Validation refuses a measurement of a profile exactly when something it needs is
  missing: a band that transmits, a positive bandwidth, a modulation, a power. The channel
  is never the reason, since the profile has checked it or the middle one is taken.
\<close>

theorem profile_validation_complete:
  assumes "parse_profile F file [] = Inr rs" and "r \<in> set rs"
  shows "(\<exists>r'. rfm_validate r = Inr r') \<longleftrightarrow> (\<exists>b. m_band r = Some b \<and> has_uplink b)
     \<and> 0 < m_bandwidth r \<and> m_txmod r \<noteq> None \<and> TX_PWR_MIN < m_txpwr r"
proof
  have inv: "rfm_inv F r" using parse_profile_inv [OF _ assms(1)] assms(2) by simp
  {
    assume "\<exists>r'. rfm_validate r = Inr r'"
    then obtain r' where v: "rfm_validate r = Inr r'" ..
    then obtain b where b: "m_band r = Some b" and w: "0 < m_bandwidth r"
      by (auto simp: rfm_validate_def split: option.splits if_splits)
    have "has_uplink b" using rfm_validate_no_uplink [OF inv b] v by auto
    moreover have "m_txmod r \<noteq> None \<and> TX_PWR_MIN < m_txpwr r"
      using v b unfolding rfm_validate_def validate_chan_def validate_freq_def
      by (auto split: option.splits if_splits sum.splits)
    ultimately show "(\<exists>b. m_band r = Some b \<and> has_uplink b)
       \<and> 0 < m_bandwidth r \<and> m_txmod r \<noteq> None \<and> TX_PWR_MIN < m_txpwr r"
      using b w by blast
  next
    assume "(\<exists>b. m_band r = Some b \<and> has_uplink b)
       \<and> 0 < m_bandwidth r \<and> m_txmod r \<noteq> None \<and> TX_PWR_MIN < m_txpwr r"
    then show "\<exists>r'. rfm_validate r = Inr r'" using rfm_validate_uplink [OF inv] by blast
  }
qed

lemma demo_parse: "case parse_profile int_ops demo_profile [] of Inl e \<Rightarrow> False
   | Inr rs \<Rightarrow> map (\<lambda>r. (map_option has_uplink (m_band r), m_bandwidth r, m_txpwr r)) rs
       = [(Some True, 12000000, 23)] \<and> map (Option.is_none \<circ> m_txmod) rs = [False]"
  by code_simp

theorem profile_validation_complete_witness:
  "\<exists>(r :: int rfm) r'. m_txpwr r = 23 \<and> rfm_validate r = Inr r'"
proof -
  obtain rs where p: "parse_profile int_ops demo_profile [] = Inr rs"
    and c: "map (\<lambda>r. (map_option has_uplink (m_band r), m_bandwidth r, m_txpwr r)) rs
       = [(Some True, 12000000, 23)]" "map (Option.is_none \<circ> m_txmod) rs = [False]"
    using demo_parse by (auto split: sum.splits)
  then obtain r where r: "rs = [r]" "map_option has_uplink (m_band r) = Some True"
    "m_bandwidth r = 12000000" "m_txpwr r = 23" "m_txmod r \<noteq> None"
    by (cases rs) (auto simp: Option.is_none_def)
  then have "\<exists>r'. rfm_validate r = Inr r'"
    using profile_validation_complete [OF p, of r] by (auto simp: TX_PWR_MIN_def)
  then show ?thesis using r by blast
qed

end
