(* ===== verification/Sw_Run_Inv.thy ===== *)
theory Sw_Run_Inv
  imports Sw_Run Sw_Parse_Props
begin

text \<open>
  Where a run of the modem test can be, and whether the transmitter is on there. The jumps
  of the sequences are checked once, by evaluation; the invariant of the engine follows
  from that check and from what issuing a command does.
\<close>

section \<open>The transmitter\<close>

definition pa_after :: "bool \<Rightarrow> string \<Rightarrow> bool" where
  "pa_after pa cmd = (if cmd = ''!DASTXON'' then True else if cmd = ''!DASTXOFF'' then False else pa)"

text \<open>The transmitter is on when the last of the two commands that was sent is the first one.\<close>

definition pa_on :: "string list \<Rightarrow> bool" where
  "pa_on sent = foldl pa_after False sent"

lemma pa_on_simps [simp]: "pa_on [] = False" "pa_on (xs @ [c]) = pa_after (pa_on xs) c"
  by (simp_all add: pa_on_def)

section \<open>The sequences as places\<close>

datatype seq = Mode | Lte | Wcdma | End

fun tab_of :: "seq \<Rightarrow> ats list" where
  "tab_of Mode = ats_mode"
| "tab_of Lte = ats_lte"
| "tab_of Wcdma = ats_wcdma"
| "tab_of End = ats_end"

definition is_pseudo :: "atc \<Rightarrow> bool" where
  "is_pseudo c \<longleftrightarrow> c_comp c \<in> {Some C_mfg_info, Some C_mfg_post, Some C_rfm_info, Some C_rf_pwr_measure}"

text \<open>The entries at which the program waits for a reply with the transmitter on.\<close>

fun pa_wait :: "seq \<Rightarrow> nat \<Rightarrow> bool" where
  "pa_wait Lte k = (k = 9)"
| "pa_wait Wcdma k = (k = 4 \<or> k = 5 \<or> k = 6)"
| "pa_wait _ k = False"

definition pa_cmd :: "atc \<Rightarrow> bool \<Rightarrow> bool" where
  "pa_cmd c pa = (if c_comp c = None then pa_after pa (c_cmd c) else pa)"

text \<open>
  What matters of an entry: the end of the sequence, a pseudo command with its two jumps,
  or a command with what it does to the transmitter and a jump for each reply.
\<close>

datatype place = PEnd | PPseudo int int | PReal "bool option" "int list"

definition pa_effect :: "atc \<Rightarrow> bool option" where
  "pa_effect c = (if c_comp c \<noteq> None then None else if c_cmd c = ''!DASTXON'' then Some True
     else if c_cmd c = ''!DASTXOFF'' then Some False else None)"

lemma pa_cmd_effect: "pa_cmd c pa = (case pa_effect c of None \<Rightarrow> pa | Some b \<Rightarrow> b)"
  by (simp add: pa_cmd_def pa_effect_def pa_after_def)

definition place_of :: "ats \<Rightarrow> place" where
  "place_of s = (case s_atc s of None \<Rightarrow> PEnd
     | Some c \<Rightarrow> if is_pseudo c then PPseudo (rei_at s 0) (rei_at s 1)
         else PReal (pa_effect c) (map (rei_at s) [0..<length (c_re c)]))"

fun places :: "seq \<Rightarrow> place list" where
  "places Mode = [PReal None [5, 1, 1], PPseudo 1 1, PReal None [3, 4, 1], PReal None [2, 1],
     PReal None [1, 2], PReal None [-1, -1], PEnd]"
| "places Lte = [PPseudo 1 1, PReal None [10, 1], PReal None [9, 1], PReal None [8, 1],
     PReal None [7, 1], PReal None [6, 1], PReal None [5, 1], PReal None [4, 1], PReal None [3, 1],
     PReal (Some True) [2, 1], PPseudo 1 1, PReal (Some False) [1, 1], PReal None [1, 1], PEnd]"
| "places Wcdma = [PPseudo 1 1, PReal None [7, 1], PReal None [6, 1], PReal None [5, 1],
     PReal (Some True) [4, 1], PReal None [3, 1], PReal None [2, 1], PPseudo 1 1,
     PReal (Some False) [1, 1], PEnd]"
| "places End = [PPseudo 1 1, PReal None [1, 1], PReal None [-1, -1], PEnd]"

lemma places: "places q = map place_of (tab_of q)"
  by (cases q) (simp_all add: ats_tables atc_defs ats_nil_def place_of_def is_pseudo_def pa_effect_def
      rei_at_def upt_rec)

lemma length_places: "length (tab_of q) = length (places q)"
  by (simp add: places)

lemma place_at: "k < length (places q) \<Longrightarrow> places q ! k = place_of (tab_of q ! k)"
  by (simp add: places)

definition real_at :: "seq \<Rightarrow> nat \<Rightarrow> bool" where
  "real_at q k \<longleftrightarrow> k < length (places q) \<and> (case places q ! k of PReal e js \<Rightarrow> True | _ \<Rightarrow> False)"

fun effect_at :: "place \<Rightarrow> bool \<Rightarrow> bool" where
  "effect_at (PReal (Some b) js) pa = b"
| "effect_at _ pa = pa"

text \<open>Arriving at entry \<open>k\<close> with the transmitter in state \<open>pa\<close>.\<close>

definition land_ok :: "seq \<Rightarrow> nat \<Rightarrow> bool \<Rightarrow> bool" where
  "land_ok q k pa \<longleftrightarrow> k < length (places q) \<and> (case places q ! k of PEnd \<Rightarrow> \<not> pa
     | PPseudo i j \<Rightarrow> i = 1 \<and> j = 1 \<and> real_at q (Suc k)
         \<and> pa_wait q (Suc k) = effect_at (places q ! Suc k) pa
     | PReal e js \<Rightarrow> pa_wait q k = effect_at (places q ! k) pa)"

definition edge_ok :: "seq \<Rightarrow> nat \<Rightarrow> int \<Rightarrow> bool" where
  "edge_ok q k t \<longleftrightarrow> t \<noteq> 0 \<and> (t < 0 \<longrightarrow> t = -1 \<and> \<not> pa_wait q k)
     \<and> (t > 0 \<longrightarrow> land_ok q (k + nat t) (pa_wait q k))"

definition jumps_ok :: "seq \<Rightarrow> bool" where
  "jumps_ok q \<longleftrightarrow> land_ok q 0 False \<and> places q ! 0 \<noteq> PEnd \<and>
     list_all (\<lambda>k. case places q ! k of PReal e js \<Rightarrow> list_all (edge_ok q k) js | _ \<Rightarrow> True)
       [0..<length (places q)]"

lemma jumps_checked: "list_all jumps_ok [Mode, Lte, Wcdma, End]"
  by code_simp

lemma jumps_ok: "jumps_ok q"
  using jumps_checked by (cases q) simp_all

lemma start_ok: "land_ok q 0 False" "s_atc (tab_of q ! 0) \<noteq> None"
proof -
  show "land_ok q 0 False" using jumps_ok [of q] by (simp add: jumps_ok_def)
  have "0 < length (places q)" by (cases q) simp_all
  then show "s_atc (tab_of q ! 0) \<noteq> None"
    using jumps_ok [of q] place_at [of 0 q] by (auto simp: jumps_ok_def place_of_def split: option.splits)
qed

lemma real_atE:
  assumes "real_at q k"
  obtains c where "k < length (tab_of q)" "s_atc (tab_of q ! k) = Some c" "\<not> is_pseudo c"
    "places q ! k = PReal (pa_effect c) (map (rei_at (tab_of q ! k)) [0..<length (c_re c)])"
  using assms place_at [of k q]
  by (auto simp: real_at_def place_of_def length_places split: option.splits if_splits place.splits)

lemma edge_ok:
  assumes "real_at q k" and "s_atc (tab_of q ! k) = Some c" and "i < length (c_re c)"
  shows "edge_ok q k (rei_at (tab_of q ! k) i)"
proof -
  from assms(1) obtain c' where "places q ! k = PReal (pa_effect c') (map (rei_at (tab_of q ! k)) [0..<length (c_re c')])"
    "s_atc (tab_of q ! k) = Some c'" by (rule real_atE)
  then have pl: "places q ! k = PReal (pa_effect c) (map (rei_at (tab_of q ! k)) [0..<length (c_re c)])"
    using assms(2) by simp
  have "k < length (places q)" using assms(1) by (simp add: real_at_def)
  moreover have "list_all (\<lambda>k. case places q ! k of PReal e js \<Rightarrow> list_all (edge_ok q k) js | _ \<Rightarrow> True)
       [0..<length (places q)]"
    using jumps_ok [of q] by (simp only: jumps_ok_def)
  ultimately have "list_all (edge_ok q k) (map (rei_at (tab_of q ! k)) [0..<length (c_re c)])"
    unfolding list_all_length by (auto simp: pl list_all_length)
  then show ?thesis using assms(3) by (auto simp: list_all_iff)
qed

lemma tab_of_not_Nil [simp]: "tab_of q \<noteq> []"
  by (cases q) (simp_all add: ats_tables)

section \<open>Issuing a command\<close>

text \<open>Two states at the same place that have sent the same commands.\<close>

definition same_place :: "'f swg \<Rightarrow> 'f swg \<Rightarrow> bool" where
  "same_place g h \<longleftrightarrow> g_atl g = g_atl h \<and> g_pc g = g_pc h \<and> g_sent g = g_sent h"

lemma real_comp:
  assumes "\<not> is_pseudo c" and "compose E c g = Inr (g', x)"
  shows "g' = g \<and> (\<exists>s. x = Cmd s \<and> (if c_comp c = None then s = c_cmd c
      else s \<noteq> ''!DASTXON'' \<and> s \<noteq> ''!DASTXOFF''))"
proof (cases "c_comp c")
  case None
  then show ?thesis using assms by (auto simp: compose_def)
next
  case (Some h)
  then show ?thesis
    using assms by (cases h) (auto simp: compose_def is_pseudo_def with_rfm_def with_smap_def
        split: option.splits)
qed

lemma pseudo_comp:
  assumes "is_pseudo c" and "compose E c g = Inr (g', x)"
  shows "same_place g' g \<and> (x = Rei 0 \<or> x = Rei 1)"
  using assms
  by (auto simp: compose_def is_pseudo_def with_rfm_def with_smap_def rf_pwr_measure_def same_place_def
      split: option.splits if_splits prod.splits)

lemma tty_issue_real:
  assumes "\<not> is_pseudo c" and "tty_issue E (Some c) g = Inr (g', x)"
  shows "x = None \<and> g_atl g' = g_atl g \<and> g_pc g' = g_pc g \<and> g_rrt g' = Some c
    \<and> pa_on (g_sent g') = pa_cmd c (pa_on (g_sent g))"
proof -
  from assms(2) obtain g1 y where co: "compose E c (g\<lparr>g_nbuf := 0\<rparr>) = Inr (g1, y)"
    by (auto simp: tty_issue_def split: sum.splits prod.splits)
  with real_comp [OF assms(1) co] obtain s where s: "g1 = g\<lparr>g_nbuf := 0\<rparr>" "y = Cmd s"
    "if c_comp c = None then s = c_cmd c else s \<noteq> ''!DASTXON'' \<and> s \<noteq> ''!DASTXOFF''"
    by blast
  have "x = None" and t: "tty_send E s (g\<lparr>g_nbuf := 0, g_rrt := Some c\<rparr>) = Inr g'"
    using assms(2) unfolding tty_issue_def option.case co s by (auto split: if_splits sum.splits)
  then have "g_atl g' = g_atl g \<and> g_pc g' = g_pc g \<and> g_rrt g' = Some c \<and>
      (s = [] \<and> g_sent g' = g_sent g \<or> g_sent g' = g_sent g @ [s])"
    by (auto simp: tty_send_def Let_def split: if_splits)
  moreover have "pa_after pa [] = pa" for pa by (simp add: pa_after_def)
  ultimately show ?thesis
    using \<open>x = None\<close> s(3) by (auto simp: pa_cmd_def pa_after_def split: if_splits)
qed

lemma tty_issue_pseudo:
  assumes "is_pseudo c" and "tty_issue E (Some c) g = Inr (g', x)"
  shows "same_place g' g \<and> (x = Some 0 \<or> x = Some 1)"
proof -
  from assms(2) obtain g1 y where co: "compose E c (g\<lparr>g_nbuf := 0\<rparr>) = Inr (g1, y)"
    by (auto simp: tty_issue_def split: sum.splits prod.splits)
  with pseudo_comp [OF assms(1) co] show ?thesis
    using assms(2) unfolding tty_issue_def option.case co by (auto simp: same_place_def)
qed

section \<open>The invariant of the engine\<close>

definition rest_ok :: "'f atl list \<Rightarrow> bool" where
  "rest_ok ls \<longleftrightarrow> (\<exists>ms l. ls = ms @ [l] \<and> l_ats l = None \<and> (\<forall>m \<in> set ms. \<exists>q. l_ats m = Some (tab_of q)))"

lemma rest_ok_hd:
  assumes "rest_ok ls"
  obtains "l_ats (hd ls) = None"
    | q where "l_ats (hd ls) = Some (tab_of q)" "rest_ok (tl ls)" "ls = hd ls # tl ls"
  using assms unfolding rest_ok_def by (auto simp: append_eq_Cons_conv) (metis append_Cons append_Nil hd_append list.sel list.set_intros neq_Nil_conv tl_append2)

text \<open>The program is in the sequence \<open>q\<close>, and further sequences of the tables follow.\<close>

definition in_seq :: "seq \<Rightarrow> 'f swg \<Rightarrow> bool" where
  "in_seq q g \<longleftrightarrow> cur_tab g = tab_of q \<and> rest_ok (tl (g_atl g))"

text \<open>Between two events: a command has been sent and its reply is awaited.\<close>

definition waiting :: "seq \<Rightarrow> 'f swg \<Rightarrow> bool" where
  "waiting q g \<longleftrightarrow> in_seq q g \<and> real_at q (g_pc g) \<and> pa_on (g_sent g) = pa_wait q (g_pc g)"

text \<open>The timer of the command is running.\<close>

definition awaiting :: "seq \<Rightarrow> 'f swg \<Rightarrow> bool" where
  "awaiting q g \<longleftrightarrow> waiting q g \<and> g_rrt g \<noteq> None"

lemma issue_lands:
  assumes "in_seq q g" and "real_at q (g_pc g)"
    and "pa_wait q (g_pc g) = effect_at (places q ! g_pc g) (pa_on (g_sent g))"
    and "tty_issue E (s_atc (tab_of q ! g_pc g)) g = Inr (g', x)"
  shows "x = None \<and> awaiting q g'"
proof -
  obtain c where c: "s_atc (tab_of q ! g_pc g) = Some c" "\<not> is_pseudo c"
    "places q ! g_pc g = PReal (pa_effect c) (map (rei_at (tab_of q ! g_pc g)) [0..<length (c_re c)])"
    using assms(2) by (rule real_atE)
  have "effect_at (places q ! g_pc g) pa = pa_cmd c pa" for pa
    unfolding c(3) pa_cmd_effect by (cases "pa_effect c") simp_all
  moreover have "x = None \<and> g_atl g' = g_atl g \<and> g_pc g' = g_pc g \<and> g_rrt g' = Some c
      \<and> pa_on (g_sent g') = pa_cmd c (pa_on (g_sent g))"
    using tty_issue_real [OF c(2)] assms(4) c(1) by metis
  ultimately show ?thesis
    using assms by (simp add: awaiting_def waiting_def in_seq_def cur_tab_def)
qed

text \<open>What \<open>ats_next\<close> may return.\<close>

definition next_post :: "(swerr + 'f swg \<times> int) option \<Rightarrow> bool" where
  "next_post res \<longleftrightarrow> (case res of None \<Rightarrow> False
     | Some (Inl e) \<Rightarrow> True
     | Some (Inr (g, ret)) \<Rightarrow> ret = 0 \<and> (\<exists>q. awaiting q g) \<or> ret = -1 \<and> \<not> pa_on (g_sent g))"

lemma next_post_simps [simp]:
  "next_post (Some (Inl e))"
  "next_post (Some (Inr (g, ret))) \<longleftrightarrow> ret = 0 \<and> (\<exists>q. awaiting q g) \<or> ret = -1 \<and> \<not> pa_on (g_sent g)"
  by (simp_all add: next_post_def)

text \<open>The entry itself is a command or a pseudo command.\<close>

lemma enter_post:
  assumes q: "in_seq q g" and k: "g_pc g = k" and land: "land_ok q k (pa_on (g_sent g))"
    and c: "s_atc (tab_of q ! k) = Some c"
  shows "next_post (case tty_issue E (Some c) g of
       Inl e \<Rightarrow> Some (Inl e)
     | Inr (g, None) \<Rightarrow> Some (Inr (g, 0))
     | Inr (g', Some i) \<Rightarrow> ats_next (Suc n) E (rei_at (tab_of q ! k) i) g')"
proof (cases "tty_issue E (Some c) g")
  case (Inr r)
  obtain g' x where r: "r = (g', x)" by (rule prod.exhaust)
  have len: "k < length (places q)" using land by (simp add: land_ok_def)
  note pl = place_at [OF len, unfolded place_of_def c option.case]
  show ?thesis
  proof (cases "is_pseudo c")
    case False
    then have "real_at q (k)" and "pa_wait q (k) = effect_at (places q ! k) (pa_on (g_sent g))"
      using land pl by (simp_all add: land_ok_def real_at_def)
    then have "x = None \<and> awaiting q g'"
      using issue_lands [OF q] c Inr r k by simp
    then show ?thesis using Inr r by auto
  next
    case True
    have sp: "same_place g' g" and x: "x = Some 0 \<or> x = Some 1"
      using tty_issue_pseudo [OF True] Inr r by blast+
    have j: "rei_at (tab_of q ! k) 0 = 1" "rei_at (tab_of q ! k) 1 = 1"
      and nx: "real_at q (Suc (k))"
        "pa_wait q (Suc (k)) = effect_at (places q ! Suc (k)) (pa_on (g_sent g))"
      using land pl True by (simp_all add: land_ok_def)
    obtain d where d: "Suc (k) < length (tab_of q)" "s_atc (tab_of q ! Suc (k)) = Some d"
      using nx(1) by (rule real_atE)
    define h where "h = g'\<lparr>g_pc := Suc (k)\<rparr>"
    have h: "in_seq q h" "g_pc h = Suc (k)" "g_sent h = g_sent g"
      using q sp by (simp_all add: h_def in_seq_def cur_tab_def same_place_def)
    have ct: "cur_tab g' = tab_of q" "g_pc g' = k"
      using q sp k by (simp_all add: in_seq_def cur_tab_def same_place_def)
    have "ats_next (Suc n) E 1 g' = (case tty_issue E (Some d) h of
       Inl e \<Rightarrow> Some (Inl e) | Inr (g, None) \<Rightarrow> Some (Inr (g, 0))
     | Inr (g'', Some i) \<Rightarrow> ats_next n E (rei_at (tab_of q ! Suc (k)) i) g'')"
      using d by (simp add: ct Let_def h_def nat_add_distrib)
    moreover have "x = None \<and> awaiting q m" if "tty_issue E (Some d) h = Inr (m, x)" for m x
      using issue_lands [OF h(1)] h nx d that by simp
    ultimately have "next_post (ats_next (Suc n) E 1 g')"
      by (cases "tty_issue E (Some d) h") (auto split: prod.splits option.splits)
    then show ?thesis using Inr r x j by auto
  qed
qed simp

lemma ats_next_post:
  assumes q: "in_seq q g" and land: "land_ok q (g_pc g + nat t) (pa_on (g_sent g))" and t: "0 < t"
  shows "next_post (ats_next (Suc (Suc n)) E t g)"
proof -
  define k where "k = g_pc g + nat t"
  have ct: "cur_tab g = tab_of q" using q by (simp add: in_seq_def)
  have len: "k < length (tab_of q)" using land by (simp add: land_ok_def k_def length_places)
  have kt: "int (g_pc g) + t = int k" using t by (simp add: k_def)
  show ?thesis
  proof (cases "s_atc (tab_of q ! k)")
    case (Some c)
    have "in_seq q (g\<lparr>g_pc := k\<rparr>)" using q by (simp add: in_seq_def cur_tab_def)
    from enter_post [OF this, where k = k and c = c and E = E and n = n] show ?thesis
      using len land Some unfolding ats_next.simps(2) [of "Suc n"] Let_def ct kt
      by (simp add: k_def [symmetric])
  next
    case None
    define ls where "ls = tl (g_atl g)"
    have rest: "rest_ok ls" using q by (simp add: in_seq_def ls_def)
    have off: "\<not> pa_on (g_sent g)"
      using land None place_at [of k q] len by (simp add: land_ok_def place_of_def k_def [symmetric] length_places)
    from rest show ?thesis
    proof (cases rule: rest_ok_hd)
      case 1
      then show ?thesis
        using len None off unfolding ats_next.simps(2) [of "Suc n"] Let_def ct kt
        by (simp add: ls_def)
    next
      case (2 q')
      define h where "h = g\<lparr>g_atl := ls, g_rfmc := l_rfm (hd ls), g_pc := 0\<rparr>"
      have "cur_tab h = tab_of q'" using 2 by (cases ls) (simp_all add: h_def cur_tab_def)
      then have h: "in_seq q' h" "g_pc h = 0" "land_ok q' 0 (pa_on (g_sent h))"
        using 2 off start_ok(1) by (simp_all add: in_seq_def h_def)
      obtain c where c: "s_atc (tab_of q' ! 0) = Some c" using start_ok(2) by blast
      from enter_post [OF h, where c = c and E = E and n = n] show ?thesis
        using len None 2 c unfolding ats_next.simps(2) [of "Suc n"] Let_def ct kt
        by (simp add: ls_def [symmetric] h_def)
    qed
  qed
qed

section \<open>A round\<close>

lemma tty_read_place: "tty_read chunk g = Inr g' \<Longrightarrow> same_place g' g \<and> g_rrt g' = g_rrt g"
  by (auto simp: tty_read_def same_place_def Let_def split: if_splits option.splits)

lemma resp_split_place: "resp_split g = Some (g', n) \<Longrightarrow> same_place g' g"
  by (auto simp: resp_split_def same_place_def)

lemma run_rhdl_place: "run_rhdl h g = Inr (g', err) \<Longrightarrow> same_place g' g"
proof (cases h)
  case H_daschan
  then show "run_rhdl h g = Inr (g', err) \<Longrightarrow> same_place g' g"
    by (auto simp: reh_daschan_def split: option.splits if_splits dest: resp_split_place)
next
  case H_dasband
  then show "run_rhdl h g = Inr (g', err) \<Longrightarrow> same_place g' g"
    by (auto simp: reh_dasband_def Let_def split: option.splits if_splits dest: resp_split_place)
next
  case H_i9
  then show "run_rhdl h g = Inr (g', err) \<Longrightarrow> same_place g' g"
    by (auto simp: reh_i9_def Let_def split: option.splits if_splits dest!: resp_split_place)
      (auto simp: same_place_def)
qed (auto simp: same_place_def)

lemma handle_reply_place: "handle_reply r g = Inr g' \<Longrightarrow> same_place g' g"
  by (auto simp: handle_reply_def split: option.splits sum.splits prod.splits dest!: run_rhdl_place)
    (auto simp: same_place_def)

lemma find_match_index: "find_match m i rs = Some (j, r) \<Longrightarrow> i \<le> j \<and> j < i + length rs"
  by (induction m i rs rule: find_match.induct) (auto split: if_splits)

lemma same_place_seq:
  "same_place g' g \<Longrightarrow> waiting q g \<Longrightarrow> waiting q g'"
  by (simp add: same_place_def waiting_def in_seq_def cur_tab_def)

text \<open>A reply leads to no jump, to the stop of the loop, or to a jump that has been checked.\<close>

lemma tty_proc_post:
  assumes w: "waiting q g" and p: "tty_proc E chunk g = Inr (g', t)"
  shows "waiting q g' \<and> (t = 0 \<and> g_rrt g' = g_rrt g \<or> edge_ok q (g_pc g') t)"
proof -
  from w have real: "real_at q (g_pc g)" and ct: "cur_tab g = tab_of q"
    by (simp_all add: waiting_def in_seq_def)
  obtain c where c: "s_atc (tab_of q ! g_pc g) = Some c" using real by (rule real_atE)
  have p': "(case tty_read chunk g of Inl e \<Rightarrow> Inl e
     | Inr g \<Rightarrow> if g_nbuf g = 0 then Inr (g, 0)
         else case find_match (\<lambda>p. e_regexec E p (cstr (g_buf g))) 0 (c_re c) of
           None \<Rightarrow> Inr (g, 0)
         | Some (i, r) \<Rightarrow> case handle_reply r (g\<lparr>g_rrt := None\<rparr>) of Inl e \<Rightarrow> Inl e
             | Inr g \<Rightarrow> Inr (g, rei_at (cur_ats g) i)) = Inr (g', t)"
    using p by (simp add: tty_proc_def cur_ats_def ct c)
  then obtain g1 where g1: "tty_read chunk g = Inr g1" by (auto split: sum.splits)
  have w1: "waiting q g1" and rrt: "g_rrt g1 = g_rrt g"
    using same_place_seq [OF _ w] tty_read_place [OF g1] by blast+
  have pc1: "g_pc g1 = g_pc g" using tty_read_place [OF g1] by (simp add: same_place_def)
  show ?thesis
  proof (cases "g' = g1 \<and> t = 0")
    case False
    then obtain i r where m: "find_match (\<lambda>p. e_regexec E p (cstr (g_buf g1))) 0 (c_re c) = Some (i, r)"
      and h: "handle_reply r (g1\<lparr>g_rrt := None\<rparr>) = Inr g'" and t: "t = rei_at (cur_ats g') i"
      using p' g1 by (auto split: if_splits option.splits sum.splits)
    have sp: "same_place g' g1" using handle_reply_place [OF h] by (simp add: same_place_def)
    have w2: "waiting q g'" using same_place_seq [OF sp w1] .
    have pc2: "g_pc g' = g_pc g" using sp pc1 by (simp add: same_place_def)
    have "cur_ats g' = tab_of q ! g_pc g"
      using w2 pc2 by (simp add: waiting_def in_seq_def cur_ats_def)
    then have "edge_ok q (g_pc g') t"
      using edge_ok [OF real c] find_match_index [OF m] t pc2 by simp
    with w2 show ?thesis by blast
  qed (use w1 rrt in blast)
qed

lemma sw_round_post:
  assumes aw: "awaiting q g"
  shows "(\<forall>g'. sw_round E v g = Inr g' \<longrightarrow> (\<exists>q. awaiting q g') \<and> \<not> v_tmr v)
    \<and> (\<forall>g'. sw_round E v g = Inl (Done, g') \<longrightarrow> \<not> pa_on (g_sent g'))"
proof -
  have w: "waiting q g" and rrt: "g_rrt g \<noteq> None" using aw by (simp_all add: awaiting_def)
  define res where "res = (case v_tty v of None \<Rightarrow> Inr (g, 0) | Some chunk \<Rightarrow> tty_proc E chunk g)"
  show ?thesis
  proof (cases res)
    case (Inl e)
    then show ?thesis by (simp add: sw_round_def res_def [symmetric])
  next
    case (Inr r)
    obtain g1 t where r: "r = (g1, t)" by (rule prod.exhaust)
    have w1: "waiting q g1" "t = 0 \<and> g_rrt g1 = g_rrt g \<or> edge_ok q (g_pc g1) t"
      using Inr r w tty_proc_post [OF w, of E _ g1 t] by (auto simp: res_def split: option.splits)
    define nx where "nx = (if t > 0 then ats_next AGAIN E t g1 else Some (Inr (g1, t)))"
    have "next_post nx"
    proof (cases "t > 0")
      case True
      then have "land_ok q (g_pc g1 + nat t) (pa_on (g_sent g1))"
        using w1 by (simp add: edge_ok_def waiting_def)
      moreover have "AGAIN = Suc (Suc 98)" by (simp add: AGAIN_def)
      ultimately show ?thesis
        using ats_next_post [of q g1 t 98 E] w1(1) True by (simp add: nx_def waiting_def)
    next
      case False
      then show ?thesis using w1 rrt by (auto simp: nx_def edge_ok_def waiting_def awaiting_def)
    qed
    then show ?thesis
      unfolding sw_round_def res_def [symmetric] Inr r sum.case prod.case nx_def [symmetric]
      by (auto simp: next_post_def timer_hdl_def awaiting_def split: option.splits sum.splits if_splits)
  qed
qed

lemma sw_loop_post:
  "awaiting q g \<Longrightarrow> sw_loop E vs g = Inl (Done, g') \<Longrightarrow> \<not> pa_on (g_sent g')"
proof (induction vs arbitrary: g q)
  case (Cons v vs)
  show ?case
  proof (cases "sw_round E v g")
    case (Inl e)
    then show ?thesis using Cons.prems sw_round_post [OF Cons.prems(1), of E v] by auto
  next
    case (Inr g1)
    then obtain q1 where "awaiting q1 g1" using sw_round_post [OF Cons.prems(1), of E v] by blast
    then show ?thesis using Cons.IH Cons.prems(2) Inr by simp
  qed
qed simp

section \<open>The start\<close>

lemma usable_tab:
  "usable r \<Longrightarrow> \<exists>q. l_ats (rfm_atl r) = Some (tab_of q)"
  by (auto simp: usable_def rfm_atl_def tech_ats_def intro: exI [of _ Wcdma] exI [of _ Lte])

lemma build_atl_ok:
  assumes "\<forall>r \<in> set rs. usable r" and "build_atl rs = Some atl"
  shows "in_seq Mode (swg_init atl s)" and "hd atl = \<lparr>l_rfm = None, l_ats = Some ats_mode\<rparr>"
proof -
  have atl: "atl = \<lparr>l_rfm = None, l_ats = Some ats_mode\<rparr> # map rfm_atl rs
       @ [\<lparr>l_rfm = None, l_ats = Some ats_end\<rparr>, \<lparr>l_rfm = None, l_ats = None\<rparr>]"
    using assms(2) by (simp add: build_atl_def split: if_splits)
  have "rest_ok ((map rfm_atl rs @ [\<lparr>l_rfm = None, l_ats = Some ats_end\<rparr>]) @ [\<lparr>l_rfm = None, l_ats = None\<rparr>])"
    unfolding rest_ok_def
    by (rule exI, rule exI, rule conjI, rule refl)
      (use assms(1) usable_tab in \<open>auto intro: exI [of _ End]\<close>)
  then show "in_seq Mode (swg_init atl s)" by (simp add: in_seq_def cur_tab_def swg_init_def atl)
  show "hd atl = \<lparr>l_rfm = None, l_ats = Some ats_mode\<rparr>" by (simp add: atl)
qed

lemma start_waiting:
  assumes "\<forall>r \<in> set rs. usable r" and "build_atl rs = Some atl"
    and "ats_start E (swg_init atl s) = Inr g"
  shows "awaiting Mode g"
proof -
  define g0 where "g0 = (swg_init atl s)\<lparr>g_rfmc := l_rfm (hd (g_atl (swg_init atl s)))\<rparr>"
  have q: "in_seq Mode g0"
    using build_atl_ok(1) [OF assms(1,2), of s] by (simp add: g0_def in_seq_def cur_tab_def)
  have g0: "g_pc g0 = 0" "g_sent g0 = []" by (simp_all add: g0_def swg_init_def)
  have ca: "cur_ats (swg_init atl s) = tab_of Mode ! 0"
    using build_atl_ok(1) [OF assms(1,2), of s] by (simp add: in_seq_def cur_ats_def swg_init_def)
  obtain x where x: "tty_issue E (s_atc (tab_of Mode ! 0)) g0 = Inr (g, x)"
    using assms(3) unfolding ats_start_def g0_def ca by (auto split: sum.splits)
  have "real_at Mode 0" by (simp add: real_at_def)
  then show ?thesis using issue_lands [OF q, unfolded g0, OF _ _ x] by simp
qed

end
