(* ===== verification/Sw_Sdr_Props.thy ===== *)
theory Sw_Sdr_Props
  imports Sw_Sdr Sw_Parse_Props
begin

text \<open>
  Properties of the measurement of the modem test: what happens to a spectrum that arrives
  in one or in two pieces, and that the envelope check stays inside the spectrum.
\<close>

section \<open>Replies\<close>

lemma cstr_append: "CHR 0x00 \<notin> set a \<Longrightarrow> cstr (a @ b) = a @ cstr b"
  unfolding cstr_def by (subst takeWhile_append2) auto

lemma header_number: "strtoul 0 ''4096'' = (4096, 4)"
  by (simp add: strto_eval Let_def)

abbreviation nlc :: char where "nlc \<equiv> CHR 0x0A"

text \<open>The first chunk of a spectrum reply: the header is complete.\<close>

lemma spectrum_first_chunk:
  assumes "length a \<le> 4096"
  shows "sdr_chunk [] (line ''4096'' @ a) =
    (if length a = 4096 then SdDone (4096, a) else SdMore (''4096'' @ CHR 0x00 # a))"
proof -
  have c: "cstr (line ''4096'' @ a) = ''4096'' @ nlc # cstr a"
    by (simp add: line_def cstr_def)
  have nl: "strchr (cstr (line ''4096'' @ a)) nlc = Some 4"
    unfolding c by simp
  have upd: "(line ''4096'' @ a)[4 := CHR 0x00] = ''4096'' @ CHR 0x00 # a"
    by (simp add: line_def numeral_eq_Suc)
  have c2: "cstr (''4096'' @ CHR 0x00 # a) = ''4096''" by (simp add: cstr_def)
  have n: "unat (ucast (4096 :: u64) :: u32) = 4096" by simp
  show ?thesis
    using assms unfolding sdr_chunk_def Let_def append_Nil nl option.case upd c2 header_number
      prod.case n
    by (simp add: c int32_def)
qed

text \<open>A later chunk, while the spectrum is incomplete.\<close>

lemma spectrum_next_chunk:
  assumes "length (a @ b) \<le> 4096"
  shows "sdr_chunk (''4096'' @ CHR 0x00 # a) b = (case strchr (cstr b) nlc of
      None \<Rightarrow> SdMore (''4096'' @ CHR 0x00 # a @ b)
    | Some k \<Rightarrow> if length (a @ b) = 4096 then SdDone (4096, a @ b[k := CHR 0x00])
        else SdMore (''4096'' @ CHR 0x00 # a @ b[k := CHR 0x00]))"
proof -
  have c2: "cstr ((''4096'' @ CHR 0x00 # a) @ x) = ''4096''" for x by (simp add: cstr_def)
  have n: "unat (ucast (4096 :: u64) :: u32) = 4096" by simp
  show ?thesis
    using assms unfolding sdr_chunk_def Let_def c2 header_number prod.case n
    by (auto simp: int32_def split: option.split)
qed

lemma sdr_recv_data:
  "s \<noteq> [] \<Longrightarrow> length rxb + length s \<le> 4295 \<Longrightarrow> length rxb < 4295 \<Longrightarrow> 0 < to \<Longrightarrow>
   sdr_recv rxb to (RxData s # evs) = (case sdr_chunk rxb s of
       SdMore rxb \<Rightarrow> sdr_recv rxb to evs | SdDone r \<Rightarrow> Inr r | SdFail e \<Rightarrow> Inl e)"
proof -
  assume a: "s \<noteq> []" "length rxb + length s \<le> 4295" "length rxb < 4295" "0 < to"
  then have "\<not> 4295 - length rxb < length s" by linarith
  with a show ?thesis
    by (subst sdr_recv.simps) (simp add: SZ_RXB_def SZ_SDR_REP_def SDR_DFTSZ_def Let_def)
qed

lemma sdr_recv_waits:
  "length rxb < 4295 \<Longrightarrow> 10000 * int n < to \<Longrightarrow>
   sdr_recv rxb to (replicate n RxNone @ evs) = sdr_recv rxb (to - 10000 * int n) evs"
proof (induction n arbitrary: to)
  case (Suc n)
  have "sdr_recv rxb to (replicate (Suc n) RxNone @ evs) =
      sdr_recv rxb (to - 10000) (replicate n RxNone @ evs)"
    using Suc.prems by (subst sdr_recv.simps) (simp add: SZ_RXB_def SZ_SDR_REP_def SDR_DFTSZ_def)
  then show ?case using Suc by (simp add: algebra_simps)
qed simp

lemma sdr_recv_timeout:
  "length rxb < 4295 \<Longrightarrow> sdr_recv rxb to (replicate n RxNone) = Inl ''sdr receive timeout''"
proof (induction n arbitrary: to)
  case (Suc n)
  then show ?case
    by (subst sdr_recv.simps) (simp add: SZ_RXB_def SZ_SDR_REP_def SDR_DFTSZ_def)
qed (subst sdr_recv.simps, simp add: SZ_RXB_def SZ_SDR_REP_def SDR_DFTSZ_def)

text \<open>A spectrum of 4096 bytes reaches the program unchanged when it arrives with its header in
  one piece, however long it takes within two seconds. When it arrives in two pieces, the
  second is looked at only up to its first NUL, and the reply counts as complete only if
  a newline is found there, which is then overwritten: the measurement ends in a time-out,
  or with a byte of the spectrum set to zero.
\<close>

theorem sdr_reply_pieces:
  assumes "n < 200" and "length (a @ b) = 4096" and "b \<noteq> []"
  shows "sdr_recv [] 2000000 (replicate n RxNone @ RxData (line ''4096'' @ a @ b) # evs) = Inr (4096, a @ b)
    \<and> sdr_recv [] 2000000 (replicate n RxNone @ RxData (line ''4096'' @ a) # RxData b # replicate k RxNone) =
      (case strchr (cstr b) nlc of None \<Rightarrow> Inl ''sdr receive timeout''
       | Some i \<Rightarrow> Inr (4096, a @ b[i := CHR 0x00]))"
proof
  have l: "length (line s) = Suc (length s)" "line s \<noteq> []" for s by (simp_all add: line_def)
  show "sdr_recv [] 2000000 (replicate n RxNone @ RxData (line ''4096'' @ a @ b) # evs) = Inr (4096, a @ b)"
    using assms spectrum_first_chunk [of "a @ b"]
    by (simp add: sdr_recv_waits sdr_recv_data l)
  have "length a < 4096" using assms(2,3) by (cases b) auto
  then show "sdr_recv [] 2000000 (replicate n RxNone @ RxData (line ''4096'' @ a) # RxData b # replicate k RxNone) =
      (case strchr (cstr b) nlc of None \<Rightarrow> Inl ''sdr receive timeout''
       | Some i \<Rightarrow> Inr (4096, a @ b[i := CHR 0x00]))"
    using assms spectrum_first_chunk [of a] spectrum_next_chunk [of a b]
    by (simp add: sdr_recv_waits sdr_recv_data sdr_recv_timeout l split: option.split)
qed

theorem sdr_reply_pieces_witness:
  "sdr_recv [] 2000000 [RxData (line ''4096''), RxData (replicate 4096 CHR ''A'')] =
     Inl ''sdr receive timeout''"
proof -
  have "strchr (cstr (replicate 4096 CHR ''A'')) nlc = None"
    by (simp add: strchr_None cstr_def)
  then show ?thesis
    using sdr_reply_pieces [of 0 "[]" "replicate 4096 CHR ''A''" "[]" 0] by simp
qed

section \<open>The envelope check\<close>

lemma sdiv_mono: "a \<le> b \<Longrightarrow> 0 < c \<Longrightarrow> a sdiv c \<le> b sdiv (c :: int)"
proof -
  assume ab: "a \<le> b" and c: "0 < c"
  have n: "x sdiv c = - ((- x) div c)" if "x \<le> 0" for x
    using that c by (cases "x = 0") (simp_all add: signed_divide_int_def)
  have p: "x sdiv c = x div c" if "0 \<le> x" for x
    using that c by (cases "x = 0") (simp_all add: signed_divide_int_def)
  consider "0 \<le> a" | "b \<le> 0" | "a \<le> 0" "0 \<le> b" by linarith
  then show ?thesis
  proof cases
    case 1
    then show ?thesis using ab c by (simp add: p zdiv_mono1)
  next
    case 2
    then show ?thesis using ab c n [of a] n [of b] zdiv_mono1 [of "- b" "- a" c] by simp
  next
    case 3
    have "0 \<le> (- a) div c" "0 \<le> b div c" using 3 c by (simp_all add: pos_imp_zdiv_nonneg_iff)
    then show ?thesis using 3 by (simp add: n p)
  qed
qed

text \<open>A bin number moved into the spectrum.\<close>

definition clamp :: "int \<Rightarrow> int \<Rightarrow> int" where
  "clamp d x = max (- d) (min d x)"

lemma pe_bins_ok:
  assumes len: "int (length spec) = 2 * ((dftsz + 1) div 2)"
  shows "ofe \<le> ofn \<Longrightarrow> \<exists>pout' nbin'. pe_bins F sr dftsz spec pe dmin dmax ofe ofn (pout, nbin) = Some (pout', nbin')
    \<and> nbin \<le> nbin' \<and> nbin' \<le> nbin + (clamp ((dftsz + 1) div 2) ofn - clamp ((dftsz + 1) div 2) ofe)"
proof (induction "nat (ofn - ofe)" arbitrary: ofe pout nbin rule: less_induct)
  case less
  define d where "d = (dftsz + 1) div 2"
  have d0: "0 \<le> d" and len: "int (length spec) = 2 * d" using len unfolding d_def by simp_all
  consider "ofe = ofn" | "ofe < ofn" "ofe < - d" | "ofe < ofn" "d \<le> ofe"
    | "ofe < ofn" "- d \<le> ofe" "ofe < d" using less.prems by linarith
  then show ?case
  proof cases
    case 1
    then show ?thesis by (subst pe_bins.simps) simp
  next
    case 2
    then have "clamp d (ofe + 1) = clamp d ofe" by (simp add: clamp_def)
    then show ?thesis
      using less.hyps [of "ofe + 1" pout nbin] 2
      by (subst pe_bins.simps) (simp add: d_def [symmetric] Let_def)
  next
    case 3
    then have "\<not> ofe < - d" using d0 by simp
    with 3 show ?thesis
      by (subst pe_bins.simps) (simp add: d_def [symmetric] Let_def clamp_def)
  next
    case 4
    have c: "clamp d (ofe + 1) = clamp d ofe + 1" using 4 by (simp add: clamp_def)
    have nf: "\<not> ofe < - d" "\<not> ofe + d < 0" "\<not> ofe + d \<ge> int (length spec)" "\<not> d \<le> ofe"
      using 4 len by simp_all
    have "\<exists>p' n'. pe_bins F sr dftsz spec pe dmin dmax ofe ofn (pout, nbin) =
        pe_bins F sr dftsz spec pe dmin dmax (ofe + 1) ofn (p', n') \<and> nbin \<le> n' \<and> n' \<le> nbin + 1"
      unfolding pe_bins.simps [of F sr dftsz spec pe dmin dmax ofe ofn pout nbin] Let_def
        d_def [symmetric] using 4(1) nf
      by (simp only: if_False if_True not_True_eq_False not_False_eq_True simp_thms)
        (intro exI conjI, rule refl, simp_all)
    then obtain p' n' where r: "pe_bins F sr dftsz spec pe dmin dmax ofe ofn (pout, nbin) =
        pe_bins F sr dftsz spec pe dmin dmax (ofe + 1) ofn (p', n')" "nbin \<le> n'" "n' \<le> nbin + 1"
      by blast
    then show ?thesis
      using less.hyps [of "ofe + 1" p' n'] 4(1) c by (fastforce simp: d_def [symmetric])
  qed
qed

text \<open>Each offset is followed by one that is not below it and less than \<open>2 ^ 31\<close> above it.\<close>

definition ascending :: "'f rfpe list \<Rightarrow> bool" where
  "ascending ps \<longleftrightarrow> successively (\<lambda>p q. pe_ofc p \<le> pe_ofc q \<and> pe_ofc q - pe_ofc p < 2 ^ 31) ps"

lemma ascending_simps [simp]:
  "ascending [] \<longleftrightarrow> True" "ascending [p] \<longleftrightarrow> True"
  "ascending (p # q # ps) \<longleftrightarrow> pe_ofc p \<le> pe_ofc q \<and> pe_ofc q - pe_ofc p < 2 ^ 31 \<and> ascending (q # ps)"
  by (simp_all add: ascending_def)

lemma pe_segments_iff:
  assumes len: "int (length spec) = 2 * ((dftsz + 1) div 2)" and pos: "0 \<le> dftsz" "0 < sr"
  shows "case pe_segments F sr dftsz spec (p # ps) (pout, nbin) of
      None \<Rightarrow> \<not> ascending (p # ps)
    | Some (pout', nbin') \<Rightarrow> ascending (p # ps) \<and> nbin \<le> nbin' \<and> nbin' \<le> nbin + ((dftsz + 1) div 2 -
          clamp ((dftsz + 1) div 2) ((pe_ofc p * dftsz) sdiv sr))"
proof (induction ps arbitrary: p pout nbin)
  case Nil
  then show ?case using pos(1) by (simp add: clamp_def)
next
  case (Cons q qs)
  define e n where "e = (pe_ofc p * dftsz) sdiv sr" and "n = (pe_ofc q * dftsz) sdiv sr"
  show ?case
  proof (cases "pe_ofc q - pe_ofc p < 0 \<or> 2 ^ 31 \<le> pe_ofc q - pe_ofc p")
    case True
    then show ?thesis by (auto simp: Let_def)
  next
    case False
    then have "e \<le> n" unfolding e_def n_def using pos by (intro sdiv_mono mult_right_mono) simp_all
    then obtain p1 n1 where "pe_bins F sr dftsz spec p
        (f_div F (f_sub F (pe_r0 q) (pe_r0 p)) (f_of_int F (pe_ofc q - pe_ofc p)))
        (f_div F (f_sub F (pe_r1 q) (pe_r1 p)) (f_of_int F (pe_ofc q - pe_ofc p))) e n (pout, nbin) = Some (p1, n1)"
      and b: "nbin \<le> n1" "n1 \<le> nbin + (clamp ((dftsz + 1) div 2) n - clamp ((dftsz + 1) div 2) e)"
      using pe_bins_ok [OF len, of e n F sr p] by blast
    then have "pe_segments F sr dftsz spec (p # q # qs) (pout, nbin) =
        pe_segments F sr dftsz spec (q # qs) (p1, n1)"
      using False by (simp add: Let_def e_def n_def)
    then show ?thesis using Cons.IH [where p = q and pout = p1 and nbin = n1] b False unfolding n_def [symmetric]
      by (auto simp: e_def [symmetric] split: option.splits)
  qed
qed

text \<open>(C11)
  The envelope check aborts exactly when some point of the envelope lies below its predecessor, or so
  far above it that the difference of the offsets overflows; where in the envelope does not matter. Otherwise it
  reads the spectrum only inside its 1024 bins and counts at most 1024 bins outside the limits.
\<close>

theorem pe_check_inside:
  assumes "length spec = SDR_DFTSZ" and "0 < m_sr r"
  shows "case pe_check F r spec SDR_DFTSZ of
      None \<Rightarrow> \<not> ascending (m_pe r)
    | Some r' \<Rightarrow> ascending (m_pe r) \<and> 0 \<le> m_nbin r' \<and> m_nbin r' \<le> 1024"
proof (cases "m_pe r")
  case (Cons p ps)
  have sr: "0 < uint (m_sr r)" using assms(2) by (simp add: word_less_def)
  have len: "int (length spec) = 2 * ((int SDR_DFTSZ + 1) div 2)" using assms(1) by (simp add: SDR_DFTSZ_def)
  have c: "int SDR_DFTSZ = 1024" "- 512 \<le> clamp 512 x" for x by (simp_all add: SDR_DFTSZ_def clamp_def)
  show ?thesis
    using pe_segments_iff [OF len _ sr, where F = F and p = p and ps = ps and pout = "f_of_int F 0" and nbin = 0] c(2) [of "(pe_ofc p * 1024) sdiv uint (m_sr r)"]
    by (auto simp: pe_check_def Cons c(1) split: option.splits)
qed (simp add: pe_check_def)

theorem pe_check_inside_witness:
  "pe_check int_ops ((rfm_zero int_ops)\<lparr>m_sr := SDR_SRATE, m_pe :=
        map (\<lambda>x. \<lparr>pe_ofc = x, pe_r0 = 0, pe_r1 = 1\<rparr>) [-5, 5, 7, 6, 9]\<rparr>) (replicate SDR_DFTSZ 0) SDR_DFTSZ = None"
  using pe_check_inside [of "replicate SDR_DFTSZ 0" "(rfm_zero int_ops)\<lparr>m_sr := SDR_SRATE, m_pe :=
        map (\<lambda>x. \<lparr>pe_ofc = x, pe_r0 = 0, pe_r1 = 1\<rparr>) [-5, 5, 7, 6, 9]\<rparr>" int_ops]
  by (auto simp: SDR_SRATE_def split: option.splits)

end
