(* ===== verification/Sw_Run_Props.thy ===== *)
theory Sw_Run_Props
  imports Sw_Run_Inv Sw_Sdr_Props
begin

text \<open>
  Properties of a whole run of the modem test: the transmitter at the end of a run, what an
  error reply and a time-out lead to, which errors count, and the command texts.
\<close>

section \<open>The end of a run\<close>

lemma sw_main_Done:
  assumes "sw_main E open_file connect open_tty opts vs = Inl (Inr (s, g))"
  obtains a rs atl where "sw_measurements (e_fops E) open_file opts = Inr (a, rs)"
    "build_atl rs = Some atl"
    "ats_start E (swg_init atl (a_host a \<noteq> None)) = Inl (s, g)
     \<or> (\<exists>g0. ats_start E (swg_init atl (a_host a \<noteq> None)) = Inr g0 \<and> sw_loop E vs g0 = Inl (s, g))"
  using assms unfolding sw_main_def
  by (auto split: sum.splits prod.splits if_splits option.splits)

text \<open>(C9)
  When the main loop ends, for whatever options, profile, replies of the modem, answers of
  the analyzer and order of events, the transmitter is off: the last of the two commands
  that switch it, if any was sent, is the one that switches it off.
\<close>

theorem transmitter_off_at_end:
  assumes "sw_main E open_file connect open_tty opts vs = Inl (Inr (Done, g))"
  shows "\<not> pa_on (g_sent g)"
proof -
  obtain a rs atl where m: "sw_measurements (e_fops E) open_file opts = Inr (a, rs)"
    and atl: "build_atl rs = Some atl"
    and run: "ats_start E (swg_init atl (a_host a \<noteq> None)) = Inl (Done, g)
     \<or> (\<exists>g0. ats_start E (swg_init atl (a_host a \<noteq> None)) = Inr g0 \<and> sw_loop E vs g0 = Inl (Done, g))"
    using assms by (rule sw_main_Done)
  have us: "\<forall>r \<in> set rs. usable r" using measurements_usable_all [OF m] .
  have "ats_start E h \<noteq> Inl (Done, g)" for h
    by (simp add: ats_start_def split: sum.split prod.split)
  then obtain g0 where "ats_start E (swg_init atl (a_host a \<noteq> None)) = Inr g0" "sw_loop E vs g0 = Inl (Done, g)"
    using run by blast
  then show ?thesis using start_waiting [OF us atl] sw_loop_post by blast
qed

text \<open>An environment in which every reply is an error and writing succeeds.\<close>

definition demo_env :: "int swenv" where
  "demo_env = \<lparr>e_regcomp = (\<lambda>p. True), e_regexec = (\<lambda>p b. p = ''.*^ERROR''), e_write = (\<lambda>s. int (length s)),
     e_sdr = \<lparr>z_send = (\<lambda>s. 0), z_recv = (\<lambda>s. []), z_floats = (\<lambda>s. []), z_plot = (\<lambda>r. None)\<rparr>,
     e_fops = int_ops\<rparr>"

definition demo_reply :: "string \<Rightarrow> swev" where
  "demo_reply s = \<lparr>v_tty = Some (Some s), v_tmr = False\<rparr>"

definition demo_main :: "swev list \<Rightarrow> (string + swstop \<times> int swg) + int swg" where
  "demo_main vs = sw_main demo_env (\<lambda>p. Some demo_profile) (\<lambda>h. True) (\<lambda>t. True)
     [OptF ''p'', OptT ''/dev/tty''] vs"

lemma demo_errors: "case demo_main [demo_reply ''ERROR'', demo_reply ''ERROR''] of
    Inl (Inr (Done, g)) \<Rightarrow> g_sent g = [''I9'', ''!RESET''] \<and> g_nerr g = 2 | _ \<Rightarrow> False"
  by code_simp

theorem transmitter_off_at_end_witness:
  "\<exists>g :: int swg. g_sent g = [''I9'', ''!RESET''] \<and> \<not> pa_on (g_sent g)"
proof -
  obtain g where g: "demo_main [demo_reply ''ERROR'', demo_reply ''ERROR''] = Inl (Inr (Done, g))"
    "g_sent g = [''I9'', ''!RESET'']"
    using demo_errors by (auto split: sum.splits prod.splits swstop.splits)
  then show ?thesis using transmitter_off_at_end [OF g(1) [unfolded demo_main_def]] by blast
qed

section \<open>Time-outs\<close>

lemma sw_loop_append:
  "sw_loop E (vs @ ws) g = (case sw_loop E vs g of Inl e \<Rightarrow> Inl e | Inr g \<Rightarrow> sw_loop E ws g)"
  by (induction vs arbitrary: g) (auto split: sum.split)

lemma sw_loop_running:
  "awaiting q g \<Longrightarrow> sw_loop E vs g = Inr g' \<Longrightarrow> (\<exists>q. awaiting q g') \<and> list_all (\<lambda>v. \<not> v_tmr v) vs"
proof (induction vs arbitrary: g q)
  case (Cons v vs)
  then obtain g1 where g1: "sw_round E v g = Inr g1" "sw_loop E vs g1 = Inr g'"
    by (auto split: sum.splits)
  then obtain q1 where "awaiting q1 g1" "\<not> v_tmr v"
    using sw_round_post [OF Cons.prems(1), of E v] by blast
  then show ?case using Cons.IH g1(2) by simp
qed auto

lemma sw_main_running:
  assumes "sw_main E open_file connect open_tty opts vs = Inr g"
  obtains q g0 where "awaiting q g0" "sw_loop E vs g0 = Inr g"
    "\<And>ws. sw_main E open_file connect open_tty opts (vs @ ws) =
       (case sw_loop E ws g of Inl e \<Rightarrow> Inl (Inr e) | Inr g \<Rightarrow> Inr g)"
proof -
  obtain a rs where m: "sw_measurements (e_fops E) open_file opts = Inr (a, rs)"
    using assms by (auto simp: sw_main_def split: sum.splits prod.splits)
  note run = assms [unfolded sw_main_def m sum.case prod.case]
  obtain atl where atl: "build_atl rs = Some atl"
    using run by (auto split: if_splits option.splits)
  obtain g0 where g0: "ats_start E (swg_init atl (a_host a \<noteq> None)) = Inr g0" "sw_loop E vs g0 = Inr g"
    using run atl by (auto split: if_splits sum.splits)
  have us: "\<forall>r \<in> set rs. usable r" using measurements_usable_all [OF m] .
  have "sw_main E open_file connect open_tty opts (vs @ ws) =
       (case sw_loop E ws g of Inl e \<Rightarrow> Inl (Inr e) | Inr g \<Rightarrow> Inr g)" for ws
    using run atl g0 unfolding sw_main_def m sum.case prod.case
    by (auto simp: sw_loop_append split: if_splits sum.splits)
  then show ?thesis using that start_waiting [OF us atl g0(1)] g0(2) by blast
qed

text \<open>While the program waits, the timer of the command is set, and when it expires the program
  ends: without a reply it ends with the error status and sends nothing more, so a
  transmitter that is on stays on; and in no round does it survive the expiry, also when
  the reply arrives in the same round.
\<close>

theorem timeout_ends_run:
  assumes "sw_main E open_file connect open_tty opts vs = Inr g"
  shows "list_all (\<lambda>v. \<not> v_tmr v) vs \<and> (\<forall>chunk. \<exists>s g'. sw_round E \<lparr>v_tty = chunk, v_tmr = True\<rparr> g = Inl (s, g'))
    \<and> sw_main E open_file connect open_tty opts (vs @ [\<lparr>v_tty = None, v_tmr = True\<rparr>]) =
        Inl (Inr (Stop (FatalS ''command timeout''), g))"
proof -
  obtain q g0 where g0: "awaiting q g0" "sw_loop E vs g0 = Inr g"
    and ext: "\<And>ws. sw_main E open_file connect open_tty opts (vs @ ws) =
       (case sw_loop E ws g of Inl e \<Rightarrow> Inl (Inr e) | Inr g \<Rightarrow> Inr g)"
    using sw_main_running [OF assms] by blast
  obtain q1 where q1: "awaiting q1 g" and nt: "list_all (\<lambda>v. \<not> v_tmr v) vs"
    using sw_loop_running [OF g0] by blast
  have "\<exists>s g'. sw_round E \<lparr>v_tty = chunk, v_tmr = True\<rparr> g = Inl (s, g')" for chunk
  proof (cases "sw_round E \<lparr>v_tty = chunk, v_tmr = True\<rparr> g")
    case (Inr h)
    then show ?thesis using sw_round_post [OF q1, of E "\<lparr>v_tty = chunk, v_tmr = True\<rparr>"] by simp
  qed auto
  moreover have "sw_round E \<lparr>v_tty = None, v_tmr = True\<rparr> g = Inl (Stop (FatalS ''command timeout''), g)"
    using q1 by (auto simp: sw_round_def timer_hdl_def awaiting_def)
  ultimately show ?thesis using nt ext by simp
qed

lemma demo_waiting: "case demo_main [] of Inr g \<Rightarrow> g_sent g = [''I9''] | _ \<Rightarrow> False"
  by code_simp

theorem timeout_ends_run_witness:
  "\<exists>g. demo_main [\<lparr>v_tty = None, v_tmr = True\<rparr>] = Inl (Inr (Stop (FatalS ''command timeout''), g))"
proof -
  obtain g where g: "demo_main [] = Inr g" using demo_waiting by (auto split: sum.splits)
  then show ?thesis using timeout_ends_run [OF g [unfolded demo_main_def]] by (auto simp: demo_main_def)
qed

section \<open>Errors\<close>

text \<open>An error in the exchange with the analyzer is printed, but counts neither as an error nor
  as a failed test: the step goes on as after a successful measurement, so a run in which
  no measurement could be taken reports that all tests have passed.
\<close>

theorem analyzer_error_uncounted:
  assumes "g_sock g" and "g_rfmc g = Some r"
    and "sdr_all (e_sdr E) (sdr_requests (if m_sr r = 0 then r\<lparr>m_sr := SDR_SRATE\<rparr> else r)) (0, []) = Inl err"
  shows "\<exists>g'. run_comp E C_rf_pwr_measure g = Inr (g', Rei 0) \<and> g_nerr g' = g_nerr g
    \<and> g_failed g' = g_failed g \<and> rei_at (ats_lte ! 10) 0 = rei_at (ats_lte ! 10) 1
    \<and> rei_at (ats_wcdma ! 7) 0 = rei_at (ats_wcdma ! 7) 1"
  using assms by (simp add: rf_pwr_measure_def sdr_measure_def Let_def ats_tables rei_at_def)

theorem analyzer_error_uncounted_witness:
  "\<exists>g' :: int swg. run_comp demo_env C_rf_pwr_measure
     ((swg_init [] True)\<lparr>g_rfmc := Some ((rfm_zero int_ops)\<lparr>m_sr := 1\<rparr>)\<rparr>) = Inr (g', Rei 0) \<and> g_failed g' = 0"
proof -
  let ?g = "(swg_init [] True)\<lparr>g_rfmc := Some ((rfm_zero int_ops)\<lparr>m_sr := 1\<rparr>)\<rparr>"
  have "sdr_all (e_sdr demo_env) (sdr_requests ((rfm_zero int_ops)\<lparr>m_sr := 1\<rparr>)) (0, [])
      = Inl ''send to sdr failed''"
    by (simp add: sdr_requests_def demo_env_def sdr_req_def line_def)
  then show ?thesis
    using analyzer_error_uncounted [of ?g "(rfm_zero int_ops)\<lparr>m_sr := 1\<rparr>" demo_env]
    by (auto simp: swg_init_def)
qed

text \<open>The entry that switches the transmitter off, and the entries before it.\<close>

fun off_at :: "seq \<Rightarrow> nat" where
  "off_at Lte = 11"
| "off_at Wcdma = 8"
| "off_at q = 0"

definition error_edge :: "seq \<Rightarrow> nat \<Rightarrow> bool" where
  "error_edge q k \<longleftrightarrow> (case s_atc (tab_of q ! k) of None \<Rightarrow> False
     | Some c \<Rightarrow> is_pseudo c \<or> (\<exists>rs. c_re c = rea_error # rs) \<and> rei_at (tab_of q ! k) 0 = int (off_at q) - int k)"

lemma error_edges: "list_all (error_edge Lte) [0..<11]" "list_all (error_edge Wcdma) [0..<8]"
  by (simp_all add: upt_rec error_edge_def ats_tables rei_at_def is_pseudo_def atc_defs)

lemma error_edge:
  assumes "q = Lte \<or> q = Wcdma" and "k < off_at q" and "real_at q k"
  obtains c rs where "s_atc (tab_of q ! k) = Some c" "c_re c = rea_error # rs"
    "rei_at (tab_of q ! k) 0 = int (off_at q) - int k"
proof -
  have "error_edge q k" using assms(1,2) error_edges by (auto simp: list_all_iff)
  moreover obtain c where "s_atc (tab_of q ! k) = Some c" "\<not> is_pseudo c"
    using assms(3) by (rule real_atE)
  ultimately show ?thesis using that by (auto simp: error_edge_def)
qed

lemma off_entry: "q = Lte \<or> q = Wcdma \<Longrightarrow> tab_of q ! off_at q = mk_ats at_dastxoff [1, 1] \<and> off_at q < length (tab_of q)"
  by (auto simp: ats_tables)

text \<open>In a measurement, an error reply to any command up to the one that switches the
  transmitter on, and to those while it is on, is counted, and the next command sent is
  the one that switches it off; nothing is sent in between.
\<close>

theorem error_switches_off:
  assumes g: "awaiting q g" "q = Lte \<or> q = Wcdma" "g_pc g < off_at q"
    and io: "\<And>p. e_regcomp E p" "\<And>s. e_write E s = int (length s)"
    and rd: "tty_read (Some s) g = Inr g1" "g_nbuf g1 \<noteq> 0" "e_regexec E ''.*^ERROR'' (cstr (g_buf g1))"
  shows "\<exists>g'. sw_round E \<lparr>v_tty = Some (Some s), v_tmr = False\<rparr> g = Inr g' \<and> g_pc g' = off_at q
    \<and> g_sent g' = g_sent g @ [''!DASTXOFF''] \<and> g_nerr g' = Suc (g_nerr g)"
proof -
  have q: "cur_tab g = tab_of q" and real: "real_at q (g_pc g)"
    using g(1) by (simp_all add: awaiting_def waiting_def in_seq_def)
  obtain c rs where c: "s_atc (tab_of q ! g_pc g) = Some c" "c_re c = rea_error # rs"
    "rei_at (tab_of q ! g_pc g) 0 = int (off_at q) - int (g_pc g)"
    using error_edge [OF g(2,3) real] by blast
  have g1: "g_atl g1 = g_atl g" "g_pc g1 = g_pc g" "g_sent g1 = g_sent g" "g_nerr g1 = g_nerr g"
    using rd(1) by (auto simp: tty_read_def Let_def split: if_splits)
  define g2 where "g2 = g1\<lparr>g_rrt := None, g_nerr := Suc (g_nerr g1)\<rparr>"
  have q2: "cur_tab g2 = tab_of q" "g_pc g2 = g_pc g" using q g1 by (simp_all add: g2_def cur_tab_def)
  have "tty_proc E (Some s) g = Inr (g2, int (off_at q) - int (g_pc g))"
    using rd q c q2 by (simp add: tty_proc_def cur_ats_def rea_error_def handle_reply_def g2_def)
  moreover have "ats_next AGAIN E (int (off_at q) - int (g_pc g)) g2 =
      Some (Inr (g2\<lparr>g_pc := off_at q, g_nbuf := 0, g_rrt := Some at_dastxoff,
        g_sent := g_sent g @ [''!DASTXOFF'']\<rparr>, 0))"
  proof -
    have again: "AGAIN = Suc 99" by (simp add: AGAIN_def)
    have "tty_issue E (Some at_dastxoff) (g2\<lparr>g_pc := off_at q\<rparr>) =
      Inr (g2\<lparr>g_pc := off_at q, g_nbuf := 0, g_rrt := Some at_dastxoff,
        g_sent := g_sent g @ [''!DASTXOFF'']\<rparr>, None)"
      using io g1 by (simp add: tty_issue_def compose_def at_dastxoff_def tty_send_def Let_def list_ex_iff g2_def)
    then show ?thesis
      unfolding again ats_next.simps(2) Let_def using off_entry [OF g(2)] q2 by simp
  qed
  ultimately show ?thesis
    using g(3) by (simp add: sw_round_def g2_def g1)
qed

definition demo_on :: "int swg" where
  "demo_on = (swg_init [\<lparr>l_rfm = None, l_ats = Some ats_lte\<rparr>, \<lparr>l_rfm = None, l_ats = None\<rparr>] False)
     \<lparr>g_pc := 9, g_rrt := Some at_dastxon, g_sent := [''!DASTXON'']\<rparr>"

theorem error_switches_off_witness:
  "\<exists>g'. sw_round demo_env \<lparr>v_tty = Some (Some ''ERROR''), v_tmr = False\<rparr> demo_on = Inr g' \<and> g_pc g' = 11
     \<and> g_sent g' = [''!DASTXON'', ''!DASTXOFF'']"
proof -
  have r: "rest_ok [\<lparr>l_rfm = (None :: int rfm option), l_ats = None\<rparr>]"
    unfolding rest_ok_def by (rule exI [of _ "[]"]) simp
  have on: "demo_on = \<lparr>g_nerr = 0, g_failed = 0, g_stop = False, g_model = MODEL_NONE,
     g_atl = [\<lparr>l_rfm = None, l_ats = Some ats_lte\<rparr>, \<lparr>l_rfm = None, l_ats = None\<rparr>],
     g_pc = 9, g_rfmc = None, g_buf = replicate SZ_RBUF (CHR 0x00), g_nbuf = 0, g_argv = [],
     g_rrt = Some at_dastxon, g_sock = False, g_sent = [''!DASTXON'']\<rparr>"
    by (simp add: demo_on_def swg_init_def)
  have pa: "pa_on [''!DASTXON''] = True" by (simp add: pa_on_def pa_after_def)
  have a: "awaiting Lte demo_on"
    unfolding on by (simp add: awaiting_def waiting_def in_seq_def cur_tab_def r real_at_def pa)
  obtain g1 where g1: "tty_read (Some ''ERROR'') demo_on = Inr g1" "g_nbuf g1 \<noteq> 0"
    unfolding on by (simp add: tty_read_def SZ_RBUF_def)
  show ?thesis
    using error_switches_off [OF a _ _ _ _ g1(1,2), of demo_env] unfolding on by (auto simp: demo_env_def)
qed

text \<open>A bandwidth given as a number of Hertz is accepted by the profile parser for any band, but
  leaves the modem's bandwidth unset: in the LTE sequence the step after the band aborts
  the program by an assertion.
\<close>

theorem numeric_bandwidth_aborts:
  "(m_band r \<noteq> None \<and> m_bwidth r = None \<longrightarrow>
      prof_bwidth ''5000000'' r = Inr (r\<lparr>m_bwidth := None, m_bandwidth := 5000000\<rparr>))
   \<and> (in_seq Lte g \<and> g_pc g = 1 \<and> g_rfmc g = Some r' \<and> m_bwidth r' = None \<longrightarrow>
      ats_next (Suc n) E 1 g = Some (Inl AbortS))"
proof (intro conjI impI; elim conjE)
  assume "m_band r \<noteq> None" and "m_bwidth r = None"
  moreover have "strtol 0 ''5000000'' = (5000000, 7)"
    by (simp add: strtol_def strto_eval)
  moreover have "smap_lookup bwidth_map ''5000000'' = None"
    by (simp add: smap_lookup_def bwidth_map_def)
  ultimately show "prof_bwidth ''5000000'' r = Inr (r\<lparr>m_bwidth := None, m_bandwidth := 5000000\<rparr>)"
    by (simp add: prof_bwidth_def int32_def)
next
  assume "in_seq Lte g" "g_pc g = 1" "g_rfmc g = Some r'" "m_bwidth r' = None"
  then show "ats_next (Suc n) E 1 g = Some (Inl AbortS)"
    by (simp add: in_seq_def Let_def ats_lte_def tty_issue_def compose_def at_dalstxbw_def with_rfm_def
        with_smap_def)
qed

theorem numeric_bandwidth_aborts_witness:
  "prof_bwidth ''5000000'' ((rfm_zero int_ops)\<lparr>m_band := Some (hd band_map)\<rparr>) =
     Inr ((rfm_zero int_ops)\<lparr>m_band := Some (hd band_map), m_bandwidth := 5000000\<rparr>)"
  using numeric_bandwidth_aborts [THEN conjunct1, of "(rfm_zero int_ops)\<lparr>m_band := Some (hd band_map)\<rparr>"]
  by (simp add: rfm_zero_def)

section \<open>Command texts\<close>

lemma length_show_nat: "n < 10 ^ k \<Longrightarrow> 0 < k \<Longrightarrow> length (show_nat n) \<le> k"
proof (induction k arbitrary: n)
  case (Suc k)
  show ?case
  proof (cases "n < 10")
    case True
    then show ?thesis by (subst show_nat.simps) simp
  next
    case False
    then have "0 < k" using Suc.prems by (cases k) auto
    moreover have "n div 10 < 10 ^ k" using Suc.prems by (simp add: less_mult_imp_div_less mult.commute)
    ultimately show ?thesis using Suc.IH False by (subst show_nat.simps) simp
  qed
qed simp

lemma length_show_int: "in_int i \<Longrightarrow> length (show_int i) \<le> 11"
proof -
  assume "in_int i"
  then have "nat i < 10 ^ 10" "nat (- i) < 10 ^ 10" by (auto simp: in_int_def)
  then show ?thesis
    using length_show_nat [of "nat i" 10] length_show_nat [of "nat (- i)" 10]
    by (simp add: show_int_def)
qed

lemma table_ints: "list_all (\<lambda>m. in_int (sm_ir0 m)) (band_map @ bwidth_map @ txmod_map)"
  by code_simp

text \<open>The text of every composed command fits, with its terminating NUL, into the 32 bytes
  \<open>sprintf\<close> writes to, whatever the channel and the power are, as long as band,
  bandwidth and modulation come from the tables (which the profile parser sees to).
\<close>

theorem commands_fit:
  assumes "run_comp E h g = Inr (g', Cmd s)"
    and "\<And>r. g_rfmc g = Some r \<Longrightarrow> in_int (m_channel r) \<and> in_int (m_txpwr r) \<and>
      set_option (m_band r) \<subseteq> set band_map \<and> set_option (m_bwidth r) \<subseteq> set bwidth_map
      \<and> set_option (m_txmod r) \<subseteq> set txmod_map"
  shows "length s < 32"
proof -
  have t: "in_int (sm_ir0 m)" if "m \<in> set band_map \<union> set bwidth_map \<union> set txmod_map" for m
    using that table_ints by (auto simp: list_all_iff)
  have i: "in_int 3" "in_int 1" "in_int 12" "in_int 0" "in_int 19" by (simp_all add: in_int_def)
  have small: "length (show_int 1) = 1" "length (show_int 12) = 2" "length (show_int 0) = 1" "length (show_int 19) = 2"
    by (simp_all add: show_int_def show_nat.simps)
  show ?thesis
    using assms(1)
  proof (cases h)
    case C_rf_pwr_measure
    then show ?thesis using assms(1)
      by (auto simp: rf_pwr_measure_def split: if_splits option.splits)
  qed (use assms(2) t length_show_int i small in
      \<open>fastforce simp: with_rfm_def with_smap_def split: option.splits dest!: length_show_int\<close>)+
qed

theorem commands_fit_witness:
  "\<exists>g' s. run_comp demo_env C_dalstxpwr
     ((swg_init [] False)\<lparr>g_rfmc := Some ((rfm_zero int_ops)\<lparr>m_txpwr := -2147483648\<rparr>)\<rparr>) = Inr (g', Cmd s)
     \<and> length s < 32"
proof -
  let ?g = "(swg_init [] False)\<lparr>g_rfmc := Some ((rfm_zero int_ops)\<lparr>m_txpwr := -2147483648\<rparr>)\<rparr>"
  have "run_comp demo_env C_dalstxpwr ?g = Inr (?g, Cmd (''!DALSTXPWR=1,'' @ show_int (-2147483648)))"
    by (simp add: with_rfm_def)
  from this commands_fit [OF this] show ?thesis by (simp add: rfm_zero_def in_int_def)
qed

end
