(* ===== verification/Dmi_Tool.thy ===== *)
theory Dmi_Tool
  imports VC_Prelude
begin

text \<open>
  The DMI tool of the Edge 520/540 (\<open>package/dmi-tool/src/dmi-tool.c\<close>): the serial numbers,
  UUID, product name and board revision in the OEM section of the boot flash.

  The flash chip, the copy of it in \<open>/tmp\<close> and the OEM file are byte lists. The commands
  \<open>flashrom\<close> and \<open>cp\<close> are functions on this world that return the status of \<open>system\<close>. A string
  argument is the memory from its first character on: the code copies fields of fixed
  length from it without looking for the terminating NUL. A buffer on the stack that was
  never written holds unknown bytes.
\<close>

definition VC_FLASH_SIZE :: nat where "VC_FLASH_SIZE = 8388608"
definition VC_OEM_SECTION_SIZE :: nat where "VC_OEM_SECTION_SIZE = 256"
definition VC_SN_LENGTH :: nat where "VC_SN_LENGTH = 13"
definition VC_BSN_LENGTH :: nat where "VC_BSN_LENGTH = 14"
definition VC_UUID_LENGTH :: nat where "VC_UUID_LENGTH = 16"
definition VC_PNAME_LENGTH :: nat where "VC_PNAME_LENGTH = 10"
definition VC_BVERSION_LENGTH :: nat where "VC_BVERSION_LENGTH = 4"

definition VC_DMI_TOTAL_SIZE :: nat where
  "VC_DMI_TOTAL_SIZE = VC_SN_LENGTH + VC_BSN_LENGTH + VC_UUID_LENGTH + VC_PNAME_LENGTH + VC_BVERSION_LENGTH"

lemmas vc_sizes = VC_FLASH_SIZE_def VC_OEM_SECTION_SIZE_def VC_SN_LENGTH_def VC_BSN_LENGTH_def
  VC_UUID_LENGTH_def VC_PNAME_LENGTH_def VC_BVERSION_LENGTH_def VC_DMI_TOTAL_SIZE_def

text \<open>The offset of the OEM section in the image.\<close>

definition OEM_OFFSET :: nat where "OEM_OFFSET = 0xF00"

section \<open>State\<close>

record flash_world =
  w_chip :: buf
  w_flash :: "buf option"
  w_oem :: "buf option"

text \<open>The world and the global buffers of the program.\<close>

record dmi_state =
  d_world :: flash_world
  oem_string :: buf
  oem_read :: buf
  uuid_bin :: buf

definition dmi_init :: "flash_world \<Rightarrow> dmi_state" where
  "dmi_init w = \<lparr>d_world = w, oem_string = replicate VC_OEM_SECTION_SIZE 0,
     oem_read = replicate VC_OEM_SECTION_SIZE 0, uuid_bin = replicate VC_UUID_LENGTH 0\<rparr>"

record flash_cmds =
  read_flash :: "flash_world \<Rightarrow> int \<times> flash_world"
  write_flash :: "flash_world \<Rightarrow> int \<times> flash_world"
  copy_image :: "string \<Rightarrow> flash_world \<Rightarrow> int \<times> flash_world"

section \<open>Reading and decoding\<close>

text \<open>The open file that is checked for its size; \<open>None\<close> when it is missing or has another one.\<close>

definition sized_flash :: "dmi_state \<Rightarrow> buf option" where
  "sized_flash d = (case w_flash (d_world d) of None \<Rightarrow> None
     | Some f \<Rightarrow> if length f \<noteq> VC_FLASH_SIZE then None else Some f)"

text \<open>On an error \<open>dmi\<close> is left as it is; the caller does not look at the result.\<close>

definition read_dmi :: "buf \<Rightarrow> dmi_state \<Rightarrow> buf \<times> dmi_state" where
  "read_dmi dmi d = (case sized_flash d of None \<Rightarrow> (dmi, d)
     | Some f \<Rightarrow> let oem = slice OEM_OFFSET VC_OEM_SECTION_SIZE f
         in (take (VC_DMI_TOTAL_SIZE + 1) oem, d\<lparr>oem_read := oem\<rparr>))"

record dmi_fields =
  f_sn :: buf
  f_uuid :: buf
  f_bsn :: buf
  f_pname :: buf
  f_bversion :: buf

text \<open>One byte more is taken for the board revision than it has.\<close>

definition oem_dmi_decode :: "buf \<Rightarrow> dmi_fields" where
  "oem_dmi_decode dmi = \<lparr>f_sn = slice 0 VC_SN_LENGTH dmi,
     f_uuid = slice VC_SN_LENGTH VC_UUID_LENGTH dmi,
     f_bsn = slice (VC_SN_LENGTH + VC_UUID_LENGTH) VC_BSN_LENGTH dmi,
     f_pname = slice (VC_SN_LENGTH + VC_UUID_LENGTH + VC_BSN_LENGTH) VC_PNAME_LENGTH dmi,
     f_bversion = slice (VC_SN_LENGTH + VC_UUID_LENGTH + VC_BSN_LENGTH + VC_PNAME_LENGTH)
       (VC_BVERSION_LENGTH + 1) dmi\<rparr>"

section \<open>Updating\<close>

text \<open>
  A loop that copies \<open>n\<close> bytes from an argument, when there is one; \<open>None\<close> when the memory
  ends before.
\<close>

definition put_field :: "nat \<Rightarrow> nat \<Rightarrow> u8 list option \<Rightarrow> buf \<Rightarrow> buf option" where
  "put_field off n arg dmi = (case arg of None \<Rightarrow> Some dmi
     | Some p \<Rightarrow> if length p < n then None else Some (bcopy (take n p) off dmi))"

definition update_current_dmi :: "buf \<Rightarrow> u8 list option \<Rightarrow> u8 list option \<Rightarrow> u8 list option \<Rightarrow>
    u8 list option \<Rightarrow> u8 list option \<Rightarrow> buf option" where
  "update_current_dmi dmi sn bsn uuid pname bversion =
     (if sn = None \<and> bsn = None \<and> uuid = None \<and> pname = None \<and> bversion = None then Some dmi
      else case put_field 0 VC_SN_LENGTH sn dmi of None \<Rightarrow> None
      | Some dmi \<Rightarrow> case put_field VC_SN_LENGTH VC_UUID_LENGTH uuid dmi of None \<Rightarrow> None
      | Some dmi \<Rightarrow> case put_field (VC_SN_LENGTH + VC_UUID_LENGTH) VC_BSN_LENGTH bsn dmi of None \<Rightarrow> None
      | Some dmi \<Rightarrow> case put_field (VC_SN_LENGTH + VC_UUID_LENGTH + VC_BSN_LENGTH)
            VC_PNAME_LENGTH pname dmi of None \<Rightarrow> None
      | Some dmi \<Rightarrow> put_field (VC_SN_LENGTH + VC_UUID_LENGTH + VC_BSN_LENGTH + VC_PNAME_LENGTH)
            VC_BVERSION_LENGTH bversion dmi)"

text \<open>\<open>can_open\<close> tells whether \<open>/tmp/adi_oem.bin\<close> can be opened for writing, which empties it.\<close>

definition create_oem_section_newDMI :: "bool \<Rightarrow> buf \<Rightarrow> dmi_state \<Rightarrow> dmi_state" where
  "create_oem_section_newDMI can_open dmi d = (if \<not> can_open then d
     else let s = bcopy (take (VC_DMI_TOTAL_SIZE + 1) dmi) 0 (oem_string d)
       in d\<lparr>oem_string := s, d_world := (d_world d)\<lparr>w_oem := Some s\<rparr>\<rparr>)"

text \<open>A short OEM file leaves the rest of \<open>oem_read\<close> as it is.\<close>

definition update_dmi :: "dmi_state \<Rightarrow> dmi_state" where
  "update_dmi d = (case sized_flash d of None \<Rightarrow> d
     | Some f \<Rightarrow> (case w_oem (d_world d) of None \<Rightarrow> d
       | Some oem \<Rightarrow>
           let r = bcopy (take VC_OEM_SECTION_SIZE oem) 0 (oem_read d)
           in d\<lparr>oem_read := r, d_world := (d_world d)\<lparr>w_flash := Some (bcopy r OEM_OFFSET f)\<rparr>\<rparr>))"

section \<open>Main\<close>

datatype dmi_op = READ_DMI | PROGRAM_DMI | UPDATE_FLASH | UPDATE_FLASH_DMI | UNKNOWN_OP

datatype dmi_opt = OptR | OptW | OptS "u8 list" | OptB "u8 list" | OptI string | OptP "u8 list"
  | OptV "u8 list" | OptU string | OptOther

record dmi_args =
  my_op :: dmi_op
  a_sn :: "u8 list option"
  a_bsn :: "u8 list option"
  a_uuid :: bool
  a_pname :: "u8 list option"
  a_bversion :: "u8 list option"
  a_image :: string

definition dmi_args_init :: dmi_args where
  "dmi_args_init = \<lparr>my_op = UNKNOWN_OP, a_sn = None, a_bsn = None, a_uuid = False, a_pname = None,
     a_bversion = None, a_image = []\<rparr>"

text \<open>
  \<open>parse\<close> is \<open>uuid_parse\<close>: its result is not checked, and \<open>uuid_bin\<close> keeps its bytes when the
  text is no UUID. \<open>None\<close> is the usage text and the end of the program.
\<close>

fun dmi_getopt :: "(string \<Rightarrow> buf option) \<Rightarrow> dmi_opt list \<Rightarrow> dmi_args \<Rightarrow> buf \<Rightarrow> (dmi_args \<times> buf) option" where
  "dmi_getopt parse [] a u = Some (a, u)"
| "dmi_getopt parse (OptR # os) a u = dmi_getopt parse os (a\<lparr>my_op := READ_DMI\<rparr>) u"
| "dmi_getopt parse (OptW # os) a u = dmi_getopt parse os (a\<lparr>my_op := PROGRAM_DMI\<rparr>) u"
| "dmi_getopt parse (OptS s # os) a u = dmi_getopt parse os (a\<lparr>a_sn := Some s\<rparr>) u"
| "dmi_getopt parse (OptB s # os) a u = dmi_getopt parse os (a\<lparr>a_bsn := Some s\<rparr>) u"
| "dmi_getopt parse (OptI s # os) a u = dmi_getopt parse os (a\<lparr>a_uuid := True\<rparr>)
     (case parse s of None \<Rightarrow> u | Some b \<Rightarrow> b)"
| "dmi_getopt parse (OptP s # os) a u = dmi_getopt parse os (a\<lparr>a_pname := Some s\<rparr>) u"
| "dmi_getopt parse (OptV s # os) a u = dmi_getopt parse os (a\<lparr>a_bversion := Some s\<rparr>) u"
| "dmi_getopt parse (OptU s # os) a u = dmi_getopt parse os (a\<lparr>my_op := UPDATE_FLASH, a_image := s\<rparr>) u"
| "dmi_getopt parse (OptOther # os) a u = None"

definition refine_op :: "dmi_args \<Rightarrow> dmi_args" where
  "refine_op a = (if my_op a = UPDATE_FLASH \<and> (a_sn a \<noteq> None \<or> a_bsn a \<noteq> None \<or> a_uuid a
       \<or> a_pname a \<noteq> None \<or> a_bversion a \<noteq> None)
     then a\<lparr>my_op := UPDATE_FLASH_DMI\<rparr> else a)"

text \<open>
  \<open>system\<close> followed by \<open>check_system_retCode\<close>: a status that is not 0 ends the program with -1.
  A run returns the exit status and the state it leaves, \<open>None\<close> for an access outside the
  memory of an argument or of \<open>cmd\<close>.
\<close>

definition run_cmd :: "(flash_world \<Rightarrow> int \<times> flash_world) \<Rightarrow> dmi_state \<Rightarrow>
    (dmi_state \<Rightarrow> (int \<times> dmi_state) option) \<Rightarrow> (int \<times> dmi_state) option" where
  "run_cmd c d k = (let (st, w) = c (d_world d); d = d\<lparr>d_world := w\<rparr>
     in if st \<noteq> 0 then Some (-1, d) else k d)"

text \<open>\<open>sprintf(cmd, "cp %s %s", ...)\<close> into 512 bytes.\<close>

definition copy_cmd :: "flash_cmds \<Rightarrow> string \<Rightarrow> dmi_state \<Rightarrow>
    (dmi_state \<Rightarrow> (int \<times> dmi_state) option) \<Rightarrow> (int \<times> dmi_state) option" where
  "copy_cmd C img d k = (if 512 \<le> length (''cp '' @ img @ '' /tmp/flash_backup.bin'') then None
     else run_cmd (copy_image C img) d k)"

definition op_program :: "flash_cmds \<Rightarrow> bool \<Rightarrow> buf \<Rightarrow> dmi_args \<Rightarrow> dmi_state \<Rightarrow> (int \<times> dmi_state) option" where
  "op_program C can_open junk a d = run_cmd (read_flash C) d (\<lambda>d.
     let (dmi, d) = read_dmi junk d;
         uuid = (if a_uuid a then Some (uuid_bin d) else None)
     in case update_current_dmi dmi (a_sn a) (a_bsn a) uuid (a_pname a) (a_bversion a) of None \<Rightarrow> None
        | Some dmi \<Rightarrow>
            run_cmd (write_flash C) (update_dmi (create_oem_section_newDMI can_open dmi d)) (\<lambda>d. Some (0, d)))"

definition op_update_flash :: "flash_cmds \<Rightarrow> bool \<Rightarrow> buf \<Rightarrow> dmi_args \<Rightarrow> dmi_state \<Rightarrow> (int \<times> dmi_state) option" where
  "op_update_flash C can_open junk a d = run_cmd (read_flash C) d (\<lambda>d.
     let (dmi, d) = read_dmi junk d;
         d = create_oem_section_newDMI can_open dmi d
     in copy_cmd C (a_image a) d (\<lambda>d. run_cmd (write_flash C) (update_dmi d) (\<lambda>d. Some (0, d))))"

text \<open>Here \<open>uuid_bin\<close> is passed whether \<open>-i\<close> was given or not.\<close>

definition op_update_flash_dmi :: "flash_cmds \<Rightarrow> bool \<Rightarrow> buf \<Rightarrow> dmi_args \<Rightarrow> dmi_state \<Rightarrow> (int \<times> dmi_state) option" where
  "op_update_flash_dmi C can_open junk a d = run_cmd (read_flash C) d (\<lambda>d.
     let (dmi, d) = read_dmi junk d
     in copy_cmd C (a_image a) d (\<lambda>d.
       case update_current_dmi dmi (a_sn a) (a_bsn a) (Some (uuid_bin d)) (a_pname a) (a_bversion a) of None \<Rightarrow> None
       | Some dmi \<Rightarrow>
           run_cmd (write_flash C) (update_dmi (create_oem_section_newDMI can_open dmi d)) (\<lambda>d. Some (0, d))))"

definition dmi_main :: "flash_cmds \<Rightarrow> (string \<Rightarrow> buf option) \<Rightarrow> bool \<Rightarrow> buf \<Rightarrow> dmi_opt list \<Rightarrow> flash_world \<Rightarrow>
    (int \<times> dmi_state) option" where
  "dmi_main C parse can_open junk opts w =
     (let d = dmi_init w
      in case dmi_getopt parse opts dmi_args_init (uuid_bin d) of
           None \<Rightarrow> Some (-1, d)
         | Some (a, u) \<Rightarrow>
             let a = refine_op a; d = d\<lparr>uuid_bin := u\<rparr>
             in case my_op a of
                  READ_DMI \<Rightarrow> run_cmd (read_flash C) d (\<lambda>d. Some (0, snd (read_dmi junk d)))
                | PROGRAM_DMI \<Rightarrow> op_program C can_open junk a d
                | UPDATE_FLASH \<Rightarrow> op_update_flash C can_open junk a d
                | UPDATE_FLASH_DMI \<Rightarrow> op_update_flash_dmi C can_open junk a d
                | UNKNOWN_OP \<Rightarrow> Some (-1, d))"

section \<open>The routine that is not called\<close>

text \<open>\<open>strcpy\<close> of the text and its NUL to a position of \<open>oem_string\<close>.\<close>

definition strcpy_at :: "nat \<Rightarrow> u8 list option \<Rightarrow> buf \<Rightarrow> buf option" where
  "strcpy_at off arg b = (case arg of None \<Rightarrow> Some b
     | Some p \<Rightarrow> let s = takeWhile (\<lambda>c. c \<noteq> 0) p
         in if s = p \<or> length b < off + length s + 1 then None else Some (bcopy (s @ [0]) off b))"

definition create_oem_section :: "bool \<Rightarrow> u8 list option \<Rightarrow> u8 list option \<Rightarrow> u8 list option \<Rightarrow> dmi_state \<Rightarrow>
    (int \<times> dmi_state) option" where
  "create_oem_section can_open sn bsn uuid d =
     (if \<not> can_open then Some (-1, d)
      else if sn = None \<and> bsn = None \<and> uuid = None
      then Some (-1, d\<lparr>d_world := (d_world d)\<lparr>w_oem := Some []\<rparr>\<rparr>)
      else case strcpy_at 0 sn (oem_string d) of None \<Rightarrow> None
      | Some s \<Rightarrow> case strcpy_at VC_SN_LENGTH uuid s of None \<Rightarrow> None
      | Some s \<Rightarrow> case strcpy_at (VC_SN_LENGTH + VC_UUID_LENGTH) bsn s of None \<Rightarrow> None
      | Some s \<Rightarrow> Some (0, d\<lparr>oem_string := s, d_world := (d_world d)\<lparr>w_oem := Some s\<rparr>\<rparr>))"

end
