(* ===== verification/Dmi_Props.thy ===== *)
theory Dmi_Props
  imports Dmi_Tool
begin

text \<open>
  What the DMI tool does to the flash chip: the fields that are written and kept, the rest
  of the image, and two cases in which more is lost than the usage text says.
\<close>

section \<open>The external commands\<close>

text \<open>
  What \<open>flashrom\<close> and \<open>cp\<close> do when they report success: reading puts the contents of the chip
  into the file, copying the image, and writing puts the file into the chip. \<open>images\<close> are
  the files that can be copied.
\<close>

definition tools_ok :: "flash_cmds \<Rightarrow> (string \<Rightarrow> buf option) \<Rightarrow> bool" where
  "tools_ok C images \<longleftrightarrow>
     (\<forall>w st w'. read_flash C w = (st, w') \<and> st = 0 \<longrightarrow> w' = w\<lparr>w_flash := Some (w_chip w)\<rparr>)
   \<and> (\<forall>w st w'. write_flash C w = (st, w') \<and> st = 0 \<longrightarrow>
        (\<exists>f. w_flash w = Some f \<and> w' = w\<lparr>w_chip := f\<rparr>))
   \<and> (\<forall>img w st w'. copy_image C img w = (st, w') \<and> st = 0 \<longrightarrow>
        (\<exists>f. images img = Some f \<and> w' = w\<lparr>w_flash := Some f\<rparr>))"

lemma run_cmd_0:
  assumes "run_cmd c d k = Some (0, d')"
  obtains w where "c (d_world d) = (0, w)" "k (d\<lparr>d_world := w\<rparr>) = Some (0, d')"
  using assms by (auto simp: run_cmd_def Let_def split: prod.splits if_splits)

lemma read_cmd_0:
  assumes "tools_ok C images" and "run_cmd (read_flash C) d k = Some (0, d')"
  shows "k (d\<lparr>d_world := (d_world d)\<lparr>w_flash := Some (w_chip (d_world d))\<rparr>\<rparr>) = Some (0, d')"
  using assms(2) by (rule run_cmd_0) (use assms(1) in \<open>auto simp: tools_ok_def\<close>)

lemma write_cmd_0:
  assumes "tools_ok C images" and "run_cmd (write_flash C) d (\<lambda>d. Some (0, d)) = Some (0, d')"
  obtains f where "w_flash (d_world d) = Some f" "w_chip (d_world d') = f"
  using assms(2)
proof (rule run_cmd_0)
  fix w
  assume w: "write_flash C (d_world d) = (0, w)" and "Some (0, d\<lparr>d_world := w\<rparr>) = Some (0, d')"
  then have "d' = d\<lparr>d_world := w\<rparr>" by simp
  then show thesis using that w assms(1) by (fastforce simp: tools_ok_def)
qed

lemma copy_cmd_0:
  assumes "tools_ok C images" and "copy_cmd C img d k = Some (0, d')"
  obtains f where "images img = Some f" "k (d\<lparr>d_world := (d_world d)\<lparr>w_flash := Some f\<rparr>\<rparr>) = Some (0, d')"
proof -
  have "run_cmd (copy_image C img) d k = Some (0, d')"
    using assms(2) by (simp add: copy_cmd_def split: if_splits)
  then show ?thesis by (rule run_cmd_0) (use assms(1) that in \<open>fastforce simp: tools_ok_def\<close>)
qed

section \<open>The OEM section\<close>

text \<open>The section as it is written: the 58 bytes of the DMI, the rest is zero.\<close>

definition oem_section :: "buf \<Rightarrow> buf" where
  "oem_section dmi = take 58 dmi @ replicate 198 0"

lemma length_oem_section: "58 \<le> length dmi \<Longrightarrow> length (oem_section dmi) = 256"
  by (simp add: oem_section_def)

lemma update_written:
  assumes "oem_string d = replicate VC_OEM_SECTION_SIZE 0" and "length (oem_read d) = 256"
    and "length dmi = 58" and "w_flash (d_world d) = Some f" and "length f = VC_FLASH_SIZE"
  shows "w_flash (d_world (update_dmi (create_oem_section_newDMI True dmi d)))
    = Some (bcopy (oem_section dmi) OEM_OFFSET f)"
proof -
  have "bcopy (take (VC_DMI_TOTAL_SIZE + 1) dmi) 0 (replicate VC_OEM_SECTION_SIZE 0) = oem_section dmi"
    using assms(3) by (simp add: vc_sizes bcopy_def oem_section_def)
  moreover have "length (oem_section dmi) = 256" using assms(3) by (simp add: length_oem_section)
  ultimately show ?thesis
    using assms by (simp add: create_oem_section_newDMI_def update_dmi_def sized_flash_def Let_def
        bcopy_def vc_sizes)
qed

lemma read_dmi_ok:
  assumes "w_flash (d_world d) = Some f" and "length f = VC_FLASH_SIZE"
  shows "read_dmi junk d = (slice OEM_OFFSET 58 f, d\<lparr>oem_read := slice OEM_OFFSET 256 f\<rparr>)"
proof -
  have "take 58 (slice OEM_OFFSET 256 f) = slice OEM_OFFSET 58 f" by (simp add: slice_def)
  then show ?thesis
    using assms by (simp add: read_dmi_def sized_flash_def vc_sizes Let_def)
qed

lemma length_dmi: "length f = VC_FLASH_SIZE \<Longrightarrow> length (slice OEM_OFFSET 58 f) = 58"
  by (simp add: length_slice OEM_OFFSET_def vc_sizes)

section \<open>The fields\<close>

lemma length_put_field:
  "put_field off n arg dmi = Some dmi' \<Longrightarrow> off + n \<le> length dmi \<Longrightarrow> length dmi' = length dmi"
  by (auto simp: put_field_def length_bcopy split: option.splits if_splits)

lemma slice_put_field_same:
  "put_field off n arg dmi = Some dmi' \<Longrightarrow> off + n \<le> length dmi \<Longrightarrow>
     slice off n dmi' = (case arg of None \<Rightarrow> slice off n dmi | Some p \<Rightarrow> take n p)"
  by (auto simp: put_field_def slice_bcopy_same split: option.splits if_splits)

lemma slice_put_field_other:
  "put_field off n arg dmi = Some dmi' \<Longrightarrow> off + n \<le> length dmi \<Longrightarrow> o2 + m \<le> length dmi \<Longrightarrow>
     o2 + m \<le> off \<or> off + n \<le> o2 \<Longrightarrow> slice o2 m dmi' = slice o2 m dmi"
  by (auto simp: put_field_def slice_bcopy_other split: option.splits if_splits)

definition field_of :: "nat \<Rightarrow> u8 list option \<Rightarrow> buf \<Rightarrow> buf" where
  "field_of n arg old = (case arg of None \<Rightarrow> old | Some p \<Rightarrow> take n p)"

lemma update_fields:
  assumes len: "length dmi = 58" and up: "update_current_dmi dmi sn bsn uuid pname bversion = Some dmi'"
  shows "length dmi' = 58 \<and> oem_dmi_decode dmi' = (oem_dmi_decode dmi)
    \<lparr>f_sn := field_of VC_SN_LENGTH sn (f_sn (oem_dmi_decode dmi)),
     f_uuid := field_of VC_UUID_LENGTH uuid (f_uuid (oem_dmi_decode dmi)),
     f_bsn := field_of VC_BSN_LENGTH bsn (f_bsn (oem_dmi_decode dmi)),
     f_pname := field_of VC_PNAME_LENGTH pname (f_pname (oem_dmi_decode dmi)),
     f_bversion := field_of VC_BVERSION_LENGTH bversion (slice 53 4 dmi) @ [dmi ! 57]\<rparr>"
proof -
  have last: "slice 53 5 b = slice 53 4 b @ [b ! 57]" if "length b = 58" for b :: buf
    by (rule nth_equalityI) (use that in \<open>auto simp: slice_def nth_append less_Suc_eq numeral_eq_Suc\<close>)
  show ?thesis
  proof (cases "sn = None \<and> bsn = None \<and> uuid = None \<and> pname = None \<and> bversion = None")
    case True
    then have "dmi' = dmi" using up by (simp add: update_current_dmi_def)
    then show ?thesis using True len last [OF len] by (simp add: oem_dmi_decode_def field_of_def vc_sizes)
  next
    case False
    then obtain d1 d2 d3 d4 where p: "put_field 0 13 sn dmi = Some d1" "put_field 13 16 uuid d1 = Some d2"
      "put_field 29 14 bsn d2 = Some d3" "put_field 43 10 pname d3 = Some d4"
      "put_field 53 4 bversion d4 = Some dmi'"
      using up by (auto simp: update_current_dmi_def vc_sizes split: option.splits)
    have l: "length d1 = 58" "length d2 = 58" "length d3 = 58" "length d4 = 58" "length dmi' = 58"
      using p len by (auto dest!: length_put_field)
    note same = slice_put_field_same [OF p(1)] slice_put_field_same [OF p(2)] slice_put_field_same [OF p(3)]
      slice_put_field_same [OF p(4)] slice_put_field_same [OF p(5)]
    note other = slice_put_field_other [OF p(1)] slice_put_field_other [OF p(2)]
      slice_put_field_other [OF p(3)] slice_put_field_other [OF p(4)] slice_put_field_other [OF p(5)]
    have one: "b ! 57 = slice 57 1 b ! 0" if "length b = 58" for b :: buf
      using that by (simp add: slice_def)
    have end57: "dmi' ! 57 = dmi ! 57"
      unfolding one [OF l(5)] one [OF len] using l len by (simp add: other)
    have olds: "slice 13 16 d1 = slice 13 16 dmi" "slice 29 14 d2 = slice 29 14 dmi"
      "slice 43 10 d3 = slice 43 10 dmi" "slice 53 4 d4 = slice 53 4 dmi"
      using l len by (simp_all add: other)
    have new: "slice 0 13 dmi' = field_of 13 sn (slice 0 13 dmi)"
      "slice 13 16 dmi' = field_of 16 uuid (slice 13 16 dmi)"
      "slice 29 14 dmi' = field_of 14 bsn (slice 29 14 dmi)"
      "slice 43 10 dmi' = field_of 10 pname (slice 43 10 dmi)"
      "slice 53 4 dmi' = field_of 4 bversion (slice 53 4 dmi)"
      using l len same olds by (simp_all add: field_of_def other split: option.split)
    show ?thesis
      using l len by (simp add: oem_dmi_decode_def vc_sizes last new end57)
  qed
qed

lemma decode_section:
  "length dmi = 58 \<Longrightarrow> length f = VC_FLASH_SIZE \<Longrightarrow>
     slice OEM_OFFSET 58 (bcopy (oem_section dmi) OEM_OFFSET f) = dmi"
proof -
  assume l: "length dmi = 58" "length f = VC_FLASH_SIZE"
  then have "slice OEM_OFFSET 256 (bcopy (oem_section dmi) OEM_OFFSET f) = oem_section dmi"
    by (intro slice_bcopy_same) (simp_all add: length_oem_section OEM_OFFSET_def vc_sizes)
  then have "take 58 (slice OEM_OFFSET 256 (bcopy (oem_section dmi) OEM_OFFSET f)) = dmi"
    using l(1) by (simp add: oem_section_def)
  then show ?thesis by (simp add: slice_def)
qed

section \<open>Runs\<close>

text \<open>The options ask for the operation \<open>op\<close>.\<close>

definition asks :: "(string \<Rightarrow> buf option) \<Rightarrow> dmi_opt list \<Rightarrow> dmi_op \<Rightarrow> dmi_args \<Rightarrow> buf \<Rightarrow> bool" where
  "asks parse opts op a u \<longleftrightarrow> (\<exists>a0. dmi_getopt parse opts dmi_args_init (replicate VC_UUID_LENGTH 0) = Some (a0, u)
     \<and> a = refine_op a0 \<and> my_op a = op)"

lemma dmi_main_asks:
  assumes "asks parse opts op a u"
  shows "dmi_main C parse can_open junk opts w =
    (let d = (dmi_init w)\<lparr>uuid_bin := u\<rparr> in case op of
       READ_DMI \<Rightarrow> run_cmd (read_flash C) d (\<lambda>d. Some (0, snd (read_dmi junk d)))
     | PROGRAM_DMI \<Rightarrow> op_program C can_open junk a d
     | UPDATE_FLASH \<Rightarrow> op_update_flash C can_open junk a d
     | UPDATE_FLASH_DMI \<Rightarrow> op_update_flash_dmi C can_open junk a d
     | UNKNOWN_OP \<Rightarrow> Some (-1, d))"
  using assms by (auto simp: asks_def dmi_main_def Let_def dmi_init_def)

text \<open>The first step of every operation: read the chip, take the DMI from it.\<close>

lemma read_first:
  assumes C: "tools_ok C images" and len: "length (w_chip w) = VC_FLASH_SIZE"
    and r: "run_cmd (read_flash C) ((dmi_init w)\<lparr>uuid_bin := u\<rparr>) k = Some (0, d')"
  obtains d d1 where "k d = Some (0, d')" "read_dmi junk d = (slice OEM_OFFSET 58 (w_chip w), d1)"
    "oem_string d1 = replicate VC_OEM_SECTION_SIZE 0" "length (oem_read d1) = 256" "uuid_bin d1 = u"
    "w_flash (d_world d1) = Some (w_chip w)" "w_chip (d_world d1) = w_chip w"
proof -
  define d where "d = (dmi_init w)\<lparr>uuid_bin := u, d_world := w\<lparr>w_flash := Some (w_chip w)\<rparr>\<rparr>"
  have "k d = Some (0, d')"
    using read_cmd_0 [OF C r] by (simp add: d_def dmi_init_def)
  moreover have "read_dmi junk d =
      (slice OEM_OFFSET 58 (w_chip w), d\<lparr>oem_read := slice OEM_OFFSET 256 (w_chip w)\<rparr>)"
    by (rule read_dmi_ok) (simp_all add: d_def len)
  ultimately show ?thesis
    using that [of d "d\<lparr>oem_read := slice OEM_OFFSET 256 (w_chip w)\<rparr>"] len
    by (simp add: d_def dmi_init_def length_slice OEM_OFFSET_def vc_sizes)
qed

lemma program_run:
  assumes C: "tools_ok C images" and len: "length (w_chip w) = VC_FLASH_SIZE"
    and r: "op_program C True junk a ((dmi_init w)\<lparr>uuid_bin := u\<rparr>) = Some (0, d')"
  shows "\<exists>dmi. update_current_dmi (slice OEM_OFFSET 58 (w_chip w)) (a_sn a) (a_bsn a)
      (if a_uuid a then Some u else None) (a_pname a) (a_bversion a) = Some dmi
    \<and> w_chip (d_world d') = bcopy (oem_section dmi) OEM_OFFSET (w_chip w)"
  using C len r [unfolded op_program_def]
proof (rule read_first [where junk = junk])
  fix d d1
  assume k: "(let (dmi, d) = read_dmi junk d; uuid = if a_uuid a then Some (uuid_bin d) else None
     in case update_current_dmi dmi (a_sn a) (a_bsn a) uuid (a_pname a) (a_bversion a) of None \<Rightarrow> None
        | Some dmi \<Rightarrow> run_cmd (write_flash C) (update_dmi (create_oem_section_newDMI True dmi d)) (\<lambda>d. Some (0, d)))
      = Some (0, d')"
    and rd: "read_dmi junk d = (slice OEM_OFFSET 58 (w_chip w), d1)"
    and d1: "oem_string d1 = replicate VC_OEM_SECTION_SIZE 0" "length (oem_read d1) = 256" "uuid_bin d1 = u"
      "w_flash (d_world d1) = Some (w_chip w)"
  obtain dmi where up: "update_current_dmi (slice OEM_OFFSET 58 (w_chip w)) (a_sn a) (a_bsn a)
      (if a_uuid a then Some u else None) (a_pname a) (a_bversion a) = Some dmi"
    and wr: "run_cmd (write_flash C) (update_dmi (create_oem_section_newDMI True dmi d1)) (\<lambda>d. Some (0, d))
      = Some (0, d')"
    using k unfolding rd Let_def prod.case d1(3) by (auto split: option.splits simp del: if_split)
  have l: "length dmi = 58" using update_fields [OF length_dmi [OF len] up] by simp
  show ?thesis
    using up write_cmd_0 [OF C wr] update_written [OF d1(1,2) l d1(4) len] by auto
qed

lemma section_rest:
  "length dmi = 58 \<Longrightarrow> length f = VC_FLASH_SIZE \<Longrightarrow>
     slice (OEM_OFFSET + 58) 198 (bcopy (oem_section dmi) OEM_OFFSET f) = replicate 198 0"
proof -
  assume l: "length dmi = 58" "length f = VC_FLASH_SIZE"
  then have "slice OEM_OFFSET 256 (bcopy (oem_section dmi) OEM_OFFSET f) = oem_section dmi"
    by (intro slice_bcopy_same) (simp_all add: length_oem_section OEM_OFFSET_def vc_sizes)
  then have "drop 58 (slice OEM_OFFSET 256 (bcopy (oem_section dmi) OEM_OFFSET f)) = replicate 198 0"
    using l(1) by (simp add: oem_section_def)
  then show ?thesis by (simp add: slice_def drop_take add.commute)
qed


section \<open>New images\<close>

lemma update_flash_run:
  assumes C: "tools_ok C images" and len: "length (w_chip w) = VC_FLASH_SIZE"
    and r: "op_update_flash C True junk a ((dmi_init w)\<lparr>uuid_bin := u\<rparr>) = Some (0, d')"
  obtains f where "images (a_image a) = Some f"
    "w_chip (d_world d') = (if length f = VC_FLASH_SIZE
       then bcopy (oem_section (slice OEM_OFFSET 58 (w_chip w))) OEM_OFFSET f else f)"
  using C len r [unfolded op_update_flash_def]
proof (rule read_first [where junk = junk])
  fix d d1
  assume k: "(let (dmi, d) = read_dmi junk d; d = create_oem_section_newDMI True dmi d
     in copy_cmd C (a_image a) d (\<lambda>d. run_cmd (write_flash C) (update_dmi d) (\<lambda>d. Some (0, d)))) = Some (0, d')"
    and rd: "read_dmi junk d = (slice OEM_OFFSET 58 (w_chip w), d1)"
    and d1: "oem_string d1 = replicate VC_OEM_SECTION_SIZE 0" "length (oem_read d1) = 256"
  define dmi where "dmi = slice OEM_OFFSET 58 (w_chip w)"
  have l: "length dmi = 58" using length_dmi [OF len] by (simp add: dmi_def)
  define d2 where "d2 = create_oem_section_newDMI True dmi d1"
  from k have "copy_cmd C (a_image a) d2 (\<lambda>d. run_cmd (write_flash C) (update_dmi d) (\<lambda>d. Some (0, d))) = Some (0, d')"
    unfolding rd Let_def prod.case dmi_def [symmetric] d2_def [symmetric] .
  then obtain f where f: "images (a_image a) = Some f"
    and wr: "run_cmd (write_flash C) (update_dmi (d2\<lparr>d_world := (d_world d2)\<lparr>w_flash := Some f\<rparr>\<rparr>)) (\<lambda>d. Some (0, d)) = Some (0, d')"
    by (rule copy_cmd_0 [OF C])
  define d3 where "d3 = d1\<lparr>d_world := (d_world d1)\<lparr>w_flash := Some f\<rparr>\<rparr>"
  have swap: "d2\<lparr>d_world := (d_world d2)\<lparr>w_flash := Some f\<rparr>\<rparr> = create_oem_section_newDMI True dmi d3"
    by (simp add: d2_def d3_def create_oem_section_newDMI_def Let_def)
  have "w_flash (d_world (update_dmi (create_oem_section_newDMI True dmi d3))) =
      Some (if length f = VC_FLASH_SIZE then bcopy (oem_section dmi) OEM_OFFSET f else f)"
  proof (cases "length f = VC_FLASH_SIZE")
    case True
    then show ?thesis using update_written [of d3 dmi f] d1 l by (simp add: d3_def)
  next
    case False
    then show ?thesis
      by (simp add: update_dmi_def sized_flash_def create_oem_section_newDMI_def Let_def d3_def)
  qed
  moreover obtain f' where "w_flash (d_world (update_dmi (create_oem_section_newDMI True dmi d3))) = Some f'"
    "w_chip (d_world d') = f'"
    by (rule write_cmd_0 [OF C wr [unfolded swap]])
  ultimately have "w_chip (d_world d') =
      (if length f = VC_FLASH_SIZE then bcopy (oem_section dmi) OEM_OFFSET f else f)"
    by (simp only: option.inject)
  then show ?thesis using that [OF f] unfolding dmi_def by blast
qed

text \<open>\<open>-u\<close> without a field replaces the whole image but carries the DMI of the chip over: when it
  succeeds with an image of the right size, all five fields are what they were before, and
  outside the OEM section the chip holds the image.
\<close>

theorem update_flash_keeps_dmi:
  assumes "tools_ok C images" and "length (w_chip w) = VC_FLASH_SIZE" and "asks parse opts UPDATE_FLASH a u"
    and "images (a_image a) = Some f" and "length f = VC_FLASH_SIZE"
    and "dmi_main C parse True junk opts w = Some (0, d')"
  shows "oem_dmi_decode (slice OEM_OFFSET 58 (w_chip (d_world d'))) = oem_dmi_decode (slice OEM_OFFSET 58 (w_chip w))
    \<and> (\<forall>i < VC_FLASH_SIZE. i < 0xF00 \<or> 0x1000 \<le> i \<longrightarrow> w_chip (d_world d') ! i = f ! i)"
proof -
  have r: "op_update_flash C True junk a ((dmi_init w)\<lparr>uuid_bin := u\<rparr>) = Some (0, d')"
    using assms(6) dmi_main_asks [OF assms(3)] by (simp add: Let_def)
  have chip: "w_chip (d_world d') = bcopy (oem_section (slice OEM_OFFSET 58 (w_chip w))) OEM_OFFSET f"
    using update_flash_run [OF assms(1,2) r] assms(4,5) by (metis option.inject)
  have l: "length (slice OEM_OFFSET 58 (w_chip w)) = 58" using length_dmi [OF assms(2)] .
  then have fit: "OEM_OFFSET + length (oem_section (slice OEM_OFFSET 58 (w_chip w))) \<le> length f"
    using assms(5) by (simp add: length_oem_section OEM_OFFSET_def vc_sizes)
  show ?thesis
    unfolding chip decode_section [OF l assms(5)]
    using nth_bcopy [OF fit] l assms(5) by (auto simp: length_oem_section OEM_OFFSET_def)
qed

text \<open>\<open>-u\<close> with an image of another size reports success and writes the image to the chip as it
  is: the check of the size only leaves out the transfer of the DMI, so the serial
  numbers and the UUID of the board are lost.
\<close>

theorem wrong_size_image_loses_dmi:
  assumes "tools_ok C images" and "length (w_chip w) = VC_FLASH_SIZE" and "asks parse opts UPDATE_FLASH a u"
    and "images (a_image a) = Some f" and "length f \<noteq> VC_FLASH_SIZE"
    and "dmi_main C parse True junk opts w = Some (0, d')"
  shows "w_chip (d_world d') = f"
proof -
  have "op_update_flash C True junk a ((dmi_init w)\<lparr>uuid_bin := u\<rparr>) = Some (0, d')"
    using assms(6) dmi_main_asks [OF assms(3)] by (simp add: Let_def)
  then show ?thesis using update_flash_run [OF assms(1,2)] assms(4,5) by (metis option.inject)
qed

section \<open>New images with new fields\<close>

lemma getopt_uuid: "dmi_getopt parse os a u = Some (a', u') \<Longrightarrow> \<not> a_uuid a' \<Longrightarrow> u' = u \<and> \<not> a_uuid a"
  by (induction parse os a u rule: dmi_getopt.induct) auto

lemma asks_uuid: "asks parse opts op a u \<Longrightarrow> \<not> a_uuid a \<Longrightarrow> u = replicate 16 0"
  by (auto simp: asks_def refine_op_def vc_sizes split: if_splits dest!: getopt_uuid)

lemma update_flash_dmi_run:
  assumes C: "tools_ok C images" and len: "length (w_chip w) = VC_FLASH_SIZE"
    and r: "op_update_flash_dmi C True junk a ((dmi_init w)\<lparr>uuid_bin := u\<rparr>) = Some (0, d')"
    and img: "images (a_image a) = Some f" and fl: "length f = VC_FLASH_SIZE"
  shows "\<exists>dmi. update_current_dmi (slice OEM_OFFSET 58 (w_chip w)) (a_sn a) (a_bsn a)
      (Some u) (a_pname a) (a_bversion a) = Some dmi
    \<and> w_chip (d_world d') = bcopy (oem_section dmi) OEM_OFFSET f"
  using C len r [unfolded op_update_flash_dmi_def]
proof (rule read_first [where junk = junk])
  fix d d1
  assume k: "(let (dmi, d) = read_dmi junk d
     in copy_cmd C (a_image a) d (\<lambda>d.
       case update_current_dmi dmi (a_sn a) (a_bsn a) (Some (uuid_bin d)) (a_pname a) (a_bversion a) of None \<Rightarrow> None
       | Some dmi \<Rightarrow>
           run_cmd (write_flash C) (update_dmi (create_oem_section_newDMI True dmi d)) (\<lambda>d. Some (0, d))))
      = Some (0, d')"
    and rd: "read_dmi junk d = (slice OEM_OFFSET 58 (w_chip w), d1)"
    and d1: "oem_string d1 = replicate VC_OEM_SECTION_SIZE 0" "length (oem_read d1) = 256" "uuid_bin d1 = u"
  define d2 where "d2 = d1\<lparr>d_world := (d_world d1)\<lparr>w_flash := Some f\<rparr>\<rparr>"
  have d2: "oem_string d2 = replicate VC_OEM_SECTION_SIZE 0" "length (oem_read d2) = 256" "uuid_bin d2 = u"
    "w_flash (d_world d2) = Some f"
    using d1 by (simp_all add: d2_def)
  have "(case update_current_dmi (slice OEM_OFFSET 58 (w_chip w)) (a_sn a) (a_bsn a) (Some (uuid_bin d2))
        (a_pname a) (a_bversion a) of None \<Rightarrow> None
      | Some dmi \<Rightarrow> run_cmd (write_flash C) (update_dmi (create_oem_section_newDMI True dmi d2)) (\<lambda>d. Some (0, d)))
      = Some (0, d')"
    using C k unfolding rd Let_def prod.case
    by (rule copy_cmd_0) (simp add: img d2_def cong: option.case_cong)
  then obtain dmi where up: "update_current_dmi (slice OEM_OFFSET 58 (w_chip w)) (a_sn a) (a_bsn a)
      (Some u) (a_pname a) (a_bversion a) = Some dmi"
    and wr: "run_cmd (write_flash C) (update_dmi (create_oem_section_newDMI True dmi d2)) (\<lambda>d. Some (0, d))
      = Some (0, d')"
    unfolding d2(3) by (auto split: option.splits)
  have l: "length dmi = 58" using update_fields [OF length_dmi [OF len] up] by simp
  show ?thesis
    using up write_cmd_0 [OF C wr] update_written [OF d2(1,2) l d2(4) fl] by auto
qed

text \<open>\<open>-u\<close> with a new serial number, product name or revision but without \<open>-i\<close> is documented to take
  the UUID from the flash. The buffer of the UUID is passed on all the same, and a run that
  succeeds leaves a UUID of 16 zero bytes; the serial number of the system is kept
  when it was not given.
\<close>

theorem flash_dmi_clears_uuid:
  assumes "tools_ok C images" and "length (w_chip w) = VC_FLASH_SIZE"
    and "asks parse opts UPDATE_FLASH_DMI a u" and "\<not> a_uuid a"
    and "images (a_image a) = Some f" and "length f = VC_FLASH_SIZE"
    and "dmi_main C parse True junk opts w = Some (0, d')"
  shows "let old = oem_dmi_decode (slice OEM_OFFSET 58 (w_chip w));
             new = oem_dmi_decode (slice OEM_OFFSET 58 (w_chip (d_world d')))
         in f_uuid new = replicate 16 0 \<and> f_sn new = field_of 13 (a_sn a) (f_sn old)"
proof -
  have r: "op_update_flash_dmi C True junk a ((dmi_init w)\<lparr>uuid_bin := u\<rparr>) = Some (0, d')"
    using assms(7) dmi_main_asks [OF assms(3)] by (simp add: Let_def)
  obtain dmi where up: "update_current_dmi (slice OEM_OFFSET 58 (w_chip w)) (a_sn a) (a_bsn a)
      (Some u) (a_pname a) (a_bversion a) = Some dmi"
    and chip: "w_chip (d_world d') = bcopy (oem_section dmi) OEM_OFFSET f"
    using update_flash_dmi_run [OF assms(1,2) r assms(5,6)] by blast
  note f = update_fields [OF length_dmi [OF assms(2)] up]
  have "slice OEM_OFFSET 58 (w_chip (d_world d')) = dmi"
    unfolding chip using f decode_section [of dmi f] assms(6) by simp
  then show ?thesis
    using f asks_uuid [OF assms(3,4)] by (simp add: Let_def vc_sizes field_of_def)
qed

section \<open>Witnesses\<close>

text \<open>Commands that work, and a chip and images of zero bytes.\<close>

definition good_tools :: flash_cmds where
  "good_tools = \<lparr>read_flash = (\<lambda>w. (0, w\<lparr>w_flash := Some (w_chip w)\<rparr>)),
     write_flash = (\<lambda>w. case w_flash w of None \<Rightarrow> (1, w) | Some f \<Rightarrow> (0, w\<lparr>w_chip := f\<rparr>)),
     copy_image = (\<lambda>img w. (0, w\<lparr>w_flash := Some (replicate (if img = ''x'' then 1 else VC_FLASH_SIZE) 0)\<rparr>))\<rparr>"

definition good_images :: "string \<Rightarrow> buf option" where
  "good_images img = Some (replicate (if img = ''x'' then 1 else VC_FLASH_SIZE) 0)"

definition blank_chip :: flash_world where
  "blank_chip = \<lparr>w_chip = replicate VC_FLASH_SIZE 7, w_flash = None, w_oem = None\<rparr>"

lemma good_tools_ok: "tools_ok good_tools good_images"
  by (auto simp: tools_ok_def good_tools_def good_images_def split: option.splits)

lemma length_blank: "length (w_chip blank_chip) = VC_FLASH_SIZE"
  by (simp add: blank_chip_def)

lemma update_dmi_flash: "w_flash (d_world (update_dmi d)) = None \<longleftrightarrow> w_flash (d_world d) = None"
  by (auto simp: update_dmi_def sized_flash_def Let_def split: option.splits)

lemma good_write:
  "w_flash (d_world d) \<noteq> None \<Longrightarrow>
     \<exists>d'. run_cmd (write_flash good_tools) (update_dmi d) (\<lambda>d. Some (0, d)) = Some (0, d')"
  using update_dmi_flash [of d] by (auto simp: run_cmd_def good_tools_def Let_def)

lemma good_oem: "w_flash (d_world (create_oem_section_newDMI b dmi d)) = w_flash (d_world d)"
  by (simp add: create_oem_section_newDMI_def Let_def)

lemma good_read:
  "run_cmd (read_flash good_tools) d k = k (d\<lparr>d_world := (d_world d)\<lparr>w_flash := Some (w_chip (d_world d))\<rparr>\<rparr>)"
  by (simp add: run_cmd_def good_tools_def Let_def)

lemma good_copy:
  "length img < 400 \<Longrightarrow> copy_cmd good_tools img d k =
     k (d\<lparr>d_world := (d_world d)\<lparr>w_flash := good_images img\<rparr>\<rparr>)"
  by (simp add: copy_cmd_def run_cmd_def good_tools_def good_images_def Let_def)

lemma read_dmi_flash: "w_flash (d_world (snd (read_dmi junk d))) = w_flash (d_world d)"
  by (auto simp: read_dmi_def Let_def split: option.splits)

definition sn_arg :: "u8 list" where "sn_arg = replicate 14 9"

definition sn_args :: "dmi_op \<Rightarrow> string \<Rightarrow> dmi_args" where
  "sn_args op img = dmi_args_init\<lparr>my_op := op, a_sn := Some sn_arg, a_image := img\<rparr>"

lemma asks_program: "asks (\<lambda>_. None) [OptW, OptS sn_arg] PROGRAM_DMI (sn_args PROGRAM_DMI []) (replicate 16 0)"
  by (simp add: asks_def refine_op_def dmi_args_init_def sn_args_def vc_sizes)

lemma asks_update: "asks (\<lambda>_. None) [OptU img] UPDATE_FLASH
    (dmi_args_init\<lparr>my_op := UPDATE_FLASH, a_image := img\<rparr>) (replicate 16 0)"
  by (simp add: asks_def refine_op_def dmi_args_init_def vc_sizes)

lemma asks_update_dmi: "asks (\<lambda>_. None) [OptU img, OptS sn_arg] UPDATE_FLASH_DMI
    (sn_args UPDATE_FLASH_DMI img) (replicate 16 0)"
  by (simp add: asks_def refine_op_def dmi_args_init_def sn_args_def vc_sizes)

lemma program_demo:
  "\<exists>d'. dmi_main good_tools (\<lambda>_. None) True [] [OptW, OptS sn_arg] blank_chip = Some (0, d')"
proof -
  have "put_field 0 13 (Some sn_arg) dmi = Some (bcopy (take 13 sn_arg) 0 dmi)" for dmi
    by (simp add: put_field_def sn_arg_def)
  then show ?thesis
    unfolding dmi_main_asks [OF asks_program] op_program_def good_read
    by (auto simp: Let_def split_beta sn_args_def dmi_args_init_def update_current_dmi_def vc_sizes
        put_field_def good_oem read_dmi_flash intro!: good_write)
qed

lemma update_demo:
  assumes "length img < 400"
  shows "\<exists>d'. dmi_main good_tools (\<lambda>_. None) True [] [OptU img] blank_chip = Some (0, d')"
  unfolding dmi_main_asks [OF asks_update] op_update_flash_def good_read
  using assms
  by (auto simp: Let_def split_beta good_copy good_images_def dmi_args_init_def intro!: good_write)

lemma update_dmi_demo:
  assumes "length img < 400"
  shows "\<exists>d'. dmi_main good_tools (\<lambda>_. None) True [] [OptU img, OptS sn_arg] blank_chip = Some (0, d')"
proof -
  have "uuid_bin (snd (read_dmi [] d)) = uuid_bin d" for d
    by (auto simp: read_dmi_def Let_def split: option.splits)
  then show ?thesis
    unfolding dmi_main_asks [OF asks_update_dmi] op_update_flash_dmi_def good_read
    using assms
    by (auto simp: Let_def split_beta good_copy good_images_def sn_args_def dmi_args_init_def sn_arg_def
        update_current_dmi_def vc_sizes put_field_def good_oem dmi_init_def intro!: good_write)
qed


theorem update_flash_keeps_dmi_witness:
  "\<exists>d'. dmi_main good_tools (\<lambda>_. None) True [] [OptU ''img''] blank_chip = Some (0, d')
    \<and> oem_dmi_decode (slice OEM_OFFSET 58 (w_chip (d_world d')))
      = oem_dmi_decode (slice OEM_OFFSET 58 (w_chip blank_chip))
    \<and> w_chip (d_world d') ! 5 = 0"
proof -
  obtain d' where d: "dmi_main good_tools (\<lambda>_. None) True [] [OptU ''img''] blank_chip = Some (0, d')"
    using update_demo [of "''img''"] by auto
  have im: "good_images (a_image (dmi_args_init\<lparr>my_op := UPDATE_FLASH, a_image := ''img''\<rparr>)) =
      Some (replicate VC_FLASH_SIZE 0)"
    by (simp add: good_images_def)
  show ?thesis
    using d update_flash_keeps_dmi [OF good_tools_ok length_blank asks_update im _ d]
    by (intro exI [of _ d']) (simp add: vc_sizes)
qed

theorem wrong_size_image_loses_dmi_witness:
  "\<exists>d'. dmi_main good_tools (\<lambda>_. None) True [] [OptU ''x''] blank_chip = Some (0, d')
    \<and> w_chip (d_world d') = [0]"
proof -
  obtain d' where d: "dmi_main good_tools (\<lambda>_. None) True [] [OptU ''x''] blank_chip = Some (0, d')"
    using update_demo [of "''x''"] by auto
  have im: "good_images (a_image (dmi_args_init\<lparr>my_op := UPDATE_FLASH, a_image := ''x''\<rparr>)) = Some [0]"
    by (simp add: good_images_def)
  show ?thesis
    using d wrong_size_image_loses_dmi [OF good_tools_ok length_blank asks_update im _ d]
    by (intro exI [of _ d']) (simp add: vc_sizes)
qed

theorem flash_dmi_clears_uuid_witness:
  "\<exists>d'. dmi_main good_tools (\<lambda>_. None) True [] [OptU ''img'', OptS sn_arg] blank_chip = Some (0, d')
    \<and> f_uuid (oem_dmi_decode (slice OEM_OFFSET 58 (w_chip (d_world d')))) = replicate 16 0
    \<and> f_uuid (oem_dmi_decode (slice OEM_OFFSET 58 (w_chip blank_chip))) = replicate 16 7"
proof -
  obtain d' where d: "dmi_main good_tools (\<lambda>_. None) True [] [OptU ''img'', OptS sn_arg] blank_chip = Some (0, d')"
    using update_dmi_demo [of "''img''"] by auto
  have im: "good_images (a_image (sn_args UPDATE_FLASH_DMI ''img'')) = Some (replicate VC_FLASH_SIZE 0)"
    and u: "\<not> a_uuid (sn_args UPDATE_FLASH_DMI ''img'')"
    by (simp_all add: good_images_def sn_args_def dmi_args_init_def)
  have "f_uuid (oem_dmi_decode (slice OEM_OFFSET 58 (w_chip blank_chip))) = replicate 16 7"
    by (simp add: oem_dmi_decode_def slice_def blank_chip_def vc_sizes OEM_OFFSET_def min_def)
  then show ?thesis
    using d flash_dmi_clears_uuid [OF good_tools_ok length_blank asks_update_dmi u im _ d]
    by (intro exI [of _ d']) (simp add: Let_def vc_sizes)
qed

end
