(* ===== verification/Nvram_Crc.thy ===== *)
theory Nvram_Crc
  imports VC_Prelude
begin

text \<open>
  The checksum of the NVRAM partition (\<open>package/utils/nvram/src/crc.c\<close>): the table-driven
  CRC-8, the shift register it stands for, and the errors it finds.
\<close>

definition crc8_table :: "u8 list" where
  "crc8_table = [
   0x00, 0xF7, 0xB9, 0x4E, 0x25, 0xD2, 0x9C, 0x6B, 0x4A, 0xBD, 0xF3, 0x04,
   0x6F, 0x98, 0xD6, 0x21, 0x94, 0x63, 0x2D, 0xDA, 0xB1, 0x46, 0x08, 0xFF,
   0xDE, 0x29, 0x67, 0x90, 0xFB, 0x0C, 0x42, 0xB5, 0x7F, 0x88, 0xC6, 0x31,
   0x5A, 0xAD, 0xE3, 0x14, 0x35, 0xC2, 0x8C, 0x7B, 0x10, 0xE7, 0xA9, 0x5E,
   0xEB, 0x1C, 0x52, 0xA5, 0xCE, 0x39, 0x77, 0x80, 0xA1, 0x56, 0x18, 0xEF,
   0x84, 0x73, 0x3D, 0xCA, 0xFE, 0x09, 0x47, 0xB0, 0xDB, 0x2C, 0x62, 0x95,
   0xB4, 0x43, 0x0D, 0xFA, 0x91, 0x66, 0x28, 0xDF, 0x6A, 0x9D, 0xD3, 0x24,
   0x4F, 0xB8, 0xF6, 0x01, 0x20, 0xD7, 0x99, 0x6E, 0x05, 0xF2, 0xBC, 0x4B,
   0x81, 0x76, 0x38, 0xCF, 0xA4, 0x53, 0x1D, 0xEA, 0xCB, 0x3C, 0x72, 0x85,
   0xEE, 0x19, 0x57, 0xA0, 0x15, 0xE2, 0xAC, 0x5B, 0x30, 0xC7, 0x89, 0x7E,
   0x5F, 0xA8, 0xE6, 0x11, 0x7A, 0x8D, 0xC3, 0x34, 0xAB, 0x5C, 0x12, 0xE5,
   0x8E, 0x79, 0x37, 0xC0, 0xE1, 0x16, 0x58, 0xAF, 0xC4, 0x33, 0x7D, 0x8A,
   0x3F, 0xC8, 0x86, 0x71, 0x1A, 0xED, 0xA3, 0x54, 0x75, 0x82, 0xCC, 0x3B,
   0x50, 0xA7, 0xE9, 0x1E, 0xD4, 0x23, 0x6D, 0x9A, 0xF1, 0x06, 0x48, 0xBF,
   0x9E, 0x69, 0x27, 0xD0, 0xBB, 0x4C, 0x02, 0xF5, 0x40, 0xB7, 0xF9, 0x0E,
   0x65, 0x92, 0xDC, 0x2B, 0x0A, 0xFD, 0xB3, 0x44, 0x2F, 0xD8, 0x96, 0x61,
   0x55, 0xA2, 0xEC, 0x1B, 0x70, 0x87, 0xC9, 0x3E, 0x1F, 0xE8, 0xA6, 0x51,
   0x3A, 0xCD, 0x83, 0x74, 0xC1, 0x36, 0x78, 0x8F, 0xE4, 0x13, 0x5D, 0xAA,
   0x8B, 0x7C, 0x32, 0xC5, 0xAE, 0x59, 0x17, 0xE0, 0x2A, 0xDD, 0x93, 0x64,
   0x0F, 0xF8, 0xB6, 0x41, 0x60, 0x97, 0xD9, 0x2E, 0x45, 0xB2, 0xFC, 0x0B,
   0xBE, 0x49, 0x07, 0xF0, 0x9B, 0x6C, 0x22, 0xD5, 0xF4, 0x03, 0x4D, 0xBA,
   0xD1, 0x26, 0x68, 0x9F]"

fun hndcrc8 :: "u8 list \<Rightarrow> u8 \<Rightarrow> u8" where
  "hndcrc8 [] crc = crc"
| "hndcrc8 (b # bs) crc = hndcrc8 bs (crc8_table ! unat ((crc XOR b) AND 0xff))"

section \<open>The shift register\<close>

text \<open>
  The comment of the code gives the polynomial $x^8 + x^7 + x^6 + x^4 + x^2 + 1$, without its leading term
  \<open>0xD5\<close>. The register takes the lowest bit first, so the polynomial is reflected.
\<close>

definition crc_poly :: u8 where "crc_poly = 0xAB"

definition crc_shift :: "u8 \<Rightarrow> u8" where
  "crc_shift c = (if bit c 0 then drop_bit 1 c XOR crc_poly else drop_bit 1 c)"

definition crc_ref :: "u8 list \<Rightarrow> u8 \<Rightarrow> u8" where
  "crc_ref bs crc = foldl (\<lambda>c b. (crc_shift ^^ 8) (c XOR b)) crc bs"

lemma poly_reflected: "list_all (\<lambda>i. bit crc_poly i = bit (0xD5 :: u8) (7 - i)) [0..<8]"
  by (simp add: crc_poly_def upt_rec)

lemma length_table [simp]: "length crc8_table = 256"
  by (simp add: crc8_table_def)

text \<open>The eight shifts of all 256 bytes, one after the other.\<close>

lemma table_shift_all:
  "map crc_shift (map crc_shift (map crc_shift (map crc_shift (map crc_shift (map crc_shift
     (map crc_shift (map crc_shift (map of_nat [0..<256])))))))) = crc8_table"
  by (simp add: upt_rec crc_shift_def crc_poly_def crc8_table_def)

lemma and_ff [simp]: "(x :: u8) AND 0xff = x"
proof -
  have "(0xff :: u8) = - 1" by simp
  then show ?thesis by (simp only: and.right_neutral)
qed

lemma funpow_8: "(f ^^ 8) x = f (f (f (f (f (f (f (f x)))))))"
  by (simp add: numeral_eq_Suc)

lemma table_shift: "crc8_table ! unat x = (crc_shift ^^ 8) x"
proof -
  have "unat x < 256" using u8_less .
  then show ?thesis
    unfolding table_shift_all [symmetric] funpow_8
    by (simp only: nth_map length_map length_upt nth_upt diff_zero add_0 of_nat_unat ucast_id)
qed

text \<open>The table-driven checksum is the bit-by-bit shift register of the documented polynomial,
  for every message and every initial value.
\<close>

theorem hndcrc8_register: "hndcrc8 bs crc = crc_ref bs crc"
  by (induction bs crc rule: hndcrc8.induct) (simp_all add: crc_ref_def table_shift)

section \<open>Error detection\<close>

lemma shift_inj: "crc_shift c = crc_shift d \<Longrightarrow> c = d"
proof (rule bit_word_eqI)
  fix n
  assume eq: "crc_shift c = crc_shift d" and n: "n < LENGTH(8)"
  have 7: "bit (crc_shift c) 7 = bit c 0" for c
    by (simp add: crc_shift_def crc_poly_def bit_simps)
  then have 0: "bit c 0 = bit d 0" using eq by metis
  have "bit (crc_shift c) (n - 1) = bit (crc_shift d) (n - 1)" using eq by simp
  then show "bit c n = bit d n"
    using 0 by (cases n) (auto simp: crc_shift_def bit_simps split: if_splits)
qed

lemma table_inj: "crc8_table ! unat a = crc8_table ! unat b \<longleftrightarrow> a = (b :: u8)"
proof -
  have "inj (crc_shift ^^ 8)" by (intro inj_fn injI) (rule shift_inj)
  then show ?thesis unfolding table_shift by (auto dest: injD)
qed

lemma xor_inj: "(d XOR a) = (d XOR b) \<longleftrightarrow> a = (b :: u8)"
proof
  assume "(d XOR a) = (d XOR b)"
  then have "(d XOR (d XOR a)) = (d XOR (d XOR b))" by (rule arg_cong)
  then show "a = b" by (simp add: xor.assoc [symmetric])
qed simp

lemma crc_append: "hndcrc8 (as @ bs) c = hndcrc8 bs (hndcrc8 as c)"
  by (induction as c rule: hndcrc8.induct) simp_all

lemma crc_inj: "hndcrc8 bs c = hndcrc8 bs d \<longleftrightarrow> c = d"
proof (induction bs arbitrary: c d)
  case (Cons b bs)
  have "(c XOR b) = (d XOR b) \<longleftrightarrow> c = d" by (simp only: xor.commute [of _ b] xor_inj)
  then show ?case by (simp only: hndcrc8.simps and_ff Cons.IH table_inj)
qed simp

lemma crc_one_byte:
  assumes "a \<noteq> b"
  shows "hndcrc8 (xs @ a # ys) c \<noteq> hndcrc8 (xs @ b # ys) c"
proof -
  have "(d XOR a) \<noteq> (d XOR b)" for d
    using assms by (simp only: xor_inj not_False_eq_True)
  then show ?thesis by (simp only: crc_append hndcrc8.simps and_ff crc_inj table_inj not_False_eq_True)
qed

lemma crc_update:
  assumes "i < length bs" and "b \<noteq> bs ! i"
  shows "hndcrc8 (bs[i := b]) c \<noteq> hndcrc8 bs c"
proof -
  have "hndcrc8 (take i bs @ b # drop (Suc i) bs) c \<noteq> hndcrc8 (take i bs @ bs ! i # drop (Suc i) bs) c"
    using assms(2) by (rule crc_one_byte)
  then show ?thesis
    unfolding upd_conv_take_nth_drop [OF assms(1)] id_take_nth_drop [OF assms(1), symmetric] .
qed

end
