(* ===== verification/Var_Store.thy ===== *)
theory Var_Store
  imports Main
begin

text \<open>
  The contract of a store of variables: what a look-up returns after a variable was set or
  removed. The clients of the NVRAM table rest on it, whatever the table looks like.
\<close>

datatype 'k edit = Put 'k 'k | Del 'k

text \<open>What a sequence of edits means for a map; values that do not fit are refused.\<close>

fun edit_map :: "('k \<Rightarrow> bool) \<Rightarrow> 'k edit \<Rightarrow> ('k \<rightharpoonup> 'k) \<Rightarrow> ('k \<rightharpoonup> 'k)" where
  "edit_map fits (Put k v) m = (if fits v then m(k \<mapsto> v) else m)"
| "edit_map fits (Del k) m = m(k := None)"

locale var_store =
  fixes ok :: "'h \<Rightarrow> bool"
    and look :: "'h \<Rightarrow> 'k \<Rightarrow> 'k option"
    and put :: "'h \<Rightarrow> 'k \<Rightarrow> 'k \<Rightarrow> int \<times> 'h"
    and del :: "'h \<Rightarrow> 'k \<Rightarrow> int \<times> 'h"
    and fits :: "'k \<Rightarrow> bool"
  assumes put_ok: "ok h \<Longrightarrow> ok (snd (put h k v))"
    and look_put: "ok h \<Longrightarrow> fits v \<Longrightarrow> look (snd (put h k v)) = (look h)(k \<mapsto> v)"
    and put_status: "fst (put h k v) = 0 \<longleftrightarrow> fits v"
    and put_refused: "\<not> fits v \<Longrightarrow> snd (put h k v) = h"
    and del_ok: "ok h \<Longrightarrow> ok (snd (del h k))"
    and look_del: "ok h \<Longrightarrow> look (snd (del h k)) = (look h)(k := None)"
    and del_status: "fst (del h k) = 0"
begin

fun step :: "'k edit \<Rightarrow> 'h \<Rightarrow> 'h" where
  "step (Put k v) h = snd (put h k v)"
| "step (Del k) h = snd (del h k)"

lemma step_ok: "ok h \<Longrightarrow> ok (step e h)"
  by (cases e) (simp_all add: put_ok del_ok)

lemma look_step: "ok h \<Longrightarrow> look (step e h) = edit_map fits e (look h)"
  by (cases e) (simp_all add: look_put put_refused look_del)

lemma steps: "ok h \<Longrightarrow> ok (fold step es h) \<and> look (fold step es h) = fold (edit_map fits) es (look h)"
  by (induction es arbitrary: h) (simp_all add: step_ok look_step)

text \<open>Only the last edit of a variable counts.\<close>

lemma look_last:
  assumes "ok h" and "fits v" and "\<And>w. Put k w \<notin> set es" and "Del k \<notin> set es"
  shows "look (fold step (Put k v # es) h) k = Some v"
proof -
  have "fold (edit_map fits) es m k = m k" for m
    using assms(3,4)
  proof (induction es arbitrary: m)
    case (Cons e es)
    then have "edit_map fits e m k = m k" by (cases e) auto
    then show ?case using Cons by simp
  qed simp
  then show ?thesis
    using assms(1,2) steps [of "snd (put h k v)" es] by (simp add: put_ok look_put)
qed

end

end
