(* ===== verification/Nvram_Table.thy ===== *)
theory Nvram_Table
  imports C_Strings Var_Store
begin

text \<open>
  The table of NVRAM variables (\<open>package/utils/nvram/src/nvram.c\<close>): a hash table of 257
  chains, the operations on it, and the map of names to values it stands for.

  A tuple is a name and a value; the tuples of a chain are in the order of their \<open>next\<close>
  pointers. The tool is built for MIPS, where \<open>char\<close> is signed and \<open>long\<close> has 32 bits. No
  caller passes a null name. Running out of memory is not modelled.
\<close>

definition NVRAM_SPACE :: nat where "NVRAM_SPACE = 0x8000"

record nvram_tuple =
  t_name :: string
  t_value :: string

record nvram_handle =
  h_mmap :: buf
  h_offset :: nat
  nvram_hash :: "nvram_tuple list list"
  nvram_dead :: "nvram_tuple list"

section \<open>Operations\<close>

fun hash_from :: "u32 \<Rightarrow> string \<Rightarrow> u32" where
  "hash_from h [] = h"
| "hash_from h (c # s) = hash_from (31 * h + scast (of_char c :: u8)) s"

definition hash :: "string \<Rightarrow> u32" where
  "hash s = hash_from 0 s"

definition NVRAM_CHAINS :: nat where "NVRAM_CHAINS = 257"

definition chain_of :: "string \<Rightarrow> nat" where
  "chain_of name = unat (hash name) mod NVRAM_CHAINS"

definition nvram_free :: "nvram_handle \<Rightarrow> nvram_handle" where
  "nvram_free h = h\<lparr>nvram_hash := replicate NVRAM_CHAINS [], nvram_dead := []\<rparr>"

definition find_tuple :: "string \<Rightarrow> nvram_tuple list \<Rightarrow> nvram_tuple option" where
  "find_tuple name ts = List.find (\<lambda>t. t_name t = name) ts"

text \<open>A tuple that exists keeps its place in memory, only its value is replaced.\<close>

definition nvram_realloc :: "nvram_tuple option \<Rightarrow> string \<Rightarrow> string \<Rightarrow> nvram_tuple option" where
  "nvram_realloc t name value =
     (if length value + 1 > NVRAM_SPACE then None
      else Some (case t of None \<Rightarrow> \<lparr>t_name = name, t_value = value\<rparr>
                 | Some t \<Rightarrow> if t_value t = value then t else t\<lparr>t_value := value\<rparr>))"

text \<open>The first tuple of the name is changed in place, taken out.\<close>

fun store_tuple :: "string \<Rightarrow> nvram_tuple \<Rightarrow> nvram_tuple list \<Rightarrow> nvram_tuple list" where
  "store_tuple name u [] = []"
| "store_tuple name u (t # ts) = (if t_name t = name then u # ts else t # store_tuple name u ts)"

fun unlink_tuple :: "string \<Rightarrow> nvram_tuple list \<Rightarrow> nvram_tuple list" where
  "unlink_tuple name [] = []"
| "unlink_tuple name (t # ts) = (if t_name t = name then ts else t # unlink_tuple name ts)"

definition nvram_get :: "nvram_handle \<Rightarrow> string \<Rightarrow> string option" where
  "nvram_get h name = map_option t_value (find_tuple name (nvram_hash h ! chain_of name))"

text \<open>
  The tuple that comes back from the reallocation is the one that was found, so the branch
  that moves an old tuple to the dead table is never taken.
\<close>

definition nvram_set :: "nvram_handle \<Rightarrow> string \<Rightarrow> string \<Rightarrow> int \<times> nvram_handle" where
  "nvram_set h name value =
     (let i = chain_of name; ts = nvram_hash h ! i; t = find_tuple name ts
      in case nvram_realloc t name value of
           None \<Rightarrow> (-12, h)
         | Some u \<Rightarrow>
             if t \<noteq> None then (0, h\<lparr>nvram_hash := (nvram_hash h)[i := store_tuple name u ts]\<rparr>)
             else (0, h\<lparr>nvram_hash := (nvram_hash h)[i := u # ts]\<rparr>))"

definition nvram_unset :: "nvram_handle \<Rightarrow> string \<Rightarrow> int \<times> nvram_handle" where
  "nvram_unset h name =
     (let i = chain_of name; ts = nvram_hash h ! i
      in case find_tuple name ts of
           None \<Rightarrow> (0, h)
         | Some t \<Rightarrow> (0, h\<lparr>nvram_hash := (nvram_hash h)[i := unlink_tuple name ts],
                         nvram_dead := t # nvram_dead h\<rparr>))"

definition nvram_getall :: "nvram_handle \<Rightarrow> nvram_tuple list" where
  "nvram_getall h = foldl (\<lambda>l ts. foldl (\<lambda>l t. t # l) l ts) [] (nvram_hash h)"

section \<open>The map\<close>

definition pairs :: "nvram_tuple list \<Rightarrow> (string \<times> string) list" where
  "pairs ts = map (\<lambda>t. (t_name t, t_value t)) ts"

text \<open>All variables of the table, whatever chain they are in.\<close>

definition nv_tuples :: "nvram_handle \<Rightarrow> nvram_tuple list" where
  "nv_tuples h = concat (nvram_hash h)"

definition nv_map :: "nvram_handle \<Rightarrow> string \<rightharpoonup> string" where
  "nv_map h = map_of (pairs (nv_tuples h))"

text \<open>Every tuple is in the chain of its name, and no chain has a name twice.\<close>

definition chain_ok :: "nat \<Rightarrow> nvram_tuple list \<Rightarrow> bool" where
  "chain_ok i ts \<longleftrightarrow> distinct (map t_name ts) \<and> (\<forall>t \<in> set ts. chain_of (t_name t) = i)"

definition nv_ok :: "nvram_handle \<Rightarrow> bool" where
  "nv_ok h \<longleftrightarrow> length (nvram_hash h) = NVRAM_CHAINS
     \<and> (\<forall>i < NVRAM_CHAINS. chain_ok i (nvram_hash h ! i))"

definition value_fits :: "string \<Rightarrow> bool" where
  "value_fits v \<longleftrightarrow> length v < NVRAM_SPACE"

lemma chain_of_less [simp]: "chain_of n < NVRAM_CHAINS"
  by (simp add: chain_of_def NVRAM_CHAINS_def)

lemma set_pairs: "(n, v) \<in> set (pairs ts) \<longleftrightarrow> (\<exists>t \<in> set ts. t_name t = n \<and> t_value t = v)"
  by (auto simp: pairs_def)

lemma fst_pairs [simp]: "map fst (pairs ts) = map t_name ts"
  by (simp add: pairs_def comp_def)

lemma pairs_Cons [simp]: "pairs (t # ts) = (t_name t, t_value t) # pairs ts"
  by (simp add: pairs_def)

lemma pairs_Nil [simp]: "pairs [] = []"
  by (simp add: pairs_def)

lemma dom_pairs: "n \<notin> t_name ` set ts \<Longrightarrow> map_of (pairs ts) n = None"
  by (induction ts) auto

lemma find_tuple_Cons [simp]:
  "find_tuple n [] = None"
  "find_tuple n (t # ts) = (if t_name t = n then Some t else find_tuple n ts)"
  by (simp_all add: find_tuple_def)

lemma find_map_of: "map_option t_value (find_tuple n ts) = map_of (pairs ts) n"
  by (induction ts) simp_all

lemma find_tuple_None: "find_tuple n ts = None \<longleftrightarrow> n \<notin> t_name ` set ts"
  by (induction ts) auto

lemma find_tuple_name: "find_tuple n ts = Some t \<Longrightarrow> t \<in> set ts \<and> t_name t = n"
  by (induction ts) (auto split: if_splits)

text \<open>The chains one after the other: only the chain of the name has it.\<close>

lemma concat_chains:
  assumes "\<And>i. i < length tss \<Longrightarrow> chain_ok (k + i) (tss ! i)"
  shows "distinct (map t_name (concat tss))
    \<and> (\<forall>n. map_of (pairs (concat tss)) n =
        (if k \<le> chain_of n \<and> chain_of n < k + length tss then map_of (pairs (tss ! (chain_of n - k))) n else None))"
  using assms
proof (induction tss arbitrary: k)
  case (Cons ts tss)
  have ts: "chain_ok k ts" using Cons.prems [of 0] by simp
  have IH: "distinct (map t_name (concat tss))"
    "map_of (pairs (concat tss)) n = (if Suc k \<le> chain_of n \<and> chain_of n < Suc k + length tss
       then map_of (pairs (tss ! (chain_of n - Suc k))) n else None)" for n
    using Cons.IH [of "Suc k"] Cons.prems [of "Suc i" for i] by auto
  have app: "pairs (ts @ us) = pairs ts @ pairs us" for us by (simp add: pairs_def)
  have names: "chain_of n = k" if "n \<in> t_name ` set ts" for n using ts that by (auto simp: chain_ok_def)
  have "chain_of n \<noteq> k" if "n \<in> t_name ` set (concat tss)" for n
  proof
    assume "chain_of n = k"
    then have "map_of (pairs (concat tss)) n = None" using IH(2) by simp
    then show False using that by (simp add: map_of_eq_None_iff pairs_def image_image)
  qed
  then have "t_name ` set ts \<inter> t_name ` set (concat tss) = {}" using names by blast
  then have "distinct (map t_name (concat (ts # tss)))"
    using ts IH(1) by (simp add: chain_ok_def)
  moreover have "map_of (pairs (concat (ts # tss))) n =
      (if k \<le> chain_of n \<and> chain_of n < k + length (ts # tss)
       then map_of (pairs ((ts # tss) ! (chain_of n - k))) n else None)" for n
  proof (cases "chain_of n = k")
    case True
    then show ?thesis using IH(2) [of n] by (simp add: app map_add_def split: option.split)
  next
    case False
    then have "map_of (pairs ts) n = None" using names by (intro dom_pairs) blast
    then show ?thesis using False by (simp add: app map_add_def IH(2) nth_Cons' split: option.split)
  qed
  ultimately show ?case by blast
qed auto

lemma nv_map_chain: "nv_ok h \<Longrightarrow> nv_map h n = map_of (pairs (nvram_hash h ! chain_of n)) n"
  using concat_chains [of "nvram_hash h" 0] by (simp add: nv_ok_def nv_map_def nv_tuples_def)

lemma nv_distinct: "nv_ok h \<Longrightarrow> distinct (map t_name (nv_tuples h))"
  using concat_chains [of "nvram_hash h" 0] by (simp add: nv_ok_def nv_tuples_def)

section \<open>The operations on the map\<close>

lemma store_tuple_names:
  "t_name u = n \<Longrightarrow> map t_name (store_tuple n u ts) = map t_name ts"
  by (induction ts) auto

lemma chain_ok_names:
  "map t_name us = map t_name ts \<Longrightarrow> chain_ok i ts \<Longrightarrow> chain_ok i us"
proof -
  assume eq: "map t_name us = map t_name ts" and ok: "chain_ok i ts"
  have "t_name ` set us = t_name ` set ts" using eq by (metis set_map)
  then have "\<forall>t \<in> set us. chain_of (t_name t) = i" using ok unfolding chain_ok_def by (metis image_iff)
  then show ?thesis using ok eq by (simp add: chain_ok_def)
qed

lemma store_tuple_map:
  "n \<in> t_name ` set ts \<Longrightarrow> t_name u = n \<Longrightarrow>
     map_of (pairs (store_tuple n u ts)) m = ((map_of (pairs ts))(n \<mapsto> t_value u)) m"
  by (induction ts) auto

lemma store_tuple_ok:
  assumes "chain_ok i ts" and "t_name u = n" and "n \<in> t_name ` set ts"
  shows "chain_ok i (store_tuple n u ts)
     \<and> map_of (pairs (store_tuple n u ts)) = (map_of (pairs ts))(n := Some (t_value u))"
  using chain_ok_names [OF store_tuple_names [OF assms(2)] assms(1)] store_tuple_map [OF assms(3,2)]
  by (intro conjI ext) simp_all

lemma unlink_tuple_ok:
  "chain_ok i ts \<Longrightarrow> chain_ok i (unlink_tuple n ts) \<and> set (unlink_tuple n ts) \<subseteq> set ts
     \<and> map_of (pairs (unlink_tuple n ts)) = (map_of (pairs ts))(n := None)"
  unfolding fun_eq_iff
proof (induction ts)
  case (Cons t ts)
  then have IH: "chain_ok i (unlink_tuple n ts)" "set (unlink_tuple n ts) \<subseteq> set ts"
    "map_of (pairs (unlink_tuple n ts)) m = ((map_of (pairs ts))(n := None)) m" for m
    by (simp_all add: chain_ok_def)
  show ?case
  proof (cases "t_name t = n")
    case True
    then have "map_of (pairs ts) n = None" using Cons.prems by (intro dom_pairs) (auto simp: chain_ok_def)
    then show ?thesis using Cons.prems True by (auto simp: chain_ok_def)
  next
    case False
    then show ?thesis using Cons.prems IH by (auto simp: chain_ok_def)
  qed
qed (simp add: chain_ok_def)

text \<open>Replacing the chain of a name.\<close>

lemma replace_chain:
  assumes "nv_ok h" and "chain_ok (chain_of n) ts'" and "nvram_hash h' = (nvram_hash h)[chain_of n := ts']"
    and "map_of (pairs ts') = (map_of (pairs (nvram_hash h ! chain_of n)))(n := v)"
  shows "nv_ok h' \<and> nv_map h' = (nv_map h)(n := v)"
proof -
  have ok: "nv_ok h'"
    using assms(1,2,3) by (simp add: nv_ok_def nth_list_update)
  moreover have "nv_map h' m = ((nv_map h)(n := v)) m" for m
    using assms nv_map_chain [OF ok, of m] nv_map_chain [OF assms(1), of m]
    by (cases "chain_of m = chain_of n") (auto simp: nv_ok_def nth_list_update)
  ultimately show ?thesis by blast
qed

lemma nvram_get_map: "nv_ok h \<Longrightarrow> nvram_get h = nv_map h"
  by (rule ext) (simp add: nvram_get_def find_map_of nv_map_chain)

lemma nvram_set_map:
  assumes "nv_ok h" and "value_fits v"
  shows "\<exists>h'. nvram_set h n v = (0, h') \<and> nv_ok h' \<and> nv_map h' = (nv_map h)(n \<mapsto> v)
    \<and> h_mmap h' = h_mmap h \<and> h_offset h' = h_offset h"
proof -
  let ?ts = "nvram_hash h ! chain_of n"
  have ch: "chain_ok (chain_of n) ?ts" using assms(1) by (simp add: nv_ok_def)
  have r: "\<not> length v + 1 > NVRAM_SPACE" using assms(2) by (simp add: value_fits_def)
  show ?thesis
  proof (cases "find_tuple n ?ts")
    case None
    let ?h = "h\<lparr>nvram_hash := (nvram_hash h)[chain_of n := \<lparr>t_name = n, t_value = v\<rparr> # ?ts]\<rparr>"
    have "chain_ok (chain_of n) (\<lparr>t_name = n, t_value = v\<rparr> # ?ts)"
      using ch None by (auto simp: chain_ok_def find_tuple_None)
    moreover have "map_of (pairs (\<lparr>t_name = n, t_value = v\<rparr> # ?ts)) = (map_of (pairs ?ts))(n := Some v)"
      by (simp only: pairs_Cons map_of.simps nvram_tuple.simps fst_conv snd_conv)
    ultimately have "nv_ok ?h \<and> nv_map ?h = (nv_map h)(n := Some v)"
      by (intro replace_chain [OF assms(1), of n _ ?h]) (assumption, simp, assumption)
    then show ?thesis using r None by (simp add: nvram_set_def nvram_realloc_def Let_def)
  next
    case (Some t)
    define u where "u = (if t_value t = v then t else t\<lparr>t_value := v\<rparr>)"
    let ?h = "h\<lparr>nvram_hash := (nvram_hash h)[chain_of n := store_tuple n u ?ts]\<rparr>"
    have u: "t_name u = n" "t_value u = v" and m: "n \<in> t_name ` set ?ts"
      using find_tuple_name [OF Some] by (auto simp: u_def)
    note st = store_tuple_ok [OF ch u(1) m]
    then have "nv_ok ?h \<and> nv_map ?h = (nv_map h)(n := Some v)"
      unfolding u(2) by (intro replace_chain [OF assms(1), of n "store_tuple n u ?ts" ?h]) (blast, simp, blast)
    then show ?thesis
      using r Some by (simp add: nvram_set_def nvram_realloc_def Let_def u_def)
  qed
qed

lemma nvram_set_refused: "\<not> value_fits v \<Longrightarrow> nvram_set h n v = (-12, h)"
  by (simp add: nvram_set_def nvram_realloc_def value_fits_def Let_def)

lemma nvram_unset_map:
  assumes "nv_ok h"
  shows "\<exists>h'. nvram_unset h n = (0, h') \<and> nv_ok h' \<and> nv_map h' = (nv_map h)(n := None)
    \<and> h_mmap h' = h_mmap h \<and> h_offset h' = h_offset h"
proof -
  let ?ts = "nvram_hash h ! chain_of n"
  have ch: "chain_ok (chain_of n) ?ts" using assms(1) by (simp add: nv_ok_def)
  show ?thesis
  proof (cases "find_tuple n ?ts")
    case None
    then have "nv_map h n = None" using assms find_map_of [of n ?ts] by (simp add: nv_map_chain)
    then have "nv_map h = (nv_map h)(n := None)" by auto
    then show ?thesis using assms None by (simp add: nvram_unset_def Let_def)
  next
    case (Some t)
    let ?h = "h\<lparr>nvram_hash := (nvram_hash h)[chain_of n := unlink_tuple n ?ts], nvram_dead := t # nvram_dead h\<rparr>"
    have "nv_ok ?h \<and> nv_map ?h = (nv_map h)(n := None)"
      using unlink_tuple_ok [OF ch, of n]
      by (intro replace_chain [OF assms, of n "unlink_tuple n ?ts" ?h]) (blast, simp, blast)
    then show ?thesis using Some by (simp add: nvram_unset_def Let_def)
  qed
qed

lemma nvram_free_map: "nv_ok (nvram_free h) \<and> nv_map (nvram_free h) = Map.empty"
  by (auto simp: nv_ok_def nvram_free_def chain_ok_def nv_map_def nv_tuples_def pairs_def)

interpretation nvs: var_store nv_ok nvram_get nvram_set nvram_unset value_fits
proof
  fix h :: nvram_handle and k v
  have fit: "nv_ok h \<Longrightarrow> value_fits v \<Longrightarrow> nv_ok (snd (nvram_set h k v))
      \<and> nvram_get (snd (nvram_set h k v)) = (nvram_get h)(k \<mapsto> v)"
    using nvram_set_map [of h v k] by (auto simp: nvram_get_map)
  show "nv_ok h \<Longrightarrow> nv_ok (snd (nvram_set h k v))"
    using fit nvram_set_refused [of v h k] by (cases "value_fits v") auto
  show "nv_ok h \<Longrightarrow> value_fits v \<Longrightarrow> nvram_get (snd (nvram_set h k v)) = (nvram_get h)(k \<mapsto> v)"
    using fit by blast
  show "fst (nvram_set h k v) = 0 \<longleftrightarrow> value_fits v"
    by (auto simp: nvram_set_def nvram_realloc_def value_fits_def Let_def)
  show "\<not> value_fits v \<Longrightarrow> snd (nvram_set h k v) = h"
    by (simp add: nvram_set_refused)
  show "nv_ok h \<Longrightarrow> nv_ok (snd (nvram_unset h k))"
    using nvram_unset_map [of h k] by auto
  show "nv_ok h \<Longrightarrow> nvram_get (snd (nvram_unset h k)) = (nvram_get h)(k := None)"
    using nvram_unset_map [of h k] by (auto simp: nvram_get_map)
  show "fst (nvram_unset h k) = 0"
    by (simp add: nvram_unset_def Let_def split: option.split)
qed

text \<open>The list of all variables, last chain first.\<close>

lemma getall_rev: "nvram_getall h = rev (nv_tuples h)"
proof -
  have 1: "foldl (\<lambda>l t. t # l) l ts = rev ts @ l" for l ts :: "nvram_tuple list"
    by (induction ts arbitrary: l) simp_all
  have "foldl (\<lambda>l ts. foldl (\<lambda>l t. t # l) l ts) l tss = rev (concat tss) @ l"
    for l :: "nvram_tuple list" and tss
    by (induction tss arbitrary: l) (simp_all add: 1)
  then show ?thesis by (simp add: nvram_getall_def nv_tuples_def)
qed

end
