(* ===== verification/Nvram_Image.thy ===== *)
theory Nvram_Image
  imports Nvram_Crc Nvram_Table
begin

text \<open>
  The NVRAM partition (\<open>package/utils/nvram/src/nvram.c\<close>): its header, the text of the
  variables behind it, reading it into the table, writing it back, and opening it.

  The mapping of the partition is a list of bytes, \<open>None\<close> stands for an access outside of
  it. The word size is that of the MIPS targets the package is built for, and the mapping
  starts at a page boundary in the lower half of the address space.
\<close>

definition NVRAM_MAGIC :: u32 where "NVRAM_MAGIC = 0x48534C46"
definition NVRAM_VERSION :: u32 where "NVRAM_VERSION = 1"
definition NVRAM_CRC_START_POSITION :: nat where "NVRAM_CRC_START_POSITION = 9"
definition HEADER_SIZE :: nat where "HEADER_SIZE = 20"
definition SDRAM_INIT :: u32 where "SDRAM_INIT = 0x419"
definition SDRAM_CONFIG :: u32 where "SDRAM_CONFIG = 0"
definition SDRAM_REFRESH :: u32 where "SDRAM_REFRESH = (0x40 AND 0xff) OR 0x8000"

section \<open>Words and characters\<close>

definition le32 :: "u32 \<Rightarrow> buf" where
  "le32 w = [ucast w, ucast (drop_bit 8 w), ucast (drop_bit 16 w), ucast (drop_bit 24 w)]"

definition get32 :: "nat \<Rightarrow> buf \<Rightarrow> u32" where
  "get32 off b = ucast (b ! off) OR push_bit 8 (ucast (b ! (off + 1)))
     OR push_bit 16 (ucast (b ! (off + 2))) OR push_bit 24 (ucast (b ! (off + 3)))"

definition byte_of :: "char \<Rightarrow> u8" where "byte_of c = of_char c"
definition to_char :: "u8 \<Rightarrow> char" where "to_char b = char_of (unat b)"

definition hexU_char :: "nat \<Rightarrow> char" where
  "hexU_char n = ''0123456789ABCDEF'' ! n"

text \<open>\<open>0x%04X\<close> and \<open>0x%08X\<close>.\<close>

definition hexU4 :: "u16 \<Rightarrow> string" where
  "hexU4 w = ''0x'' @ map (\<lambda>k. hexU_char (unat w div 16 ^ k mod 16)) [3, 2, 1, 0]"

definition hexU8 :: "u32 \<Rightarrow> string" where
  "hexU8 w = ''0x'' @ map (\<lambda>k. hexU_char (unat w div 16 ^ k mod 16)) [7, 6, 5, 4, 3, 2, 1, 0]"

text \<open>The value of \<open>strtoul\<close> with base 0 where \<open>long\<close> has 32 bits.\<close>

definition strtoul32 :: "string \<Rightarrow> u32" where
  "strtoul32 s = (case strto_scan 0 s of None \<Rightarrow> 0
     | Some (neg, m, k) \<Rightarrow> if 2 ^ 32 \<le> m then - 1 else if neg then - of_nat m else of_nat m)"

section \<open>Reading\<close>

text \<open>The loop over \<open>name=value\<close> texts; one without \<open>=\<close> ends it.\<close>

function nv_parse :: "buf \<Rightarrow> nvram_handle \<Rightarrow> nvram_handle option" where
  "nv_parse data h = (case data of [] \<Rightarrow> None
     | b # _ \<Rightarrow> if b = 0 then Some h
       else let s = map to_char (takeWhile (\<lambda>b. b \<noteq> 0) data)
         in if length s = length data then None
            else case strchr s CHR ''='' of None \<Rightarrow> Some h
            | Some k \<Rightarrow> nv_parse (drop (length s + 1) data) (snd (nvram_set h (take k s) (drop (k + 1) s))))"
  by pat_completeness auto

termination
  by (relation "measure (\<lambda>(data, h). length data)") auto

declare nv_parse.simps [simp del]

definition hdr_crc_ver_init :: "nvram_handle \<Rightarrow> u32" where
  "hdr_crc_ver_init h = get32 (h_offset h + 8) (h_mmap h)"

definition hdr_config_refresh :: "nvram_handle \<Rightarrow> u32" where
  "hdr_config_refresh h = get32 (h_offset h + 12) (h_mmap h)"

definition hdr_config_ncdl :: "nvram_handle \<Rightarrow> u32" where
  "hdr_config_ncdl h = get32 (h_offset h + 16) (h_mmap h)"

definition set_default :: "string \<Rightarrow> string \<Rightarrow> nvram_handle \<Rightarrow> nvram_handle" where
  "set_default name value h = (if nvram_get h name = None then snd (nvram_set h name value) else h)"

definition nvram_rehash :: "nvram_handle \<Rightarrow> (int \<times> nvram_handle) option" where
  "nvram_rehash h = (case nv_parse (drop (h_offset h + HEADER_SIZE) (h_mmap h)) (nvram_free h) of
       None \<Rightarrow> None
     | Some h1 \<Rightarrow>
         let h2 = set_default ''sdram_init'' (hexU4 (ucast (drop_bit 16 (hdr_crc_ver_init h)))) h1;
             h3 = set_default ''sdram_config'' (hexU4 (ucast (hdr_config_refresh h AND 0xffff))) h2;
             h4 = set_default ''sdram_refresh'' (hexU4 (ucast (drop_bit 16 (hdr_config_refresh h) AND 0xffff))) h3;
             h5 = set_default ''sdram_ncdl'' (hexU8 (hdr_config_ncdl h)) h4
         in Some (0, h5))"

section \<open>Writing\<close>

text \<open>\<open>crc_ver_init\<close> without its checksum, \<open>config_refresh\<close> and \<open>config_ncdl\<close>.\<close>

definition commit_words :: "nvram_handle \<Rightarrow> u32 \<times> u32 \<times> u32" where
  "commit_words h = (let ver = push_bit 8 NVRAM_VERSION in
     case (nvram_get h ''sdram_init'', nvram_get h ''sdram_config'', nvram_get h ''sdram_refresh'',
           nvram_get h ''sdram_ncdl'') of
       (Some init, Some config, Some refresh, Some ncdl) \<Rightarrow>
         (ver OR push_bit 16 (strtoul32 init AND 0xffff),
          (strtoul32 config AND 0xffff) OR push_bit 16 (strtoul32 refresh AND 0xffff),
          strtoul32 ncdl)
     | _ \<Rightarrow> (ver OR push_bit 16 SDRAM_INIT, SDRAM_CONFIG OR push_bit 16 SDRAM_REFRESH, 0))"

definition nv_entry :: "nvram_tuple \<Rightarrow> buf" where
  "nv_entry t = map byte_of (t_name t @ ''='' @ t_value t) @ [0]"

text \<open>
  \<open>out\<close> is what has been written behind the header, so \<open>ptr\<close> is \<open>HEADER_SIZE + length out\<close>
  from the start of the header. A tuple that does not fit ends its chain only.
\<close>

fun write_chain :: "nvram_tuple list \<Rightarrow> buf \<Rightarrow> buf" where
  "write_chain [] out = out"
| "write_chain (t # ts) out =
     (if HEADER_SIZE + length out + length (t_name t) + 1 + length (t_value t) + 1 > NVRAM_SPACE - 2
      then out else write_chain ts (out @ nv_entry t))"

definition write_tuples :: "nvram_tuple list list \<Rightarrow> buf" where
  "write_tuples tss = foldl (\<lambda>out ts. write_chain ts out) [] tss"

definition NVRAM_ROUNDUP :: "nat \<Rightarrow> nat \<Rightarrow> nat" where
  "NVRAM_ROUNDUP x y = (x + (y - 1)) div y * y"

text \<open>The data area with its end marks, and the length of the image.\<close>

definition data_area :: "nat \<Rightarrow> buf \<Rightarrow> buf \<times> nat" where
  "data_area off out =
     (let out = out @ [0];
          ptr = HEADER_SIZE + length out;
          pad = (if (off + ptr) mod 4 \<noteq> 0 then replicate (4 - (off + ptr) mod 4) 0 else []);
          area = out @ pad @ replicate (NVRAM_SPACE - (ptr + length pad)) 0xFF
      in (area, NVRAM_ROUNDUP (ptr + 1) 4))"

definition header_bytes :: "u32 \<Rightarrow> u32 \<Rightarrow> u32 \<Rightarrow> u32 \<Rightarrow> u32 \<Rightarrow> buf" where
  "header_bytes magic len cvi cr ncdl = le32 magic @ le32 len @ le32 cvi @ le32 cr @ le32 ncdl"

definition commit_image :: "nvram_handle \<Rightarrow> buf" where
  "commit_image h =
     (let (cvi, cr, ncdl) = commit_words h;
          (area, len) = data_area (h_offset h) (write_tuples (nvram_hash h));
          tmp = header_bytes 0 0 cvi cr ncdl;
          crc = hndcrc8 (drop NVRAM_CRC_START_POSITION tmp) 0xff;
          crc = hndcrc8 (take (len - HEADER_SIZE) area) crc
      in header_bytes NVRAM_MAGIC (of_nat len) (cvi OR ucast crc) cr ncdl @ area)"

definition nvram_commit :: "nvram_handle \<Rightarrow> (int \<times> nvram_handle) option" where
  "nvram_commit h = nvram_rehash (h\<lparr>h_mmap := bcopy (commit_image h) (h_offset h) (h_mmap h)\<rparr>)"

section \<open>Opening\<close>

text \<open>
  The search for the magic number. The bound is computed in \<open>size_t\<close>: it wraps around when
  the erase size is below \<open>NVRAM_SPACE\<close>. \<open>None\<close> is an access outside the mapping, \<open>Some None\<close>
  that the number was not found.
\<close>

function find_magic :: "buf \<Rightarrow> nat \<Rightarrow> nat \<Rightarrow> nat option option" where
  "find_magic m bound i = (if bound < i then Some None
     else if length m < 4 * i + 4 then None
     else if get32 (4 * i) m = NVRAM_MAGIC then Some (Some (4 * i))
     else find_magic m bound (Suc i))"
  by pat_completeness auto

termination
  by (relation "measure (\<lambda>(m, bound, i). Suc bound - i)") auto

declare find_magic.simps [simp del]

text \<open>
  \<open>Some None\<close> is the null pointer: the file cannot be opened, or has no header. The mapping
  is the first \<open>erase_size\<close> bytes of the file.
\<close>

definition nvram_open :: "u32 \<Rightarrow> buf option \<Rightarrow> nvram_handle option option" where
  "nvram_open erase_size file = (case file of None \<Rightarrow> Some None
     | Some f \<Rightarrow>
         let m = take (unat erase_size) f
         in case find_magic m (unat ((erase_size - of_nat NVRAM_SPACE) div 4)) 0 of
              None \<Rightarrow> None
            | Some None \<Rightarrow> Some None
            | Some (Some off) \<Rightarrow>
                (case nvram_rehash \<lparr>h_mmap = m, h_offset = off, nvram_hash = replicate NVRAM_CHAINS [],
                     nvram_dead = []\<rparr> of
                   None \<Rightarrow> None
                 | Some (st, h) \<Rightarrow> Some (Some h)))"

end
