(* ===== verification/Nvram_Props.thy ===== *)
theory Nvram_Props
  imports Nvram_Image
begin

text \<open>
  The format of a committed image, and that committing and reading back keeps the variables.
\<close>

section \<open>Characters and words\<close>

lemma of_char_u8: "unat (of_char c :: u8) = of_char c"
proof -
  have "(of_char c :: nat) mod 256 < 256" by (rule mod_less_divisor) simp
  then have "(of_char c :: nat) < 256" by simp
  moreover have "(of_char c :: u8) = of_nat (of_char c)" by (simp add: of_nat_of_char)
  ultimately show ?thesis by (simp add: unsigned_of_nat take_bit_nat_eq_self)
qed

lemma to_char_byte_of [simp]: "to_char (byte_of c) = c"
  by (simp add: to_char_def byte_of_def of_char_u8)

lemma byte_of_0 [simp]: "byte_of c = 0 \<longleftrightarrow> c = CHR 0x00"
proof -
  have "c = CHR 0x00" if "byte_of c = 0"
    using to_char_byte_of [of c] that by (simp add: to_char_def char_of_def)
  then show ?thesis by (auto simp: byte_of_def)
qed

lemma to_char_bytes [simp]: "map to_char (map byte_of s) = s"
  by (simp add: comp_def)

lemma length_le32 [simp]: "length (le32 w) = 4"
  by (simp add: le32_def)

lemma get32_le32 [simp]: "get32 0 (le32 w @ b) = w"
proof (rule bit_word_eqI)
  fix n
  show "bit (get32 0 (le32 w @ b)) n = bit w n" if "n < LENGTH(32)"
    using that
    by (cases "n < 8"; cases "n < 16"; cases "n < 24") (simp_all add: get32_def le32_def bit_simps less_diff_conv2)
qed

lemma get32_append: "length a = off \<Longrightarrow> get32 (off + k) (a @ b) = get32 k b"
  by (simp add: get32_def nth_append)

lemma get32_skip: "n \<le> k \<Longrightarrow> get32 (k - n) (drop n b) = get32 k b \<or> length b < n"
  by (auto simp: get32_def)

section \<open>Reading what was written\<close>

text \<open>Names and values as the format can hold them.\<close>

definition nv_plain :: "nvram_tuple \<Rightarrow> bool" where
  "nv_plain t \<longleftrightarrow> CHR ''='' \<notin> set (t_name t) \<and> CHR 0x00 \<notin> set (t_name t) \<and> CHR 0x00 \<notin> set (t_value t)"

definition put_tuple :: "nvram_tuple \<Rightarrow> nvram_handle \<Rightarrow> nvram_handle" where
  "put_tuple t h = snd (nvram_set h (t_name t) (t_value t))"

lemma nv_parse_end: "nv_parse (0 # rest) h = Some h"
  by (subst nv_parse.simps) simp

lemma nv_parse_text:
  assumes "s \<noteq> []" and "CHR 0x00 \<notin> set s"
  shows "nv_parse (map byte_of s @ 0 # rest) h = (case strchr s CHR ''='' of None \<Rightarrow> Some h
    | Some k \<Rightarrow> nv_parse rest (snd (nvram_set h (take k s) (drop (k + 1) s))))"
proof -
  have tw: "takeWhile (\<lambda>b. b \<noteq> 0) (map byte_of s @ 0 # rest) = map byte_of s"
    using assms(2) by (subst takeWhile_append2) auto
  obtain c cs where s: "s = c # cs" using assms(1) by (cases s) auto
  then have c: "byte_of c \<noteq> 0" using assms(2) by auto
  have d: "(case map byte_of s @ 0 # rest of [] \<Rightarrow> None | b # _ \<Rightarrow> if b = 0 then Some h else f) = f" for f
    using c by (simp add: s)
  have "drop (length s + 1) (map byte_of s @ 0 # rest) = rest" by simp
  then show ?thesis
    by (subst nv_parse.simps, subst d, unfold tw to_char_bytes Let_def) (simp split: option.split)
qed

lemma nv_parse_entry:
  assumes "nv_plain t"
  shows "nv_parse (nv_entry t @ rest) h = nv_parse rest (put_tuple t h)"
proof -
  let ?s = "t_name t @ CHR ''='' # t_value t"
  have "nv_parse (map byte_of ?s @ 0 # rest) h = nv_parse rest (put_tuple t h)"
    using assms by (subst nv_parse_text) (auto simp: nv_plain_def strchr_append put_tuple_def)
  then show ?thesis by (simp add: nv_entry_def)
qed

lemma nv_parse_entries:
  "\<forall>t \<in> set ts. nv_plain t \<Longrightarrow> nv_parse (concat (map nv_entry ts) @ 0 # rest) h = Some (fold put_tuple ts h)"
  by (induction ts arbitrary: h) (simp_all add: nv_parse_end nv_parse_entry)

lemma put_tuple_frame: "h_mmap (put_tuple t h) = h_mmap h \<and> h_offset (put_tuple t h) = h_offset h"
  by (auto simp: put_tuple_def nvram_set_def Let_def split: option.splits if_splits)

lemma fold_put_frame:
  "h_mmap (fold put_tuple ts h) = h_mmap h \<and> h_offset (fold put_tuple ts h) = h_offset h"
  by (induction ts arbitrary: h) (simp_all add: put_tuple_frame)

lemma fold_put_tuple:
  assumes "nv_ok h" and "distinct (map t_name ts)" and "\<forall>t \<in> set ts. value_fits (t_value t)"
  shows "nv_ok (fold put_tuple ts h) \<and> nv_map (fold put_tuple ts h) = nv_map h ++ map_of (pairs ts)"
  using assms
proof (induction ts arbitrary: h)
  case (Cons t ts)
  obtain h' where h': "nvram_set h (t_name t) (t_value t) = (0, h')" "nv_ok h'"
    "nv_map h' = (nv_map h)(t_name t \<mapsto> t_value t)"
    using nvram_set_map [of h "t_value t" "t_name t"] Cons.prems by auto
  have n: "map_of (pairs ts) (t_name t) = None" using Cons.prems(2) by (intro dom_pairs) auto
  have "nv_map h' ++ map_of (pairs ts) = nv_map h ++ map_of (pairs (t # ts))"
    unfolding h'(3) using n by (auto simp: map_add_def fun_eq_iff split: option.split)
  moreover have "put_tuple t h = h'" using h'(1) by (simp add: put_tuple_def)
  moreover have "nv_ok (fold put_tuple ts h') \<and> nv_map (fold put_tuple ts h') = nv_map h' ++ map_of (pairs ts)"
    using Cons.prems by (intro Cons.IH [OF h'(2)]) simp_all
  ultimately show ?case by (simp only: fold_simps)
qed simp

section \<open>What is written\<close>

text \<open>The space the variables need, with \<open>=\<close> and NUL.\<close>

definition entry_size :: "nvram_tuple \<Rightarrow> nat" where
  "entry_size t = length (t_name t) + length (t_value t) + 2"

lemma length_entry [simp]: "length (nv_entry t) = entry_size t"
  by (simp add: nv_entry_def entry_size_def)

definition nv_size :: "nvram_tuple list \<Rightarrow> nat" where
  "nv_size ts = sum_list (map entry_size ts)"

definition nv_room :: "nvram_handle \<Rightarrow> bool" where
  "nv_room h \<longleftrightarrow> HEADER_SIZE + nv_size (nv_tuples h) \<le> NVRAM_SPACE - 2"

lemma nv_size_simps [simp]:
  "nv_size [] = 0" "nv_size (t # ts) = entry_size t + nv_size ts" "nv_size (ts @ us) = nv_size ts + nv_size us"
  by (simp_all add: nv_size_def)

text \<open>Setting a variable needs at most the space of its tuple.\<close>

lemma store_tuple_size: "nv_size (store_tuple n u ts) \<le> nv_size ts + entry_size u"
  by (induction ts) auto

lemma nv_size_concat: "nv_size (concat tss) = sum_list (map nv_size tss)"
  by (induction tss) simp_all

lemma nv_size_update:
  assumes "i < length tss" and "nv_size ts \<le> nv_size (tss ! i) + k"
  shows "nv_size (concat (tss[i := ts])) \<le> nv_size (concat tss) + k"
proof -
  have "nv_size (tss ! i) \<le> sum_list (map nv_size tss)"
    using assms(1) by (intro member_le_sum_list) auto
  then show ?thesis
    using assms by (simp add: nv_size_concat map_update sum_list_update)
qed

lemma nv_size_set:
  assumes "nv_ok h"
  shows "nv_size (nv_tuples (snd (nvram_set h n v))) \<le> nv_size (nv_tuples h) + (length n + length v + 2)"
proof -
  have i: "chain_of n < length (nvram_hash h)" using assms by (simp add: nv_ok_def)
  have e: "entry_size \<lparr>t_name = n, t_value = v\<rparr> = length n + length v + 2" by (simp add: entry_size_def)
  show ?thesis
  proof (cases "find_tuple n (nvram_hash h ! chain_of n)")
    case None
    have "nv_size (\<lparr>t_name = n, t_value = v\<rparr> # nvram_hash h ! chain_of n) \<le> nv_size (nvram_hash h ! chain_of n) + (length n + length v + 2)"
      by (simp add: e)
    note nv_size_update [OF i this]
    then show ?thesis
      using None by (simp add: nvram_set_def nvram_realloc_def nv_tuples_def Let_def)
  next
    case (Some t)
    have "entry_size (if t_value t = v then t else t\<lparr>t_value := v\<rparr>) = length n + length v + 2"
      using find_tuple_name [OF Some] by (auto simp: entry_size_def)
    then have "nv_size (store_tuple n (if t_value t = v then t else t\<lparr>t_value := v\<rparr>) (nvram_hash h ! chain_of n))
        \<le> nv_size (nvram_hash h ! chain_of n) + (length n + length v + 2)"
      by (metis store_tuple_size)
    note nv_size_update [OF i this]
    then show ?thesis
      using Some by (simp add: nvram_set_def nvram_realloc_def nv_tuples_def Let_def)
  qed
qed

lemma write_chain_Cons:
  "write_chain (t # ts) out = (if HEADER_SIZE + length out + entry_size t > NVRAM_SPACE - 2
      then out else write_chain ts (out @ nv_entry t))"
  by (simp add: entry_size_def)

lemma write_chain_all:
  "HEADER_SIZE + length out + nv_size ts \<le> NVRAM_SPACE - 2 \<Longrightarrow>
     write_chain ts out = out @ concat (map nv_entry ts)"
  by (induction ts arbitrary: out) (simp_all add: write_chain_Cons del: write_chain.simps(2))

lemma length_entries: "length (concat (map nv_entry ts)) = nv_size ts"
  by (induction ts) simp_all

lemma write_tuples_all:
  assumes "HEADER_SIZE + length out + nv_size (concat tss) \<le> NVRAM_SPACE - 2"
  shows "foldl (\<lambda>out ts. write_chain ts out) out tss = out @ concat (map nv_entry (concat tss))"
  using assms
proof (induction tss arbitrary: out)
  case (Cons ts tss)
  have "write_chain ts out = out @ concat (map nv_entry ts)"
    using Cons.prems by (intro write_chain_all) simp
  then show ?case
    using Cons.IH [of "out @ concat (map nv_entry ts)"] Cons.prems by (simp add: length_entries)
qed simp

text \<open>Whatever fits, the text stays inside the partition and ends with a variable.\<close>

lemma write_chain_bound:
  "HEADER_SIZE + length out \<le> NVRAM_SPACE - 2 \<Longrightarrow> HEADER_SIZE + length (write_chain ts out) \<le> NVRAM_SPACE - 2"
  by (induction ts arbitrary: out) (simp_all add: write_chain_Cons del: write_chain.simps(2))

lemma write_tuples_bound: "HEADER_SIZE + length (write_tuples tss) \<le> NVRAM_SPACE - 2"
proof -
  have "HEADER_SIZE + length out \<le> NVRAM_SPACE - 2 \<Longrightarrow>
      HEADER_SIZE + length (foldl (\<lambda>out ts. write_chain ts out) out tss) \<le> NVRAM_SPACE - 2" for out
    by (induction tss arbitrary: out) (simp_all add: write_chain_bound)
  then show ?thesis by (simp add: write_tuples_def HEADER_SIZE_def NVRAM_SPACE_def)
qed

lemma data_area_shape:
  assumes "HEADER_SIZE + length out \<le> NVRAM_SPACE - 2" and "off mod 4 = 0"
    and "data_area off out = (area, len)"
  shows "(\<exists>tail. area = out @ 0 # tail) \<and> length area = NVRAM_SPACE - HEADER_SIZE \<and> len \<le> NVRAM_SPACE
    \<and> len mod 4 = 0 \<and> HEADER_SIZE + length out + 2 \<le> len"
proof -
  define ptr where "ptr = HEADER_SIZE + length out + 1"
  define p where "p = (if ptr mod 4 \<noteq> 0 then 4 - ptr mod 4 else 0)"
  have m: "(off + ptr) mod 4 = ptr mod 4"
    using assms(2) by (metis add.left_neutral mod_add_left_eq)
  have le: "ptr \<le> NVRAM_SPACE - 1" using assms(1) by (simp add: ptr_def NVRAM_SPACE_def)
  have S: "NVRAM_SPACE mod 4 = 0" "NVRAM_SPACE = 32768" by (simp_all add: NVRAM_SPACE_def)
  have fit: "ptr + p \<le> NVRAM_SPACE" using le S unfolding p_def by presburger
  have len: "len = (ptr + 1 + 3) div 4 * 4"
    using assms(3) by (simp add: data_area_def Let_def NVRAM_ROUNDUP_def ptr_def)
  have "area = out @ 0 # replicate p 0 @ replicate (NVRAM_SPACE - (ptr + p)) 0xFF"
    using assms(3) m by (auto simp: data_area_def Let_def ptr_def p_def)
  moreover have "len \<le> NVRAM_SPACE" unfolding len using le S by presburger
  moreover have "ptr + 1 \<le> len" unfolding len by presburger
  ultimately show ?thesis using fit by (auto simp: len ptr_def)
qed

section \<open>A committed image\<close>

lemma length_header [simp]: "length (header_bytes a b c d e) = HEADER_SIZE"
  by (simp add: header_bytes_def HEADER_SIZE_def)

text \<open>The partition lies inside the mapping.\<close>

definition nv_mapped :: "nvram_handle \<Rightarrow> bool" where
  "nv_mapped h \<longleftrightarrow> h_offset h mod 4 = 0 \<and> h_offset h + NVRAM_SPACE \<le> length (h_mmap h)"

lemma commit_image_parts:
  assumes "h_offset h mod 4 = 0"
  obtains cvi cr ncdl len tail where
    "commit_words h = (cvi, cr, ncdl)"
    "commit_image h = header_bytes NVRAM_MAGIC (of_nat len)
       (cvi OR ucast (hndcrc8 (take (len - HEADER_SIZE) (write_tuples (nvram_hash h) @ 0 # tail))
          (hndcrc8 (drop 9 (header_bytes 0 0 cvi cr ncdl)) 0xff))) cr ncdl
       @ write_tuples (nvram_hash h) @ 0 # tail"
    "length (commit_image h) = NVRAM_SPACE" "HEADER_SIZE + length (write_tuples (nvram_hash h)) + 2 \<le> len"
    "len \<le> NVRAM_SPACE" "len mod 4 = 0"
proof -
  obtain cvi cr ncdl where w: "commit_words h = (cvi, cr, ncdl)" using prod_cases3 by blast
  obtain area len where d: "data_area (h_offset h) (write_tuples (nvram_hash h)) = (area, len)" by fastforce
  obtain tail where area: "area = write_tuples (nvram_hash h) @ 0 # tail"
    and l: "length area = NVRAM_SPACE - HEADER_SIZE" "len \<le> NVRAM_SPACE" "len mod 4 = 0"
      "HEADER_SIZE + length (write_tuples (nvram_hash h)) + 2 \<le> len"
    using data_area_shape [OF write_tuples_bound assms d] by (elim conjE exE)
  have img: "commit_image h = header_bytes NVRAM_MAGIC (of_nat len)
      (cvi OR ucast (hndcrc8 (take (len - HEADER_SIZE) area) (hndcrc8 (drop 9 (header_bytes 0 0 cvi cr ncdl)) 0xff))) cr ncdl
      @ area"
    by (simp only: commit_image_def w d Let_def prod.case NVRAM_CRC_START_POSITION_def)
  have "length (commit_image h) = NVRAM_SPACE"
    unfolding img using l by (simp add: HEADER_SIZE_def NVRAM_SPACE_def)
  then show ?thesis by (rule that [OF w img [unfolded area] _ l(4,2,3)])
qed

lemma drop_bcopy:
  "off + length img \<le> length m \<Longrightarrow> k \<le> length img \<Longrightarrow> drop (off + k) (bcopy img off m) = drop k img @ drop (off + length img) m"
  by (simp add: bcopy_def)

lemma get32_bcopy:
  assumes "off + length img \<le> length m" and "k + 4 \<le> length img"
  shows "get32 (off + k) (bcopy img off m) = get32 k img"
  using assms by (simp add: get32_def nth_bcopy add.assoc)

lemma get32_header:
  "get32 0 (header_bytes a b c d e @ r) = a" "get32 4 (header_bytes a b c d e @ r) = b"
  "get32 8 (header_bytes a b c d e @ r) = c" "get32 12 (header_bytes a b c d e @ r) = d"
  "get32 16 (header_bytes a b c d e @ r) = e"
  using get32_append [of "le32 a" 4 0] get32_append [of "le32 a @ le32 b" 8 0]
    get32_append [of "le32 a @ le32 b @ le32 c" 12 0] get32_append [of "le32 a @ le32 b @ le32 c @ le32 d" 16 0]
  by (simp_all add: header_bytes_def)

text \<open>The checksum covers the bytes behind it, and its own byte is clear before it is put in.\<close>

lemma commit_words_low: "commit_words h = (cvi, cr, ncdl) \<Longrightarrow> n < 8 \<Longrightarrow> \<not> bit cvi n"
  by (auto simp: commit_words_def Let_def bit_simps split: option.splits)

lemma header_crc:
  assumes "\<And>n. n < 8 \<Longrightarrow> \<not> bit cvi n"
  shows "drop 9 (header_bytes a b (cvi OR ucast (c :: u8)) d e) = drop 9 (header_bytes 0 0 cvi d e)"
    and "header_bytes a b (cvi OR ucast c) d e ! 8 = c"
proof -
  have "(ucast (drop_bit k (cvi OR ucast c)) :: u8) = ucast (drop_bit k cvi)" if "8 \<le> k" for k
    by (rule bit_word_eqI) (use that in \<open>auto simp: bit_simps\<close>)
  then show "drop 9 (header_bytes a b (cvi OR ucast c) d e) = drop 9 (header_bytes 0 0 cvi d e)"
    by (simp add: header_bytes_def le32_def)
  have "(ucast (cvi OR ucast c) :: u8) = c"
    by (rule bit_word_eqI) (use assms in \<open>auto simp: bit_simps\<close>)
  then show "header_bytes a b (cvi OR ucast c) d e ! 8 = c"
    by (simp add: header_bytes_def le32_def)
qed

text \<open>What \<open>info\<close> computes, and the byte it compares it with.\<close>

definition nv_len :: "nvram_handle \<Rightarrow> u32" where
  "nv_len h = get32 (h_offset h + 4) (h_mmap h)"

definition calc_crc :: "nvram_handle \<Rightarrow> u8" where
  "calc_crc h = hndcrc8 (slice (h_offset h + 9) (unat (nv_len h) - 9) (h_mmap h)) 0xff"

definition stored_crc :: "nvram_handle \<Rightarrow> u8" where
  "stored_crc h = h_mmap h ! (h_offset h + 8)"

lemma commit_format:
  assumes "nv_mapped h" and "m = bcopy (commit_image h) (h_offset h) (h_mmap h)"
  shows "length m = length (h_mmap h)"
    and "i < length m \<Longrightarrow> i < h_offset h \<or> h_offset h + NVRAM_SPACE \<le> i \<Longrightarrow> m ! i = h_mmap h ! i"
    and "get32 (h_offset h) m = NVRAM_MAGIC"
    and "unat (get32 (h_offset h + 4) m) \<le> NVRAM_SPACE"
    and "hndcrc8 (slice (h_offset h + 9) (unat (get32 (h_offset h + 4) m) - 9) m) 0xff = m ! (h_offset h + 8)"
    and "\<exists>tail. drop (h_offset h + HEADER_SIZE) m = write_tuples (nvram_hash h) @ 0 # tail"
    and "\<exists>cvi cr ncdl. commit_words h = (cvi, cr, ncdl) \<and> drop_bit 16 (get32 (h_offset h + 8) m) = drop_bit 16 cvi
      \<and> get32 (h_offset h + 12) m = cr \<and> get32 (h_offset h + 16) m = ncdl"
    and "9 \<le> unat (get32 (h_offset h + 4) m)"
proof -
  have off: "h_offset h mod 4 = 0" and map: "h_offset h + NVRAM_SPACE \<le> length (h_mmap h)"
    using assms(1) by (simp_all add: nv_mapped_def)
  obtain cvi cr ncdl len tail where w: "commit_words h = (cvi, cr, ncdl)"
    and img: "commit_image h = header_bytes NVRAM_MAGIC (of_nat len)
       (cvi OR ucast (hndcrc8 (take (len - HEADER_SIZE) (write_tuples (nvram_hash h) @ 0 # tail))
          (hndcrc8 (drop 9 (header_bytes 0 0 cvi cr ncdl)) 0xff))) cr ncdl
       @ write_tuples (nvram_hash h) @ 0 # tail"
    and len: "length (commit_image h) = NVRAM_SPACE" "HEADER_SIZE + length (write_tuples (nvram_hash h)) + 2 \<le> len"
      "len \<le> NVRAM_SPACE"
    by (rule commit_image_parts [OF off])
  define crc where "crc = hndcrc8 (take (len - HEADER_SIZE) (write_tuples (nvram_hash h) @ 0 # tail))
          (hndcrc8 (drop 9 (header_bytes 0 0 cvi cr ncdl)) 0xff)"
  define area where "area = write_tuples (nvram_hash h) @ 0 # tail"
  have img: "commit_image h = header_bytes NVRAM_MAGIC (of_nat len) (cvi OR ucast crc) cr ncdl @ area"
    using img by (simp only: crc_def area_def)
  note low = header_crc [OF commit_words_low [OF w]]
  have fit: "h_offset h + length (commit_image h) \<le> length (h_mmap h)" using map len(1) by simp
  note get = get32_bcopy [OF fit, folded assms(2)]
  have size: "(20::nat) + length (write_tuples (nvram_hash h)) + 2 \<le> len" "len \<le> 32768"
    using len(2,3) by (simp_all add: HEADER_SIZE_def NVRAM_SPACE_def)
  have l32: "unat (of_nat len :: u32) = len"
    using size by (simp add: unsigned_of_nat take_bit_nat_eq_self)
  show "length m = length (h_mmap h)" unfolding assms(2) using fit by (rule length_bcopy)
  then show "i < length m \<Longrightarrow> i < h_offset h \<or> h_offset h + NVRAM_SPACE \<le> i \<Longrightarrow> m ! i = h_mmap h ! i"
    using nth_bcopy [OF fit] len(1) unfolding assms(2) by auto
  show "get32 (h_offset h) m = NVRAM_MAGIC"
    using get [of 0] len(1) by (simp add: img get32_header NVRAM_SPACE_def)
  have g4: "get32 (h_offset h + 4) m = of_nat len"
    using get [of 4] len(1) by (simp add: img get32_header NVRAM_SPACE_def)
  then show "unat (get32 (h_offset h + 4) m) \<le> NVRAM_SPACE" "9 \<le> unat (get32 (h_offset h + 4) m)"
    using len(3) l32 size(1) by simp_all
  have dr: "drop (h_offset h + k) m = drop k (commit_image h) @ drop (h_offset h + NVRAM_SPACE) (h_mmap h)"
    if "k \<le> NVRAM_SPACE" for k
    using drop_bcopy [OF fit, of k] that len(1) unfolding assms(2) by simp
  show "\<exists>tail. drop (h_offset h + HEADER_SIZE) m = write_tuples (nvram_hash h) @ 0 # tail"
    using dr [of HEADER_SIZE] by (simp add: img area_def HEADER_SIZE_def NVRAM_SPACE_def)
  show "\<exists>cvi cr ncdl. commit_words h = (cvi, cr, ncdl) \<and> drop_bit 16 (get32 (h_offset h + 8) m) = drop_bit 16 cvi
      \<and> get32 (h_offset h + 12) m = cr \<and> get32 (h_offset h + 16) m = ncdl"
  proof (intro exI conjI)
    show "commit_words h = (cvi, cr, ncdl)" by (rule w)
    have "drop_bit 16 (cvi OR ucast crc) = drop_bit 16 cvi"
      by (rule bit_word_eqI) (auto simp: bit_simps)
    then show "drop_bit 16 (get32 (h_offset h + 8) m) = drop_bit 16 cvi"
      using get [of 8] len(1) by (simp add: img get32_header NVRAM_SPACE_def)
    show "get32 (h_offset h + 12) m = cr"
      using get [of 12] len(1) by (simp add: img get32_header NVRAM_SPACE_def)
    show "get32 (h_offset h + 16) m = ncdl"
      using get [of 16] len(1) by (simp add: img get32_header NVRAM_SPACE_def)
  qed
  have "slice (h_offset h + 9) (len - 9) m = take (len - 9) (drop 9 (commit_image h))"
    using dr [of 9] len(1) size by (simp add: slice_def NVRAM_SPACE_def)
  also have "\<dots> = drop 9 (header_bytes 0 0 cvi cr ncdl) @ take (len - HEADER_SIZE) area"
    using size by (simp add: img low(1) HEADER_SIZE_def)
  finally have "hndcrc8 (slice (h_offset h + 9) (len - 9) m) 0xff = crc"
    by (simp add: crc_append crc_def area_def)
  moreover have "m ! (h_offset h + 8) = crc"
    using nth_bcopy [OF fit, of "h_offset h + 8"] map len(1) low(2)
    unfolding assms(2) by (simp add: img nth_append HEADER_SIZE_def NVRAM_SPACE_def)
  ultimately show "hndcrc8 (slice (h_offset h + 9) (unat (get32 (h_offset h + 4) m) - 9) m) 0xff = m ! (h_offset h + 8)"
    by (simp add: g4 l32)
qed

section \<open>Reading an image back\<close>

lemma set_default_map:
  assumes "nv_ok h" and "value_fits v"
  shows "nv_ok (set_default n v h) \<and> nv_map (set_default n v h) = [n \<mapsto> v] ++ nv_map h
    \<and> h_mmap (set_default n v h) = h_mmap h \<and> h_offset (set_default n v h) = h_offset h"
proof (cases "nv_map h n")
  case None
  obtain h' where "nvram_set h n v = (0, h')" "nv_ok h'" "nv_map h' = (nv_map h)(n \<mapsto> v)"
    "h_mmap h' = h_mmap h" "h_offset h' = h_offset h"
    using nvram_set_map [OF assms, of n] by blast
  moreover have "(nv_map h)(n \<mapsto> v) = [n \<mapsto> v] ++ nv_map h"
    using None by (auto simp: map_add_def fun_eq_iff split: option.split)
  ultimately show ?thesis using None assms(1) by (simp add: set_default_def nvram_get_map)
next
  case (Some w)
  then have "nv_map h = [n \<mapsto> v] ++ nv_map h"
    by (auto simp: map_add_def fun_eq_iff split: option.split)
  then show ?thesis using Some assms(1) by (simp add: set_default_def nvram_get_map)
qed

lemma hexU_fits [simp]: "value_fits (hexU4 a)" "value_fits (hexU8 b)"
  by (simp_all add: value_fits_def hexU4_def hexU8_def NVRAM_SPACE_def)

text \<open>The SDRAM parameters of the header of an image.\<close>

definition sdram_map :: "u32 \<Rightarrow> u32 \<Rightarrow> u32 \<Rightarrow> string \<rightharpoonup> string" where
  "sdram_map cvi cr ncdl = [''sdram_ncdl'' \<mapsto> hexU8 ncdl]
     ++ ([''sdram_refresh'' \<mapsto> hexU4 (ucast (drop_bit 16 cr AND 0xffff))]
     ++ ([''sdram_config'' \<mapsto> hexU4 (ucast (cr AND 0xffff))]
     ++ [''sdram_init'' \<mapsto> hexU4 (ucast (drop_bit 16 cvi))]))"

lemma rehash_map:
  assumes data: "drop (h_offset h + HEADER_SIZE) (h_mmap h) = concat (map nv_entry ts) @ 0 # tail"
    and ts: "\<forall>t \<in> set ts. nv_plain t \<and> value_fits (t_value t)" "distinct (map t_name ts)"
  shows "\<exists>h'. nvram_rehash h = Some (0, h') \<and> nv_ok h' \<and> h_mmap h' = h_mmap h \<and> h_offset h' = h_offset h
    \<and> nv_map h' = sdram_map (hdr_crc_ver_init h) (hdr_config_refresh h) (hdr_config_ncdl h) ++ map_of (pairs ts)"
proof -
  define h1 where "h1 = fold put_tuple ts (nvram_free h)"
  have p: "nv_parse (drop (h_offset h + HEADER_SIZE) (h_mmap h)) (nvram_free h) = Some h1"
    unfolding data h1_def using ts(1) by (intro nv_parse_entries) simp
  have h1: "nv_ok h1" "nv_map h1 = map_of (pairs ts)" "h_mmap h1 = h_mmap h" "h_offset h1 = h_offset h"
    using fold_put_tuple [of "nvram_free h" ts] nvram_free_map [of h] ts fold_put_frame [of ts "nvram_free h"]
    by (simp_all add: h1_def nvram_free_def)
  define h2 where "h2 = set_default ''sdram_init'' (hexU4 (ucast (drop_bit 16 (hdr_crc_ver_init h)))) h1"
  define h3 where "h3 = set_default ''sdram_config'' (hexU4 (ucast (hdr_config_refresh h AND 0xffff))) h2"
  define h4 where "h4 = set_default ''sdram_refresh'' (hexU4 (ucast (drop_bit 16 (hdr_config_refresh h) AND 0xffff))) h3"
  define h5 where "h5 = set_default ''sdram_ncdl'' (hexU8 (hdr_config_ncdl h)) h4"
  note d2 = set_default_map [OF h1(1) hexU_fits(1), of "''sdram_init''"
      "ucast (drop_bit 16 (hdr_crc_ver_init h))", folded h2_def]
  note d3 = set_default_map [OF d2 [THEN conjunct1] hexU_fits(1), of "''sdram_config''"
      "ucast (hdr_config_refresh h AND 0xffff)", folded h3_def]
  note d4 = set_default_map [OF d3 [THEN conjunct1] hexU_fits(1), of "''sdram_refresh''"
      "ucast (drop_bit 16 (hdr_config_refresh h) AND 0xffff)", folded h4_def]
  note d5 = set_default_map [OF d4 [THEN conjunct1] hexU_fits(2), of "''sdram_ncdl''"
      "hdr_config_ncdl h", folded h5_def]
  have "nvram_rehash h = Some (0, h5)"
    unfolding nvram_rehash_def p option.case Let_def h2_def [symmetric] h3_def [symmetric]
      h4_def [symmetric] h5_def [symmetric] ..
  moreover have "nv_map h5 = sdram_map (hdr_crc_ver_init h) (hdr_config_refresh h) (hdr_config_ncdl h) ++ map_of (pairs ts)"
    using d2 d3 d4 d5 unfolding sdram_map_def h1(2) by (simp only: map_add_assoc)
  moreover have "nv_ok h5 \<and> h_mmap h5 = h_mmap h \<and> h_offset h5 = h_offset h"
    using d2 d3 d4 d5 unfolding h1(3,4) by metis
  ultimately show ?thesis by blast
qed

text \<open>Reading depends on the mapping only, not on the table before.\<close>

lemma rehash_mapping:
  assumes "h_mmap h = h_mmap g" and "h_offset h = h_offset g"
  shows "nvram_rehash h = nvram_rehash g"
proof -
  have "nvram_free h = nvram_free g" using assms by (cases h; cases g) (simp add: nvram_free_def)
  then show ?thesis
    using assms by (simp only: nvram_rehash_def hdr_crc_ver_init_def hdr_config_refresh_def hdr_config_ncdl_def)
qed

section \<open>The search for the header\<close>

lemma find_magic_Some:
  "find_magic m bound i = Some (Some off) \<Longrightarrow>
     \<exists>k. off = 4 * k \<and> i \<le> k \<and> k \<le> bound \<and> 4 * k + 4 \<le> length m"
proof (induction m bound i rule: find_magic.induct)
  case (1 m bound i)
  show ?case
    using 1(2) 1(1) by (subst (asm) find_magic.simps) (fastforce split: if_splits)
qed

lemma find_magic_same:
  assumes "find_magic m bound i = Some (Some off)" and "length m' = length m"
    and "\<And>j. j < off \<Longrightarrow> m' ! j = m ! j" and "get32 off m' = NVRAM_MAGIC"
  shows "find_magic m' bound i = Some (Some off)"
  using assms
proof (induction m bound i rule: find_magic.induct)
  case (1 m bound i)
  obtain k where k: "off = 4 * k" "i \<le> k" using find_magic_Some [OF 1(2)] by blast
  show ?case
  proof (cases "i = k")
    case True
    then show ?thesis
      using 1(2,3,5) k by (subst find_magic.simps, subst (asm) find_magic.simps) (auto split: if_splits)
  next
    case False
    then have w: "get32 (4 * i) m' = get32 (4 * i) m" using 1(4) k by (simp add: get32_def)
    have n: "get32 (4 * i) m \<noteq> NVRAM_MAGIC" "\<not> bound < i" "\<not> length m < 4 * i + 4"
      "find_magic m bound (Suc i) = Some (Some off)"
      using 1(2) False k by (subst (asm) find_magic.simps, auto split: if_splits)+
    have "find_magic m' bound (Suc i) = Some (Some off)"
      using n 1(3-5) by (intro 1(1)) auto
    then show ?thesis using n w 1(3) by (subst find_magic.simps) simp
  qed
qed

section \<open>Committing\<close>

text \<open>A handle as \<open>nvram_open\<close> returns it, with the edits made since.\<close>

definition nv_opened :: "u32 \<Rightarrow> nvram_handle \<Rightarrow> bool" where
  "nv_opened esz h \<longleftrightarrow> nv_ok h \<and> length (h_mmap h) = unat esz \<and> NVRAM_SPACE \<le> unat esz
     \<and> find_magic (h_mmap h) (unat ((esz - of_nat NVRAM_SPACE) div 4)) 0 = Some (Some (h_offset h))"

lemma nv_opened_mapped: "nv_opened esz h \<Longrightarrow> nv_mapped h"
proof -
  assume o: "nv_opened esz h"
  then have esz: "NVRAM_SPACE \<le> unat esz" "length (h_mmap h) = unat esz" by (simp_all add: nv_opened_def)
  obtain k where k: "h_offset h = 4 * k" "k \<le> unat ((esz - of_nat NVRAM_SPACE) div 4)"
    using find_magic_Some o unfolding nv_opened_def by blast
  have s: "unat (of_nat NVRAM_SPACE :: u32) = NVRAM_SPACE"
    by (simp add: NVRAM_SPACE_def)
  then have "(of_nat NVRAM_SPACE :: u32) \<le> esz" using esz(1) by (simp add: word_le_nat_alt)
  then have "unat (esz - of_nat NVRAM_SPACE) = unat esz - NVRAM_SPACE"
    using s by (simp add: unat_sub)
  then have "k \<le> (unat esz - NVRAM_SPACE) div 4" using k(2) by (simp add: unat_div)
  then have "4 * k + NVRAM_SPACE \<le> unat esz" using esz(1) by linarith
  then show ?thesis using esz k by (simp add: nv_mapped_def)
qed

text \<open>The SDRAM parameters that are taken when one of them is not set.\<close>

definition sdram_defaults :: "string \<rightharpoonup> string" where
  "sdram_defaults = [''sdram_ncdl'' \<mapsto> ''0x00000000'', ''sdram_refresh'' \<mapsto> ''0x8040'',
     ''sdram_config'' \<mapsto> ''0x0000'', ''sdram_init'' \<mapsto> ''0x0419'']"

lemma sdram_map_default:
  "drop_bit 16 c = drop_bit 16 (push_bit 8 NVRAM_VERSION OR push_bit 16 SDRAM_INIT) \<Longrightarrow>
     sdram_map c (SDRAM_CONFIG OR push_bit 16 SDRAM_REFRESH) 0 = sdram_defaults"
  by (rule ext) (simp add: sdram_map_def sdram_defaults_def NVRAM_VERSION_def SDRAM_INIT_def SDRAM_CONFIG_def
      SDRAM_REFRESH_def hexU4_def hexU8_def hexU_char_def map_add_def)

definition all_sdram :: "nvram_handle \<Rightarrow> bool" where
  "all_sdram h \<longleftrightarrow> {''sdram_init'', ''sdram_config'', ''sdram_refresh'', ''sdram_ncdl''} \<subseteq> dom (nv_map h)"

lemma commit_words_default:
  assumes "nv_ok h" and "\<not> all_sdram h"
  shows "commit_words h = (push_bit 8 NVRAM_VERSION OR push_bit 16 SDRAM_INIT,
    SDRAM_CONFIG OR push_bit 16 SDRAM_REFRESH, 0)"
  using assms(2) unfolding commit_words_def nvram_get_map [OF assms(1)] all_sdram_def
  by (auto simp: Let_def split: option.split)

lemma sdram_covered:
  assumes "all_sdram h"
  shows "sdram_map a b c ++ nv_map h = nv_map h" and "sdram_defaults ++ nv_map h = nv_map h"
proof -
  have *: "m ++ nv_map h = nv_map h" if "dom m \<subseteq> {''sdram_init'', ''sdram_config'', ''sdram_refresh'', ''sdram_ncdl''}"
    for m :: "string \<rightharpoonup> string"
  proof (rule ext)
    fix n
    show "(m ++ nv_map h) n = nv_map h n"
      using that assms unfolding all_sdram_def by (cases "nv_map h n") (auto simp: map_add_def)
  qed
  show "sdram_map a b c ++ nv_map h = nv_map h"
    by (rule *) (auto simp: sdram_map_def split: if_splits)
  show "sdram_defaults ++ nv_map h = nv_map h"
    by (rule *) (auto simp: sdram_defaults_def)
qed

lemma room_fits: "nv_room h \<Longrightarrow> t \<in> set (nv_tuples h) \<Longrightarrow> value_fits (t_value t)"
proof -
  assume r: "nv_room h" and t: "t \<in> set (nv_tuples h)"
  have "entry_size t \<le> nv_size (nv_tuples h)"
    using t unfolding nv_size_def by (intro member_le_sum_list) auto
  then show ?thesis using r by (simp add: nv_room_def value_fits_def entry_size_def NVRAM_SPACE_def)
qed

lemma commit_map:
  assumes op: "nv_opened esz h" and plain: "\<forall>t \<in> set (nv_tuples h). nv_plain t" and room: "nv_room h"
  shows "\<exists>h'. nvram_commit h = Some (0, h') \<and> nv_opened esz h'
    \<and> (\<forall>rest. nvram_open esz (Some (h_mmap h' @ rest)) = Some (Some h')) \<and> nv_map h' = sdram_defaults ++ nv_map h"
proof -
  have ok: "nv_ok h" using op by (simp add: nv_opened_def)
  define m where "m = bcopy (commit_image h) (h_offset h) (h_mmap h)"
  define g where "g = h\<lparr>h_mmap := m\<rparr>"
  note f = commit_format [OF nv_opened_mapped [OF op] m_def]
  obtain cvi cr ncdl where w: "commit_words h = (cvi, cr, ncdl)"
    "drop_bit 16 (get32 (h_offset h + 8) m) = drop_bit 16 cvi"
    "get32 (h_offset h + 12) m = cr" "get32 (h_offset h + 16) m = ncdl"
    using f(7) by blast
  have "write_tuples (nvram_hash h) = concat (map nv_entry (nv_tuples h))"
    using write_tuples_all [of "[]" "nvram_hash h"] room
    by (simp add: write_tuples_def nv_room_def nv_tuples_def)
  then obtain tail where tail: "drop (h_offset g + HEADER_SIZE) (h_mmap g) = concat (map nv_entry (nv_tuples h)) @ 0 # tail"
    using f(6) by (auto simp: g_def)
  obtain h' where h': "nvram_rehash g = Some (0, h')" "nv_ok h'" "h_mmap h' = m" "h_offset h' = h_offset h"
    "nv_map h' = sdram_map (get32 (h_offset h + 8) m) cr ncdl ++ nv_map h"
    using rehash_map [OF tail] plain room_fits [OF room] nv_distinct [OF ok] w
    by (auto simp: g_def hdr_crc_ver_init_def hdr_config_refresh_def hdr_config_ncdl_def nv_map_def)
  have "nv_map h' = sdram_defaults ++ nv_map h"
  proof (cases "all_sdram h")
    case True
    then show ?thesis unfolding h'(5) by (simp only: sdram_covered)
  next
    case False
    have "cvi = push_bit 8 NVRAM_VERSION OR push_bit 16 SDRAM_INIT"
      "cr = SDRAM_CONFIG OR push_bit 16 SDRAM_REFRESH" "ncdl = 0"
      using w(1) commit_words_default [OF ok False] by simp_all
    then show ?thesis unfolding h'(5) using w(2) by (simp only: sdram_map_default)
  qed
  moreover have c: "nvram_commit h = Some (0, h')"
    using h'(1) by (simp add: nvram_commit_def g_def m_def)
  moreover have o: "nv_opened esz h'"
  proof -
    have "find_magic m (unat ((esz - of_nat NVRAM_SPACE) div 4)) 0 = Some (Some (h_offset h))"
    proof (rule find_magic_same [OF _ f(1) _ f(3)])
      show "find_magic (h_mmap h) (unat ((esz - of_nat NVRAM_SPACE) div 4)) 0 = Some (Some (h_offset h))"
        using op unfolding nv_opened_def by blast
      show "m ! j = h_mmap h ! j" if "j < h_offset h" for j
        using that f(1,2) nv_opened_mapped [OF op] by (simp add: nv_mapped_def)
    qed
    then show ?thesis using op h'(2,3,4) f(1) unfolding nv_opened_def by metis
  qed
  moreover have "nvram_open esz (Some (m @ rest)) = Some (Some h')" for rest
  proof -
    have "length m = unat esz" using op f(1) by (simp add: nv_opened_def)
    moreover have "nvram_rehash \<lparr>h_mmap = m, h_offset = h_offset h, nvram_hash = replicate NVRAM_CHAINS [],
        nvram_dead = []\<rparr> = Some (0, h')"
      unfolding h'(1) [symmetric] by (rule rehash_mapping) (simp_all add: g_def)
    ultimately show ?thesis
      using o h'(3,4) by (simp add: nvram_open_def nv_opened_def)
  qed
  ultimately show ?thesis using h'(3) by blast
qed

section \<open>What does not fit\<close>

text \<open>The tuples that are written: those of every chain up to the first that does not fit.\<close>

lemma write_chain_kept:
  "\<exists>ks. write_chain ts out = out @ concat (map nv_entry ks) \<and> (\<exists>us. ts = ks @ us)"
proof (induction ts arbitrary: out)
  case (Cons t ts)
  show ?case
  proof (cases "HEADER_SIZE + length out + entry_size t > NVRAM_SPACE - 2")
    case True
    then show ?thesis by (intro exI [of _ "[]"]) (simp add: write_chain_Cons del: write_chain.simps(2))
  next
    case False
    obtain ks us where "write_chain ts (out @ nv_entry t) = (out @ nv_entry t) @ concat (map nv_entry ks)" "ts = ks @ us"
      using Cons by blast
    then show ?thesis
      using False by (intro exI [of _ "t # ks"]) (simp add: write_chain_Cons del: write_chain.simps(2))
  qed
qed simp

lemma write_tuples_kept:
  "\<exists>ks. foldl (\<lambda>out ts. write_chain ts out) out tss = out @ concat (map nv_entry ks)
     \<and> set ks \<subseteq> set (concat tss) \<and> (distinct (map t_name (concat tss)) \<longrightarrow> distinct (map t_name ks))"
proof (induction tss arbitrary: out)
  case (Cons ts tss)
  obtain ks us where k: "write_chain ts out = out @ concat (map nv_entry ks)" "ts = ks @ us"
    using write_chain_kept by blast
  obtain ls where l: "foldl (\<lambda>out ts. write_chain ts out) (out @ concat (map nv_entry ks)) tss
      = (out @ concat (map nv_entry ks)) @ concat (map nv_entry ls)"
    "set ls \<subseteq> set (concat tss)" "distinct (map t_name (concat tss)) \<longrightarrow> distinct (map t_name ls)"
    using Cons by blast
  have "distinct (map t_name (ks @ ls))" if "distinct (map t_name (concat (ts # tss)))"
    using that l(2,3) k(2) by (fastforce simp: image_iff)
  then show ?case
    using k l by (intro exI [of _ "ks @ ls"]) auto
qed simp

end
