(* ===== verification/Nvram_Cli.thy ===== *)
theory Nvram_Cli
  imports Nvram_Props
begin

text \<open>
  The \<open>nvram\<close> command (\<open>package/utils/nvram/src/cli.c\<close>) and the part of \<open>nvram.c\<close> it needs
  beside the table: the search for the partition and the staging file.

  The world is the text of \<open>/proc/diag/model\<close> and \<open>/proc/mtd\<close>, the block devices, and the
  staging file. Files that exist can be opened. \<open>None\<close> is a crash: an access outside of an
  array or mapping, a null pointer, or the use of a variable that was never set.
\<close>

record nv_world =
  w_model :: "string option"
  w_proc_mtd :: "string list option"
  w_dev :: "string \<rightharpoonup> buf"
  w_staging :: "buf option"

section \<open>The search for the partition\<close>

text \<open>
  \<open>sscanf(dev, "mtd%d: %08x", &i, &esz)\<close>: the values that were converted. The line is not
  exhausted before the first conversion, since it holds \<open>nvram\<close>. A number of at most eight
  hexadecimal digits is the value of \<open>strtoul\<close> on the first eight characters.
\<close>

definition scan_mtd :: "string \<Rightarrow> (int \<times> u32 option) option" where
  "scan_mtd line = (if take 3 line \<noteq> ''mtd'' then None
     else case strto_scan 10 (drop 3 line) of None \<Rightarrow> None
     | Some (neg, m, k) \<Rightarrow>
         let i = (if neg then - int m else int m); rest = drop (3 + k) line
         in if take 1 rest \<noteq> '':'' then Some (i, None)
            else case strto_scan 16 (take 8 (dropWhile isspace (drop 1 rest))) of None \<Rightarrow> Some (i, None)
            | Some (neg, e, k) \<Rightarrow> Some (i, Some (if neg then - of_nat e else of_nat e)))"

text \<open>
  The loop over \<open>/proc/mtd\<close>: \<open>esz\<close> is the variable that keeps its value from line to line. The
  result is the path, if any, and \<open>nvram_erase_size\<close>.
\<close>

fun scan_mtds :: "(string \<rightharpoonup> buf) \<Rightarrow> string list \<Rightarrow> u32 option \<Rightarrow> u32 \<Rightarrow> (string option \<times> u32) option" where
  "scan_mtds dev [] esz es = Some (None, es)"
| "scan_mtds dev (l # ls) esz es =
     (if strstr l ''nvram'' then
        (case scan_mtd l of None \<Rightarrow> scan_mtds dev ls esz es
         | Some (i, e) \<Rightarrow>
             let esz = (if e \<noteq> None then e else esz)
             in case esz of None \<Rightarrow> None
             | Some sz \<Rightarrow>
                 let p1 = ''/dev/mtdblock/'' @ show_int i; p2 = ''/dev/mtdblock'' @ show_int i
                 in if dev p1 \<noteq> None then Some (Some p1, sz)
                    else if dev p2 \<noteq> None then Some (Some p2, sz)
                    else scan_mtds dev ls esz sz)
      else scan_mtds dev ls esz es)"

definition nvram_find_mtd :: "nv_world \<Rightarrow> u32 \<Rightarrow> (string option \<times> u32) option" where
  "nvram_find_mtd w es =
     (let supported = (case w_model w of None \<Rightarrow> True
        | Some m \<Rightarrow> \<not> (m \<noteq> [] \<and> strncmp_eq m ''Netgear WGT634U'' 15))
      in if \<not> supported then Some (None, es)
         else case w_proc_mtd w of None \<Rightarrow> Some (None, es)
         | Some ls \<Rightarrow> scan_mtds (w_dev w) ls None es)"

section \<open>Staging\<close>

text \<open>The erase size is a global variable: it is passed on and handed back.\<close>

definition nvram_to_staging :: "nv_world \<Rightarrow> u32 \<Rightarrow> (int \<times> nv_world \<times> u32) option" where
  "nvram_to_staging w es = (case nvram_find_mtd w es of None \<Rightarrow> None
     | Some (mtd, es) \<Rightarrow> Some (case mtd of
         None \<Rightarrow> (-1, w, es)
       | Some p \<Rightarrow>
           if es = 0 then (-1, w, es)
           else case w_dev w p of None \<Rightarrow> (-1, w, es)
           | Some f \<Rightarrow> if length f < unat es then (-1, w, es)
               else (0, w\<lparr>w_staging := Some (take (unat es) f
                      @ (case w_staging w of None \<Rightarrow> [] | Some s \<Rightarrow> drop (unat es) s))\<rparr>, es)))"

text \<open>The device keeps its size: what does not fit is not written, and no error is noticed.\<close>

definition staging_to_nvram :: "nv_world \<Rightarrow> u32 \<Rightarrow> (int \<times> nv_world) option" where
  "staging_to_nvram w es = (case nvram_find_mtd w es of None \<Rightarrow> None
     | Some (mtd, es) \<Rightarrow> Some (case mtd of
         None \<Rightarrow> (-1, w)
       | Some p \<Rightarrow>
           if es = 0 then (-1, w)
           else case w_staging w of None \<Rightarrow> (-1, w)
           | Some s \<Rightarrow> if length s < unat es then (-1, w)
               else (case w_dev w p of None \<Rightarrow> (-1, w)
                 | Some f \<Rightarrow> (0, w\<lparr>w_dev := (w_dev w)(p \<mapsto> bcopy (take (min (unat es) (length f)) s) 0 f), w_staging := None\<rparr>))))"

text \<open>\<open>nvram_open\<close> looks for the partition only to learn the erase es.\<close>

definition open_file :: "nv_world \<Rightarrow> u32 \<Rightarrow> buf option \<Rightarrow> (nvram_handle option \<times> u32) option" where
  "open_file w es file =
     (if es = 0 then
        (case nvram_find_mtd w es of None \<Rightarrow> None
         | Some (mtd, es) \<Rightarrow>
             if mtd = None \<or> es = 0 then Some (None, es)
             else map_option (\<lambda>h. (h, es)) (nvram_open es file))
      else map_option (\<lambda>h. (h, es)) (nvram_open es file))"

definition nvram_open_rdonly :: "nv_world \<Rightarrow> (nvram_handle option \<times> u32) option" where
  "nvram_open_rdonly w = (case w_staging w of
       Some s \<Rightarrow> open_file w 0 (Some s)
     | None \<Rightarrow> (case nvram_find_mtd w 0 of None \<Rightarrow> None
         | Some (None, es) \<Rightarrow> Some (None, es)
         | Some (Some p, es) \<Rightarrow> open_file w es (w_dev w p)))"

definition nvram_open_staging :: "nv_world \<Rightarrow> (nvram_handle option \<times> nv_world \<times> u32) option" where
  "nvram_open_staging w =
     (let r = (if w_staging w \<noteq> None then Some (0, w, 0) else nvram_to_staging w 0)
      in case r of None \<Rightarrow> None
         | Some (st, w, es) \<Rightarrow>
             if st = 0 then map_option (\<lambda>(h, es). (h, w, es)) (open_file w es (w_staging w))
             else Some (None, w, es))"

section \<open>Commands\<close>

datatype nv_out = OutPair string string | OutValue string
  | OutInfo u32 u32 nat u8 u8 u8 u16 u16 u16 u32

definition do_show :: "nvram_handle \<Rightarrow> int \<times> nv_out list" where
  "do_show h = (let l = nvram_getall h
     in if l \<noteq> [] then (0, map (\<lambda>t. OutPair (t_name t) (t_value t)) l) else (1, []))"

definition do_get :: "nvram_handle \<Rightarrow> string \<Rightarrow> int \<times> nv_out list" where
  "do_get h var = (case nvram_get h var of Some v \<Rightarrow> (0, [OutValue v]) | None \<Rightarrow> (1, []))"

definition do_unset :: "nvram_handle \<Rightarrow> string \<Rightarrow> int \<times> nvram_handle" where
  "do_unset h var = nvram_unset h var"

definition do_set :: "nvram_handle \<Rightarrow> string \<Rightarrow> int \<times> nvram_handle" where
  "do_set h pair = (case strchr pair CHR ''='' of None \<Rightarrow> (1, h)
     | Some k \<Rightarrow> nvram_set h (take k pair) (drop (k + 1) pair))"

text \<open>The length is taken from the header as it is.\<close>

definition do_info :: "nvram_handle \<Rightarrow> (int \<times> nv_out list) option" where
  "do_info h =
     (let m = h_mmap h; off = h_offset h; len = get32 (off + 4) m;
          n = unat (len - of_nat NVRAM_CRC_START_POSITION);
          cvi = get32 (off + 8) m; cr = get32 (off + 12) m
      in if length m < off + NVRAM_CRC_START_POSITION + n then None
         else Some (0, [OutInfo (get32 off m) len off (ucast (cvi AND 0xFF))
           (hndcrc8 (slice (off + NVRAM_CRC_START_POSITION) n m) 0xff)
           (ucast (drop_bit 8 cvi AND 0xFF)) (ucast (drop_bit 16 cvi AND 0xFFFF))
           (ucast (cr AND 0xFFFF)) (ucast (drop_bit 16 cr AND 0xFFFF)) (get32 (off + 16) m)]))"

section \<open>Main\<close>

text \<open>
  The first loop over the arguments. When \<open>set\<close> or \<open>unset\<close> is the last one, \<open>i\<close> has been moved
  past the end and the next comparison gets the null pointer there.
\<close>

fun wants_write :: "string list \<Rightarrow> bool option" where
  "wants_write [] = Some False"
| "wants_write (a # as) =
     (if a = ''set'' then (if as = [] then None else Some True)
      else if a = ''unset'' then (if as = [] then None else Some True)
      else if a = ''commit'' then Some True
      else wants_write as)"

record nv_run =
  r_stat :: int
  r_commit :: bool
  r_done :: nat
  r_out :: "nv_out list"
  r_handle :: nvram_handle

text \<open>The second loop; \<open>done\<close> is set back by a mistake, which also ends it.\<close>

fun nv_loop :: "string list \<Rightarrow> nv_run \<Rightarrow> nv_run option" where
  "nv_loop [] r = Some r"
| "nv_loop (a # as) r =
     (if a = ''show'' then
        let (st, out) = do_show (r_handle r)
        in nv_loop as (r\<lparr>r_stat := st, r_out := r_out r @ out, r_done := r_done r + 1\<rparr>)
      else if a = ''info'' then
        (case do_info (r_handle r) of None \<Rightarrow> None
         | Some (st, out) \<Rightarrow> nv_loop as (r\<lparr>r_stat := st, r_out := r_out r @ out, r_done := r_done r + 1\<rparr>))
      else if a = ''get'' \<or> a = ''unset'' \<or> a = ''set'' then
        (case as of [] \<Rightarrow> Some (r\<lparr>r_done := 0\<rparr>)
         | x # as' \<Rightarrow>
             let r' = (if a = ''get'' then
                  let (st, out) = do_get (r_handle r) x in r\<lparr>r_stat := st, r_out := r_out r @ out\<rparr>
                else if a = ''unset'' then
                  let (st, h) = do_unset (r_handle r) x in r\<lparr>r_stat := st, r_handle := h\<rparr>
                else
                  let (st, h) = do_set (r_handle r) x in r\<lparr>r_stat := st, r_handle := h\<rparr>)
             in nv_loop as' (r'\<lparr>r_done := r_done r' + 1\<rparr>))
      else if a = ''commit'' then nv_loop as (r\<lparr>r_commit := True, r_done := r_done r + 1\<rparr>)
      else Some (r\<lparr>r_done := 0\<rparr>))"

text \<open>
  The exit status, what is printed and the world after the run. A handle that was opened for
  writing is a shared mapping of the staging file.
\<close>

definition nv_finish :: "bool \<Rightarrow> nv_world \<Rightarrow> u32 \<Rightarrow> nv_run \<Rightarrow> (int \<times> nv_out list \<times> nv_world) option" where
  "nv_finish write w es r =
     (let r1 = (if write then map_option (\<lambda>(st, h). r\<lparr>r_stat := st, r_handle := h\<rparr>) (nvram_commit (r_handle r))
                else Some r)
      in case r1 of None \<Rightarrow> None
         | Some r \<Rightarrow>
             let w = (if write then w\<lparr>w_staging := map_option (\<lambda>s. h_mmap (r_handle r) @ drop (unat es) s) (w_staging w)\<rparr>
                      else w);
                 r2 = (if r_commit r then staging_to_nvram w es
                       else Some (r_stat r, w))
             in map_option (\<lambda>(st, w). (if r_done r = 0 then 1 else st, r_out r, w)) r2)"

definition nvram_main :: "string list \<Rightarrow> nv_world \<Rightarrow> (int \<times> nv_out list \<times> nv_world) option" where
  "nvram_main as w = (case wants_write as of None \<Rightarrow> None
     | Some write \<Rightarrow>
         case (if write then nvram_open_staging w
               else map_option (\<lambda>(h, es). (h, w, es)) (nvram_open_rdonly w)) of
           None \<Rightarrow> None
         | Some (None, w, es) \<Rightarrow> Some (1, [], w)
         | Some (Some h, w, es) \<Rightarrow>
             let r = \<lparr>r_stat = 1, r_commit = False, r_done = 0, r_out = [], r_handle = h\<rparr>
             in if as = [] then Some (1, [], w)
                else case nv_loop as r of None \<Rightarrow> None
                | Some r \<Rightarrow> nv_finish write w es r)"

end
