(* ===== verification/Nvram_Cli_Props.thy ===== *)
theory Nvram_Cli_Props
  imports Nvram_Cli
begin

text \<open>
  Runs of the \<open>nvram\<close> command: what one run sets the next one gets, and the errors that the
  exit status does not show.
\<close>

section \<open>Opening\<close>

text \<open>Names and values that the format can hold, as a property of the map.\<close>

definition nv_clean :: "nvram_handle \<Rightarrow> bool" where
  "nv_clean h \<longleftrightarrow> (\<forall>n v. nv_map h n = Some v \<longrightarrow> nv_plain \<lparr>t_name = n, t_value = v\<rparr>)"

lemma tuple_collapse [simp]: "\<lparr>t_name = t_name t, t_value = t_value t\<rparr> = t"
  by (cases t) simp

lemma nv_map_tuple: "nv_ok h \<Longrightarrow> nv_map h n = Some v \<longleftrightarrow> \<lparr>t_name = n, t_value = v\<rparr> \<in> set (nv_tuples h)"
proof -
  assume ok: "nv_ok h"
  have "nv_map h n = Some v \<longleftrightarrow> (n, v) \<in> set (pairs (nv_tuples h))"
    unfolding nv_map_def using nv_distinct [OF ok] by (intro map_of_eq_Some_iff) simp
  moreover have "(\<exists>t \<in> set (nv_tuples h). t_name t = n \<and> t_value t = v) \<longleftrightarrow>
      \<lparr>t_name = n, t_value = v\<rparr> \<in> set (nv_tuples h)"
    by (metis nvram_tuple.select_convs tuple_collapse)
  ultimately show ?thesis by (simp add: set_pairs)
qed

lemma clean_tuples: "nv_ok h \<Longrightarrow> nv_clean h \<Longrightarrow> \<forall>t \<in> set (nv_tuples h). nv_plain t"
proof
  fix t
  assume "nv_ok h" "nv_clean h" "t \<in> set (nv_tuples h)"
  then have "nv_map h (t_name t) = Some (t_value t)" by (simp add: nv_map_tuple)
  then have "nv_plain \<lparr>t_name = t_name t, t_value = t_value t\<rparr>" using \<open>nv_clean h\<close> unfolding nv_clean_def by blast
  then show "nv_plain t" by simp
qed

lemma clean_set:
  assumes "nv_ok h" and "nv_clean h" and "nv_plain \<lparr>t_name = n, t_value = v\<rparr>"
  shows "nv_ok (snd (nvram_set h n v)) \<and> nv_clean (snd (nvram_set h n v))
    \<and> h_mmap (snd (nvram_set h n v)) = h_mmap h \<and> h_offset (snd (nvram_set h n v)) = h_offset h"
proof (cases "value_fits v")
  case True
  obtain h' where "nvram_set h n v = (0, h')" "nv_ok h'" "nv_map h' = (nv_map h)(n \<mapsto> v)"
    "h_mmap h' = h_mmap h" "h_offset h' = h_offset h"
    using nvram_set_map [OF assms(1) True, of n] by blast
  then show ?thesis using assms(2,3) by (simp add: nv_clean_def)
next
  case False
  then show ?thesis using assms nvram_set_refused [OF False, of h n] by simp
qed

lemma clean_default:
  assumes "nv_ok h" and "nv_clean h" and "nv_plain \<lparr>t_name = n, t_value = v\<rparr>"
  shows "nv_ok (set_default n v h) \<and> nv_clean (set_default n v h)
    \<and> h_mmap (set_default n v h) = h_mmap h \<and> h_offset (set_default n v h) = h_offset h"
  using clean_set [OF assms] assms(1,2) by (simp add: set_default_def)

lemma to_char_0 [simp]: "to_char b = CHR 0x00 \<longleftrightarrow> b = 0"
proof -
  have "b = 0" if "to_char b = CHR 0x00"
  proof -
    have "(of_char (to_char b) :: nat) = unat b" using u8_less [of b] by (simp add: to_char_def)
    then have "unat b = unat (0 :: u8)" using that by simp
    then show ?thesis by (simp only: word_unat_eq_iff)
  qed
  then show ?thesis by (auto simp: to_char_def char_of_def)
qed

lemma to_char_0' [simp]: "CHR 0x00 = to_char b \<longleftrightarrow> b = 0"
  by (metis to_char_0)

lemma nv_parse_step:
  assumes "data = b # bs" and "b \<noteq> 0" and "s = map to_char (takeWhile (\<lambda>b. b \<noteq> 0) data)"
  shows "nv_parse data h = (if length s = length data then None
    else case strchr s CHR ''='' of None \<Rightarrow> Some h
    | Some k \<Rightarrow> nv_parse (drop (length s + 1) data) (snd (nvram_set h (take k s) (drop (k + 1) s))))"
proof -
  have "nv_parse data h = (case data of [] \<Rightarrow> None | b # _ \<Rightarrow> if b = 0 then Some h
      else if length s = length data then None
      else case strchr s CHR ''='' of None \<Rightarrow> Some h
      | Some k \<Rightarrow> nv_parse (drop (length s + 1) data) (snd (nvram_set h (take k s) (drop (k + 1) s))))"
    unfolding assms(3) by (subst nv_parse.simps) (simp only: Let_def)
  then show ?thesis unfolding assms(1) list.case if_not_P [OF assms(2)] .
qed

lemma parse_clean:
  "nv_parse data h = Some h' \<Longrightarrow> nv_ok h \<Longrightarrow> nv_clean h \<Longrightarrow>
     nv_ok h' \<and> nv_clean h' \<and> h_mmap h' = h_mmap h \<and> h_offset h' = h_offset h"
proof (induction data h rule: nv_parse.induct)
  case (1 data h)
  show ?case
  proof (cases data)
    case Nil
    then show ?thesis using 1(2) by (subst (asm) nv_parse.simps) simp
  next
    case (Cons b bs)
    define s where "s = map to_char (takeWhile (\<lambda>b. b \<noteq> 0) data)"
    show ?thesis
    proof (cases "b = 0")
      case True
      then have "nv_parse data h = Some h" using Cons by (simp add: nv_parse_end)
      then show ?thesis using 1(2-4) by simp
    next
      case False
      note st = nv_parse_step [OF Cons False s_def, of h]
      show ?thesis
      proof (cases "strchr s CHR ''=''")
        case None
        then show ?thesis using 1(2-4) unfolding st by (simp split: if_splits)
      next
        case (Some k)
        then have l: "length s \<noteq> length data"
          and p: "nv_parse (drop (length s + 1) data) (snd (nvram_set h (take k s) (drop (k + 1) s))) = Some h'"
          using 1(2) unfolding st by (simp_all split: if_splits)
        have "CHR 0x00 \<notin> set s" by (auto simp: s_def dest: set_takeWhileD)
        then have "nv_plain \<lparr>t_name = take k s, t_value = drop (k + 1) s\<rparr>"
          using strchr_split [OF Some] by (auto simp: nv_plain_def dest: in_set_takeD in_set_dropD)
        note cl = clean_set [OF 1(3,4) this]
        show ?thesis
          using 1(1) [OF Cons False s_def l Some p] cl by simp
      qed
    qed
  qed
qed

lemma hex_plain: "CHR 0x00 \<notin> set (hexU4 w)" "CHR 0x00 \<notin> set (hexU8 u)"
proof -
  have "hexU_char n \<noteq> CHR 0x00" if "n < 16" for n
    using that by (rule nibble_all) (simp add: upt_rec hexU_char_def)
  then have c: "hexU_char (x mod 16) \<noteq> CHR 0x00" for x by simp
  show "CHR 0x00 \<notin> set (hexU4 w)" "CHR 0x00 \<notin> set (hexU8 u)"
    using c [symmetric] by (simp_all add: hexU4_def hexU8_def)
qed

lemma rehash_clean:
  assumes "nvram_rehash h = Some (st, h')"
  shows "st = 0 \<and> nv_ok h' \<and> nv_clean h' \<and> h_mmap h' = h_mmap h \<and> h_offset h' = h_offset h"
proof -
  obtain h1 where p: "nv_parse (drop (h_offset h + HEADER_SIZE) (h_mmap h)) (nvram_free h) = Some h1"
    using assms by (auto simp: nvram_rehash_def split: option.splits)
  have free: "nv_ok (nvram_free h)" "nv_clean (nvram_free h)"
    using nvram_free_map [of h] by (simp_all add: nv_clean_def)
  note h1 = parse_clean [OF p free]
  have pl: "nv_plain \<lparr>t_name = ''sdram_init'', t_value = hexU4 w\<rparr>" "nv_plain \<lparr>t_name = ''sdram_config'', t_value = hexU4 w\<rparr>"
    "nv_plain \<lparr>t_name = ''sdram_refresh'', t_value = hexU4 w\<rparr>" "nv_plain \<lparr>t_name = ''sdram_ncdl'', t_value = hexU8 u\<rparr>" for w u
    by (simp_all add: nv_plain_def hex_plain)
  note d1 = clean_default [OF _ _ pl(1)] and d2 = clean_default [OF _ _ pl(2)]
    and d3 = clean_default [OF _ _ pl(3)] and d4 = clean_default [OF _ _ pl(4)]
  show ?thesis
    using assms h1 unfolding nvram_rehash_def p option.case Let_def
    by (auto simp: d1 d2 d3 d4 nvram_free_def)
qed


lemma open_opened:
  assumes "nvram_open es (Some f) = Some (Some h)" and "NVRAM_SPACE \<le> unat es" and "unat es \<le> length f"
  shows "nv_opened es h \<and> nv_clean h \<and> h_mmap h = take (unat es) f"
proof -
  define m where "m = take (unat es) f"
  obtain off where off: "find_magic m (unat ((es - of_nat NVRAM_SPACE) div 4)) 0 = Some (Some off)"
    and r: "nvram_rehash \<lparr>h_mmap = m, h_offset = off, nvram_hash = replicate NVRAM_CHAINS [], nvram_dead = []\<rparr> = Some (0, h)"
    using assms(1) rehash_clean unfolding nvram_open_def m_def [symmetric] option.case Let_def
    by (auto split: option.splits)
  show ?thesis
    using rehash_clean [OF r] off assms(2,3) by (simp add: nv_opened_def m_def)
qed

section \<open>The world\<close>

lemma scan_mtds_dom:
  "(\<And>p. dev' p = None \<longleftrightarrow> dev p = None) \<Longrightarrow> scan_mtds dev' ls e n = scan_mtds dev ls e n"
  by (induction ls arbitrary: e n) (simp_all add: Let_def split: option.split)

lemma find_mtd_same:
  "w_model w' = w_model w \<Longrightarrow> w_proc_mtd w' = w_proc_mtd w \<Longrightarrow> (\<And>p. w_dev w' p = None \<longleftrightarrow> w_dev w p = None) \<Longrightarrow>
     nvram_find_mtd w' n = nvram_find_mtd w n"
proof -
  assume a: "w_model w' = w_model w" "w_proc_mtd w' = w_proc_mtd w" "\<And>p. w_dev w' p = None \<longleftrightarrow> w_dev w p = None"
  have "scan_mtds (w_dev w') ls e n = scan_mtds (w_dev w) ls e n" for ls e by (rule scan_mtds_dom) (rule a(3))
  then show ?thesis unfolding nvram_find_mtd_def a(1,2) by (simp only:)
qed

lemma scan_mtds_path: "scan_mtds dev ls e n = Some (Some p, es) \<Longrightarrow> dev p \<noteq> None"
  by (induction ls arbitrary: e n) (auto simp: Let_def split: if_splits option.splits)

lemma find_mtd_path: "nvram_find_mtd w n = Some (Some p, es) \<Longrightarrow> w_dev w p \<noteq> None"
  by (auto simp: nvram_find_mtd_def Let_def split: if_splits option.splits dest: scan_mtds_path)

lemma scan_mtds_start: "scan_mtds dev ls e n = Some (Some p, es) \<Longrightarrow> scan_mtds dev ls e k = Some (Some p, es)"
  by (induction ls arbitrary: e n k) (auto simp: Let_def split: if_splits option.splits)

lemma find_mtd_start: "nvram_find_mtd w n = Some (Some p, es) \<Longrightarrow> nvram_find_mtd w k = Some (Some p, es)"
  by (auto simp: nvram_find_mtd_def Let_def split: if_splits option.splits dest: scan_mtds_start)

lemma open_staging_inv:
  assumes "nvram_open_staging w = Some (Some h, w1, es)"
  shows "\<exists>s p. w_staging w1 = Some s \<and> nvram_find_mtd w1 0 = Some (Some p, es) \<and> es \<noteq> 0
    \<and> nvram_open es (Some s) = Some (Some h)"
proof (cases "w_staging w")
  case (Some s)
  then show ?thesis
    using assms by (auto simp: nvram_open_staging_def open_file_def split: option.splits if_splits)
next
  case None
  then obtain st size where t: "nvram_to_staging w 0 = Some (st, w1, size)" and st: "st = 0"
    and o: "open_file w1 size (w_staging w1) = Some (Some h, es)"
    using assms by (auto simp: nvram_open_staging_def split: option.splits if_splits)
  obtain p f where p: "nvram_find_mtd w 0 = Some (Some p, size)" "size \<noteq> 0"
    and w1: "w1 = w\<lparr>w_staging := Some (take (unat size) f)\<rparr>"
    using t st None by (auto simp: nvram_to_staging_def split: option.splits if_splits)
  have "nvram_find_mtd w1 0 = Some (Some p, size)"
    unfolding p(1) [symmetric] by (rule find_mtd_same) (simp_all add: w1)
  then show ?thesis using o p(2) by (auto simp: open_file_def w1)
qed

lemma open_staging_world:
  assumes "nvram_open_staging w = Some (h, w1, es)"
  shows "w_dev w1 = w_dev w \<and> w_model w1 = w_model w \<and> w_proc_mtd w1 = w_proc_mtd w"
proof -
  have "w_dev w2 = w_dev w \<and> w_model w2 = w_model w \<and> w_proc_mtd w2 = w_proc_mtd w"
    if "nvram_to_staging w 0 = Some (st, w2, e)" for st w2 e
    using that by (auto simp: nvram_to_staging_def split: option.splits if_splits)
  then show ?thesis
    using assms by (fastforce simp: nvram_open_staging_def split: option.splits if_splits)
qed

section \<open>Runs\<close>

definition pair_arg :: "string \<Rightarrow> string \<Rightarrow> string" where
  "pair_arg n v = n @ ''='' @ v"

lemma do_set_pair: "CHR ''='' \<notin> set n \<Longrightarrow> do_set h (pair_arg n v) = nvram_set h n v"
  by (simp add: do_set_def pair_arg_def strchr_append)

text \<open>What a run with \<open>get\<close> prints, given what the variable is.\<close>

definition get_result :: "string option \<Rightarrow> nv_world \<Rightarrow> int \<times> nv_out list \<times> nv_world" where
  "get_result r w = (case r of None \<Rightarrow> (1, [], w) | Some v \<Rightarrow> (0, [OutValue v], w))"

lemma get_run:
  assumes "m \<notin> {''set'', ''unset'', ''commit''}" and "nvram_open_rdonly w = Some (Some h, es)" and "nv_ok h"
  shows "nvram_main [''get'', m] w = Some (get_result (nv_map h m) w)"
  using assms
  by (cases "nv_map h m") (simp_all add: nvram_main_def do_get_def nv_finish_def nvram_get_map get_result_def)

text \<open>A run that sets a variable, and writes the staging file back when \<open>c\<close> holds.\<close>

definition set_args :: "string \<Rightarrow> string \<Rightarrow> bool \<Rightarrow> string list" where
  "set_args n v c = [''set'', pair_arg n v] @ (if c then [''commit''] else [])"

lemma set_loop:
  assumes "CHR ''='' \<notin> set n" and "nvram_set h n v = (st, h1)"
  shows "nv_loop (set_args n v c) \<lparr>r_stat = 1, r_commit = False, r_done = 0, r_out = [], r_handle = h\<rparr>
    = Some \<lparr>r_stat = st, r_commit = c, r_done = (if c then 2 else 1), r_out = [], r_handle = h1\<rparr>"
  using assms by (simp add: set_args_def do_set_pair)

lemma set_run:
  assumes op: "nvram_open_staging w = Some (Some h, w1, es)" and n: "CHR ''='' \<notin> set n"
    and set: "nvram_set h n v = (st, h1)" and co: "nvram_commit h1 = Some (0, h2)"
  defines "w2 \<equiv> w1\<lparr>w_staging := map_option (\<lambda>s. h_mmap h2 @ drop (unat es) s) (w_staging w1)\<rparr>"
  shows "nvram_main (set_args n v c) w = (if c then map_option (\<lambda>(st, w). (st, [], w)) (staging_to_nvram w2 es)
    else Some (0, [], w2))"
proof -
  have a: "wants_write (set_args n v c) = Some True" "set_args n v c \<noteq> []" by (simp_all add: set_args_def)
  have "nvram_main (set_args n v c) w = nv_finish True w1 es
      \<lparr>r_stat = st, r_commit = c, r_done = (if c then 2 else 1), r_out = [], r_handle = h1\<rparr>"
    by (simp only: nvram_main_def a op set_loop [OF n set] option.case prod.case if_True Let_def if_False simp_thms)
  also have "\<dots> = (if c then map_option (\<lambda>(st, w). (st, [], w)) (staging_to_nvram w2 es) else Some (0, [], w2))"
    by (simp add: nv_finish_def co w2_def case_prod_unfold)
  finally show ?thesis .
qed

lemma read_staging:
  assumes "nvram_find_mtd w 0 = Some (Some p, es)" and "es \<noteq> 0" and "w_staging w = Some s"
    and "nvram_open es (Some s) = Some (Some h)"
  shows "nvram_open_rdonly w = Some (Some h, es)"
  using assms by (simp add: nvram_open_rdonly_def open_file_def)

lemma read_device:
  assumes "nvram_find_mtd w 0 = Some (Some p, es)" and "es \<noteq> 0" and "w_staging w = None" and "w_dev w p = Some f"
    and "nvram_open es (Some f) = Some (Some h)"
  shows "nvram_open_rdonly w = Some (Some h, es)"
  using assms by (simp add: nvram_open_rdonly_def open_file_def)

text \<open>The partition that is found has at least the erase size that is listed for it.\<close>

definition device_whole :: "nv_world \<Rightarrow> bool" where
  "device_whole w \<longleftrightarrow> (\<forall>p es f. nvram_find_mtd w 0 = Some (Some p, es) \<longrightarrow> w_dev w p = Some f \<longrightarrow> unat es \<le> length f)"

text \<open>The run that sets the variable, and what can be read afterwards.\<close>

lemma set_then_read:
  assumes op: "nvram_open_staging w = Some (Some h, w1, es)" and len: "w_staging w1 = Some s" "unat es \<le> length s"
    and es: "NVRAM_SPACE \<le> unat es" and n: "CHR ''='' \<notin> set n" "CHR 0x00 \<notin> set n" "CHR 0x00 \<notin> set v"
    and room: "value_fits v" "nv_room (snd (nvram_set h n v))" and dev: "c \<longrightarrow> device_whole w"
  shows "\<exists>w2 h2. nvram_main (set_args n v c) w = Some (0, [], w2) \<and> nvram_open_rdonly w2 = Some (Some h2, es)
    \<and> nv_ok h2 \<and> nv_map h2 = sdram_defaults ++ (nv_map h)(n \<mapsto> v) \<and> (w_staging w2 = None \<longleftrightarrow> c)"
proof -
  obtain p where p: "nvram_find_mtd w1 0 = Some (Some p, es)" "es \<noteq> 0" and o: "nvram_open es (Some s) = Some (Some h)"
    using open_staging_inv [OF op] len(1) by auto
  have h: "nv_opened es h" "nv_clean h" using open_opened [OF o es len(2)] by blast+
  then have ok: "nv_ok h" by (simp add: nv_opened_def)
  obtain h1 where s1: "nvram_set h n v = (0, h1)" and h1: "nv_ok h1" "nv_map h1 = (nv_map h)(n \<mapsto> v)"
    and fr: "h_mmap h1 = h_mmap h" "h_offset h1 = h_offset h"
    using nvram_set_map [OF ok room(1), of n] by blast
  have cl: "nv_clean h1"
    using clean_set [OF ok h(2), of n v] n s1 by (simp add: nv_plain_def)
  have op1: "nv_opened es h1" using h(1) h1(1) fr by (simp add: nv_opened_def)
  obtain h2 where c2: "nvram_commit h1 = Some (0, h2)" and o2: "nv_opened es h2"
    and rd: "\<And>rest. nvram_open es (Some (h_mmap h2 @ rest)) = Some (Some h2)"
    and m2: "nv_map h2 = sdram_defaults ++ nv_map h1"
    using commit_map [OF op1 clean_tuples [OF h1(1) cl]] room(2) s1 by auto
  define w2 where "w2 = w1\<lparr>w_staging := map_option (\<lambda>s. h_mmap h2 @ drop (unat es) s) (w_staging w1)\<rparr>"
  note run = set_run [OF op n(1) s1 c2, folded w2_def, of c]
  have st: "w_staging w2 = Some (h_mmap h2 @ drop (unat es) s)" by (simp add: w2_def len(1))
  have p2: "nvram_find_mtd w2 k = Some (Some p, es)" for k
    using find_mtd_same [of w2 w1 0] p(1) find_mtd_start [of w2 0 p es k] by (simp add: w2_def)
  have l2: "length (h_mmap h2) = unat es" using o2 by (simp add: nv_opened_def)
  show ?thesis
  proof (cases c)
    case False
    have "nvram_open_rdonly w2 = Some (Some h2, es)" using read_staging [OF p2 p(2) st rd] .
    then show ?thesis using run False o2 m2 h1(2) st by (auto simp: nv_opened_def)
  next
    case True
    obtain f where f: "w_dev w2 p = Some f" using find_mtd_path [OF p2] by auto
    note ww = open_staging_world [OF op]
    have same: "w_dev w1 = w_dev w" using ww by simp
    have "nvram_find_mtd w1 0 = nvram_find_mtd w 0" by (rule find_mtd_same) (use ww in simp_all)
    then have "nvram_find_mtd w 0 = Some (Some p, es)" "w_dev w p = Some f"
      using p(1) f same by (simp_all add: w2_def)
    moreover have "device_whole w" using dev True by simp
    ultimately have lf: "unat es \<le> length f" unfolding device_whole_def by blast
    define w3 where "w3 = w2\<lparr>w_dev := (w_dev w2)(p \<mapsto> h_mmap h2 @ drop (unat es) f), w_staging := None\<rparr>"
    have "staging_to_nvram w2 es = Some (0, w3)"
      using p(2) l2 lf by (simp add: staging_to_nvram_def p2 st f w3_def bcopy_def min_absorb1)
    then have main: "nvram_main (set_args n v c) w = Some (0, [], w3)" using run True by simp
    have "nvram_find_mtd w3 0 = Some (Some p, es)"
      using find_mtd_same [of w3 w2 0] p2 f by (simp add: w3_def)
    then have "nvram_open_rdonly w3 = Some (Some h2, es)"
      by (rule read_device [OF _ p(2) _ _ rd]) (simp_all add: w3_def)
    then show ?thesis using main True o2 m2 h1(2) by (auto simp: nv_opened_def w3_def)
  qed
qed

section \<open>Properties\<close>

text \<open>(C15)
  The hash table is a map: after any sequence of sets and removals, those with a value that is
  too long included, a look-up in the chain of a name returns what the last edit of the name
  says, and the list of all variables has each of them once, with that value.
\<close>

theorem table_refines_map:
  assumes "nv_ok h"
  shows "let h' = fold nvs.step es h in
    nv_ok h' \<and> nvram_get h' = fold (edit_map value_fits) es (nvram_get h)
    \<and> distinct (map t_name (nvram_getall h')) \<and> map_of (pairs (nvram_getall h')) = nvram_get h'"
proof -
  have h': "nv_ok (fold nvs.step es h)" "nvram_get (fold nvs.step es h) = fold (edit_map value_fits) es (nvram_get h)"
    using nvs.steps [OF assms] by blast+
  have d: "distinct (map t_name (nv_tuples (fold nvs.step es h)))" using nv_distinct [OF h'(1)] .
  have "pairs (rev ts) = rev (pairs ts)" for ts by (simp add: pairs_def rev_map)
  then have "map_of (pairs (nvram_getall (fold nvs.step es h))) = nv_map (fold nvs.step es h)"
    using d by (simp add: getall_rev nv_map_def map_of_inject_set rev_map [symmetric])
  then show ?thesis
    using h' d by (simp add: Let_def nvram_get_map getall_rev rev_map [symmetric])
qed

text \<open>(C14)
  Committing and reading back: when the variables fit, the commit succeeds, and both the handle
  and every file that starts with the new mapping have the same variables as before, with the
  defaults for SDRAM parameters that were not set.
\<close>

theorem commit_roundtrip:
  assumes "nv_opened es h" and "nv_clean h" and "nv_room h"
  shows "\<exists>h'. nvram_commit h = Some (0, h') \<and> (\<forall>rest. nvram_open es (Some (h_mmap h' @ rest)) = Some (Some h'))
    \<and> nvram_get h' = sdram_defaults ++ nvram_get h"
proof -
  have "nv_ok h" using assms(1) by (simp add: nv_opened_def)
  then show ?thesis
    using commit_map [OF assms(1) clean_tuples [OF _ assms(2)] assms(3)]
    by (auto simp: nv_opened_def nvram_get_map)
qed

text \<open>(C17)
  A commit writes inside the partition only, whatever the variables are, and leaves a header
  with the magic number and a length that does not exceed the partition.
\<close>

theorem commit_stays_inside:
  assumes "nv_mapped h" and "nvram_commit h = Some (st, h')"
  shows "length (h_mmap h') = length (h_mmap h)
    \<and> (\<forall>i < length (h_mmap h). i < h_offset h \<or> h_offset h + NVRAM_SPACE \<le> i \<longrightarrow> h_mmap h' ! i = h_mmap h ! i)
    \<and> get32 (h_offset h) (h_mmap h') = NVRAM_MAGIC \<and> unat (nv_len h') \<le> NVRAM_SPACE"
proof -
  have m: "h_mmap h' = bcopy (commit_image h) (h_offset h) (h_mmap h)" "h_offset h' = h_offset h"
    using assms(2) rehash_clean unfolding nvram_commit_def by fastforce+
  note f = commit_format [OF assms(1) m(1)]
  show ?thesis using f(1-4) by (simp add: nv_len_def m(2))
qed

text \<open>The stored and the calculated checksum that \<open>info\<close> prints.\<close>

fun shown_crcs :: "(int \<times> nv_out list) option \<Rightarrow> (u8 \<times> u8) option" where
  "shown_crcs (Some (st, [OutInfo mg l off s c v i cf r n])) = Some (s, c)"
| "shown_crcs r = None"

lemma info_shows:
  assumes "nv_mapped h" and "9 \<le> unat (nv_len h)" and "unat (nv_len h) \<le> NVRAM_SPACE"
  shows "shown_crcs (do_info h) = Some (stored_crc h, calc_crc h)"
proof -
  have "(9 :: u32) \<le> nv_len h" using assms(2) by (simp add: word_le_nat_alt)
  then have n: "unat (nv_len h - 9) = unat (nv_len h) - 9" by (simp add: unat_sub)
  have "\<not> length (h_mmap h) < h_offset h + 9 + (unat (nv_len h) - 9)"
    using assms by (simp add: nv_mapped_def)
  moreover have "(ucast (get32 off m AND 0xFF) :: u8) = m ! off" for off m
  proof (rule bit_word_eqI)
    fix k
    assume k: "k < LENGTH(8)"
    have "(get32 off m AND 0xFF) = take_bit 8 (get32 off m)"
      by (simp add: take_bit_eq_mask mask_eq_exp_minus_1)
    then show "bit (ucast (get32 off m AND 0xFF) :: u8) k = bit (m ! off) k"
      using k by (simp add: get32_def bit_simps)
  qed
  ultimately show ?thesis
    using n unfolding do_info_def Let_def NVRAM_CRC_START_POSITION_def
    by (simp add: nv_len_def [symmetric] stored_crc_def calc_crc_def)
qed

text \<open>(C16)
  After a commit \<open>info\<close> shows the same value for the stored and the calculated checksum; when any one
  byte that the checksum covers is changed, it shows different ones.
\<close>

theorem info_finds_changes:
  assumes "nv_mapped h" and "nvram_commit h = Some (st, h1)"
  shows "(\<exists>c. shown_crcs (do_info h1) = Some (c, c))
    \<and> (\<forall>i b. h_offset h + 9 \<le> i \<and> i < h_offset h + unat (nv_len h1) \<and> b \<noteq> h_mmap h1 ! i \<longrightarrow>
        (\<exists>s c. shown_crcs (do_info (h1\<lparr>h_mmap := (h_mmap h1)[i := b]\<rparr>)) = Some (s, c) \<and> s \<noteq> c))"
proof -
  have m: "h_mmap h1 = bcopy (commit_image h) (h_offset h) (h_mmap h)" "h_offset h1 = h_offset h"
    using assms(2) rehash_clean unfolding nvram_commit_def by fastforce+
  note f = commit_format [OF assms(1) m(1)]
  have mp: "nv_mapped h1" using assms(1) f(1) m(2) by (simp add: nv_mapped_def)
  have len: "9 \<le> unat (nv_len h1)" "unat (nv_len h1) \<le> NVRAM_SPACE"
    using f(4) f(8) by (simp_all add: nv_len_def m(2))
  have eq: "calc_crc h1 = stored_crc h1"
    using f(5) by (simp add: calc_crc_def stored_crc_def nv_len_def m(2))
  have "shown_crcs (do_info g) = Some (stored_crc g, calc_crc g) \<and> stored_crc g \<noteq> calc_crc g"
    if i: "h_offset h + 9 \<le> i" "i < h_offset h + unat (nv_len h1)" "b \<noteq> h_mmap h1 ! i"
      and g: "g = h1\<lparr>h_mmap := (h_mmap h1)[i := b]\<rparr>" for g i b
  proof -
    have l: "nv_len g = nv_len h1" using i(1) by (simp add: nv_len_def g m(2) get32_def)
    have mg: "nv_mapped g" using mp by (simp add: nv_mapped_def g)
    have in_map: "h_offset h + unat (nv_len h1) \<le> length (h_mmap h1)"
      using mp len(2) by (simp add: nv_mapped_def m(2))
    define k where "k = i - (h_offset h + 9)"
    define xs where "xs = slice (h_offset h + 9) (unat (nv_len h1) - 9) (h_mmap h1)"
    have lx: "length xs = unat (nv_len h1) - 9" using in_map len(1) by (simp add: xs_def slice_def)
    have "slice (h_offset h + 9) (unat (nv_len h1) - 9) ((h_mmap h1)[i := b]) = xs[k := b]"
      using i in_map len(1)
      by (intro nth_equalityI) (auto simp: xs_def slice_def k_def nth_list_update)
    moreover have "b \<noteq> xs ! k" "k < length xs"
      using i in_map lx len(1) by (simp_all add: xs_def slice_def k_def)
    ultimately have "calc_crc g \<noteq> calc_crc h1"
      using crc_update [where i = k and bs = xs and b = b and c = "0xff"] l by (simp add: calc_crc_def g m(2) xs_def)
    moreover have "stored_crc g = stored_crc h1" using i(1) by (simp add: stored_crc_def g m(2))
    ultimately show ?thesis using info_shows [OF mg] len l eq by simp
  qed
  then have "\<exists>s c. shown_crcs (do_info (h1\<lparr>h_mmap := (h_mmap h1)[i := b]\<rparr>)) = Some (s, c) \<and> s \<noteq> c"
    if "h_offset h + 9 \<le> i" "i < h_offset h + unat (nv_len h1)" "b \<noteq> h_mmap h1 ! i" for i b
    using that by blast
  moreover have "\<exists>c. shown_crcs (do_info h1) = Some (c, c)" using info_shows [OF mp len] eq by simp
  ultimately show ?thesis by blast
qed

text \<open>When the variables without the SDRAM parameters need more space than there is, the commit still
  ends with 0, and at least one variable is gone.
\<close>

theorem overfull_commit_loses:
  assumes "nv_opened es h" and "nv_clean h"
    and "NVRAM_SPACE - 2 < HEADER_SIZE + nv_size (filter (\<lambda>t. t_name t \<notin> dom sdram_defaults) (nv_tuples h))"
  shows "\<exists>h' n v. nvram_commit h = Some (0, h') \<and> nvram_get h n = Some v \<and> nvram_get h' n = None"
proof -
  have ok: "nv_ok h" using assms(1) by (simp add: nv_opened_def)
  define m where "m = bcopy (commit_image h) (h_offset h) (h_mmap h)"
  define g where "g = h\<lparr>h_mmap := m\<rparr>"
  note f = commit_format [OF nv_opened_mapped [OF assms(1)] m_def]
  obtain ks where ks: "write_tuples (nvram_hash h) = concat (map nv_entry ks)" "set ks \<subseteq> set (nv_tuples h)"
    "distinct (map t_name ks)"
    using write_tuples_kept [of "[]" "nvram_hash h"] nv_distinct [OF ok]
    by (auto simp: write_tuples_def nv_tuples_def)
  have bound: "HEADER_SIZE + nv_size ks \<le> NVRAM_SPACE - 2"
    using write_tuples_bound [of "nvram_hash h"] by (simp add: ks(1) length_entries)
  have fits: "value_fits (t_value t)" if "t \<in> set ks" for t
  proof -
    have "entry_size t \<le> nv_size ks" using that unfolding nv_size_def by (intro member_le_sum_list) auto
    then show ?thesis using bound by (simp add: value_fits_def entry_size_def NVRAM_SPACE_def)
  qed
  obtain tail where tail: "drop (h_offset g + HEADER_SIZE) (h_mmap g) = concat (map nv_entry ks) @ 0 # tail"
    using f(6) by (auto simp: g_def ks(1))
  obtain a b c h' where h': "nvram_rehash g = Some (0, h')" "nv_ok h'" "nv_map h' = sdram_map a b c ++ map_of (pairs ks)"
    using rehash_map [OF tail] clean_tuples [OF ok assms(2)] ks(2,3) fits by (metis subsetD)
  define ts where "ts = filter (\<lambda>t. t_name t \<notin> dom sdram_defaults) (nv_tuples h)"
  have dts: "distinct ts" "distinct ks"
    using nv_distinct [OF ok] ks(3) by (auto simp: ts_def distinct_map)
  have "\<not> set ts \<subseteq> set ks"
  proof
    assume sub: "set ts \<subseteq> set ks"
    have "nv_size ts = sum entry_size (set ts)" "nv_size ks = sum entry_size (set ks)"
      using dts by (simp_all add: nv_size_def sum_list_distinct_conv_sum_set)
    then have "nv_size ts \<le> nv_size ks" using sub by (simp add: sum_mono2)
    then show False using bound assms(3) by (simp add: ts_def)
  qed
  then obtain t where t: "t \<in> set ts" "t \<notin> set ks" by blast
  then have tt: "t \<in> set (nv_tuples h)" "t_name t \<notin> dom sdram_defaults" by (simp_all add: ts_def)
  have "t_name t \<notin> t_name ` set ks"
    using t(2) tt(1) ks(2) nv_distinct [OF ok] by (auto simp: distinct_map dest: inj_onD)
  then have "map_of (pairs ks) (t_name t) = None" by (rule dom_pairs)
  moreover have "sdram_map a b c (t_name t) = None"
    using tt(2) by (auto simp: sdram_defaults_def sdram_map_def map_add_def)
  ultimately have "nv_map h' (t_name t) = None" by (simp add: h'(3) map_add_def)
  moreover have "nvram_commit h = Some (0, h')" using h'(1) by (simp add: nvram_commit_def g_def m_def)
  moreover have "nv_map h (t_name t) = Some (t_value t)" using nv_map_tuple [OF ok] tt(1) by simp
  ultimately show ?thesis using nvram_get_map [OF ok] nvram_get_map [OF h'(2)] by metis
qed

text \<open>(C13)
  Setting a variable and reading: when the variables, with the new one, fit into the partition
  and its value into an entry, a run \<open>nvram set n=v\<close>, with or without \<open>commit\<close>, ends with status 0,
  and afterwards \<open>nvram get\<close> prints the new value of \<open>n\<close> and for every other variable what it was
  before (the SDRAM parameters of the header where one was not set). After \<open>commit\<close> to a partition of the listed size the values come
  from the flash device and the staging file is gone. (When they do not fit the status is 0 as
  well, but variables are lost: \<open>overfull_commit_loses\<close>.)
\<close>

theorem set_persists:
  assumes "nvram_open_staging w = Some (Some h, w1, es)" and "w_staging w1 = Some s" and "unat es \<le> length s"
    and "NVRAM_SPACE \<le> unat es" and "CHR ''='' \<notin> set n" and "CHR 0x00 \<notin> set n" and "CHR 0x00 \<notin> set v"
    and "value_fits v" and "nv_room (snd (nvram_set h n v))" and "c \<longrightarrow> device_whole w"
  shows "\<exists>w2. nvram_main (set_args n v c) w = Some (0, [], w2) \<and> (w_staging w2 = None \<longleftrightarrow> c)
    \<and> (\<forall>m. m \<notin> {''set'', ''unset'', ''commit''} \<longrightarrow> nvram_main [''get'', m] w2 =
        Some (get_result ((sdram_defaults ++ (nv_map h)(n \<mapsto> v)) m) w2))"
  using set_then_read [OF assms] get_run by metis

text \<open>Whatever goes wrong in \<open>set\<close> (no \<open>=\<close> in the argument, a value that is too long), the status of the
  command is replaced by that of the commit that follows, and the program ends with 0.
\<close>

theorem set_error_lost:
  assumes "nvram_open_staging w = Some (Some h, w1, es)" and "do_set h x = (st, h1)" and "st \<noteq> 0"
    and "nvram_commit h1 = Some (c, h2)"
  shows "\<exists>w2. nvram_main [''set'', x] w = Some (0, [], w2)"
proof -
  have "c = 0" using assms(4) rehash_clean by (auto simp: nvram_commit_def)
  then show ?thesis using assms by (simp add: nvram_main_def nv_finish_def)
qed

text \<open>\<open>nvram set\<close> without an argument does not print that one is missing but crashes, and so does
  reading a variable whose name is \<open>set\<close> or \<open>unset\<close>.
\<close>

theorem trailing_set_crashes:
  "nvram_main [''set''] w = None \<and> nvram_main [''unset''] w = None
    \<and> nvram_main [''get'', ''set''] w = None \<and> nvram_main [''get'', ''unset''] w = None"
  by (simp_all add: nvram_main_def)

section \<open>Witnesses\<close>

text \<open>A partition of 32 KB with a header and no variables, as staging file.\<close>

definition demo_size :: u32 where "demo_size = 0x8000"

definition demo_file :: buf where
  "demo_file = le32 NVRAM_MAGIC @ replicate 32764 0"

definition demo_world :: nv_world where
  "demo_world = \<lparr>w_model = None, w_proc_mtd = Some [''mtd3: 00008000 nvram''],
     w_dev = [''/dev/mtdblock3'' \<mapsto> replicate 32768 0], w_staging = Some demo_file\<rparr>"

definition demo_bare :: nvram_handle where
  "demo_bare = \<lparr>h_mmap = demo_file, h_offset = 0, nvram_hash = replicate NVRAM_CHAINS [], nvram_dead = []\<rparr>"

definition demo_handle :: nvram_handle where
  "demo_handle = snd (the (nvram_rehash demo_bare))"

lemma length_demo [simp]: "length demo_file = 32768"
  by (simp add: demo_file_def)

lemma bare_parse: "nv_parse (drop HEADER_SIZE demo_file) g = Some g"
proof -
  have "drop HEADER_SIZE demo_file = 0 # replicate 32747 0"
    by (simp add: demo_file_def HEADER_SIZE_def drop_replicate replicate_Suc [symmetric])
  then show ?thesis by (simp add: nv_parse_end)
qed

lemma demo_rehash: "nvram_rehash demo_bare = Some (0, demo_handle)"
proof -
  have "nvram_rehash demo_bare \<noteq> None"
    using bare_parse [of "nvram_free demo_bare"] by (simp add: nvram_rehash_def demo_bare_def Let_def)
  then show ?thesis using rehash_clean unfolding demo_handle_def by fastforce
qed

lemma demo_open: "nvram_open demo_size (Some (demo_file @ rest)) = Some (Some demo_handle)"
proof -
  have "find_magic demo_file b 0 = Some (Some 0)" for b
    by (subst find_magic.simps) (simp add: demo_file_def)
  then show ?thesis
    using demo_rehash by (simp add: nvram_open_def demo_size_def demo_bare_def)
qed

lemma demo_opened: "nv_opened demo_size demo_handle" "nv_clean demo_handle"
proof -
  have "nvram_open demo_size (Some demo_file) = Some (Some demo_handle)" using demo_open [of "[]"] by simp
  then show "nv_opened demo_size demo_handle" "nv_clean demo_handle"
    using open_opened [of demo_size demo_file demo_handle] by (simp_all add: demo_size_def NVRAM_SPACE_def)
qed

lemma demo_ok: "nv_ok demo_handle"
  using demo_opened by (simp add: nv_opened_def)

lemma set_default_size:
  assumes "nv_ok h"
  shows "nv_size (nv_tuples (set_default n v h)) \<le> nv_size (nv_tuples h) + (length n + length v + 2)"
  using nv_size_set [OF assms, of n v] by (simp add: set_default_def)

lemma default_hex:
  assumes "nv_ok g"
  shows "nv_ok (set_default n (hexU4 a) g) \<and> nv_size (nv_tuples (set_default n (hexU4 a) g)) \<le> nv_size (nv_tuples g) + (length n + 8)"
    and "nv_ok (set_default n (hexU8 c) g) \<and> nv_size (nv_tuples (set_default n (hexU8 c) g)) \<le> nv_size (nv_tuples g) + (length n + 12)"
proof -
  have l: "length (hexU4 a) + 2 = 8" "length (hexU8 c) + 2 = 12" by (simp_all add: hexU4_def hexU8_def)
  show "nv_ok (set_default n (hexU4 a) g) \<and> nv_size (nv_tuples (set_default n (hexU4 a) g)) \<le> nv_size (nv_tuples g) + (length n + 8)"
    using set_default_map [OF assms hexU_fits(1), of n a] set_default_size [OF assms, of n "hexU4 a"] l(1) by linarith
  show "nv_ok (set_default n (hexU8 c) g) \<and> nv_size (nv_tuples (set_default n (hexU8 c) g)) \<le> nv_size (nv_tuples g) + (length n + 12)"
    using set_default_map [OF assms hexU_fits(2), of n c] set_default_size [OF assms, of n "hexU8 c"] l(2) by linarith
qed

lemma demo_nv_size: "nv_size (nv_tuples demo_handle) \<le> 81"
proof -
  define b where "b = nvram_free demo_bare"
  define d1 where "d1 = set_default ''sdram_init'' (hexU4 (ucast (drop_bit 16 (hdr_crc_ver_init demo_bare)))) b"
  define d2 where "d2 = set_default ''sdram_config'' (hexU4 (ucast (hdr_config_refresh demo_bare AND 0xffff))) d1"
  define d3 where "d3 = set_default ''sdram_refresh'' (hexU4 (ucast (drop_bit 16 (hdr_config_refresh demo_bare) AND 0xffff))) d2"
  define d4 where "d4 = set_default ''sdram_ncdl'' (hexU8 (hdr_config_ncdl demo_bare)) d3"
  have "nvram_rehash demo_bare = Some (0, d4)"
    using bare_parse [of b] unfolding d1_def d2_def d3_def d4_def b_def
    by (simp add: nvram_rehash_def demo_bare_def Let_def)
  then have h: "demo_handle = d4" by (simp add: demo_handle_def)
  have 0: "nv_ok b" "nv_size (nv_tuples b) = 0"
    using nvram_free_map by (simp_all add: b_def nv_tuples_def nvram_free_def)
  have 1: "nv_ok d1" "nv_size (nv_tuples d1) \<le> 18"
    using default_hex(1) [OF 0(1), of "''sdram_init''" "ucast (drop_bit 16 (hdr_crc_ver_init demo_bare))", folded d1_def] 0(2)
    by simp_all
  have 2: "nv_ok d2" "nv_size (nv_tuples d2) \<le> 38"
    using default_hex(1) [OF 1(1), of "''sdram_config''" "ucast (hdr_config_refresh demo_bare AND 0xffff)", folded d2_def] 1(2)
    by simp_all
  have 3: "nv_ok d3" "nv_size (nv_tuples d3) \<le> 59"
    using default_hex(1) [OF 2(1), of "''sdram_refresh''" "ucast (drop_bit 16 (hdr_config_refresh demo_bare) AND 0xffff)", folded d3_def] 2(2)
    by simp_all
  show ?thesis
    using default_hex(2) [OF 3(1), of "''sdram_ncdl''" "hdr_config_ncdl demo_bare", folded d4_def] 3(2) unfolding h
    by simp
qed

text \<open>The demo handle with one more variable.\<close>

definition demo_set :: "string \<Rightarrow> nvram_handle" where
  "demo_set v = snd (nvram_set demo_handle ''x'' v)"

lemma demo_set_opened: "CHR 0x00 \<notin> set v \<Longrightarrow> nv_opened demo_size (demo_set v) \<and> nv_clean (demo_set v)"
  using clean_set [OF demo_ok demo_opened(2), of "''x''" v] demo_opened(1)
  by (simp add: demo_set_def nv_opened_def nv_plain_def)

lemma demo_set_room: "length v \<le> 1000 \<Longrightarrow> nv_room (demo_set v)"
  using nv_size_set [OF demo_ok, of "''x''" v] demo_nv_size
  by (simp add: demo_set_def nv_room_def HEADER_SIZE_def NVRAM_SPACE_def)

lemma demo_set_map: "value_fits v \<Longrightarrow> nv_map (demo_set v) ''x'' = Some v"
  using nvram_set_map [OF demo_ok, of v "''x''"] by (auto simp: demo_set_def)

lemma demo_staging: "nvram_open_staging demo_world = Some (Some demo_handle, demo_world, demo_size)"
proof -
  have "nvram_find_mtd demo_world 0 = Some (Some ''/dev/mtdblock3'', demo_size)"
    by (simp add: nvram_find_mtd_def demo_world_def demo_size_def scan_mtd_def strto_eval show_int_def
        show_nat.simps hex_char_def)
  then show ?thesis
    using demo_open [of "[]"] by (simp add: nvram_open_staging_def open_file_def demo_world_def demo_size_def)
qed

theorem table_refines_map_witness:
  "nvram_get (fold nvs.step [Put ''a'' ''1'', Put ''b'' ''2'', Put ''a'' ''3'', Del ''b''] (nvram_free demo_bare))
    = [''a'' \<mapsto> ''3'']"
proof -
  have ok: "nv_ok (nvram_free demo_bare)" and e: "nvram_get (nvram_free demo_bare) = Map.empty"
    using nvram_free_map by (simp_all add: nvram_get_map)
  show ?thesis
    using table_refines_map [OF ok, of "[Put ''a'' ''1'', Put ''b'' ''2'', Put ''a'' ''3'', Del ''b'']"]
    unfolding e by (auto simp: Let_def value_fits_def NVRAM_SPACE_def fun_eq_iff)
qed

theorem commit_roundtrip_witness:
  "\<exists>h'. nvram_commit (demo_set ''1'') = Some (0, h') \<and> nvram_open demo_size (Some (h_mmap h')) = Some (Some h')
    \<and> nvram_get h' ''x'' = Some ''1''"
proof -
  have o: "nv_opened demo_size (demo_set ''1'')" "nv_clean (demo_set ''1'')" "nv_room (demo_set ''1'')"
    using demo_set_opened [of "''1''"] demo_set_room [of "''1''"] by auto
  obtain h' where h': "nvram_commit (demo_set ''1'') = Some (0, h')"
    "\<And>rest. nvram_open demo_size (Some (h_mmap h' @ rest)) = Some (Some h')"
    "nvram_get h' = sdram_defaults ++ nvram_get (demo_set ''1'')"
    using commit_roundtrip [OF o] by blast
  have "nv_ok (demo_set ''1'')" using o(1) by (simp add: nv_opened_def)
  then have "nvram_get (demo_set ''1'') ''x'' = Some ''1''"
    using demo_set_map [of "''1''"] by (simp add: nvram_get_map value_fits_def NVRAM_SPACE_def)
  then show ?thesis using h'(1) h'(2) [of "[]"] h'(3) by (intro exI [of _ h']) (simp add: map_add_def)
qed

theorem commit_stays_inside_witness:
  "\<exists>h'. nvram_commit (demo_set ''1'') = Some (0, h') \<and> unat (nv_len h') \<le> NVRAM_SPACE"
proof -
  have o: "nv_opened demo_size (demo_set ''1'')" "nv_clean (demo_set ''1'')" "nv_room (demo_set ''1'')"
    using demo_set_opened [of "''1''"] demo_set_room [of "''1''"] by auto
  have ok: "nv_ok (demo_set ''1'')" using o(1) by (simp add: nv_opened_def)
  obtain h' where c: "nvram_commit (demo_set ''1'') = Some (0, h')"
    using commit_map [OF o(1) clean_tuples [OF ok o(2)] o(3)] by blast
  show ?thesis
    using c commit_stays_inside [OF nv_opened_mapped [OF o(1)] c] by blast
qed

theorem info_finds_changes_witness:
  "\<exists>h' c. nvram_commit (demo_set ''1'') = Some (0, h') \<and> shown_crcs (do_info h') = Some (c, c)"
proof -
  have o: "nv_opened demo_size (demo_set ''1'')" "nv_clean (demo_set ''1'')" "nv_room (demo_set ''1'')"
    using demo_set_opened [of "''1''"] demo_set_room [of "''1''"] by auto
  have ok: "nv_ok (demo_set ''1'')" using o(1) by (simp add: nv_opened_def)
  obtain h' where c: "nvram_commit (demo_set ''1'') = Some (0, h')"
    using commit_map [OF o(1) clean_tuples [OF ok o(2)] o(3)] by blast
  show ?thesis
    using c info_finds_changes [OF nv_opened_mapped [OF o(1)] c] by blast
qed

theorem overfull_commit_loses_witness:
  "\<exists>h' n v. nvram_commit (demo_set (replicate 32767 CHR ''a'')) = Some (0, h')
    \<and> nvram_get (demo_set (replicate 32767 CHR ''a'')) n = Some v \<and> nvram_get h' n = None"
proof -
  let ?v = "replicate 32767 CHR ''a''"
  define h where "h = demo_set ?v"
  have o: "nv_opened demo_size h" "nv_clean h" using demo_set_opened [of ?v] by (auto simp: h_def)
  have ok: "nv_ok h" using o(1) by (simp add: nv_opened_def)
  have "nv_map h ''x'' = Some ?v" unfolding h_def by (rule demo_set_map) (simp add: value_fits_def NVRAM_SPACE_def)
  then have t: "\<lparr>t_name = ''x'', t_value = ?v\<rparr> \<in> set (nv_tuples h)" using nv_map_tuple [OF ok] by blast
  have "entry_size \<lparr>t_name = ''x'', t_value = ?v\<rparr> \<le>
      nv_size (filter (\<lambda>t. t_name t \<notin> dom sdram_defaults) (nv_tuples h))"
    using t unfolding nv_size_def by (intro member_le_sum_list) (auto simp: sdram_defaults_def)
  then show ?thesis
    unfolding h_def [symmetric]
    by (intro overfull_commit_loses [OF o]) (simp add: entry_size_def HEADER_SIZE_def NVRAM_SPACE_def)
qed

theorem set_persists_witness:
  "\<exists>w2. nvram_main (set_args ''x'' ''1'' True) demo_world = Some (0, [], w2) \<and> w_staging w2 = None
    \<and> nvram_main [''get'', ''x''] w2 = Some (0, [OutValue ''1''], w2)"
proof -
  have r: "nv_room (snd (nvram_set demo_handle ''x'' ''1''))"
    using demo_set_room [of "''1''"] by (simp add: demo_set_def)
  have f: "value_fits ''1''" "w_staging demo_world = Some demo_file" "unat demo_size \<le> length demo_file"
    "NVRAM_SPACE \<le> unat demo_size"
    by (simp_all add: value_fits_def NVRAM_SPACE_def demo_world_def demo_size_def)
  have dw: "device_whole demo_world"
    by (simp add: device_whole_def nvram_find_mtd_def demo_world_def scan_mtd_def strto_eval show_int_def
        show_nat.simps hex_char_def)
  obtain w2 where w2: "nvram_main (set_args ''x'' ''1'' True) demo_world = Some (0, [], w2)" "w_staging w2 = None"
    "\<And>m. m \<notin> {''set'', ''unset'', ''commit''} \<Longrightarrow> nvram_main [''get'', m] w2 =
        Some (get_result ((sdram_defaults ++ (nv_map demo_handle)(''x'' \<mapsto> ''1'')) m) w2)"
    using set_persists [OF demo_staging f(2-4) _ _ _ f(1) r, of True] dw by auto
  show ?thesis
    using w2(1,2) w2(3) [of "''x''"] by (intro exI [of _ w2]) (simp add: get_result_def)
qed

theorem set_error_lost_witness:
  "\<exists>w2. nvram_main [''set'', ''novalue''] demo_world = Some (0, [], w2)"
proof -
  have d: "do_set demo_handle ''novalue'' = (1, demo_handle)" by (simp add: do_set_def)
  have "nv_room demo_handle" using demo_nv_size by (simp add: nv_room_def HEADER_SIZE_def NVRAM_SPACE_def)
  then obtain h' where "nvram_commit demo_handle = Some (0, h')"
    using commit_map [OF demo_opened(1) clean_tuples [OF demo_ok demo_opened(2)]] by blast
  then show ?thesis by (intro set_error_lost [OF demo_staging d]) simp_all
qed

end
