(* ===== verification/Pic_Power.thy ===== *)
theory Pic_Power
  imports VC_Prelude
begin

text \<open>
  The power controller of the Edge 510 (\<open>firmware/edge510-pic/pic.c\<close>), a PIC16F18344: its
  variables, timers and pins, the reset button, the watchdog and the power state machine.

  A port that is read is an argument, once for every read. Output latches, direction bits,
  timer flags and the EEPROM registers are fields of the state; what the chip does with them
  on its own is in the theory of the main loop. An output is \<open>True\<close> when the latch is 1.
\<close>

section \<open>Constants\<close>

text \<open>\<open>enum pwrcyc\<close>\<close>

definition PC_NOT :: u8 where [simp]: "PC_NOT = 0"
definition PC_NOW :: u8 where [simp]: "PC_NOW = 1"
definition PC_CR :: u8 where [simp]: "PC_CR = 2"

text \<open>\<open>enum pstate\<close>\<close>

definition PST_OK :: u8 where [simp]: "PST_OK = 0"
definition PST_TURN_OFF :: u8 where [simp]: "PST_TURN_OFF = 1"
definition PST_MINOFF :: u8 where [simp]: "PST_MINOFF = 2"
definition PST_OFF :: u8 where [simp]: "PST_OFF = 3"
definition PST_TURN_ON :: u8 where [simp]: "PST_TURN_ON = 4"
definition PST_WAIT_PWRGD :: u8 where [simp]: "PST_WAIT_PWRGD = 5"
definition PST_PWRGD_STABLE :: u8 where [simp]: "PST_PWRGD_STABLE = 6"
definition PST_RSMRST_DELAY :: u8 where [simp]: "PST_RSMRST_DELAY = 7"
definition PST_WAIT_PMUSLP :: u8 where [simp]: "PST_WAIT_PMUSLP = 8"
definition PST_CLKPWRGD_DELAY :: u8 where [simp]: "PST_CLKPWRGD_DELAY = 9"
definition PST_COREPWR_DELAY :: u8 where [simp]: "PST_COREPWR_DELAY = 10"
definition PST_RESET_ASSERT :: u8 where [simp]: "PST_RESET_ASSERT = 11"
definition PST_RESET_DELAY :: u8 where [simp]: "PST_RESET_DELAY = 12"
definition PST_RUNNING :: u8 where [simp]: "PST_RUNNING = 13"
definition PST_COLD_RESET :: u8 where [simp]: "PST_COLD_RESET = 14"
definition PST_SLP_CR_DELAY :: u8 where [simp]: "PST_SLP_CR_DELAY = 15"

text \<open>\<open>enum pstate_times\<close>\<close>

definition PSTATE_MIN_OFF :: u16 where "PSTATE_MIN_OFF = 3000"
definition PSTATE_PWRGD_TO :: u16 where "PSTATE_PWRGD_TO = 200"
definition PSTATE_PWRGD_STABLE :: u16 where "PSTATE_PWRGD_STABLE = 100"
definition PSTATE_RSMRST_DELAY :: u16 where "PSTATE_RSMRST_DELAY = 10"
definition PSTATE_PMUSLP_TO :: u16 where "PSTATE_PMUSLP_TO = 250"
definition PSTATE_CLKPWRGD_DELAY :: u16 where "PSTATE_CLKPWRGD_DELAY = 5"
definition PSTATE_COREPWR_DELAY :: u16 where "PSTATE_COREPWR_DELAY = 150"
definition PSTATE_RESET_DELAY :: u16 where "PSTATE_RESET_DELAY = 100"
definition PSTATE_RSMRST_ASSERT :: u16 where "PSTATE_RSMRST_ASSERT = 100"
definition PSTATE_SLP_CR_DELAY :: u16 where "PSTATE_SLP_CR_DELAY = 10000"

text \<open>\<open>enum i2c_reset\<close>\<close>

definition RESET_WARM :: u8 where [simp]: "RESET_WARM = 1"
definition RESET_COLD :: u8 where [simp]: "RESET_COLD = 2"
definition POWER_OFF :: u8 where [simp]: "POWER_OFF = 3"
definition POWER_CYCLE :: u8 where [simp]: "POWER_CYCLE = 4"
definition RESET_SWDT :: u8 where [simp]: "RESET_SWDT = 5"
definition RESET_BUTTON :: u8 where [simp]: "RESET_BUTTON = 6"
definition THERM_TRIP :: u8 where [simp]: "THERM_TRIP = 7"
definition POWER_GOOD :: u8 where [simp]: "POWER_GOOD = 8"
definition PMU_SLP :: u8 where [simp]: "PMU_SLP = 9"
definition POWER_CYCLE_CR :: u8 where [simp]: "POWER_CYCLE_CR = 10"
definition POWER_CYCLE_SWDT :: u8 where [simp]: "POWER_CYCLE_SWDT = 11"
definition PST_UNKNOWN :: u8 where [simp]: "PST_UNKNOWN = 12"

text \<open>\<open>enum eests\<close>\<close>

definition EE_IDLE :: u8 where [simp]: "EE_IDLE = 0"
definition EE_ERROR :: u8 where [simp]: "EE_ERROR = 1"
definition EE_START :: u8 where [simp]: "EE_START = 2"
definition EE_BUSY :: u8 where [simp]: "EE_BUSY = 3"

definition EE_SWDT :: u8 where "EE_SWDT = 0"
definition EE_BLE_RESET :: u8 where "EE_BLE_RESET = 2"
definition SWDT_MIN :: u16 where "SWDT_MIN = 1 * 60 * 25"
definition SWDT_DEFAULT :: u16 where "SWDT_DEFAULT = 5 * 60 * 25"
definition RSTBTN_DEB :: u8 where "RSTBTN_DEB = 20"
definition SIZE_MSG :: nat where "SIZE_MSG = 400"

section \<open>State\<close>

text \<open>The inputs from the board, as one reading sees them.\<close>

record pic_pins =
  RST_BUTTON_PORT :: bool
  PWRGD_PORT :: bool
  PMU_SLP_PORT :: bool
  THMTRIP_PORT :: bool

text \<open>A write the EEPROM is busy with is the address and the byte.\<close>

record pic =
  pstate :: u8
  rstate :: u8
  nstate :: u8
  pcycle :: u8
  rgb :: "u8 list"
  thmtrip :: u8
  btn_cur :: bool
  btn_prev :: bool
  btn_push :: bool
  rstdeb :: u8
  rstcnt :: u16
  ble_in_reset :: bool
  ble_ee_reset :: bool
  eeaddr :: u8
  eedata :: u8
  eests :: u8
  swdt :: u16
  swdt_cnt :: u8
  i2c_addr :: u8
  i2c_idx :: u8
  i2c_nb :: u8
  i2c_buf :: "u8 list"
  mptr :: u16
  msg :: "u8 list"
  reset :: u8
  PICRST_TRIS :: bool
  RSMRST_OUT :: bool
  COREPWR_OUT :: bool
  CLKPWRGD_OUT :: bool
  PSON_OUT :: bool
  BLERST_OUT :: bool
  CCPRH :: "u8 list"
  LED_TRIS :: "bool list"
  TMR1 :: u16
  TMR1ON :: bool
  TMR1IF :: bool
  TMR4IF :: bool
  TMR6IF :: bool
  EEPROM :: "u8 list"
  NVM_WR :: "(u8 \<times> u8) option"
  NVM_WRERR :: bool

section \<open>LED, EEPROM and timer\<close>

text \<open>The compare registers and direction bits in the order red, green, blue.\<close>

definition led_set :: "pic \<Rightarrow> pic" where
  "led_set p = p\<lparr>CCPRH := map (\<lambda>c. NOT c) (rgb p), LED_TRIS := map (\<lambda>c. c = 0) (rgb p)\<rparr>"

definition led_off :: "pic \<Rightarrow> pic" where
  "led_off p = led_set (p\<lparr>rgb := [0, 0, 0]\<rparr>)"

definition led_red :: "pic \<Rightarrow> pic" where
  "led_red p = led_set (p\<lparr>rgb := [0xff, 0, 0]\<rparr>)"

definition ee_read :: "u8 \<Rightarrow> pic \<Rightarrow> u8" where
  "ee_read addr p = EEPROM p ! unat addr"

definition ee_write :: "pic \<Rightarrow> pic" where
  "ee_write p = p\<lparr>NVM_WR := Some (eeaddr p, eedata p)\<rparr>"

definition ee_done :: "pic \<Rightarrow> u8" where
  "ee_done p = (if NVM_WR p \<noteq> None then EE_BUSY else if NVM_WRERR p then EE_ERROR else EE_IDLE)"

definition join16 :: "u8 \<Rightarrow> u8 \<Rightarrow> u16" where
  "join16 lo hi = ucast lo OR push_bit 8 (ucast hi)"

definition byte_lo :: "u16 \<Rightarrow> u8" where "byte_lo w = ucast w"
definition byte_hi :: "u16 \<Rightarrow> u8" where "byte_hi w = ucast (drop_bit 8 w)"

definition swdt_init :: "pic \<Rightarrow> pic" where
  "swdt_init p =
     (let v = join16 (ee_read (EE_SWDT + 0) p) (ee_read (EE_SWDT + 1) p);
          v = (if v = 0xffff then SWDT_DEFAULT else v);
          v = (if v < SWDT_MIN then 0 else v)
      in p\<lparr>swdt := v\<rparr>)"

definition swdt_fsm :: "pic \<Rightarrow> pic" where
  "swdt_fsm p = (if swdt p = 0 then p
     else
       let p = (if TMR4IF p then p\<lparr>TMR4IF := False, swdt := swdt p - 1\<rparr> else p)
       in if swdt p = 0 then
            let p = (if swdt_cnt p \<noteq> 0 then p\<lparr>pstate := PST_TURN_OFF, pcycle := PC_NOW, rstate := POWER_CYCLE_SWDT\<rparr>
                     else p\<lparr>pstate := PST_COLD_RESET, rstate := RESET_SWDT\<rparr>)
            in if swdt_cnt p \<noteq> 0xff then p\<lparr>swdt_cnt := swdt_cnt p + 1\<rparr> else p
          else p)"

text \<open>The counter is loaded with the complement of twice the time, byte by byte.\<close>

definition pst_start :: "u16 \<Rightarrow> pic \<Rightarrow> pic" where
  "pst_start msec p = (let m = push_bit 1 msec
     in p\<lparr>TMR1 := join16 (NOT (byte_lo m)) (NOT (byte_hi m)), TMR1ON := True, TMR1IF := False\<rparr>)"

definition pst_expired :: "pic \<Rightarrow> bool \<times> pic" where
  "pst_expired p = (if \<not> TMR1IF p then (False, p) else (True, p\<lparr>TMR1IF := False, TMR1ON := False\<rparr>))"

section \<open>Reset button\<close>

definition rst_button :: "pic_pins \<Rightarrow> bool" where
  "rst_button a \<longleftrightarrow> \<not> RST_BUTTON_PORT a"

definition rstbtn_sample :: "bool \<Rightarrow> pic \<Rightarrow> pic" where
  "rstbtn_sample pressed p =
     (let p = p\<lparr>btn_prev := btn_cur p, btn_cur := pressed\<rparr>
      in if \<not> btn_prev p \<and> btn_cur p then p\<lparr>btn_push := True, rstdeb := 1, rstcnt := ucast RSTBTN_DEB\<rparr>
         else if btn_prev p \<and> \<not> btn_cur p then p\<lparr>rstdeb := 1\<rparr>
         else if btn_cur p then (if rstcnt p < 0xffff then p\<lparr>rstcnt := rstcnt p + 1\<rparr> else p)
         else p)"

definition rstbtn_fsm :: "pic_pins \<Rightarrow> pic \<Rightarrow> pic" where
  "rstbtn_fsm a p =
     (if \<not> TMR6IF p then p
      else let p = p\<lparr>TMR6IF := False\<rparr> in
        if rstdeb p \<noteq> 0 then
          let p = p\<lparr>rstdeb := rstdeb p + 1\<rparr>
          in if rstdeb p < RSTBTN_DEB then p else rstbtn_sample (rst_button a) (p\<lparr>rstdeb := 0\<rparr>)
        else rstbtn_sample (rst_button a) p)"

section \<open>Power state machine\<close>

text \<open>
  The \<open>switch\<close>: \<open>Inl\<close> is the jump to \<open>fail_pst\<close>. In every state at most one port is read.
\<close>

definition pst_next :: "pic \<Rightarrow> pic" where
  "pst_next p = p\<lparr>pstate := pstate p + 1\<rparr>"

definition power_switch :: "pic_pins \<Rightarrow> pic \<Rightarrow> pic + pic" where
  "power_switch a p =
     (if pstate p = PST_TURN_OFF then
        Inr (pst_next (pst_start PSTATE_MIN_OFF (led_off
          (p\<lparr>PICRST_TRIS := True, RSMRST_OUT := False, COREPWR_OUT := False, CLKPWRGD_OUT := False, PSON_OUT := False\<rparr>))))
      else if pstate p = PST_MINOFF then
        (let (e, p) = pst_expired p in Inr (if e then pst_next p else p))
      else if pstate p = PST_OFF then
        (let p = (if btn_push p \<or> pcycle p = PC_NOW then pst_next p else p) in Inr (p\<lparr>pcycle := PC_NOT\<rparr>))
      else if pstate p = PST_TURN_ON then
        Inr (pst_next (pst_start PSTATE_PWRGD_TO
          (led_red (p\<lparr>RSMRST_OUT := False, COREPWR_OUT := False, CLKPWRGD_OUT := False, PSON_OUT := True\<rparr>)
           \<lparr>btn_push := False\<rparr>)))
      else if pstate p = PST_WAIT_PWRGD then
        (if PWRGD_PORT a then Inr (pst_next (pst_start PSTATE_PWRGD_STABLE p))
         else let (e, p) = pst_expired p in if e then Inl (p\<lparr>rstate := POWER_GOOD\<rparr>) else Inr p)
      else if pstate p = PST_PWRGD_STABLE then
        (let (e, p) = pst_expired p
         in if e then Inr (pst_next (pst_start PSTATE_RSMRST_DELAY p))
            else if \<not> PWRGD_PORT a then Inr (p\<lparr>pstate := PST_WAIT_PWRGD\<rparr>) else Inr p)
      else if pstate p = PST_RSMRST_DELAY then
        (let (e, p) = pst_expired p
         in Inr (if e then pst_next (pst_start PSTATE_PMUSLP_TO (p\<lparr>RSMRST_OUT := True\<rparr>)) else p))
      else if pstate p = PST_WAIT_PMUSLP then
        (let (e, p) = pst_expired p
         in if e then Inl (p\<lparr>rstate := PMU_SLP\<rparr>)
            else if PMU_SLP_PORT a then Inr (pst_next (pst_start PSTATE_CLKPWRGD_DELAY p)) else Inr p)
      else if pstate p = PST_CLKPWRGD_DELAY then
        (let (e, p) = pst_expired p
         in Inr (if e then pst_next (pst_start PSTATE_COREPWR_DELAY (p\<lparr>CLKPWRGD_OUT := True\<rparr>)) else p))
      else if pstate p = PST_COREPWR_DELAY then
        (let (e, p) = pst_expired p
         in Inr (if e then swdt_init (p\<lparr>COREPWR_OUT := True\<rparr>)\<lparr>pstate := PST_RUNNING\<rparr> else p))
      else if pstate p = PST_RESET_ASSERT then
        Inr (pst_next (pst_start PSTATE_RESET_DELAY (led_red (p\<lparr>PICRST_TRIS := False\<rparr>))))
      else if pstate p = PST_RESET_DELAY then
        (let (e, p) = pst_expired p in Inr (if e then pst_next (swdt_init (p\<lparr>PICRST_TRIS := True\<rparr>)) else p))
      else if pstate p = PST_RUNNING then
        (let p = (if btn_push p then p\<lparr>btn_push := False, pstate := PST_COLD_RESET, rstate := RESET_BUTTON\<rparr> else p)
         in Inr (swdt_fsm p))
      else if pstate p = PST_COLD_RESET then
        Inr ((pst_start PSTATE_RSMRST_ASSERT (led_red (p\<lparr>RSMRST_OUT := False, COREPWR_OUT := False, CLKPWRGD_OUT := False\<rparr>)))
          \<lparr>pstate := PST_RSMRST_DELAY\<rparr>)
      else if pstate p = PST_SLP_CR_DELAY then
        (if PMU_SLP_PORT a then
           Inr (if pcycle p = PC_CR then p\<lparr>pstate := PST_TURN_OFF, rstate := POWER_CYCLE_CR, pcycle := PC_NOW\<rparr>
                else p\<lparr>pstate := PST_COLD_RESET, rstate := RESET_COLD\<rparr>)
         else let (e, p) = pst_expired p
           in Inr (if e then p\<lparr>pstate := PST_TURN_OFF, rstate := POWER_OFF\<rparr> else p))
      else Inl (p\<lparr>rstate := PST_UNKNOWN\<rparr>))"

text \<open>The checks behind the \<open>switch\<close>, with further readings of the ports.\<close>

definition power_checks :: "pic_pins \<Rightarrow> pic \<Rightarrow> pic + pic" where
  "power_checks b p =
     (if PST_PWRGD_STABLE < pstate p \<and> THMTRIP_PORT b then
        Inl ((if thmtrip p \<noteq> 0xff then p\<lparr>thmtrip := thmtrip p + 1\<rparr> else p)\<lparr>rstate := THERM_TRIP\<rparr>)
      else if PST_RSMRST_DELAY \<le> pstate p \<and> \<not> PWRGD_PORT b then Inl (p\<lparr>rstate := POWER_GOOD\<rparr>)
      else if PST_CLKPWRGD_DELAY \<le> pstate p \<and> pstate p \<noteq> PST_SLP_CR_DELAY \<and> \<not> PMU_SLP_PORT b then
        Inr ((pst_start PSTATE_SLP_CR_DELAY p)\<lparr>pstate := PST_SLP_CR_DELAY\<rparr>)
      else Inr p)"

definition power_fsm :: "pic_pins \<Rightarrow> pic_pins \<Rightarrow> pic \<Rightarrow> u8 \<times> pic" where
  "power_fsm a b p =
     (case (case power_switch a p of Inl q \<Rightarrow> Inl q | Inr q \<Rightarrow> power_checks b q) of
        Inl q \<Rightarrow> (pstate p, q\<lparr>pstate := PST_TURN_OFF\<rparr>)
      | Inr q \<Rightarrow> (0, q))"

end
