(* ===== verification/Pic_I2c.thy ===== *)
theory Pic_I2c
  imports Pic_Power
begin

text \<open>
  The I2C slave of the Edge 510 power controller (\<open>firmware/edge510-pic/pic.c\<close>): the commands
  and the interrupt handler. The registers of the serial port are a record of their own, which
  the chip sets before an interrupt. \<open>None\<close> is an access outside an array.
\<close>

section \<open>Commands\<close>

text \<open>\<open>enum i2c_cmds\<close>\<close>

definition I2C_LED_SET :: u8 where [simp]: "I2C_LED_SET = 0x40"
definition I2C_LED_GET :: u8 where [simp]: "I2C_LED_GET = 0x41"
definition I2C_PST_SET :: u8 where [simp]: "I2C_PST_SET = 0x42"
definition I2C_PST_GET :: u8 where [simp]: "I2C_PST_GET = 0x43"
definition I2C_SWDT_SET :: u8 where [simp]: "I2C_SWDT_SET = 0x44"
definition I2C_SWDT_GET :: u8 where [simp]: "I2C_SWDT_GET = 0x45"
definition I2C_BLE_SET :: u8 where [simp]: "I2C_BLE_SET = 0x46"
definition I2C_BLE_GET :: u8 where [simp]: "I2C_BLE_GET = 0x47"
definition I2C_EE_WRITE :: u8 where [simp]: "I2C_EE_WRITE = 0x48"
definition I2C_EE_STS :: u8 where [simp]: "I2C_EE_STS = 0x49"
definition I2C_EE_ADDR :: u8 where [simp]: "I2C_EE_ADDR = 0x4a"
definition I2C_EE_READ :: u8 where [simp]: "I2C_EE_READ = 0x4b"
definition I2C_MSG_SET :: u8 where [simp]: "I2C_MSG_SET = 0x4c"
definition I2C_MSG_GET :: u8 where [simp]: "I2C_MSG_GET = 0x4d"
definition I2C_MSG_PUTC :: u8 where [simp]: "I2C_MSG_PUTC = 0x4e"
definition I2C_MSG_GETC :: u8 where [simp]: "I2C_MSG_GETC = 0x4f"
definition I2C_VNOP :: u8 where [simp]: "I2C_VNOP = 0x50"
definition I2C_VERSION :: u8 where [simp]: "I2C_VERSION = 0x51"
definition I2C_RNOP :: u8 where [simp]: "I2C_RNOP = 0x52"
definition I2C_RESET :: u8 where [simp]: "I2C_RESET = 0x53"
definition I2C_RBPT_SET :: u8 where [simp]: "I2C_RBPT_SET = 0x54"
definition I2C_RBPT_GET :: u8 where [simp]: "I2C_RBPT_GET = 0x55"

definition i2c_read :: "pic \<Rightarrow> bool" where
  "i2c_read p = odd (i2c_addr p)"

definition ble_v :: "pic \<Rightarrow> u8" where
  "ble_v p = of_bool (ble_in_reset p) + 2 * of_bool (ble_ee_reset p)"

text \<open>The first bytes of the buffer are filled in, \<open>i2c_nb\<close> is set.\<close>

definition i2c_load :: "u8 list \<Rightarrow> pic \<Rightarrow> pic" where
  "i2c_load bs p = p\<lparr>i2c_buf := bs @ drop (length bs) (i2c_buf p)\<rparr>"

definition i2c_start :: "pic \<Rightarrow> bool \<times> pic" where
  "i2c_start p =
     (let a = i2c_addr p; ack = \<lambda>n q. (True, q\<lparr>i2c_nb := n\<rparr>) in
      if a = I2C_LED_SET then ack 3 p
      else if a = I2C_LED_GET then ack 3 (i2c_load (rgb p) p)
      else if a = I2C_PST_GET then ack 1 (i2c_load [rstate p] p)
      else if a = I2C_PST_SET then ack 1 p
      else if a = I2C_SWDT_GET then ack 2 (i2c_load [byte_lo (swdt p), byte_hi (swdt p)] p)
      else if a = I2C_SWDT_SET then ack 2 p
      else if a = I2C_BLE_GET then ack 1 (i2c_load [ble_v p] p)
      else if a = I2C_BLE_SET then ack 1 p
      else if a = I2C_EE_STS then ack 1 (i2c_load [eests p] p)
      else if a = I2C_EE_WRITE then (if EE_START \<le> eests p then (False, p) else ack 2 p)
      else if a = I2C_EE_READ then (if EE_START \<le> eests p then (False, p)
        else ack 1 ((i2c_load [ee_read (eeaddr p) p] p)\<lparr>eeaddr := eeaddr p + 1\<rparr>))
      else if a = I2C_EE_ADDR then (if EE_START \<le> eests p then (False, p) else ack 1 p)
      else if a = I2C_MSG_GET then ack 2 (i2c_load [byte_lo (mptr p), byte_hi (mptr p)] p)
      else if a = I2C_MSG_SET then ack 2 p
      else if a = I2C_MSG_GETC \<or> a = I2C_MSG_PUTC then
        (if SIZE_MSG \<le> unat (mptr p) then (False, p)
         else ack 1 (if i2c_read p then (i2c_load [msg p ! unat (mptr p)] p)\<lparr>mptr := mptr p + 1\<rparr> else p))
      else if a = I2C_VERSION then ack 4 (i2c_load [0x76, 0x37, 0, 0] p)
      else if a = I2C_VNOP then ack 4 p
      else if a = I2C_RESET then ack 1 (i2c_load [reset p] p)
      else if a = I2C_RNOP then ack 1 p
      else if a = I2C_RBPT_GET then ack 2 (i2c_load [byte_lo (rstcnt p), byte_hi (rstcnt p)] p)
      else if a = I2C_RBPT_SET then ack 2 p
      else (False, p\<lparr>i2c_nb := 0\<rparr>))"

text \<open>The result is the error flag. \<open>I2C_MSG_PUTC\<close> stores at \<open>mptr\<close> unchecked.\<close>

definition i2c_exec :: "pic \<Rightarrow> (bool \<times> pic) option" where
  "i2c_exec p =
     (let a = i2c_addr p; c = i2c_buf p ! 0; d = i2c_buf p ! 1; ok = \<lambda>q. Some (False, q) in
      if a = I2C_LED_SET then ok (led_set (p\<lparr>rgb := take 3 (i2c_buf p)\<rparr>))
      else if a = I2C_PST_SET then
        (let p = p\<lparr>rstate := c\<rparr> in
         ok (if c = RESET_WARM then p\<lparr>nstate := PST_RESET_ASSERT\<rparr>
             else if c = RESET_COLD then p\<lparr>nstate := PST_COLD_RESET\<rparr>
             else if c = POWER_OFF then p\<lparr>nstate := PST_TURN_OFF\<rparr>
             else if c = POWER_CYCLE then p\<lparr>nstate := PST_TURN_OFF, pcycle := PC_NOW\<rparr>
             else if c = POWER_CYCLE_CR then p\<lparr>pcycle := PC_CR\<rparr>
             else p))
      else if a = I2C_SWDT_SET then ok (p\<lparr>swdt := join16 c d, swdt_cnt := 0\<rparr>)
      else if a = I2C_BLE_SET then
        ok (if c = 1 then p\<lparr>ble_in_reset := True\<rparr> else if c = 2 then p\<lparr>ble_in_reset := False\<rparr> else p)
      else if a = I2C_EE_WRITE then ok (p\<lparr>eedata := d, eests := EE_START, eeaddr := c\<rparr>)
      else if a = I2C_EE_ADDR then ok (p\<lparr>eeaddr := c\<rparr>)
      else if a = I2C_MSG_SET then ok (p\<lparr>mptr := join16 c d\<rparr>)
      else if a = I2C_MSG_PUTC then
        (if SIZE_MSG \<le> unat (mptr p) then None
         else ok (p\<lparr>msg := (msg p)[unat (mptr p) := c], mptr := mptr p + 1\<rparr>))
      else if a = I2C_RBPT_SET then ok (p\<lparr>rstcnt := join16 c d\<rparr>)
      else if a = I2C_VNOP \<or> a = I2C_RNOP then ok p
      else Some (True, p))"

definition i2c_commit :: "pic \<Rightarrow> pic" where
  "i2c_commit p = p"

section \<open>Interrupt handler\<close>

record ssp =
  SSP1IF :: bool
  BCL1IF :: bool
  ACKTIM :: bool
  BF :: bool
  D_nA :: bool
  SSP1BUF :: u8
  CKP :: bool
  ACKSTAT :: bool
  ACKDT :: bool

text \<open>A data byte of a write: \<open>i2c_idx\<close> is below \<open>i2c_nb\<close> whenever the byte is stored.\<close>

definition i2c_put :: "u8 \<Rightarrow> bool \<Rightarrow> pic \<Rightarrow> (bool \<times> pic) option" where
  "i2c_put c nack p =
     (if i2c_idx p < i2c_nb p \<and> length (i2c_buf p) \<le> unat (i2c_idx p) then None
      else
        let (nack, p) = (if i2c_idx p < i2c_nb p then (False, p\<lparr>i2c_buf := (i2c_buf p)[unat (i2c_idx p) := c]\<rparr>)
                         else (nack, p));
            p = p\<lparr>i2c_idx := i2c_idx p + 1\<rparr>
        in if i2c_idx p = i2c_nb p then
             (case i2c_exec (p\<lparr>i2c_idx := 0\<rparr>) of None \<Rightarrow> None
              | Some (err, p) \<Rightarrow> Some (if err then True else nack, p))
           else Some (nack, p))"

text \<open>The byte phase (with \<open>ACKTIM\<close>) and the phase after the acknowledge bit.\<close>

definition isr_byte :: "ssp \<Rightarrow> pic \<Rightarrow> (ssp \<times> pic) option" where
  "isr_byte s p =
     (let s = s\<lparr>ACKDT := True\<rparr> in
      if \<not> BF s then Some (s, p)
      else if \<not> D_nA s then
        (let (ok, p) = i2c_start (p\<lparr>i2c_addr := SSP1BUF s, i2c_idx := 0\<rparr>)
         in Some (if ok then s\<lparr>ACKDT := False\<rparr> else s, p))
      else if \<not> i2c_read p then
        (case i2c_put (SSP1BUF s) (ACKDT s) p of None \<Rightarrow> None
         | Some (nack, p) \<Rightarrow> Some (s\<lparr>ACKDT := nack\<rparr>, p))
      else Some (s, p))"

definition isr_ack :: "ssp \<Rightarrow> pic \<Rightarrow> (ssp \<times> pic) option" where
  "isr_ack s p =
     (if i2c_read p then
        (if i2c_idx p = i2c_nb p then
           let p = (if i2c_nb p \<noteq> 0 \<and> \<not> ACKSTAT s then i2c_commit p else p)
           in Some (s\<lparr>SSP1BUF := 0\<rparr>, p\<lparr>i2c_nb := 0\<rparr>)
         else if i2c_idx p < i2c_nb p then
           (if length (i2c_buf p) \<le> unat (i2c_idx p) then None
            else Some (s\<lparr>SSP1BUF := i2c_buf p ! unat (i2c_idx p)\<rparr>, p\<lparr>i2c_idx := i2c_idx p + 1\<rparr>))
         else Some (s\<lparr>SSP1BUF := 0\<rparr>, p))
      else Some (s, p))"

definition Interrupt_ISR :: "ssp \<Rightarrow> pic \<Rightarrow> (ssp \<times> pic) option" where
  "Interrupt_ISR s p =
     (let s = s\<lparr>BCL1IF := False\<rparr> in
      if \<not> SSP1IF s then Some (s, p)
      else
        let s = s\<lparr>SSP1IF := False\<rparr> in
        case (if ACKTIM s then isr_byte s p else if \<not> CKP s then isr_ack s p else Some (s, p)) of
          None \<Rightarrow> None
        | Some (s, p) \<Rightarrow> Some (s\<lparr>CKP := True\<rparr>, p))"

section \<open>Transactions\<close>

text \<open>
  What the chip presents: the address or a received byte with \<open>ACKTIM\<close> and \<open>BF\<close>, the clock
  held; after an acknowledge the clock is held again, with \<open>ACKTIM\<close> clear.
\<close>

definition ssp_byte :: "bool \<Rightarrow> u8 \<Rightarrow> ssp" where
  "ssp_byte data c = \<lparr>SSP1IF = True, BCL1IF = False, ACKTIM = True, BF = True, D_nA = data, SSP1BUF = c,
     CKP = False, ACKSTAT = False, ACKDT = False\<rparr>"

definition ssp_ack :: ssp where
  "ssp_ack = \<lparr>SSP1IF = True, BCL1IF = False, ACKTIM = False, BF = False, D_nA = True, SSP1BUF = 0,
     CKP = False, ACKSTAT = False, ACKDT = False\<rparr>"

text \<open>The bytes of a write up to the first that is not acknowledged; how many were.\<close>

fun bus_data :: "u8 list \<Rightarrow> pic \<Rightarrow> (nat \<times> pic) option" where
  "bus_data [] p = Some (0, p)"
| "bus_data (c # cs) p =
     (case Interrupt_ISR (ssp_byte True c) p of None \<Rightarrow> None
      | Some (s, p) \<Rightarrow> if ACKDT s then Some (0, p)
          else case Interrupt_ISR ssp_ack p of None \<Rightarrow> None
          | Some (_, p) \<Rightarrow> map_option (apfst Suc) (bus_data cs p))"

fun bus_fetch :: "nat \<Rightarrow> pic \<Rightarrow> (u8 list \<times> pic) option" where
  "bus_fetch 0 p = Some ([], p)"
| "bus_fetch (Suc n) p =
     (case Interrupt_ISR ssp_ack p of None \<Rightarrow> None
      | Some (s, p) \<Rightarrow> map_option (apfst (Cons (SSP1BUF s))) (bus_fetch n p))"

definition bus_write :: "u8 \<Rightarrow> u8 list \<Rightarrow> pic \<Rightarrow> (nat option \<times> pic) option" where
  "bus_write a cs p =
     (case Interrupt_ISR (ssp_byte False a) p of None \<Rightarrow> None
      | Some (s, p) \<Rightarrow> if ACKDT s then Some (None, p) else map_option (apfst Some) (bus_data cs p))"

definition bus_read :: "u8 \<Rightarrow> nat \<Rightarrow> pic \<Rightarrow> (u8 list option \<times> pic) option" where
  "bus_read a n p =
     (case Interrupt_ISR (ssp_byte False a) p of None \<Rightarrow> None
      | Some (s, p) \<Rightarrow> if ACKDT s then Some (None, p) else map_option (apfst Some) (bus_fetch n p))"

end
