(* ===== verification/Pic_Main.thy ===== *)
theory Pic_Main
  imports Pic_I2c
begin

text \<open>
  The main program of the Edge 510 power controller (\<open>firmware/edge510-pic/pic.c\<close>): start, main
  loop, and what happens around it: interrupts, timers, the end of an EEPROM write.
\<close>

section \<open>Start\<close>

record reset_bits =
  nPD :: bool
  nTO :: bool
  nPOR :: bool
  nBOR :: bool
  nRMCLR :: bool
  nRI :: bool
  STKUNF :: bool
  STKOVF :: bool

definition reset_cause :: "reset_bits \<Rightarrow> u8" where
  "reset_cause r =
     (if nPD r \<and> nTO r then of_bool (\<not> nPOR r) + 2 * of_bool (\<not> nBOR r)
      else if \<not> nTO r then 4
      else 8 * of_bool (\<not> nRMCLR r) + 16 * of_bool (\<not> nRI r) + 32 * of_bool (STKUNF r \<or> STKOVF r))"

text \<open>
  The variables start at zero, as C has it, then \<open>main\<close> fills them. The BLE reset pin is read twice.
\<close>

definition main_init :: "reset_bits \<Rightarrow> bool \<Rightarrow> bool \<Rightarrow> u8 list \<Rightarrow> pic" where
  "main_init r ble1 ble2 ee =
     (let force = (ee ! unat EE_BLE_RESET = 0xff) in
      led_red \<lparr>pstate = PST_TURN_ON, rstate = POWER_OFF, nstate = PST_OK, pcycle = PC_NOT,
        rgb = [0, 0, 0], thmtrip = 0, btn_cur = False, btn_prev = False, btn_push = False,
        rstdeb = 0, rstcnt = 0, ble_in_reset = (\<not> ble2 \<or> force), ble_ee_reset = force,
        eeaddr = 0, eedata = ee ! unat EE_BLE_RESET, eests = EE_IDLE, swdt = 0, swdt_cnt = 0,
        i2c_addr = 0, i2c_idx = 0, i2c_nb = 0, i2c_buf = replicate 8 0,
        mptr = of_nat SIZE_MSG, msg = replicate SIZE_MSG 0, reset = reset_cause r,
        PICRST_TRIS = True, RSMRST_OUT = False, COREPWR_OUT = False, CLKPWRGD_OUT = False, PSON_OUT = False,
        BLERST_OUT = (ble1 \<and> \<not> force), CCPRH = [0, 0, 0], LED_TRIS = [False, False, False],
        TMR1 = 0, TMR1ON = False, TMR1IF = False, TMR4IF = False, TMR6IF = False,
        EEPROM = ee, NVM_WR = None, NVM_WRERR = False\<rparr>)"

section \<open>Main loop\<close>

text \<open>
  The places in the loop where an interrupt makes a difference; \<open>L_HOST2\<close> is between the two
  assignments that take a request of the host. Each call (\<open>rstbtn_fsm\<close>, \<open>power_fsm\<close>) is one step:
  an interrupt inside one (between the test and the clearing of \<open>pcycle\<close> in \<open>PST_OFF\<close>, or
  between the bytes of the LED colour) is not modelled.
\<close>

datatype place = L_BTN | L_PWR | L_HOST | L_HOST2 | L_BLE | L_EE

definition ee_fsm :: "pic \<Rightarrow> pic" where
  "ee_fsm p = (if eests p = EE_START then (ee_write p)\<lparr>eests := EE_BUSY\<rparr>
     else if eests p = EE_BUSY then p\<lparr>eests := ee_done p\<rparr> else p)"

fun loop_step :: "pic_pins \<Rightarrow> pic_pins \<Rightarrow> place \<times> pic \<Rightarrow> place \<times> pic" where
  "loop_step a b (L_BTN, p) = (L_PWR, rstbtn_fsm a p)"
| "loop_step a b (L_PWR, p) = (L_HOST, snd (power_fsm a b p))"
| "loop_step a b (L_HOST, p) = (if nstate p \<noteq> 0 then (L_HOST2, p\<lparr>pstate := nstate p\<rparr>) else (L_BLE, p))"
| "loop_step a b (L_HOST2, p) = (L_BLE, p\<lparr>nstate := PST_OK\<rparr>)"
| "loop_step a b (L_BLE, p) = (L_EE, p\<lparr>BLERST_OUT := \<not> ble_in_reset p\<rparr>)"
| "loop_step a b (L_EE, p) = (L_BTN, ee_fsm p)"

section \<open>Events\<close>

definition tmr1_clock :: "pic \<Rightarrow> pic" where
  "tmr1_clock p = (if TMR1ON p then p\<lparr>TMR1 := TMR1 p + 1, TMR1IF := TMR1IF p \<or> TMR1 p = 0xffff\<rparr> else p)"

definition nvm_done :: "bool \<Rightarrow> pic \<Rightarrow> pic" where
  "nvm_done err p = (case NVM_WR p of None \<Rightarrow> p
     | Some (a, d) \<Rightarrow> p\<lparr>EEPROM := if err then EEPROM p else (EEPROM p)[unat a := d], NVM_WR := None, NVM_WRERR := err\<rparr>)"

datatype event = Loop pic_pins pic_pins | Intr ssp | Clock | Tick4 | Tick6 | NvmDone bool

fun main_step :: "event \<Rightarrow> place \<times> pic \<Rightarrow> (place \<times> pic) option" where
  "main_step (Loop a b) s = Some (loop_step a b s)"
| "main_step (Intr r) s = map_option (\<lambda>(_, p). (fst s, p)) (Interrupt_ISR r (snd s))"
| "main_step Clock s = Some (fst s, tmr1_clock (snd s))"
| "main_step Tick4 s = Some (fst s, (snd s)\<lparr>TMR4IF := True\<rparr>)"
| "main_step Tick6 s = Some (fst s, (snd s)\<lparr>TMR6IF := True\<rparr>)"
| "main_step (NvmDone err) s = Some (fst s, nvm_done err (snd s))"

inductive pic_reach :: "place \<times> pic \<Rightarrow> bool" where
  start: "length ee = 256 \<Longrightarrow> pic_reach (L_BTN, main_init r b1 b2 ee)"
| step: "pic_reach s \<Longrightarrow> main_step e s = Some t \<Longrightarrow> pic_reach t"

fun main_run :: "event list \<Rightarrow> place \<times> pic \<Rightarrow> (place \<times> pic) option" where
  "main_run [] s = Some s"
| "main_run (e # es) s = (case main_step e s of None \<Rightarrow> None | Some t \<Rightarrow> main_run es t)"

definition clocks :: "event list \<Rightarrow> nat" where
  "clocks es = length (filter (\<lambda>e. e = Clock) es)"

end
