(* ===== verification/Pic_Props.thy ===== *)
theory Pic_Props
  imports Pic_Main
begin

text \<open>
  The Edge 510 power controller: which state the interrupt handler leaves alone, the invariants
  of the main loop.
\<close>

section \<open>What a command leaves alone\<close>

lemma join16_bytes [simp]: "join16 (byte_lo m) (byte_hi m) = m"
  by (simp add: join16_def byte_lo_def byte_hi_def le16_join)

type_synonym pwr = "u8 \<times> bool \<times> bool \<times> bool \<times> bool \<times> u16 \<times> bool \<times> bool"

definition pwr_view :: "pic \<Rightarrow> pwr" where
  "pwr_view p = (pstate p, RSMRST_OUT p, COREPWR_OUT p, CLKPWRGD_OUT p, PSON_OUT p, TMR1 p, TMR1ON p, TMR1IF p)"

named_theorems pic_simps

lemma led_set_view [simp]: "pwr_view (led_set p) = pwr_view p" "nstate (led_set p) = nstate p"
  "i2c_nb (led_set p) = i2c_nb p" "i2c_buf (led_set p) = i2c_buf p" "msg (led_set p) = msg p"
  "rgb (led_set p) = rgb p" "EEPROM (led_set p) = EEPROM p" "i2c_idx (led_set p) = i2c_idx p"
  "i2c_addr (led_set p) = i2c_addr p"
  by (simp_all add: led_set_def pwr_view_def)

lemma i2c_start_view: "pwr_view (snd (i2c_start p)) = pwr_view p"
  by (simp add: i2c_start_def Let_def i2c_load_def pwr_view_def)

lemma i2c_exec_view: "i2c_exec p = Some (e, q) \<Longrightarrow> pwr_view q = pwr_view p"
  by (simp add: i2c_exec_def Let_def led_set_def pwr_view_def split: if_splits) auto

lemma pwr_view_i2c [simp]: "pwr_view (p\<lparr>i2c_buf := x\<rparr>) = pwr_view p" "pwr_view (p\<lparr>i2c_idx := i\<rparr>) = pwr_view p"
  "pwr_view (p\<lparr>i2c_nb := i\<rparr>) = pwr_view p" "pwr_view (p\<lparr>i2c_addr := i\<rparr>) = pwr_view p"
  by (simp_all add: pwr_view_def)

lemma i2c_put_view: "i2c_put c n p = Some (m, q) \<Longrightarrow> pwr_view q = pwr_view p"
  by (auto simp: i2c_put_def Let_def split: if_splits option.splits dest!: i2c_exec_view)

lemma isr_view: "Interrupt_ISR s p = Some (r, q) \<Longrightarrow> pwr_view q = pwr_view p"
  using i2c_start_view [of "p\<lparr>i2c_addr := SSP1BUF s, i2c_idx := 0\<rparr>"]
  by (auto simp: Interrupt_ISR_def isr_byte_def isr_ack_def i2c_commit_def Let_def
      split: if_splits option.splits prod.splits dest!: i2c_put_view)

section \<open>Memory\<close>

definition i2c_wf :: "pic \<Rightarrow> bool" where
  "i2c_wf p \<longleftrightarrow> length (i2c_buf p) = 8 \<and> length (rgb p) = 3 \<and> length (msg p) = SIZE_MSG
     \<and> length (EEPROM p) = 256 \<and> i2c_nb p \<le> 4 \<and> nstate p \<in> {0, 1, 11, 14}"

lemma i2c_wf_upd [simp]:
  "i2c_wf (p\<lparr>i2c_addr := a\<rparr>) = i2c_wf p" "i2c_wf (p\<lparr>i2c_idx := i\<rparr>) = i2c_wf p"
  "i2c_wf p \<Longrightarrow> i2c_wf (p\<lparr>i2c_nb := 0\<rparr>)" "i2c_wf p \<Longrightarrow> i2c_wf (p\<lparr>i2c_buf := (i2c_buf p)[k := c]\<rparr>)"
  by (simp_all add: i2c_wf_def)

lemma i2c_start_wf:
  assumes "i2c_wf p" shows "i2c_wf (snd (i2c_start p))"
  using assms by (simp add: i2c_start_def Let_def i2c_load_def i2c_wf_def)

lemma i2c_exec_wf: "i2c_exec p = Some (e, q) \<Longrightarrow> i2c_wf p \<Longrightarrow> i2c_wf q"
  by (simp add: i2c_exec_def Let_def led_set_def i2c_wf_def split: if_splits) auto

lemma i2c_put_wf: "i2c_put c n p = Some (m, q) \<Longrightarrow> i2c_wf p \<Longrightarrow> i2c_wf q"
  by (auto simp: i2c_put_def Let_def split: if_splits option.splits elim!: i2c_exec_wf)

lemma isr_wf: "Interrupt_ISR s p = Some (r, q) \<Longrightarrow> i2c_wf p \<Longrightarrow> i2c_wf q"
  using i2c_start_wf [of "p\<lparr>i2c_addr := SSP1BUF s, i2c_idx := 0\<rparr>"]
  by (auto simp: Interrupt_ISR_def isr_byte_def isr_ack_def i2c_commit_def Let_def
      split: if_splits option.splits prod.splits elim!: i2c_put_wf)

text \<open>The only access outside an array is the unchecked store of \<open>I2C_MSG_PUTC\<close>.\<close>

lemma i2c_exec_some: "i2c_addr p = I2C_MSG_PUTC \<longrightarrow> unat (mptr p) < SIZE_MSG \<Longrightarrow> i2c_exec p \<noteq> None"
  by (auto simp: i2c_exec_def Let_def)

lemma i2c_put_some:
  assumes "i2c_wf p" and "i2c_addr p = I2C_MSG_PUTC \<longrightarrow> unat (mptr p) < SIZE_MSG"
  shows "i2c_put c n p \<noteq> None"
proof -
  have small: "unat (i2c_idx p) < 8" if "i2c_idx p < i2c_nb p"
    using that assms(1) by (simp add: i2c_wf_def word_less_nat_alt word_le_nat_alt)
  have ex: "(i2c_exec (p\<lparr>i2c_buf := b, i2c_idx := 0\<rparr>) = None) = False" "(i2c_exec (p\<lparr>i2c_idx := 0\<rparr>) = None) = False" for b
    using assms(2) i2c_exec_some [of "p\<lparr>i2c_buf := b, i2c_idx := 0\<rparr>"] i2c_exec_some [of "p\<lparr>i2c_idx := 0\<rparr>"] by auto
  have "length (i2c_buf p) = 8" using assms(1) by (simp add: i2c_wf_def)
  then show ?thesis using small by (auto simp: i2c_put_def Let_def ex split: option.split)
qed

lemma isr_some:
  assumes "i2c_wf p" and "i2c_addr p = I2C_MSG_PUTC \<longrightarrow> unat (mptr p) < SIZE_MSG"
  shows "Interrupt_ISR s p \<noteq> None"
proof -
  have "unat (i2c_idx p) < 8" if "i2c_idx p < i2c_nb p"
    using that assms(1) by (simp add: i2c_wf_def word_less_nat_alt word_le_nat_alt)
  moreover have "length (i2c_buf p) = 8" using assms(1) by (simp add: i2c_wf_def)
  moreover have put: "(i2c_put c n p = None) = False" for c n using i2c_put_some [OF assms] by auto
  ultimately show ?thesis
    by (auto simp: Interrupt_ISR_def isr_byte_def isr_ack_def Let_def put split: option.split prod.split)
qed

section \<open>Power\<close>

text \<open>The order of the reset and power good outputs.\<close>

definition pwr_ok :: "pwr \<Rightarrow> bool" where
  "pwr_ok v \<longleftrightarrow> (case v of (st, rsm, core, clk, pson, t, on, fl) \<Rightarrow>
     1 \<le> st \<and> st \<le> 15 \<and> (core \<longrightarrow> clk) \<and> (clk \<longrightarrow> rsm) \<and> (st \<in> {8, 9, 10} \<longrightarrow> rsm) \<and> (st = 10 \<longrightarrow> clk))"

lemma pst_cases:
  assumes "1 \<le> (st :: u8)" and "st \<le> 15"
  shows "st \<in> {1, 2, 3, 4, 5, 6, 7, 8, 9, 10, 11, 12, 13, 14, 15}"
proof -
  have "unat st \<in> {1..15}" using assms by (auto simp: word_le_nat_alt)
  then have "unat st \<in> set [1..<16]" by auto
  then have "(word_of_nat (unat st) :: u8) \<in> word_of_nat ` set [1..<16]" by (rule imageI)
  then show ?thesis by (simp add: upt_conv_Cons)
qed

lemmas pic_pwr = power_switch_def pst_next_def pst_start_def pst_expired_def led_off_def led_red_def led_set_def
  swdt_init_def swdt_fsm_def Let_def

lemma power_switch_ok:
  assumes "pwr_ok (pwr_view p)"
  shows "case power_switch a p of Inl q \<Rightarrow> pwr_ok (pwr_view (q\<lparr>pstate := 1\<rparr>)) | Inr q \<Rightarrow> pwr_ok (pwr_view q)"
proof -
  have "pstate p \<in> {1, 2, 3, 4, 5, 6, 7, 8, 9, 10, 11, 12, 13, 14, 15}"
    using assms by (intro pst_cases) (auto simp: pwr_ok_def pwr_view_def)
  then show ?thesis using assms
    by (elim insertE emptyE) (auto simp: pic_pwr pwr_ok_def pwr_view_def)
qed

lemma power_checks_ok:
  assumes "pwr_ok (pwr_view p)"
  shows "case power_checks b p of Inl q \<Rightarrow> pwr_ok (pwr_view (q\<lparr>pstate := 1\<rparr>)) | Inr q \<Rightarrow> pwr_ok (pwr_view q)"
  using assms by (auto simp: power_checks_def pst_start_def Let_def pwr_ok_def pwr_view_def)

lemma power_fsm_ok:
  assumes "pwr_ok (pwr_view p)" shows "pwr_ok (pwr_view (snd (power_fsm a b p)))"
  using power_switch_ok [OF assms, of a] power_checks_ok [of "projr (power_switch a p)" b]
  by (auto simp: power_fsm_def split: sum.splits)

text \<open>The switch never meets a value without a case.\<close>

definition pic_inv :: "place \<times> pic \<Rightarrow> bool" where
  "pic_inv s \<longleftrightarrow> pwr_ok (pwr_view (snd s)) \<and> i2c_wf (snd s)"

lemma rstbtn_view [simp]: "pwr_view (rstbtn_fsm a p) = pwr_view p" "i2c_wf (rstbtn_fsm a p) = i2c_wf p"
  by (simp_all add: rstbtn_fsm_def rstbtn_sample_def pwr_view_def i2c_wf_def Let_def)

lemma power_switch_wf:
  assumes "i2c_wf p"
  shows "case power_switch a p of Inl q \<Rightarrow> i2c_wf (q\<lparr>pstate := 1\<rparr>) | Inr q \<Rightarrow> i2c_wf q"
  using assms by (auto simp: pic_pwr power_switch_def i2c_wf_def)

lemma power_checks_wf:
  assumes "i2c_wf p"
  shows "case power_checks b p of Inl q \<Rightarrow> i2c_wf (q\<lparr>pstate := 1\<rparr>) | Inr q \<Rightarrow> i2c_wf q"
  using assms by (auto simp: power_checks_def pst_start_def Let_def i2c_wf_def)

lemma power_fsm_wf:
  assumes "i2c_wf p" shows "i2c_wf (snd (power_fsm a b p))"
  using power_switch_wf [OF assms, of a] power_checks_wf [of "projr (power_switch a p)" b]
  by (auto simp: power_fsm_def split: sum.splits)

lemma loop_step_inv: "pic_inv s \<Longrightarrow> pic_inv (loop_step a b s)"
proof (induction a b s rule: loop_step.induct)
  case (2 a b p)
  then show ?case by (simp add: pic_inv_def power_fsm_ok power_fsm_wf)
next
  case (3 a b p)
  then show ?case by (auto simp: pic_inv_def pwr_ok_def pwr_view_def i2c_wf_def)
next
  case (6 a b p)
  then show ?case by (simp add: pic_inv_def ee_fsm_def ee_write_def pwr_view_def i2c_wf_def)
next
  case (1 a b p)
  then show ?case by (simp add: pic_inv_def)
qed (simp_all add: pic_inv_def pwr_view_def i2c_wf_def)

lemma main_step_inv:
  assumes "main_step e s = Some t" and "pic_inv s" shows "pic_inv t"
proof (cases e)
  case (Intr r)
  then obtain r' q where "Interrupt_ISR r (snd s) = Some (r', q)" and t: "t = (fst s, q)"
    using assms(1) by auto
  then show ?thesis using assms(2) isr_view isr_wf by (auto simp: pic_inv_def t)
next
  case (NvmDone err)
  have "pwr_view (nvm_done err (snd s)) = pwr_view (snd s) \<and> i2c_wf (nvm_done err (snd s)) = i2c_wf (snd s)"
    by (simp add: nvm_done_def pwr_view_def i2c_wf_def split: option.split prod.split)
  then show ?thesis using assms NvmDone by (auto simp: pic_inv_def)
next
  case (Loop a b)
  then show ?thesis using assms loop_step_inv [of s a b] by simp
next
  case Clock
  have "pwr_ok (pwr_view (tmr1_clock p)) = pwr_ok (pwr_view p)" "i2c_wf (tmr1_clock p) = i2c_wf p" for p
    by (simp_all add: tmr1_clock_def pwr_ok_def pwr_view_def i2c_wf_def)
  then show ?thesis using assms Clock by (auto simp: pic_inv_def)
next
  case Tick4
  have "pwr_view (p\<lparr>TMR4IF := True\<rparr>) = pwr_view p" "i2c_wf (p\<lparr>TMR4IF := True\<rparr>) = i2c_wf p" for p
    by (simp_all add: pwr_view_def i2c_wf_def)
  then show ?thesis using assms Tick4 by (auto simp: pic_inv_def)
next
  case Tick6
  have "pwr_view (p\<lparr>TMR6IF := True\<rparr>) = pwr_view p" "i2c_wf (p\<lparr>TMR6IF := True\<rparr>) = i2c_wf p" for p
    by (simp_all add: pwr_view_def i2c_wf_def)
  then show ?thesis using assms Tick6 by (auto simp: pic_inv_def)
qed

lemma pic_reach_inv: "pic_reach s \<Longrightarrow> pic_inv s"
proof (induction rule: pic_reach.induct)
  case (start ee r b1 b2)
  then show ?case
    by (simp add: pic_inv_def main_init_def led_red_def led_set_def pwr_ok_def pwr_view_def i2c_wf_def Let_def SIZE_MSG_def)
next
  case (step s e t)
  then show ?case using main_step_inv by blast
qed

end
