(* ===== verification/Restart_Delay.thy ===== *)
theory Restart_Delay
  imports Main
begin

text \<open>
  The contract of a power controller that lets a board rest: once it has taken the supplies
  away, they stay away for a time \<open>d\<close>. The provider shows it with a predicate \<open>off n\<close> (the supplies
  have been off for \<open>n\<close>) that the steps of its machine keep up.
\<close>

text \<open>A run of a machine and the time it takes.\<close>

fun timed_run :: "('e \<Rightarrow> 's \<Rightarrow> 's option) \<Rightarrow> ('e \<Rightarrow> 's \<Rightarrow> nat) \<Rightarrow> 'e list \<Rightarrow> 's \<Rightarrow> ('s \<times> nat) option" where
  "timed_run step elapse [] s = Some (s, 0)"
| "timed_run step elapse (e # es) s = (case step e s of None \<Rightarrow> None
     | Some t \<Rightarrow> map_option (\<lambda>(u, n). (u, elapse e s + n)) (timed_run step elapse es t))"

locale restart_delay =
  fixes step :: "'e \<Rightarrow> 's \<Rightarrow> 's option"
    and elapse :: "'e \<Rightarrow> 's \<Rightarrow> nat"
    and on :: "'s \<Rightarrow> bool"
    and good :: "'s \<Rightarrow> bool"
    and off :: "nat \<Rightarrow> 's \<Rightarrow> bool"
    and d :: nat
  assumes good_step: "step e s = Some t \<Longrightarrow> good s \<Longrightarrow> good t"
    and off_start: "step e s = Some t \<Longrightarrow> good s \<Longrightarrow> on s \<Longrightarrow> \<not> on t \<Longrightarrow> off (elapse e s) t"
    and off_step: "step e s = Some t \<Longrightarrow> good s \<Longrightarrow> off n s \<Longrightarrow> off (n + elapse e s) t"
    and off_end: "off n s \<Longrightarrow> on s \<Longrightarrow> d \<le> n"
begin

lemma off_run: "timed_run step elapse es s = Some (u, m) \<Longrightarrow> good s \<Longrightarrow> off n s \<Longrightarrow> off (n + m) u"
proof (induction es arbitrary: s n m)
  case (Cons e es)
  then obtain t k where t: "step e s = Some t" "timed_run step elapse es t = Some (u, k)" "m = elapse e s + k"
    by (auto split: option.splits)
  have "off (n + elapse e s + k) u"
    using Cons.IH [OF t(2)] good_step [OF t(1)] off_step [OF t(1)] Cons.prems(2,3) by blast
  then show ?case by (simp add: t(3) add.assoc)
qed simp

lemma restart:
  assumes "step e s = Some t" and "good s" and "on s" and "\<not> on t"
    and "timed_run step elapse es t = Some (u, m)" and "on u"
  shows "d \<le> elapse e s + m"
  using off_end [OF off_run [OF assms(5)]] good_step off_start assms by blast

end

end
