(* ===== verification/Pic_Time.thy ===== *)
theory Pic_Time
  imports Pic_Props Restart_Delay
begin

text \<open>
  The Edge 510 power controller: its timer, the minimal off time, the power-up sequence, the
  watchdog and the reset button.
\<close>

section \<open>Timer\<close>

lemma not_join16: "join16 (NOT (byte_lo m)) (NOT (byte_hi m)) = NOT m"
proof -
  have "NOT (byte_lo m) = byte_lo (NOT m)" "NOT (byte_hi m) = byte_hi (NOT m)"
    by (rule bit_word_eqI, auto simp: byte_lo_def byte_hi_def bit_simps)+
  then show ?thesis by simp
qed

lemma unat_not16: "unat (NOT m :: u16) = 65535 - unat m"
proof -
  have "NOT m = - 1 - m" by (simp add: not_eq_complement)
  moreover have "unat (- 1 :: u16) = 65535" by (simp add: unsigned_minus_1_eq_mask mask_eq_exp_minus_1)
  ultimately show ?thesis by (simp add: unat_sub)
qed

lemma pst_start_fields [simp]:
  "TMR1 (pst_start t p) = NOT (push_bit 1 t)" "TMR1ON (pst_start t p)" "\<not> TMR1IF (pst_start t p)"
  by (simp_all add: pst_start_def Let_def not_join16)

lemma u16_less: "unat (w :: u16) < 65536" using unsigned_less [of w, where ?'a = nat] by simp
lemma clock_fields:
  "TMR1ON p \<Longrightarrow> TMR1 (tmr1_clock p) = TMR1 p + 1"
  "TMR1ON p \<Longrightarrow> TMR1IF (tmr1_clock p) = (TMR1IF p \<or> TMR1 p = 0xffff)"
  "TMR1ON (tmr1_clock p) = TMR1ON p" "pstate (tmr1_clock p) = pstate p"
  "PSON_OUT (tmr1_clock p) = PSON_OUT p"
  by (simp_all add: tmr1_clock_def)

lemma unat_succ16: "w \<noteq> 0xffff \<Longrightarrow> unat (w + 1 :: u16) = Suc (unat w)"
  using u16_less [of w] by (auto simp: unat_word_ariths word_unat_eq_iff mod_if)

text \<open>The counter and its flag after \<open>n\<close> clocks.\<close>

lemma clocks_count:
  assumes "TMR1ON p" and "\<not> TMR1IF p" and "n \<le> 0xffff"
  shows "TMR1ON ((tmr1_clock ^^ n) p)
    \<and> (TMR1IF ((tmr1_clock ^^ n) p) \<longleftrightarrow> 0x10000 \<le> unat (TMR1 p) + n)
    \<and> TMR1 ((tmr1_clock ^^ n) p) = TMR1 p + of_nat n"
  using assms(3)
proof (induction n)
  case 0
  then show ?case using assms u16_less [of "TMR1 p"] by (simp add: not_le)
next
  case (Suc n)
  let ?q = "(tmr1_clock ^^ n) p"
  have ih: "TMR1ON ?q" "TMR1IF ?q \<longleftrightarrow> 0x10000 \<le> unat (TMR1 p) + n" "TMR1 ?q = TMR1 p + of_nat n"
    using Suc by simp_all
  have "TMR1 ?q = 0xffff \<longleftrightarrow> unat (TMR1 ?q) = 0xffff" by (simp add: word_unat_eq_iff)
  also have "unat (TMR1 ?q) = (unat (TMR1 p) + n) mod 0x10000"
    using Suc.prems by (simp add: ih(3) unat_word_ariths unat_of_nat)
  also have "\<dots> = 0xffff \<longleftrightarrow> unat (TMR1 p) + n = 0xffff"
    using u16_less [of "TMR1 p"] Suc.prems by (auto simp: mod_if)
  finally show ?case using ih by (auto simp: clock_fields algebra_simps)
qed

lemma unat_double: "msec < 0x8000 \<Longrightarrow> unat (NOT (push_bit 1 msec) :: u16) = 65535 - 2 * unat msec"
  by (simp add: word_less_nat_alt unat_not16 unat_word_ariths)

lemma pst_start_expires:
  assumes "msec < 0x8000" and "n \<le> 0xffff"
  shows "TMR1IF ((tmr1_clock ^^ n) (pst_start msec p)) \<longleftrightarrow> 2 * unat msec < n"
  using clocks_count [of "pst_start msec p" n] assms unat_double [OF assms(1)]
  by (auto simp: word_less_nat_alt)

section \<open>Minimal off time\<close>

text \<open>Before 6001 clocks have passed the supplies are off and the timer has not run out.\<close>

definition off_wait :: "nat \<Rightarrow> pic \<Rightarrow> bool" where
  "off_wait n p \<longleftrightarrow> 6001 \<le> n \<or> (\<not> PSON_OUT p \<and> pstate p \<notin> {3, 4} \<and>
     (pstate p = 2 \<longrightarrow> TMR1ON p \<and> \<not> TMR1IF p \<and> unat (TMR1 p) \<le> 59535 + n))"

lemma off_wait_power:
  assumes "off_wait n p" and "pwr_ok (pwr_view p)"
  shows "off_wait n (snd (power_fsm a b p))"
proof -
  have st: "pstate p \<in> {1, 2, 3, 4, 5, 6, 7, 8, 9, 10, 11, 12, 13, 14, 15}"
    using assms(2) by (intro pst_cases) (auto simp: pwr_ok_def pwr_view_def)
  have "case power_switch a p of Inl q \<Rightarrow> off_wait n (q\<lparr>pstate := 1\<rparr>) | Inr q \<Rightarrow> off_wait n q"
    using st assms(1)
    by (elim insertE emptyE) (auto simp: off_wait_def pic_pwr PSTATE_MIN_OFF_def not_join16 unat_not16)
  moreover have "case power_checks b q of Inl r \<Rightarrow> off_wait n (r\<lparr>pstate := 1\<rparr>) | Inr r \<Rightarrow> off_wait n r"
    if "off_wait n q" for q
    using that by (auto simp: power_checks_def pst_start_def Let_def off_wait_def)
  from this [of "projr (power_switch a p)"] calculation show ?thesis
    by (auto simp: power_fsm_def split: sum.splits)
qed

lemma off_wait_view: "pwr_view q = pwr_view p \<Longrightarrow> off_wait n q = off_wait n p"
  by (simp add: off_wait_def pwr_view_def)

lemma off_wait_loop:
  assumes "off_wait n (snd s)" and "pic_inv s" shows "off_wait n (snd (loop_step a b s))"
proof (cases s)
  case (Pair l p)
  have iv: "pwr_ok (pwr_view p)" "nstate p \<in> {0, 1, 11, 14}" and w: "off_wait n p"
    using assms by (simp_all add: Pair pic_inv_def i2c_wf_def)
  show ?thesis
  proof (cases l)
    case L_BTN
    then show ?thesis using w off_wait_view [of "rstbtn_fsm a p" p n] by (simp add: Pair)
  next
    case L_PWR
    then show ?thesis using off_wait_power [OF w iv(1)] by (simp add: Pair)
  next
    case L_HOST
    then show ?thesis using w iv(2) by (auto simp: Pair off_wait_def)
  next
    case L_EE
    have "pwr_view (ee_fsm p) = pwr_view p" by (simp add: ee_fsm_def ee_write_def pwr_view_def)
    then show ?thesis using w off_wait_view [of "ee_fsm p" p n] L_EE by (simp add: Pair)
  qed (use w in \<open>simp_all add: Pair off_wait_def\<close>)
qed

lemma off_wait_clock:
  assumes "off_wait n p" shows "off_wait (Suc n) (tmr1_clock p)"
proof (cases "TMR1 p = 0xffff \<or> 6001 \<le> Suc n")
  case True
  then show ?thesis using assms by (auto simp: off_wait_def clock_fields)
next
  case False
  then show ?thesis using assms unat_succ16 [of "TMR1 p"] by (auto simp: off_wait_def clock_fields)
qed

definition elapse :: "event \<Rightarrow> nat" where "elapse e = of_bool (e = Clock)"

lemma clocks_Cons [simp]: "clocks [] = 0" "clocks (e # es) = elapse e + clocks es"
  by (simp_all add: clocks_def elapse_def)

text \<open>Interrupts, ticks and the end of a write touch neither the outputs nor the timer.\<close>

lemma quiet_view:
  assumes "main_step e s = Some t"
  obtains a b where "e = Loop a b" "t = loop_step a b s"
  | "e = Clock" "t = (fst s, tmr1_clock (snd s))"
  | "e \<noteq> Clock" "pwr_view (snd t) = pwr_view (snd s)"
proof (cases e)
  case (Intr r)
  then obtain r' q where "Interrupt_ISR r (snd s) = Some (r', q)" and "t = (fst s, q)" using assms by auto
  then show ?thesis using that(3) Intr isr_view by simp
next
  case (NvmDone err)
  have "pwr_view (nvm_done err p) = pwr_view p" for p
    by (simp add: nvm_done_def pwr_view_def split: option.split prod.split)
  then show ?thesis using that(3) NvmDone assms by force
next
  case Tick4
  then have "t = (fst s, (snd s)\<lparr>TMR4IF := True\<rparr>)" using assms by simp
  then show ?thesis using that(3) Tick4 by (simp add: pwr_view_def)
next
  case Tick6
  then have "t = (fst s, (snd s)\<lparr>TMR6IF := True\<rparr>)" using assms by simp
  then show ?thesis using that(3) Tick6 by (simp add: pwr_view_def)
qed (use assms that in auto)

lemma off_wait_step:
  assumes "main_step e s = Some t" and "off_wait n (snd s)" and "pic_inv s"
  shows "off_wait (n + elapse e) (snd t)"
  using assms(1)
proof (cases rule: quiet_view)
  case (1 a b)
  then show ?thesis using off_wait_loop [OF assms(2,3), of a b] by (simp add: elapse_def)
next
  case 2
  then show ?thesis using off_wait_clock [OF assms(2)] by (simp add: elapse_def)
next
  case 3
  then show ?thesis using off_wait_view [OF 3(2), of n] assms(2) by (simp add: elapse_def)
qed

text \<open>The supplies go off only in \<open>PST_TURN_OFF\<close>, which starts the wait.\<close>

lemma power_fsm_pson:
  assumes "PSON_OUT p" and "\<not> PSON_OUT (snd (power_fsm a b p))" and "pwr_ok (pwr_view p)"
  shows "pstate p = 1"
proof (rule ccontr)
  assume off: "pstate p \<noteq> 1"
  have "pstate p \<in> {1, 2, 3, 4, 5, 6, 7, 8, 9, 10, 11, 12, 13, 14, 15}"
    using assms(3) by (intro pst_cases) (auto simp: pwr_ok_def pwr_view_def)
  then have "case power_switch a p of Inl q \<Rightarrow> PSON_OUT q | Inr q \<Rightarrow> PSON_OUT q"
    using off assms(1) by (elim insertE emptyE) (auto simp: pic_pwr)
  moreover have "case power_checks b q of Inl r \<Rightarrow> PSON_OUT r | Inr r \<Rightarrow> PSON_OUT r" if "PSON_OUT q" for q
    using that by (auto simp: power_checks_def pst_start_def Let_def)
  from this [of "projr (power_switch a p)"] calculation have "PSON_OUT (snd (power_fsm a b p))"
    by (auto simp: power_fsm_def split: sum.splits)
  then show False using assms(2) by simp
qed

lemma turn_off_waits: "pstate p = 1 \<Longrightarrow> off_wait 0 (snd (power_fsm a b p))"
  by (simp add: power_fsm_def power_checks_def pic_pwr off_wait_def not_join16 unat_not16 PSTATE_MIN_OFF_def)

lemma pson_falls:
  assumes "main_step e s = Some t" and "PSON_OUT (snd s)" and "\<not> PSON_OUT (snd t)" and "pic_inv s"
  shows "off_wait 0 (snd t)"
  using assms(1)
proof (cases rule: quiet_view)
  case (1 a b)
  obtain l p where s: "s = (l, p)" by (cases s)
  have "\<not> PSON_OUT (snd (loop_step a b (l, p)))" and on: "PSON_OUT p" using assms(2,3) by (simp_all add: s 1(2))
  moreover have "PSON_OUT (rstbtn_fsm a p) = PSON_OUT p" "PSON_OUT (ee_fsm p) = PSON_OUT p"
    using rstbtn_view(1) [of a p] by (simp_all add: pwr_view_def ee_fsm_def ee_write_def)
  ultimately have l: "l = L_PWR" by (cases l) (auto split: if_splits)
  then have "pstate p = 1"
    using assms(3,4) power_fsm_pson [OF on, of a b] by (simp add: s 1(2) pic_inv_def)
  then show ?thesis using turn_off_waits by (simp add: s 1(2) l)
next
  case 2
  then show ?thesis using assms(2,3) by (simp add: clock_fields)
next
  case 3
  then show ?thesis using assms(2,3) by (simp add: pwr_view_def)
qed


interpretation pic_off: restart_delay main_step "\<lambda>e s. elapse e" "\<lambda>s. PSON_OUT (snd s)" pic_inv "\<lambda>n s. off_wait n (snd s)" 6001
proof
  fix e s t n
  assume step: "main_step e s = Some t" and inv: "pic_inv s"
  show "pic_inv t" using main_step_inv [OF step inv] .
  show "off_wait (n + elapse e) (snd t)" if "off_wait n (snd s)" using off_wait_step [OF step that inv] .
  show "off_wait (elapse e) (snd t)" if "PSON_OUT (snd s)" "\<not> PSON_OUT (snd t)"
  proof -
    have "e \<noteq> Clock" using that step by (auto simp: tmr1_clock_def split: if_splits)
    then show ?thesis using pson_falls [OF step that inv] by (simp add: elapse_def)
  qed
next
  fix n and s :: "place \<times> pic"
  assume "off_wait n (snd s)" and "PSON_OUT (snd s)"
  then show "6001 \<le> n" by (simp add: off_wait_def)
qed

lemma main_run_timed: "main_run es s = Some u \<Longrightarrow> timed_run main_step (\<lambda>e s. elapse e) es s = Some (u, clocks es)"
  by (cases u, induction es arbitrary: s) (auto split: option.splits)

lemma run_clocks: "main_run (replicate n Clock @ es) (l, p) = main_run es (l, (tmr1_clock ^^ n) p)"
  by (induction n arbitrary: p) (simp_all add: funpow_swap1)

section \<open>Power up\<close>

definition board_good :: pic_pins where
  "board_good = \<lparr>RST_BUTTON_PORT = True, PWRGD_PORT = True, PMU_SLP_PORT = True, THMTRIP_PORT = False\<rparr>"

definition rounds :: "pic_pins \<Rightarrow> event list" where "rounds a = replicate 5 (Loop a a)"

text \<open>One pass of the loop without a request and without a tick of the button timer.\<close>

definition loop_pass :: "pic_pins \<Rightarrow> pic \<Rightarrow> pic" where
  "loop_pass a p = (let q = snd (power_fsm a a p) in ee_fsm (q\<lparr>BLERST_OUT := \<not> ble_in_reset q\<rparr>))"

lemma power_switch_frame: 
  "case power_switch a p of Inl q \<Rightarrow> nstate q = nstate p \<and> TMR6IF q = TMR6IF p | Inr q \<Rightarrow> nstate q = nstate p \<and> TMR6IF q = TMR6IF p"
  by (simp add: power_switch_def pst_next_def pst_start_def pst_expired_def led_off_def led_red_def led_set_def
  swdt_init_def swdt_fsm_def Let_def)

lemma power_fsm_frame: "nstate (snd (power_fsm a b p)) = nstate p" "TMR6IF (snd (power_fsm a b p)) = TMR6IF p"
proof -
  have "case power_checks b q of Inl r \<Rightarrow> nstate r = nstate q \<and> TMR6IF r = TMR6IF q
    | Inr r \<Rightarrow> nstate r = nstate q \<and> TMR6IF r = TMR6IF q" for q
    by (simp add: power_checks_def pst_start_def Let_def)
  from this [of "projr (power_switch a p)"] power_switch_frame [of p a]
  show "nstate (snd (power_fsm a b p)) = nstate p" "TMR6IF (snd (power_fsm a b p)) = TMR6IF p"
    by (auto simp: power_fsm_def split: sum.splits)
qed

lemma run_round:
  assumes "nstate p = 0" and "\<not> TMR6IF p"
  shows "main_run (rounds a @ es) (L_BTN, p) = main_run es (L_BTN, loop_pass a p)"
  using assms by (simp add: rounds_def eval_nat_numeral rstbtn_fsm_def power_fsm_frame loop_pass_def Let_def)

text \<open>What the sequence depends on.\<close>

definition seq_view :: "pic \<Rightarrow> pwr \<times> u8 \<times> bool" where
  "seq_view p = (pwr_view p, nstate p, TMR6IF p)"

lemma loop_pass_view:
  assumes "seq_view p = ((st, rsm, core, clk, ps, t, on, f), 0, False)"
  shows "st = 4 \<Longrightarrow> seq_view (loop_pass board_good p) = ((5, False, False, False, True, NOT 400, True, False), 0, False)"
    and "st = 5 \<Longrightarrow> seq_view (loop_pass board_good p) = ((6, rsm, core, clk, ps, NOT 200, True, False), 0, False)"
    and "st = 6 \<Longrightarrow> f \<Longrightarrow> seq_view (loop_pass board_good p) = ((7, rsm, core, clk, ps, NOT 20, True, False), 0, False)"
    and "st = 7 \<Longrightarrow> f \<Longrightarrow> seq_view (loop_pass board_good p) = ((8, True, core, clk, ps, NOT 500, True, False), 0, False)"
    and "st = 8 \<Longrightarrow> \<not> f \<Longrightarrow> seq_view (loop_pass board_good p) = ((9, rsm, core, clk, ps, NOT 10, True, False), 0, False)"
    and "st = 9 \<Longrightarrow> f \<Longrightarrow> seq_view (loop_pass board_good p) = ((10, rsm, core, True, ps, NOT 300, True, False), 0, False)"
    and "st = 10 \<Longrightarrow> f \<Longrightarrow> seq_view (loop_pass board_good p) = ((13, rsm, True, clk, ps, t, False, False), 0, False)"
  using assms
  by (simp_all add: loop_pass_def power_fsm_def power_checks_def pic_pwr seq_view_def pwr_view_def
      board_good_def ee_fsm_def ee_write_def not_join16 PSTATE_PWRGD_TO_def PSTATE_PWRGD_STABLE_def
      PSTATE_RSMRST_DELAY_def PSTATE_PMUSLP_TO_def PSTATE_CLKPWRGD_DELAY_def PSTATE_COREPWR_DELAY_def)

lemma clocks_append [simp]: "clocks (es @ fs) = clocks es + clocks fs" "clocks (replicate n Clock) = n" "clocks (rounds a) = 0"
  by (simp_all add: clocks_def filter_replicate rounds_def)

lemma clocks_view:
  assumes "seq_view p = ((st, rsm, core, clk, ps, t, True, False), ns, tf)" and "n \<le> 0xffff"
  shows "seq_view ((tmr1_clock ^^ n) p) = ((st, rsm, core, clk, ps, t + of_nat n, True, 0x10000 \<le> unat t + n), ns, tf)"
proof -
  have "(pstate q, RSMRST_OUT q, COREPWR_OUT q, CLKPWRGD_OUT q, PSON_OUT q, nstate q, TMR6IF q)
    = (st, rsm, core, clk, ps, ns, tf)" if "q = (tmr1_clock ^^ n) p" for q
    unfolding that using assms(1) by (induction n) (simp_all add: seq_view_def pwr_view_def tmr1_clock_def)
  from this [OF refl] show ?thesis
    using clocks_count [of p n] assms by (simp add: seq_view_def pwr_view_def)
qed

definition power_up_events :: "event list" where
  "power_up_events = rounds board_good @ rounds board_good @ replicate 201 Clock @ rounds board_good @ replicate 21 Clock @ rounds board_good @ rounds board_good
     @ replicate 11 Clock @ rounds board_good @ replicate 301 Clock @ rounds board_good"

lemma run_round_view:
  "seq_view p = (v, 0, False) \<Longrightarrow> main_run (rounds a @ es) (L_BTN, p) = main_run es (L_BTN, loop_pass a p)"
  by (rule run_round) (simp_all add: seq_view_def)

lemma power_up_run:
  assumes "pstate p = PST_TURN_ON" and "nstate p = 0" and "\<not> TMR6IF p"
  shows "\<exists>q. main_run power_up_events (L_BTN, p) = Some (L_BTN, q) \<and> pstate q = PST_RUNNING
     \<and> PSON_OUT q \<and> RSMRST_OUT q \<and> CLKPWRGD_OUT q \<and> COREPWR_OUT q \<and> clocks power_up_events = 534"
proof -
  let ?C = "\<lambda>n. tmr1_clock ^^ n"
  have v0: "seq_view p = ((4, RSMRST_OUT p, COREPWR_OUT p, CLKPWRGD_OUT p, PSON_OUT p, TMR1 p, TMR1ON p, TMR1IF p), 0, False)"
    using assms by (simp add: seq_view_def pwr_view_def)
  note v1 = loop_pass_view(1) [OF v0 refl]
  note v2 = loop_pass_view(2) [OF v1 refl]
  note c2 = clocks_view [OF v2, of 201]
  note v3 = loop_pass_view(3) [OF c2 refl]
  note c3 = clocks_view [OF v3, of 21]
  note v4 = loop_pass_view(4) [OF c3 refl]
  note v5 = loop_pass_view(5) [OF v4 refl]
  note c5 = clocks_view [OF v5, of 11]
  note v6 = loop_pass_view(6) [OF c5 refl]
  note c6 = clocks_view [OF v6, of 301]
  note v7 = loop_pass_view(7) [OF c6 refl]
  let ?q = "loop_pass board_good (?C 301 (loop_pass board_good (?C 11 (loop_pass board_good (loop_pass board_good (?C 21 (loop_pass board_good (?C 201 (loop_pass board_good (loop_pass board_good p))))))))))"
  have last: "main_run (rounds board_good) (L_BTN, ?C 301 (loop_pass board_good (?C 11 (loop_pass board_good (loop_pass board_good (?C 21 (loop_pass board_good (?C 201
    (loop_pass board_good (loop_pass board_good p)))))))))) = Some (L_BTN, ?q)"
    using run_round_view [where es = "[]" and a = board_good, OF c6] by simp
  have "main_run power_up_events (L_BTN, p) = Some (L_BTN, ?q)"
    unfolding power_up_events_def
    by (simp add: run_clocks run_round_view [OF v0] run_round_view [OF v1] run_round_view [OF c2] run_round_view [OF c3]
        run_round_view [OF v4] run_round_view [OF c5] last unat_not16)
  moreover have "seq_view ?q = ((13, True, True, True, True, NOT 300 + of_nat 301, False, False), 0, False)"
    by (rule v7) (simp_all add: unat_not16)
  moreover have "clocks power_up_events = 534" by (simp add: power_up_events_def)
  ultimately show ?thesis by (simp add: seq_view_def pwr_view_def)
qed

end
