(* ===== verification/Pic_Board.thy ===== *)
theory Pic_Board
  imports Pic_Time
begin

text \<open>
  The Edge 510 power controller: a supply that never reports good, the off time, and the reset
  button that turns the board on again.
\<close>

lemma power_fsm_btn: "btn_cur (snd (power_fsm a b p)) = btn_cur p \<and> rstdeb (snd (power_fsm a b p)) = rstdeb p"
proof -
  have "case power_switch a p of Inl q \<Rightarrow> btn_cur q = btn_cur p \<and> rstdeb q = rstdeb p
    | Inr q \<Rightarrow> btn_cur q = btn_cur p \<and> rstdeb q = rstdeb p"
    by (simp add: pic_pwr)
  moreover have "case power_checks b q of Inl r \<Rightarrow> btn_cur r = btn_cur q \<and> rstdeb r = rstdeb q
    | Inr r \<Rightarrow> btn_cur r = btn_cur q \<and> rstdeb r = rstdeb q" for q
    by (simp add: power_checks_def pst_start_def Let_def)
  from this [of "projr (power_switch a p)"] calculation show ?thesis
    by (auto simp: power_fsm_def split: sum.splits)
qed

lemma loop_pass_btn [simp]: "btn_cur (loop_pass a p) = btn_cur p" "rstdeb (loop_pass a p) = rstdeb p"
  by (simp_all add: loop_pass_def Let_def ee_fsm_def ee_write_def power_fsm_btn)

lemma clocks_btn [simp]: "btn_cur ((tmr1_clock ^^ n) p) = btn_cur p" "rstdeb ((tmr1_clock ^^ n) p) = rstdeb p"
  by (induction n, simp_all add: tmr1_clock_def)

definition board_bad :: pic_pins where "board_bad = board_good\<lparr>PWRGD_PORT := False\<rparr>"
definition board_pressed :: pic_pins where "board_pressed = board_good\<lparr>RST_BUTTON_PORT := False\<rparr>"

lemma off_pass_view:
  assumes "seq_view p = ((st, rsm, core, clk, ps, t, on, f), 0, False)"
  shows "st = 5 \<Longrightarrow> f \<Longrightarrow> seq_view (loop_pass board_bad p) = ((1, rsm, core, clk, ps, t, False, False), 0, False)"
    and "st = 1 \<Longrightarrow> seq_view (loop_pass board_good p) = ((2, False, False, False, False, NOT 6000, True, False), 0, False)"
    and "st = 2 \<Longrightarrow> f \<Longrightarrow> seq_view (loop_pass board_good p) = ((3, rsm, core, clk, ps, t, False, False), 0, False)"
    and "st = 3 \<Longrightarrow> btn_push p \<Longrightarrow> seq_view (loop_pass board_pressed p) = ((4, rsm, core, clk, ps, t, on, f), 0, False)"
  using assms
  by (simp_all add: loop_pass_def power_fsm_def power_checks_def pic_pwr seq_view_def pwr_view_def board_bad_def board_pressed_def
      board_good_def ee_fsm_def ee_write_def not_join16 PSTATE_MIN_OFF_def)

lemma press_view:
  assumes "seq_view p = (v, 0, False)" and "\<not> btn_cur p" and "rstdeb p = 0"
  shows "seq_view (rstbtn_fsm board_pressed (p\<lparr>TMR6IF := True\<rparr>)) = (v, 0, False) \<and> btn_push (rstbtn_fsm board_pressed (p\<lparr>TMR6IF := True\<rparr>))"
  using assms by (simp add: rstbtn_fsm_def rstbtn_sample_def rst_button_def seq_view_def pwr_view_def Let_def board_pressed_def)

lemma run_press:
  assumes "seq_view p = (v, 0, False)" and "\<not> btn_cur p" and "rstdeb p = 0"
  shows "main_run (Tick6 # rounds board_pressed @ es) (L_BTN, p)
    = main_run es (L_BTN, loop_pass board_pressed (rstbtn_fsm board_pressed (p\<lparr>TMR6IF := True\<rparr>)))"
  using press_view [OF assms] by (simp add: rounds_def eval_nat_numeral power_fsm_frame loop_pass_def Let_def seq_view_def)

lemma off_and_on:
  assumes "seq_view p = ((5, rsm, core, clk, True, t, True, True), 0, False)" and "\<not> btn_cur p" and "rstdeb p = 0"
  shows "\<exists>s t u. main_run (rounds board_bad @ [Loop board_good board_good]) (L_BTN, p) = Some s
     \<and> main_step (Loop board_good board_good) s = Some t \<and> PSON_OUT (snd s) \<and> \<not> PSON_OUT (snd t)
     \<and> main_run (replicate 3 (Loop board_good board_good) @ replicate 6001 Clock @ rounds board_good @ Tick6 # rounds board_pressed
        @ rounds board_good) t = Some u \<and> PSON_OUT (snd u)"
proof -
  let ?p1 = "loop_pass board_bad p"
  let ?p2 = "loop_pass board_good ?p1"
  let ?p3 = "(tmr1_clock ^^ 6001) ?p2"
  let ?p4 = "loop_pass board_good ?p3"
  let ?p5 = "rstbtn_fsm board_pressed (?p4\<lparr>TMR6IF := True\<rparr>)"
  let ?p6 = "loop_pass board_pressed ?p5"
  let ?p7 = "loop_pass board_good ?p6"
  note v1 = off_pass_view(1) [OF assms(1) refl TrueI]
  note v2 = off_pass_view(2) [OF v1 refl]
  have v3: "seq_view ?p3 = ((2, False, False, False, False, NOT 6000 + of_nat 6001, True, True), 0, False)"
    using clocks_view [OF v2, of 6001] by (simp add: unat_not16)
  note v4 = off_pass_view(3) [OF v3 refl TrueI]
  have b4: "\<not> btn_cur ?p4" "rstdeb ?p4 = 0" using assms(2,3) by simp_all
  note v5 = press_view [OF v4 b4, THEN conjunct1] and b5 = press_view [OF v4 b4, THEN conjunct2]
  note v6 = off_pass_view(4) [OF v5 refl b5]
  note v7 = loop_pass_view(1) [OF v6 refl]
  let ?q = "snd (power_fsm board_good board_good ?p1)"
  have n1: "nstate ?p1 = 0" "\<not> TMR6IF ?p1" using v1 by (simp_all add: seq_view_def)
  have "main_run (rounds board_bad @ [Loop board_good board_good]) (L_BTN, p) = Some (L_PWR, ?p1)"
    using run_round_view [OF assms(1), of board_bad "[Loop board_good board_good]"] n1 by (simp add: rstbtn_fsm_def)
  moreover have "main_step (Loop board_good board_good) (L_PWR, ?p1) = Some (L_HOST, ?q)" by simp
  moreover have "PSON_OUT ?p1" using v1 by (simp add: seq_view_def pwr_view_def)
  moreover have "\<not> PSON_OUT ?q"
    using v2 by (simp add: loop_pass_def seq_view_def pwr_view_def Let_def ee_fsm_def ee_write_def split: if_splits)
  moreover have "main_run (replicate 3 (Loop board_good board_good) @ es) (L_HOST, ?q) = main_run es (L_BTN, ?p2)" for es
    using n1 by (simp add: eval_nat_numeral power_fsm_frame loop_pass_def Let_def)
  then have "main_run (replicate 3 (Loop board_good board_good) @ replicate 6001 Clock @ rounds board_good @ Tick6 # rounds board_pressed
        @ rounds board_good) (L_HOST, ?q) = Some (L_BTN, ?p7)"
    using run_round_view [OF v6, of board_good "[]"]
    by (simp only: run_clocks run_round_view [OF v3] run_press [OF v4 b4]) simp
  moreover have "PSON_OUT ?p7" using v7 by (simp add: seq_view_def pwr_view_def)
  ultimately show ?thesis by (metis snd_conv)
qed

end
