(* ===== verification/Pic_Watch.thy ===== *)
theory Pic_Watch
  imports Pic_Props begin

text \<open>
  The Edge 510 power controller: the reset button tick by tick, and what a failure of the
  supplies leads to.
\<close>

section \<open>Reset button\<close>

text \<open>One tick of the button timer; the power machine has taken the last push event.\<close>

definition btn_tick :: "pic_pins \<Rightarrow> pic \<Rightarrow> pic" where
  "btn_tick a p = rstbtn_fsm a (p\<lparr>TMR6IF := True, btn_push := False\<rparr>)"

definition btn_wait :: "nat \<Rightarrow> pic \<Rightarrow> bool" where
  "btn_wait k p \<longleftrightarrow> (if btn_cur p then k < 19 \<longrightarrow> unat (rstdeb p) = Suc k
     else k < 38 \<longrightarrow> 0 < unat (rstdeb p) \<and> unat (rstdeb p) + 18 \<le> k)"

lemma unat_succ8: "unat w < 255 \<Longrightarrow> unat (w + 1 :: u8) = Suc (unat w)"
  by (simp add: unat_word_ariths)

lemma btn_push_waits: "btn_push (btn_tick a p) \<Longrightarrow> btn_wait 0 (btn_tick a p)"
  by (auto simp: btn_tick_def rstbtn_fsm_def rstbtn_sample_def btn_wait_def Let_def split: if_splits)

lemma btn_wait_tick:
  assumes "btn_wait k p"
  shows "btn_wait (Suc k) (btn_tick a p) \<and> (k < 37 \<longrightarrow> \<not> btn_push (btn_tick a p))"
  using assms unat_succ8 [of "rstdeb p"] unsigned_less [of "rstdeb p", where ?'a = nat]
  by (auto simp: btn_tick_def rstbtn_fsm_def rstbtn_sample_def btn_wait_def Let_def RSTBTN_DEB_def word_less_nat_alt
      unsigned_eq_0_iff split: if_splits)

lemma btn_wait_ticks: "btn_wait k p \<Longrightarrow> btn_wait (k + length as) (fold btn_tick as p)"
proof (induction as arbitrary: k p)
  case (Cons a as)
  then show ?case using Cons.IH [of "Suc k" "btn_tick a p"] btn_wait_tick [of k p a] by simp
qed simp

lemma btn_push_apart:
  assumes "btn_push (btn_tick a p)" and "btn_push (btn_tick b (fold btn_tick as (btn_tick a p)))"
  shows "37 \<le> length as"
  using btn_wait_ticks [OF btn_push_waits [OF assms(1)], of as] btn_wait_tick assms(2) by fastforce

text \<open>The bound is reached: a tick with the button pressed, 37 released, one pressed.\<close>

definition pin0 :: "bool \<Rightarrow> pic_pins" where
  "pin0 v = \<lparr>RST_BUTTON_PORT = v, PWRGD_PORT = True, PMU_SLP_PORT = True, THMTRIP_PORT = False\<rparr>"

lemma btn_tick_ignored:
  assumes "0 < unat (rstdeb p)" and "unat (rstdeb p) < 19"
  shows "unat (rstdeb (btn_tick a p)) = Suc (unat (rstdeb p)) \<and> btn_cur (btn_tick a p) = btn_cur p"
  using unat_succ8 [of "rstdeb p"] assms
  by (auto simp: btn_tick_def rstbtn_fsm_def Let_def RSTBTN_DEB_def word_less_nat_alt unsigned_eq_0_iff)

lemma btn_ticks_ignored:
  assumes "0 < unat (rstdeb p)" and "unat (rstdeb p) + n < 20"
  shows "unat (rstdeb ((btn_tick a ^^ n) p)) = unat (rstdeb p) + n \<and> btn_cur ((btn_tick a ^^ n) p) = btn_cur p"
  using assms(2)
proof (induction n)
  case (Suc n)
  then show ?case using btn_tick_ignored [of "(btn_tick a ^^ n) p" a] assms(1) by simp
qed simp

lemma btn_tick_sample:
  assumes "unat (rstdeb p) \<in> {0, 19}"
  shows "btn_cur (btn_tick a p) = rst_button a \<and> btn_push (btn_tick a p) = (\<not> btn_cur p \<and> rst_button a)
    \<and> (btn_cur p \<noteq> rst_button a \<longrightarrow> rstdeb (btn_tick a p) = 1)"
proof -
  have "rstdeb p = 0 \<or> rstdeb p = 19" using assms by (auto simp: word_unat_eq_iff)
  then show ?thesis by (auto simp: btn_tick_def rstbtn_fsm_def rstbtn_sample_def Let_def RSTBTN_DEB_def)
qed

lemma fold_replicate: "fold f (replicate n x) = f x ^^ n"
  by (induction n) (simp_all add: fun_eq_iff funpow_swap1)

lemma btn_two_pushes:
  assumes "rstdeb p = 0" and "\<not> btn_cur p"
  shows "btn_push (btn_tick (pin0 False) p)
    \<and> btn_push (btn_tick (pin0 False) (fold btn_tick (replicate 37 (pin0 True)) (btn_tick (pin0 False) p)))"
proof -
  let ?t = "btn_tick (pin0 True)" and ?q = "btn_tick (pin0 False) p"
  have q: "btn_push ?q \<and> btn_cur ?q \<and> rstdeb ?q = 1"
    using btn_tick_sample [of p "pin0 False"] assms by (simp add: pin0_def rst_button_def)
  have r: "unat (rstdeb ((?t ^^ 18) ?q)) = 19 \<and> btn_cur ((?t ^^ 18) ?q)"
    using btn_ticks_ignored [of ?q 18] q by simp
  have s: "rstdeb (?t ((?t ^^ 18) ?q)) = 1 \<and> \<not> btn_cur (?t ((?t ^^ 18) ?q))"
    using btn_tick_sample [of "(?t ^^ 18) ?q" "pin0 True"] r by (simp add: pin0_def rst_button_def)
  have u: "unat (rstdeb ((?t ^^ 18) (?t ((?t ^^ 18) ?q)))) = 19 \<and> \<not> btn_cur ((?t ^^ 18) (?t ((?t ^^ 18) ?q)))"
    using btn_ticks_ignored [of "?t ((?t ^^ 18) ?q)" 18] s by simp
  have "(?t ^^ 37) ?q = (?t ^^ 18) (?t ((?t ^^ 18) ?q))"
    using funpow_add [of 18 "Suc 18" ?t] by (simp only: funpow.simps o_apply) simp
  then have "btn_push (btn_tick (pin0 False) ((?t ^^ 37) ?q))"
    using btn_tick_sample [of "(?t ^^ 18) (?t ((?t ^^ 18) ?q))" "pin0 False"] u by (simp add: pin0_def rst_button_def)
  then show ?thesis using q by (simp add: fold_replicate)
qed

section \<open>Failure of the supplies\<close>

lemma power_switch_late:
  assumes "8 \<le> pstate p" and "pstate p \<le> 15"
  shows "case power_switch a p of Inl q \<Rightarrow> True | Inr q \<Rightarrow> pstate q = 1 \<or> 7 \<le> pstate q"
proof -
  have "pstate p \<in> {1, 2, 3, 4, 5, 6, 7, 8, 9, 10, 11, 12, 13, 14, 15}"
    using assms by (intro pst_cases) (simp_all add: word_le_nat_alt)
  then have "pstate p \<in> {8, 9, 10, 11, 12, 13, 14, 15}" using assms(1) by (auto simp: word_le_nat_alt)
  then show ?thesis by (elim insertE emptyE) (auto simp: pic_pwr)
qed

lemma power_fail_off:
  assumes "8 \<le> pstate p" and "pstate p \<le> 15" and "THMTRIP_PORT b \<or> \<not> PWRGD_PORT b"
  shows "pstate (snd (power_fsm a b p)) = 1"
proof (cases "power_switch a p")
  case (Inr q)
  have "pstate q = 1 \<or> 7 \<le> pstate q" using power_switch_late [OF assms(1,2), of a] by (simp add: Inr)
  then show ?thesis
  proof
    assume "7 \<le> pstate q"
    moreover have "6 < pstate q" using calculation by (rule less_le_trans [rotated]) simp
    ultimately show ?thesis using assms(3) by (auto simp: power_fsm_def power_checks_def Inr)
  qed (simp add: power_fsm_def power_checks_def Inr word_le_nat_alt)
qed (simp add: power_fsm_def)

end
