(* ===== verification/Pic_Up.thy ===== *)
theory Pic_Up
  imports Pic_Time Pic_Watch
begin

text \<open>
  The Edge 510 power controller on a good board: passes of the main loop between the clocks of the
  power timer, as many as the controller manages, with ticks of the watchdog and button timers.
\<close>

section \<open>Passes\<close>

text \<open>One pass of the main loop; before it the watchdog timer and the button timer may tick.\<close>

type_synonym ticks = "bool \<times> bool"

definition pass :: "ticks \<Rightarrow> event list" where
  "pass f = (if fst f then [Tick4] else []) @ (if snd f then [Tick6] else []) @ rounds board_good"

text \<open>The passes between two clocks of the power timer.\<close>

definition schedule :: "ticks list list \<Rightarrow> event list" where
  "schedule fss = concat (map (\<lambda>fs. concat (map pass fs) @ [Clock]) fss)"

definition wd_ticks :: "ticks list \<Rightarrow> nat" where
  "wd_ticks fs = length (filter fst fs)"

lemma wd_ticks_simps [simp]: "wd_ticks [] = 0" "wd_ticks (f # fs) = of_bool (fst f) + wd_ticks fs"
  "wd_ticks (fs @ gs) = wd_ticks fs + wd_ticks gs"
  by (simp_all add: wd_ticks_def)

definition ticked :: "ticks \<Rightarrow> pic \<Rightarrow> pic" where
  "ticked f p = p\<lparr>TMR4IF := TMR4IF p \<or> fst f, TMR6IF := TMR6IF p \<or> snd f\<rparr>"

definition pass_to :: "ticks \<Rightarrow> pic \<Rightarrow> pic" where
  "pass_to f p = loop_pass board_good (rstbtn_fsm board_good (ticked f p))"

lemma rstbtn_good:
  "pwr_view (rstbtn_fsm board_good p) = pwr_view p" "nstate (rstbtn_fsm board_good p) = nstate p"
  "\<not> TMR6IF (rstbtn_fsm board_good p)" "btn_push (rstbtn_fsm board_good p) = btn_push p"
  "swdt (rstbtn_fsm board_good p) = swdt p" "swdt_cnt (rstbtn_fsm board_good p) = swdt_cnt p"
  "TMR4IF (rstbtn_fsm board_good p) = TMR4IF p"
  by (simp_all add: rstbtn_fsm_def rstbtn_sample_def rst_button_def board_good_def Let_def pwr_view_def)

lemma run_rounds_btn:
  assumes "nstate p = 0"
  shows "main_run (rounds board_good @ es) (L_BTN, p) = main_run es (L_BTN, loop_pass board_good (rstbtn_fsm board_good p))"
  using assms by (simp add: rounds_def eval_nat_numeral rstbtn_good power_fsm_frame loop_pass_def Let_def)

lemma run_pass:
  assumes "nstate p = 0"
  shows "main_run (pass f @ es) (L_BTN, p) = main_run es (L_BTN, pass_to f p)"
proof -
  have "main_run (pass f @ es) (L_BTN, p) = main_run (rounds board_good @ es) (L_BTN, ticked f p)"
    by (cases f) (simp add: pass_def ticked_def)
  then show ?thesis using assms run_rounds_btn [of "ticked f p"] by (simp add: pass_to_def ticked_def)
qed

section \<open>The sequence\<close>

text \<open>What the sequence depends on: the power view, the request, the button and the watchdog.\<close>

definition up_view :: "pic \<Rightarrow> pwr \<times> u8 \<times> bool \<times> u16 \<times> bool" where
  "up_view p = (pwr_view p, nstate p, btn_push p, swdt p, TMR4IF p)"

lemma ticked_view: "up_view (rstbtn_fsm board_good (ticked f p)) = (pwr_view p, nstate p, btn_push p, swdt p, TMR4IF p \<or> fst f)"
  by (simp add: up_view_def rstbtn_good) (simp add: ticked_def pwr_view_def)

lemma swdt_init_wd: "swdt (swdt_init p) = 0 \<or> 1500 \<le> unat (swdt (swdt_init p))"
  by (auto simp: swdt_init_def Let_def SWDT_DEFAULT_def SWDT_MIN_def word_less_nat_alt)

lemma loop_pass_fsm: "up_view (loop_pass a p) = up_view (snd (power_fsm a a p))"
  by (simp add: loop_pass_def Let_def ee_fsm_def ee_write_def up_view_def pwr_view_def)

lemma checks_good: "power_checks board_good p = Inr p"
  by (simp add: power_checks_def board_good_def)

lemma pass_fsm:
  "up_view (loop_pass board_good p) = up_view (case power_switch board_good p of Inl q \<Rightarrow> q\<lparr>pstate := 1\<rparr> | Inr q \<Rightarrow> q)"
  by (simp add: loop_pass_fsm power_fsm_def checks_good split: sum.split)

lemma up_fields:
  assumes "up_view p = ((st, rsm, core, clk, ps, t, on, f), n, b, w, f4)"
  shows "pstate p = st" "RSMRST_OUT p = rsm" "COREPWR_OUT p = core" "CLKPWRGD_OUT p = clk" "PSON_OUT p = ps"
    "TMR1 p = t" "TMR1ON p = on" "TMR1IF p = f" "nstate p = n" "btn_push p = b" "swdt p = w" "TMR4IF p = f4"
  using assms by (simp_all add: up_view_def pwr_view_def)

lemma swdt_init_frame: "swdt_init p = p\<lparr>swdt := swdt (swdt_init p)\<rparr>"
  by (simp add: swdt_init_def Let_def)

lemma switch_waits:
  assumes "\<not> TMR1IF p" and "pstate p = 6 \<or> pstate p = 7 \<or> pstate p = 9 \<or> pstate p = 10"
  shows "power_switch board_good p = Inr p"
  using assms(2)
  by (elim disjE; simp add: power_switch_def pst_expired_def assms(1) board_good_def)

lemmas up_defs = up_view_def pwr_view_def pst_next_def pst_start_def pst_expired_def led_red_def led_set_def Let_def
      not_join16 board_good_def PSTATE_PWRGD_TO_def PSTATE_PWRGD_STABLE_def PSTATE_RSMRST_DELAY_def PSTATE_PMUSLP_TO_def
      PSTATE_CLKPWRGD_DELAY_def PSTATE_COREPWR_DELAY_def

lemma loop_pass_up:
  assumes "up_view p = ((st, rsm, core, clk, ps, t, on, f), 0, b, w, f4)"
  shows "st = 4 \<Longrightarrow> up_view (loop_pass board_good p) = ((5, False, False, False, True, NOT 400, True, False), 0, False, w, f4)"
    and "st = 5 \<Longrightarrow> up_view (loop_pass board_good p) = ((6, rsm, core, clk, ps, NOT 200, True, False), 0, b, w, f4)"
    and "st = 6 \<Longrightarrow> f \<Longrightarrow> up_view (loop_pass board_good p) = ((7, rsm, core, clk, ps, NOT 20, True, False), 0, b, w, f4)"
    and "st = 7 \<Longrightarrow> f \<Longrightarrow> up_view (loop_pass board_good p) = ((8, True, core, clk, ps, NOT 500, True, False), 0, b, w, f4)"
    and "st = 8 \<Longrightarrow> \<not> f \<Longrightarrow> up_view (loop_pass board_good p) = ((9, rsm, core, clk, ps, NOT 10, True, False), 0, b, w, f4)"
    and "st = 9 \<Longrightarrow> f \<Longrightarrow> up_view (loop_pass board_good p) = ((10, rsm, core, True, ps, NOT 300, True, False), 0, b, w, f4)"
    and "st \<in> {6, 7, 9, 10} \<Longrightarrow> \<not> f \<Longrightarrow> up_view (loop_pass board_good p) = up_view p"
proof -
  note F = up_fields [OF assms]
  show "st = 4 \<Longrightarrow> up_view (loop_pass board_good p) = ((5, False, False, False, True, NOT 400, True, False), 0, False, w, f4)"
    unfolding pass_fsm by (simp add: power_switch_def up_defs F)
  show "st = 5 \<Longrightarrow> up_view (loop_pass board_good p) = ((6, rsm, core, clk, ps, NOT 200, True, False), 0, b, w, f4)"
    unfolding pass_fsm by (simp add: power_switch_def up_defs F)
  show "st = 6 \<Longrightarrow> f \<Longrightarrow> up_view (loop_pass board_good p) = ((7, rsm, core, clk, ps, NOT 20, True, False), 0, b, w, f4)"
    unfolding pass_fsm by (simp add: power_switch_def up_defs F)
  show "st = 7 \<Longrightarrow> f \<Longrightarrow> up_view (loop_pass board_good p) = ((8, True, core, clk, ps, NOT 500, True, False), 0, b, w, f4)"
    unfolding pass_fsm by (simp add: power_switch_def up_defs F)
  show "st = 8 \<Longrightarrow> \<not> f \<Longrightarrow> up_view (loop_pass board_good p) = ((9, rsm, core, clk, ps, NOT 10, True, False), 0, b, w, f4)"
    unfolding pass_fsm by (simp add: power_switch_def up_defs F)
  show "st = 9 \<Longrightarrow> f \<Longrightarrow> up_view (loop_pass board_good p) = ((10, rsm, core, True, ps, NOT 300, True, False), 0, b, w, f4)"
    unfolding pass_fsm by (simp add: power_switch_def up_defs F)
  show "st \<in> {6, 7, 9, 10} \<Longrightarrow> \<not> f \<Longrightarrow> up_view (loop_pass board_good p) = up_view p"
    by (simp add: pass_fsm switch_waits F)
qed

lemma loop_pass_running:
  assumes "up_view p = ((10, rsm, core, clk, ps, t, on, True), 0, b, w, f4)"
  shows "\<exists>w'. up_view (loop_pass board_good p) = ((13, rsm, True, clk, ps, t, False, False), 0, b, w', f4)
      \<and> (w' = 0 \<or> 1500 \<le> unat w')"
proof -
  let ?p = "p\<lparr>TMR1IF := False, TMR1ON := False, COREPWR_OUT := True\<rparr>"
  have "power_switch board_good p = Inr ((swdt_init ?p)\<lparr>pstate := 13\<rparr>)"
    using up_fields [OF assms] by (simp add: power_switch_def pst_expired_def Let_def)
  then have v: "up_view (loop_pass board_good p) = up_view ((swdt_init ?p)\<lparr>pstate := 13\<rparr>)" by (simp add: pass_fsm)
  have "up_view ((swdt_init ?p)\<lparr>pstate := 13\<rparr>) = ((13, rsm, True, clk, ps, t, False, False), 0, b, swdt (swdt_init ?p), f4)"
    using up_fields [OF assms] by (subst swdt_init_frame) (simp add: up_view_def pwr_view_def)
  then show ?thesis using swdt_init_wd [of ?p] v by auto
qed


text \<open>
  A state that waits with its timer loaded for \<open>d\<close>: \<open>c\<close> clocks have passed since then, at most
  \<open>m\<close> before the passes of this clock and less than \<open>m\<close> behind them. \<open>T\<close> counts all clocks; the
  state was entered between the clocks \<open>lo\<close> and \<open>hi\<close>.
\<close>

definition waiting :: "u8 \<Rightarrow> nat \<Rightarrow> nat \<Rightarrow> nat \<Rightarrow> nat \<Rightarrow> bool \<Rightarrow> bool \<Rightarrow> bool \<Rightarrow> nat \<Rightarrow> pic \<Rightarrow> bool" where
  "waiting st d m lo hi rsm clk done T p \<longleftrightarrow> (\<exists>c. up_view p
       = ((st, rsm, False, clk, True, NOT (of_nat d) + of_nat c, True, d < c), 0, False, swdt p, TMR4IF p)
     \<and> (if done then c < m else c \<le> m) \<and> lo + c \<le> T \<and> T \<le> hi + c)"

definition running :: "nat \<Rightarrow> pic \<Rightarrow> bool" where
  "running N p \<longleftrightarrow> up_view p = ((13, True, True, True, True, TMR1 p, False, False), 0, False, swdt p, TMR4IF p)
     \<and> (swdt p = 0 \<or> 1500 \<le> unat (swdt p) + N + of_bool (\<not> TMR4IF p))"

definition up_inv :: "bool \<Rightarrow> nat \<Rightarrow> nat \<Rightarrow> pic \<Rightarrow> bool" where
  "up_inv done T N p \<longleftrightarrow> \<not> done \<and> T = 0 \<and> pstate p = 4 \<and> nstate p = 0
     \<or> waiting 5 400 1 0 0 False False done T p
     \<or> waiting 6 200 201 0 1 False False done T p
     \<or> waiting 7 20 21 201 202 False False done T p
     \<or> waiting 8 500 1 222 223 True False done T p
     \<or> waiting 9 10 11 222 224 True False done T p
     \<or> waiting 10 300 301 233 235 True True done T p
     \<or> 534 \<le> T \<and> running N p"

lemma waiting_relax: "waiting st d m lo hi rsm clk done T p \<Longrightarrow> waiting st d m lo hi rsm clk False T p"
  unfolding waiting_def by (force split: if_splits)

lemma up_inv_relax: "up_inv done T N p \<Longrightarrow> up_inv False T N p"
  unfolding up_inv_def using waiting_relax by blast

lemma waiting_cong:
  assumes "waiting st d m lo hi rsm clk done T p" and "pwr_view q = pwr_view p" "nstate q = nstate p" "btn_push q = btn_push p"
  shows "waiting st d m lo hi rsm clk done T q"
  using assms unfolding waiting_def up_view_def by auto

lemma waitingI:
  assumes "up_view p = ((st, rsm, False, clk, True, NOT (of_nat d), True, False), 0, False, w, f4)"
    and "0 < m" and "lo \<le> T" and "T \<le> hi"
  shows "waiting st d m lo hi rsm clk True T p"
  unfolding waiting_def using assms up_fields(11,12) [OF assms(1)] by (intro exI [of _ 0]) auto

text \<open>A clock.\<close>

lemma timer_flag:
  assumes "d \<le> 500" and "c \<le> d"
  shows "NOT (of_nat d) + of_nat c = (0xffff :: u16) \<longleftrightarrow> c = d"
proof -
  have m: "(0xffff :: u16) = - 1" by simp
  have "NOT (of_nat d) + of_nat c = (0xffff :: u16) \<longleftrightarrow> (of_nat c :: u16) = of_nat d"
    unfolding m not_eq_complement by (auto simp: algebra_simps)
  also have "\<dots> \<longleftrightarrow> c = d"
    using assms by (auto dest!: arg_cong [where f = unat] simp: unat_of_nat)
  finally show ?thesis .
qed

lemma waiting_clock:
  assumes "waiting st d m lo hi rsm clk True T p" and "d \<le> 500" and "m \<le> Suc d"
  shows "waiting st d m lo hi rsm clk False (Suc T) (tmr1_clock p)"
proof -
  obtain c where v: "up_view p = ((st, rsm, False, clk, True, NOT (of_nat d) + of_nat c, True, d < c), 0, False, swdt p, TMR4IF p)"
    and c: "c < m" "lo + c \<le> T" "T \<le> hi + c" using assms(1) unfolding waiting_def by auto
  have "c \<le> d" using c(1) assms(3) by simp
  note fl = timer_flag [OF assms(2) this]
  have "up_view (tmr1_clock p) = ((st, rsm, False, clk, True, NOT (of_nat d) + of_nat (Suc c), True, d < Suc c), 0, False, swdt p, TMR4IF p)"
    and "swdt (tmr1_clock p) = swdt p" "TMR4IF (tmr1_clock p) = TMR4IF p"
    using up_fields [OF v] \<open>c \<le> d\<close> fl by (auto simp: tmr1_clock_def up_view_def pwr_view_def algebra_simps)
  then show ?thesis unfolding waiting_def using c by (intro exI [of _ "Suc c"]) auto
qed

lemma running_clock: "running N p \<Longrightarrow> tmr1_clock p = p"
  by (simp add: running_def up_view_def pwr_view_def tmr1_clock_def)

lemma up_inv_clock: "up_inv True T N p \<Longrightarrow> up_inv False (Suc T) N (tmr1_clock p)"
  unfolding up_inv_def using waiting_clock running_clock by (elim disjE conjE) force+


text \<open>A pass.\<close>

lemma pass_waits:
  assumes v: "up_view q = ((st, rsm, False, clk, True, NOT (of_nat d) + of_nat c, True, False), 0, False, w, f4)"
    and st: "st \<in> {6, 7, 9, 10}" and "c < m" and "lo + c \<le> T" and "T \<le> hi + c" and "\<not> d < c"
  shows "waiting st d m lo hi rsm clk True T (loop_pass board_good q)"
proof -
  have "up_view (loop_pass board_good q) = up_view q" using loop_pass_up(7) [OF v st] by simp
  then show ?thesis
    unfolding waiting_def using v assms(3-6) by (intro exI [of _ c]) (auto simp: up_fields [OF v] dest: up_fields)
qed


lemma waiting_pass:
  assumes "waiting st d m lo hi rsm clk False T p" and "p' = pass_to f p"
  shows "st = 5 \<Longrightarrow> m = 1 \<Longrightarrow> hi \<le> lo \<Longrightarrow> lo \<le> 0 \<Longrightarrow> \<not> rsm \<Longrightarrow> \<not> clk \<Longrightarrow> waiting 6 200 201 0 1 False False True T p'"
    and "st = 6 \<Longrightarrow> d = 200 \<Longrightarrow> m = 201 \<Longrightarrow> lo = 0 \<Longrightarrow> hi = 1 \<Longrightarrow> \<not> rsm \<Longrightarrow> \<not> clk \<Longrightarrow>
      waiting 6 200 201 0 1 False False True T p' \<or> waiting 7 20 21 201 202 False False True T p'"
    and "st = 7 \<Longrightarrow> d = 20 \<Longrightarrow> m = 21 \<Longrightarrow> lo = 201 \<Longrightarrow> hi = 202 \<Longrightarrow> \<not> rsm \<Longrightarrow> \<not> clk \<Longrightarrow>
      waiting 7 20 21 201 202 False False True T p' \<or> waiting 8 500 1 222 223 True False True T p'"
    and "st = 8 \<Longrightarrow> d = 500 \<Longrightarrow> m = 1 \<Longrightarrow> lo = 222 \<Longrightarrow> hi = 223 \<Longrightarrow> rsm \<Longrightarrow> \<not> clk \<Longrightarrow> waiting 9 10 11 222 224 True False True T p'"
    and "st = 9 \<Longrightarrow> d = 10 \<Longrightarrow> m = 11 \<Longrightarrow> lo = 222 \<Longrightarrow> hi = 224 \<Longrightarrow> rsm \<Longrightarrow> \<not> clk \<Longrightarrow>
      waiting 9 10 11 222 224 True False True T p' \<or> waiting 10 300 301 233 235 True True True T p'"
    and "st = 10 \<Longrightarrow> d = 300 \<Longrightarrow> m = 301 \<Longrightarrow> lo = 233 \<Longrightarrow> hi = 235 \<Longrightarrow> rsm \<Longrightarrow> clk \<Longrightarrow>
      waiting 10 300 301 233 235 True True True T p' \<or> 534 \<le> T \<and> running N p'"
proof -
  let ?q = "rstbtn_fsm board_good (ticked f p)"
  obtain c where v: "up_view p = ((st, rsm, False, clk, True, NOT (of_nat d) + of_nat c, True, d < c), 0, False, swdt p, TMR4IF p)"
    and c: "c \<le> m" "lo + c \<le> T" "T \<le> hi + c" using assms(1) unfolding waiting_def by auto
  have q: "up_view ?q = ((st, rsm, False, clk, True, NOT (of_nat d) + of_nat c, True, d < c), 0, False, swdt p, TMR4IF p \<or> fst f)"
    using v unfolding ticked_view by (simp add: up_view_def)
  have p': "p' = loop_pass board_good ?q" by (simp add: assms(2) pass_to_def)
  show "waiting 6 200 201 0 1 False False True T p'" if "st = 5" "m = 1" "hi \<le> lo" "lo \<le> 0" "\<not> rsm" "\<not> clk"
    using loop_pass_up(2) [OF q that(1)] that c unfolding p' by (intro waitingI) auto
  show "waiting 6 200 201 0 1 False False True T p' \<or> waiting 7 20 21 201 202 False False True T p'"
    if "st = 6" "d = 200" "m = 201" "lo = 0" "hi = 1" "\<not> rsm" "\<not> clk"
  proof (cases "d < c")
    case True
    then have "waiting 7 20 21 201 202 False False True T p'"
      using loop_pass_up(3) [OF q that(1)] that c unfolding p' by (intro waitingI) auto
    then show ?thesis ..
  next
    case False
    have "waiting 6 200 201 0 1 False False True T p'"
      unfolding p' by (rule pass_waits [of _ _ _ _ _ c]) (use q that c False in auto)
    then show ?thesis ..
  qed
  show "waiting 7 20 21 201 202 False False True T p' \<or> waiting 8 500 1 222 223 True False True T p'"
    if "st = 7" "d = 20" "m = 21" "lo = 201" "hi = 202" "\<not> rsm" "\<not> clk"
  proof (cases "d < c")
    case True
    then have "waiting 8 500 1 222 223 True False True T p'"
      using loop_pass_up(4) [OF q that(1)] that c unfolding p' by (intro waitingI) auto
    then show ?thesis ..
  next
    case False
    have "waiting 7 20 21 201 202 False False True T p'"
      unfolding p' by (rule pass_waits [of _ _ _ _ _ c]) (use q that c False in auto)
    then show ?thesis ..
  qed
  show "waiting 9 10 11 222 224 True False True T p'" if "st = 8" "d = 500" "m = 1" "lo = 222" "hi = 223" "rsm" "\<not> clk"
    using loop_pass_up(5) [OF q that(1)] that c unfolding p' by (intro waitingI) auto
  show "waiting 9 10 11 222 224 True False True T p' \<or> waiting 10 300 301 233 235 True True True T p'"
    if "st = 9" "d = 10" "m = 11" "lo = 222" "hi = 224" "rsm" "\<not> clk"
  proof (cases "d < c")
    case True
    then have "waiting 10 300 301 233 235 True True True T p'"
      using loop_pass_up(6) [OF q that(1)] that c unfolding p' by (intro waitingI) auto
    then show ?thesis ..
  next
    case False
    have "waiting 9 10 11 222 224 True False True T p'"
      unfolding p' by (rule pass_waits [of _ _ _ _ _ c]) (use q that c False in auto)
    then show ?thesis ..
  qed
  show "waiting 10 300 301 233 235 True True True T p' \<or> 534 \<le> T \<and> running N p'"
    if "st = 10" "d = 300" "m = 301" "lo = 233" "hi = 235" "rsm" "clk"
  proof (cases "d < c")
    case True
    have q10: "up_view ?q = ((10, True, False, True, True, NOT (of_nat d) + of_nat c, True, True), 0, False, swdt p, TMR4IF p \<or> fst f)"
      using q that True by simp
    obtain w' where w: "up_view p' = ((13, True, True, True, True, NOT (of_nat d) + of_nat c, False, False), 0, False, w', TMR4IF p \<or> fst f)"
      "w' = 0 \<or> 1500 \<le> unat w'"
      using loop_pass_running [OF q10] unfolding p' by blast
    then have "running N p'" using up_fields [OF w(1)] by (auto simp: running_def)
    moreover have "534 \<le> T" using c that True by simp
    ultimately show ?thesis by blast
  next
    case False
    have "waiting 10 300 301 233 235 True True True T p'"
      unfolding p' by (rule pass_waits [of _ _ _ _ _ c]) (use q that c False in auto)
    then show ?thesis ..
  qed
qed

lemma swdt_taken:
  assumes "up_view p = ((13, rsm, core, clk, ps, t, on, f), 0, False, w, f4)" and "\<not> (w = 1 \<and> f4)"
  shows "up_view (loop_pass board_good p)
    = ((13, rsm, core, clk, ps, t, on, f), 0, False, if f4 \<and> w \<noteq> 0 then w - 1 else w, f4 \<and> w = 0)"
  unfolding pass_fsm using up_fields [OF assms(1)] assms(2)
  by (auto simp: power_switch_def swdt_fsm_def Let_def up_view_def pwr_view_def)

lemma running_pass:
  assumes "running N p" and "N + of_bool (fst f) \<le> 1498"
  shows "running (N + of_bool (fst f)) (pass_to f p)"
proof -
  let ?q = "rstbtn_fsm board_good (ticked f p)" and ?f = "TMR4IF p \<or> fst f"
  have v: "up_view p = ((13, True, True, True, True, TMR1 p, False, False), 0, False, swdt p, TMR4IF p)"
    and w: "swdt p = 0 \<or> 1500 \<le> unat (swdt p) + N + of_bool (\<not> TMR4IF p)" using assms(1) by (simp_all add: running_def)
  have q: "up_view ?q = ((13, True, True, True, True, TMR1 p, False, False), 0, False, swdt p, ?f)"
    using v unfolding ticked_view by (simp add: up_view_def)
  have "\<not> (swdt p = 1 \<and> ?f)" using w assms(2) by (auto simp: of_bool_def split: if_splits)
  note t = swdt_taken [OF q this]
  have u: "unat (swdt p - 1) = unat (swdt p) - 1" if "swdt p \<noteq> 0"
    using that by (simp add: unat_minus_one)
  have "swdt p \<noteq> 0 \<Longrightarrow> 0 < unat (swdt p)" by (simp add: unat_gt_0)
  then show ?thesis
    using t w u up_fields [OF t] unfolding running_def pass_to_def by (auto simp: of_bool_def split: if_splits)
qed

lemma up_inv_pass:
  assumes "up_inv False T N p" and "N + of_bool (fst f) \<le> 1498"
  shows "up_inv True T (N + of_bool (fst f)) (pass_to f p)"
proof -
  have st: "waiting 5 400 1 0 0 False False True T (pass_to f p)" if T: "T = 0" "pstate p = 4" "nstate p = 0"
  proof -
    let ?q = "rstbtn_fsm board_good (ticked f p)"
    have "up_view ?q = ((4, RSMRST_OUT p, COREPWR_OUT p, CLKPWRGD_OUT p, PSON_OUT p, TMR1 p, TMR1ON p, TMR1IF p), 0, btn_push p, swdt p, TMR4IF p \<or> fst f)"
      using T unfolding ticked_view by (simp add: pwr_view_def)
    note v = loop_pass_up(1) [OF this refl]
    show ?thesis unfolding pass_to_def using v T(1) by (intro waitingI) auto
  qed
  note W = waiting_pass [OF _ refl, where p = p and f = f and T = T]
  show ?thesis
    using assms(1) [unfolded up_inv_def]
  proof (elim disjE conjE)
    assume "T = 0" "pstate p = 4" "nstate p = 0"
    then show ?thesis unfolding up_inv_def using st by simp
  next
    assume w: "waiting 5 400 1 0 0 False False False T p"
    show ?thesis unfolding up_inv_def using W(1) [OF w] by simp
  next
    assume w: "waiting 6 200 201 0 1 False False False T p"
    show ?thesis unfolding up_inv_def using W(2) [OF w] by auto
  next
    assume w: "waiting 7 20 21 201 202 False False False T p"
    show ?thesis unfolding up_inv_def using W(3) [OF w] by auto
  next
    assume w: "waiting 8 500 1 222 223 True False False T p"
    show ?thesis unfolding up_inv_def using W(4) [OF w] by simp
  next
    assume w: "waiting 9 10 11 222 224 True False False T p"
    show ?thesis unfolding up_inv_def using W(5) [OF w] by auto
  next
    assume w: "waiting 10 300 301 233 235 True True False T p"
    show ?thesis unfolding up_inv_def using W(6) [OF w] by auto
  next
    assume "534 \<le> T" "running N p"
    then show ?thesis unfolding up_inv_def using running_pass [OF _ assms(2)] by blast
  qed
qed


section \<open>The schedule\<close>

lemma up_inv_frame: "up_inv done T N p \<Longrightarrow> nstate p = 0"
  unfolding up_inv_def waiting_def running_def up_view_def by auto

lemma run_passes:
  assumes "up_inv False T N p" and "N + wd_ticks fs \<le> 1498" and "fs \<noteq> []"
  shows "\<exists>q. main_run (concat (map pass fs) @ es) (L_BTN, p) = main_run es (L_BTN, q) \<and> up_inv True T (N + wd_ticks fs) q"
  using assms
proof (induction fs arbitrary: N p)
  case (Cons f fs)
  let ?q = "pass_to f p"
  have i: "up_inv True T (N + of_bool (fst f)) ?q" using Cons.prems by (intro up_inv_pass) simp_all
  have r: "main_run (concat (map pass (f # fs)) @ es) (L_BTN, p) = main_run (concat (map pass fs) @ es) (L_BTN, ?q)"
    using run_pass [OF up_inv_frame [OF Cons.prems(1)], of f "concat (map pass fs) @ es"] by simp
  show ?case
  proof (cases fs)
    case Nil
    then show ?thesis using i r by auto
  next
    case (Cons g gs)
    then show ?thesis
      using Cons.IH [OF up_inv_relax [OF i]] Cons.prems(2) r by (auto simp: algebra_simps)
  qed
qed simp

lemma run_schedule:
  assumes "up_inv False T N p" and "N + wd_ticks (concat fss) \<le> 1498" and "\<forall>fs \<in> set fss. fs \<noteq> []"
  shows "\<exists>q. main_run (schedule fss @ es) (L_BTN, p) = main_run es (L_BTN, q)
    \<and> up_inv False (T + length fss) (N + wd_ticks (concat fss)) q"
  using assms
proof (induction fss arbitrary: T N p)
  case Nil
  then show ?case by (auto simp: schedule_def)
next
  case (Cons fs fss)
  obtain q where q: "main_run (concat (map pass fs) @ Clock # schedule fss @ es) (L_BTN, p) = main_run (Clock # schedule fss @ es) (L_BTN, q)"
    "up_inv True T (N + wd_ticks fs) q"
    using run_passes [OF Cons.prems(1), of fs "Clock # schedule fss @ es"] Cons.prems(2,3) by auto
  obtain r where "main_run (schedule fss @ es) (L_BTN, tmr1_clock q) = main_run es (L_BTN, r)"
    "up_inv False (Suc T + length fss) (N + wd_ticks fs + wd_ticks (concat fss)) r"
    using Cons.IH [OF up_inv_clock [OF q(2)]] Cons.prems(2,3) by auto
  then show ?case using q(1) by (auto simp: schedule_def add.assoc)
qed

lemma schedule_power_up:
  assumes "pstate p = PST_TURN_ON" and "nstate p = 0" and "wd_ticks (concat fss) \<le> 1498" and "\<forall>fs \<in> set fss. fs \<noteq> []"
    and "fss \<noteq> []"
  shows "\<exists>q. main_run (schedule fss) (L_BTN, p) = Some (L_BTN, q) \<and> PSON_OUT q
     \<and> (if length fss \<le> 222 then \<not> RSMRST_OUT q else 224 \<le> length fss \<longrightarrow> RSMRST_OUT q)
     \<and> (if length fss \<le> 233 then \<not> CLKPWRGD_OUT q else 236 \<le> length fss \<longrightarrow> CLKPWRGD_OUT q)
     \<and> (if length fss \<le> 534 then \<not> COREPWR_OUT q else 537 \<le> length fss \<longrightarrow> COREPWR_OUT q \<and> pstate q = PST_RUNNING)"
proof -
  obtain gss fs where f: "fss = gss @ [fs]" using assms(5) by (cases fss rule: rev_cases) simp_all
  have "up_inv False 0 0 p" using assms by (simp add: up_inv_def)
  then obtain q where q: "main_run (schedule gss @ concat (map pass fs) @ [Clock]) (L_BTN, p) = main_run (concat (map pass fs) @ [Clock]) (L_BTN, q)"
    "up_inv False (length gss) (wd_ticks (concat gss)) q"
    using run_schedule [of 0 0 p gss "concat (map pass fs) @ [Clock]"] assms f by auto
  obtain r where r: "main_run (concat (map pass fs) @ [Clock]) (L_BTN, q) = Some (L_BTN, tmr1_clock r)"
    "up_inv True (length gss) (wd_ticks (concat fss)) r"
    using run_passes [OF q(2), of fs "[Clock]"] assms(3,4) f by auto
  have c: "pwr_view (tmr1_clock r) = (pstate r, RSMRST_OUT r, COREPWR_OUT r, CLKPWRGD_OUT r, PSON_OUT r,
      TMR1 (tmr1_clock r), TMR1ON r, TMR1IF (tmr1_clock r))"
    by (simp add: tmr1_clock_def pwr_view_def)
  have "main_run (schedule fss) (L_BTN, p) = Some (L_BTN, tmr1_clock r)" using q(1) r(1) by (simp add: f schedule_def)
  moreover have "length fss = Suc (length gss)" by (simp add: f)
  ultimately show ?thesis using r(2) c unfolding up_inv_def waiting_def running_def up_view_def pwr_view_def by auto
qed

end
