(* ===== verification/Pic_Dog.thy ===== *)
theory Pic_Dog
  imports Pic_Up
begin

text \<open>
  The Edge 510 power controller: the watchdog in the running state, pass by pass of the main loop.
\<close>

definition dog_view :: "pic \<Rightarrow> u8 \<times> u8 \<times> bool \<times> u16 \<times> bool \<times> u8 \<times> u8 \<times> u8" where
  "dog_view p = (pstate p, nstate p, btn_push p, swdt p, TMR4IF p, swdt_cnt p, rstate p, pcycle p)"

lemma dog_ticked:
  "dog_view (rstbtn_fsm board_good (ticked f p))
    = (pstate p, nstate p, btn_push p, swdt p, TMR4IF p \<or> fst f, swdt_cnt p, rstate p, pcycle p)"
  by (simp add: dog_view_def ticked_def rstbtn_fsm_def rstbtn_sample_def rst_button_def board_good_def Let_def)

lemma dog_pass:
  assumes "pstate p = 13" and "\<not> btn_push p"
  shows "dog_view (loop_pass board_good p) = dog_view (swdt_fsm p)"
proof -
  have "power_switch board_good p = Inr (swdt_fsm p)" using assms by (simp add: power_switch_def)
  then have "snd (power_fsm board_good board_good p) = swdt_fsm p" by (simp add: power_fsm_def checks_good)
  then show ?thesis by (simp add: loop_pass_def Let_def ee_fsm_def ee_write_def dog_view_def)
qed

lemma dog_pass_to:
  assumes "pstate p = 13" and "nstate p = 0" and "\<not> btn_push p" and "swdt p \<noteq> 0" and "f4 = (TMR4IF p \<or> fst f)"
  shows "swdt p \<noteq> 1 \<or> \<not> f4 \<Longrightarrow> dog_view (pass_to f p) = (13, 0, False, swdt p - of_bool f4, False, swdt_cnt p, rstate p, pcycle p)"
    and "swdt p = 1 \<Longrightarrow> f4 \<Longrightarrow> dog_view (pass_to f p) = (if swdt_cnt p = 0 then (14, 0, False, 0, False, 1, RESET_SWDT, pcycle p)
      else (1, 0, False, 0, False, if swdt_cnt p = 0xff then 0xff else swdt_cnt p + 1, POWER_CYCLE_SWDT, PC_NOW))"
proof -
  let ?q = "rstbtn_fsm board_good (ticked f p)"
  have q: "pstate ?q = 13" "nstate ?q = 0" "\<not> btn_push ?q" "swdt ?q = swdt p" "TMR4IF ?q = f4" "swdt_cnt ?q = swdt_cnt p"
    "rstate ?q = rstate p" "pcycle ?q = pcycle p"
    using dog_ticked [of f p] assms by (simp_all add: dog_view_def)
  note v = dog_pass [OF q(1,3)]
  show "swdt p \<noteq> 1 \<or> \<not> f4 \<Longrightarrow> dog_view (pass_to f p) = (13, 0, False, swdt p - of_bool f4, False, swdt_cnt p, rstate p, pcycle p)"
    unfolding pass_to_def v using q assms(4) by (auto simp: swdt_fsm_def Let_def dog_view_def)
  show "swdt p = 1 \<Longrightarrow> f4 \<Longrightarrow> dog_view (pass_to f p) = (if swdt_cnt p = 0 then (14, 0, False, 0, False, 1, RESET_SWDT, pcycle p)
      else (1, 0, False, 0, False, if swdt_cnt p = 0xff then 0xff else swdt_cnt p + 1, POWER_CYCLE_SWDT, PC_NOW))"
    unfolding pass_to_def v using q by (auto simp: swdt_fsm_def Let_def dog_view_def)
qed

text \<open>
  The ticks the watchdog takes: a tick before the first pass is lost when the flag of the timer
  is still set from before.
\<close>

fun taken :: "bool \<Rightarrow> ticks list \<Rightarrow> nat" where
  "taken f4 [] = 0"
| "taken f4 (f # fs) = of_bool (f4 \<or> fst f) + wd_ticks fs"

lemma taken_bounds: "wd_ticks fs \<le> taken f4 fs" "taken f4 fs \<le> wd_ticks fs + of_bool f4"
  by (cases fs; auto simp: of_bool_def)+

lemma taken_clear: "taken False fs = wd_ticks fs" by (cases fs) simp_all

lemma dog_runs:
  assumes "pstate p = 13" and "nstate p = 0" and "\<not> btn_push p" and "taken (TMR4IF p) fs < unat (swdt p)"
  shows "\<exists>q. main_run (concat (map pass fs) @ es) (L_BTN, p) = main_run es (L_BTN, q)
    \<and> dog_view q = (13, 0, False, swdt p - of_nat (taken (TMR4IF p) fs), if fs = [] then TMR4IF p else False, swdt_cnt p, rstate p, pcycle p)"
  using assms
proof (induction fs arbitrary: p)
  case Nil
  then show ?case by (auto simp: dog_view_def)
next
  case (Cons f fs)
  let ?f4 = "TMR4IF p \<or> fst f" and ?q = "pass_to f p"
  have nz: "swdt p \<noteq> 0" using Cons.prems(4) by auto
  have "swdt p \<noteq> 1 \<or> \<not> ?f4" using Cons.prems(4) by auto
  note v = dog_pass_to(1) [OF Cons.prems(1-3) nz refl this]
  have q: "pstate ?q = 13" "nstate ?q = 0" "\<not> btn_push ?q" "swdt ?q = swdt p - of_bool ?f4" "TMR4IF ?q = False"
    "swdt_cnt ?q = swdt_cnt p" "rstate ?q = rstate p" "pcycle ?q = pcycle p" using v by (simp_all add: dog_view_def)
  have "unat (swdt ?q) = unat (swdt p) - of_bool ?f4" using nz by (simp add: q(4) unat_minus_one)
  then have "taken (TMR4IF ?q) fs < unat (swdt ?q)" using Cons.prems(4) by (simp add: q(5) taken_clear)
  note ih = Cons.IH [OF q(1-3) this]
  have "main_run (concat (map pass (f # fs)) @ es) (L_BTN, p) = main_run (concat (map pass fs) @ es) (L_BTN, ?q)"
    using run_pass [OF Cons.prems(2), of f "concat (map pass fs) @ es"] by simp
  moreover have "swdt p - of_nat (taken (TMR4IF p) (f # fs)) = swdt ?q - of_nat (taken (TMR4IF ?q) fs)"
    by (simp add: q(4,5) taken_clear algebra_simps)
  ultimately show ?case using ih q(5-8) by auto
qed

text \<open>The pass that takes the last tick.\<close>

lemma dog_fires:
  assumes "pstate p = 13" and "nstate p = 0" and "\<not> btn_push p" and "swdt p \<noteq> 0"
    and "taken (TMR4IF p) fs < unat (swdt p)" and "unat (swdt p) \<le> taken (TMR4IF p) (fs @ [f])"
  shows "\<exists>q. main_run (concat (map pass (fs @ [f]))) (L_BTN, p) = Some (L_BTN, q) \<and> swdt q = 0
    \<and> (if swdt_cnt p = 0 then pstate q = PST_COLD_RESET \<and> rstate q = RESET_SWDT \<and> swdt_cnt q = 1 \<and> pcycle q = pcycle p
       else pstate q = PST_TURN_OFF \<and> rstate q = POWER_CYCLE_SWDT \<and> pcycle q = PC_NOW \<and> swdt_cnt q \<noteq> 0)"
proof -
  obtain q where q: "main_run (concat (map pass fs) @ pass f) (L_BTN, p) = main_run (pass f) (L_BTN, q)"
    and v: "dog_view q = (13, 0, False, swdt p - of_nat (taken (TMR4IF p) fs), if fs = [] then TMR4IF p else False, swdt_cnt p, rstate p, pcycle p)"
    using dog_runs [OF assms(1-3,5), of "pass f"] by blast
  let ?k = "taken (TMR4IF p) fs" and ?f4 = "TMR4IF q \<or> fst f"
  have s: "swdt q = swdt p - of_nat ?k" "TMR4IF q = (if fs = [] then TMR4IF p else False)" "pstate q = 13" "nstate q = 0"
    "\<not> btn_push q" "swdt_cnt q = swdt_cnt p" "pcycle q = pcycle p" using v by (simp_all add: dog_view_def)
  have k: "taken (TMR4IF p) (fs @ [f]) = ?k + of_bool ?f4" by (cases fs) (simp_all add: s(2))
  then have f: ?f4 and e: "unat (swdt p) = Suc ?k" using assms(5,6) by (auto simp: of_bool_def split: if_splits)
  have "swdt p = of_nat (unat (swdt p))" by simp
  also have "\<dots> = 1 + of_nat ?k" by (simp add: e del: of_nat_unat)
  finally have one: "swdt q = 1" by (simp add: s(1))
  have "main_run (concat (map pass (fs @ [f]))) (L_BTN, p) = Some (L_BTN, pass_to f q)"
    using q run_pass [OF s(4), of f "[]"] by simp
  moreover have "swdt_cnt p + 1 \<noteq> 0" if "swdt_cnt p \<noteq> 0xff" using that by (auto simp: add_eq_0_iff2)
  ultimately show ?thesis
    using dog_pass_to(2) [OF s(3-5) _ refl one f] one s(6,7) by (auto simp: dog_view_def split: if_splits)
qed

end
