(* ===== verification/Pic_Fail.thy ===== *)
theory Pic_Fail
  imports Pic_Time Pic_Watch
begin

text \<open>
  The Edge 510 power controller: from a failure of the supplies to the outputs, through the main loop
  with interrupts, ticks and clocks in between.
\<close>

text \<open>No request of the host is pending at any point of the run.\<close>

fun unasked :: "event list \<Rightarrow> place \<times> pic \<Rightarrow> bool" where
  "unasked [] s = (nstate (snd s) = 0)"
| "unasked (e # es) s = (nstate (snd s) = 0 \<and> (case main_step e s of None \<Rightarrow> True | Some t \<Rightarrow> unasked es t))"

definition loops :: "event list \<Rightarrow> nat" where
  "loops es = length (filter (\<lambda>e. case e of Loop a b \<Rightarrow> True | _ \<Rightarrow> False) es)"

lemma unasked_now: "unasked es s \<Longrightarrow> nstate (snd s) = 0" by (cases es) simp_all

lemma loops_simps [simp]: "loops [] = 0" "loops (Loop a b # es) = Suc (loops es)"
  by (simp_all add: loops_def)

definition all_off :: "pic \<Rightarrow> bool" where
  "all_off p \<longleftrightarrow> \<not> PSON_OUT p \<and> \<not> RSMRST_OUT p \<and> \<not> COREPWR_OUT p \<and> \<not> CLKPWRGD_OUT p"

text \<open>
  The machine has failed: it has still to take the five steps to the end of its next call, or the outputs
  are off and the timer of the minimal off time runs.
\<close>

definition failing :: "nat \<Rightarrow> nat \<Rightarrow> place \<times> pic \<Rightarrow> bool" where
  "failing k n s \<longleftrightarrow> pstate (snd s) = 1 \<and> (k, fst s) \<in> {(0, L_HOST), (1, L_BLE), (2, L_EE), (3, L_BTN), (4, L_PWR)}
     \<or> pstate (snd s) = 2 \<and> all_off (snd s) \<and> fst s \<noteq> L_HOST2 \<and> off_wait n (snd s) \<and> n < 6001"

lemma failing_view: "pwr_view q = pwr_view p \<Longrightarrow> failing k n (l, q) = failing k n (l, p)"
  using off_wait_view [of q p n] by (simp add: failing_def all_off_def pwr_view_def)

lemma minoff_waits:
  assumes "pstate p = 2" and "\<not> TMR1IF p" shows "snd (power_fsm a b p) = p"
  using assms by (simp add: power_fsm_def power_switch_def pst_expired_def power_checks_def)

lemma failing_loop:
  assumes "failing k n s" and "nstate (snd s) = 0" and "n < 6001"
  shows "failing (Suc k) n (loop_step a b s)"
proof (cases s)
  case (Pair l p)
  have st: "pstate p = 1 \<and> (k, l) \<in> {(0, L_HOST), (1, L_BLE), (2, L_EE), (3, L_BTN), (4, L_PWR)}
    \<or> pstate p = 2 \<and> all_off p \<and> l \<noteq> L_HOST2 \<and> off_wait n p" using assms(1) by (auto simp: failing_def Pair)
  have n: "nstate p = 0" using assms(2) by (simp add: Pair)
  have f: "failing (Suc k) n (l', q)" if "pwr_view q = pwr_view p" "failing (Suc k) n (l', p)" for l' q
    using that failing_view by blast
  have ee: "pwr_view (ee_fsm p) = pwr_view p" by (simp add: ee_fsm_def ee_write_def pwr_view_def)
  have ble: "pwr_view (p\<lparr>BLERST_OUT := x\<rparr>) = pwr_view p" for x by (simp add: pwr_view_def)
  show ?thesis
  proof (cases l)
    case L_BTN
    have "failing (Suc k) n (L_PWR, p)" using st assms(3) by (auto simp: failing_def L_BTN)
    then show ?thesis by (simp add: Pair L_BTN f)
  next
    case L_PWR
    consider "pstate p = 1" | "pstate p = 2" "all_off p" "off_wait n p" using st by blast
    then show ?thesis
    proof cases
      case 1
      have "pstate (snd (power_fsm a b p)) = 2 \<and> all_off (snd (power_fsm a b p))"
        using 1 by (simp add: power_fsm_def power_checks_def pic_pwr all_off_def)
      moreover have "off_wait n (snd (power_fsm a b p))"
        using 1 assms(3) by (simp add: power_fsm_def power_checks_def pic_pwr off_wait_def not_join16 unat_not16 PSTATE_MIN_OFF_def)
      ultimately show ?thesis using assms(3) by (simp add: failing_def Pair L_PWR)
    next
      case 2
      have "\<not> TMR1IF p" using 2(1,3) assms(3) by (auto simp: off_wait_def)
      then show ?thesis using 2 assms(3) minoff_waits [of p a b] by (simp add: failing_def Pair L_PWR)
    qed
  next
    case L_HOST
    then show ?thesis using st assms(3) by (auto simp: failing_def Pair n)
  next
    case L_HOST2
    then show ?thesis using st by auto
  next
    case L_BLE
    have "failing (Suc k) n (L_EE, p)" using st assms(3) by (auto simp: failing_def L_BLE)
    then show ?thesis by (simp add: Pair L_BLE f ble)
  next
    case L_EE
    have "failing (Suc k) n (L_BTN, p)" using st assms(3) by (auto simp: failing_def L_EE)
    then show ?thesis by (simp add: Pair L_EE f ee)
  qed
qed

lemma failing_step:
  assumes "main_step e s = Some t" and "failing k n s" and "nstate (snd s) = 0" and "n + elapse e < 6001"
  shows "failing (k + loops [e]) (n + elapse e) t"
proof (cases "\<exists>a b. e = Loop a b")
  case True
  then obtain a b where "e = Loop a b" "t = loop_step a b s" using assms(1) by auto
  then show ?thesis using failing_loop [OF assms(2,3), of a b] assms(4) by (simp add: elapse_def)
next
  case no_loop: False
  show ?thesis
    using assms(1)
  proof (cases rule: quiet_view)
    case (1 a b)
    then show ?thesis using no_loop by simp
  next
    case 2
    have "off_wait (Suc n) (tmr1_clock (snd s))" if "off_wait n (snd s)" using off_wait_clock [OF that] .
    then show ?thesis
      using assms(2,4) 2 by (auto simp: failing_def elapse_def loops_def all_off_def tmr1_clock_def)
  next
    case 3
    have "fst t = fst s" using assms(1) no_loop by (cases e) auto
    moreover have "loops [e] = 0" "elapse e = 0" using 3 no_loop by (auto simp: elapse_def loops_def split: event.splits)
    ultimately show ?thesis using assms(2) failing_view [OF 3(2), of k n "fst s"] by (cases s; cases t) simp
  qed
qed

lemma failing_run:
  assumes "failing k n s" and "unasked es s" and "main_run es s = Some u" and "n + clocks es < 6001"
  shows "failing (k + loops es) (n + clocks es) u"
  using assms
proof (induction es arbitrary: k n s)
  case (Cons e es)
  obtain t where t: "main_step e s = Some t" "main_run es t = Some u" using Cons.prems(3) by (auto split: option.splits)
  have "loops (e # es) = loops [e] + loops es" by (simp add: loops_def)
  moreover have "failing (k + loops [e]) (n + elapse e) t"
    by (rule failing_step [OF t(1) Cons.prems(1)]) (use Cons.prems in simp_all)
  then have "failing (k + loops [e] + loops es) (n + elapse e + clocks es) u"
    using Cons.IH [OF _ _ t(2)] Cons.prems(2,4) t(1) by simp
  ultimately show ?case by (simp add: add.assoc)
qed simp

lemma failure_off:
  assumes "8 \<le> pstate p" and "pstate p \<le> 15" and "THMTRIP_PORT b \<or> \<not> PWRGD_PORT b"
    and "main_step (Loop a b) (L_PWR, p) = Some t" and "unasked es t" and "main_run es t = Some (l, q)"
    and "5 \<le> loops es" and "clocks es \<le> 6000"
  shows "all_off q"
proof -
  have t: "t = (L_HOST, snd (power_fsm a b p))" using assms(4) by simp
  have "failing 0 0 t" using power_fail_off [OF assms(1-3), of a] by (simp add: t failing_def)
  then have "failing (loops es) (clocks es) (l, q)" using failing_run [OF _ assms(5,6)] assms(8) by fastforce
  then show ?thesis using assms(7) by (auto simp: failing_def)
qed

end
