(* ===== verification/Pic_Bus.thy ===== *)
theory Pic_Bus
  imports Pic_Props
begin

text \<open>
  The Edge 510 power controller on the I2C bus: whole transactions, from the address to the
  last byte.
\<close>

lemma bytes_join16 [simp]: "byte_lo (join16 a b) = a" "byte_hi (join16 a b) = b"
  by (rule bit_word_eqI, auto simp: join16_def byte_lo_def byte_hi_def bit_simps dest: bit_imp_le_length)+

section \<open>The phases of a transaction\<close>

lemma isr_addr:
  "\<exists>s. Interrupt_ISR (ssp_byte False a) p = Some (s, snd (i2c_start (p\<lparr>i2c_addr := a, i2c_idx := 0\<rparr>)))
     \<and> ACKDT s = (\<not> fst (i2c_start (p\<lparr>i2c_addr := a, i2c_idx := 0\<rparr>)))"
  by (cases "i2c_start (p\<lparr>i2c_addr := a, i2c_idx := 0\<rparr>)")
     (simp add: Interrupt_ISR_def ssp_byte_def isr_byte_def Let_def)

lemma isr_data:
  assumes "even (i2c_addr p)"
  shows "Interrupt_ISR (ssp_byte True c) p
    = map_option (\<lambda>(nack, q). ((ssp_byte True c)\<lparr>SSP1IF := False, CKP := True, ACKDT := nack\<rparr>, q)) (i2c_put c True p)"
  using assms by (simp add: Interrupt_ISR_def ssp_byte_def isr_byte_def i2c_read_def Let_def split: option.split)

lemma isr_ack_write:
  "even (i2c_addr p) \<Longrightarrow> Interrupt_ISR ssp_ack p = Some (ssp_ack\<lparr>SSP1IF := False, CKP := True\<rparr>, p)"
  by (simp add: Interrupt_ISR_def ssp_ack_def isr_ack_def i2c_read_def Let_def)

lemma isr_ack_read:
  assumes "odd (i2c_addr p)" and "i2c_idx p < i2c_nb p" and "unat (i2c_idx p) < length (i2c_buf p)"
  shows "Interrupt_ISR ssp_ack p = Some (ssp_ack\<lparr>SSP1IF := False, CKP := True, SSP1BUF := i2c_buf p ! unat (i2c_idx p)\<rparr>,
    p\<lparr>i2c_idx := i2c_idx p + 1\<rparr>)"
  using assms by (auto simp: Interrupt_ISR_def ssp_ack_def isr_ack_def i2c_read_def Let_def)

lemma bus_write_start:
  assumes "i2c_start (p\<lparr>i2c_addr := a, i2c_idx := 0\<rparr>) = (ok, q)"
  shows "bus_write a cs p = (if ok then map_option (apfst Some) (bus_data cs q) else Some (None, q))"
  using isr_addr [of a p] by (auto simp: assms bus_write_def)

lemma bus_read_start:
  assumes "i2c_start (p\<lparr>i2c_addr := a, i2c_idx := 0\<rparr>) = (ok, q)"
  shows "bus_read a n p = (if ok then map_option (apfst Some) (bus_fetch n q) else Some (None, q))"
  using isr_addr [of a p] by (auto simp: assms bus_read_def)

lemma i2c_exec_addr: "i2c_exec p = Some (e, q) \<Longrightarrow> i2c_addr q = i2c_addr p"
  by (simp add: i2c_exec_def Let_def led_set_def split: if_splits) auto

lemma i2c_put_addr: "i2c_put c n p = Some (m, q) \<Longrightarrow> i2c_addr q = i2c_addr p"
  by (auto simp: i2c_put_def Let_def split: if_splits option.splits dest: i2c_exec_addr)

lemma bus_data_Cons:
  assumes "even (i2c_addr p)"
  shows "bus_data (c # cs) p = (case i2c_put c True p of None \<Rightarrow> None
    | Some (nack, q) \<Rightarrow> if nack then Some (0, q) else map_option (apfst Suc) (bus_data cs q))"
  using assms i2c_put_addr [of c True p]
  by (auto simp: isr_data isr_ack_write split: option.split)

declare bus_data.simps(2) [simp del]

text \<open>A byte in the middle of a command, and the last.\<close>

lemma idx_nat: "i2c_nb p \<le> 4 \<Longrightarrow> i2c_idx p < i2c_nb p \<Longrightarrow> unat (i2c_idx p) < 8"
  by (simp add: word_le_nat_alt word_less_nat_alt)

lemma i2c_put_more:
  assumes "i2c_idx p < i2c_nb p" and "i2c_idx p + 1 \<noteq> i2c_nb p" and "i2c_nb p \<le> 4" and "length (i2c_buf p) = 8"
  shows "i2c_put c n p = Some (False, p\<lparr>i2c_buf := (i2c_buf p)[unat (i2c_idx p) := c], i2c_idx := i2c_idx p + 1\<rparr>)"
  using assms idx_nat [of p] by (simp add: i2c_put_def Let_def)

lemma i2c_put_last:
  assumes "i2c_idx p < i2c_nb p" and "i2c_idx p + 1 = i2c_nb p" and "i2c_nb p \<le> 4" and "length (i2c_buf p) = 8"
  shows "i2c_put c n p = i2c_exec (p\<lparr>i2c_buf := (i2c_buf p)[unat (i2c_idx p) := c], i2c_idx := 0\<rparr>)"
  using assms idx_nat [of p] by (auto simp: i2c_put_def Let_def split: option.split)

text \<open>A command of one, two or three bytes, and a reply.\<close>

lemma bus_cmd:
  assumes "even (i2c_addr p)" and "i2c_idx p = 0" and "i2c_nb p = of_nat (length cs)" and "cs \<noteq> []" and "length cs \<le> 3"
    and "length (i2c_buf p) = 8"
    and "i2c_exec (p\<lparr>i2c_buf := cs @ drop (length cs) (i2c_buf p), i2c_idx := 0\<rparr>) = Some (False, q)"
  shows "bus_data cs p = Some (length cs, q)"
proof -
  obtain b where b: "i2c_buf p = b" by simp
  have "\<exists>x0 x1 x2 xs. b = x0 # x1 # x2 # xs" using assms(6) b by (auto simp: length_Suc_conv numeral_eq_Suc)
  then obtain x0 x1 x2 xs where x: "i2c_buf p = x0 # x1 # x2 # xs" using b by auto
  consider c where "cs = [c]" | c d where "cs = [c, d]" | c d e where "cs = [c, d, e]"
    using assms(4,5) by (cases cs; cases "tl cs"; cases "tl (tl cs)") auto
  then show ?thesis
  proof cases
    case 1
    then show ?thesis using assms x by (simp add: bus_data_Cons i2c_put_last)
  next
    case 2
    then show ?thesis using assms x by (simp add: bus_data_Cons i2c_put_more i2c_put_last)
  next
    case 3
    then show ?thesis using assms x by (simp add: bus_data_Cons i2c_put_more i2c_put_last)
  qed
qed

lemma bus_reply:
  assumes "odd (i2c_addr p)" and "i2c_idx p + of_nat n = i2c_nb p" and "unat (i2c_idx p) + n \<le> 4" and "length (i2c_buf p) = 8"
  shows "\<exists>q. bus_fetch n p = Some (take n (drop (unat (i2c_idx p)) (i2c_buf p)), q)"
  using assms
proof (induction n arbitrary: p)
  case (Suc n)
  have lt: "unat (i2c_idx p) < 4" and s: "unat (i2c_idx p + 1) = Suc (unat (i2c_idx p))"
    using Suc.prems(3) by (auto simp: unat_word_ariths)
  have "unat (i2c_nb p) = unat (i2c_idx p) + Suc n"
    using Suc.prems(3) by (simp add: Suc.prems(2) [symmetric] unat_word_ariths unat_of_nat del: of_nat_Suc)
  then have "i2c_idx p < i2c_nb p" by (simp add: word_less_nat_alt)
  then have isr: "Interrupt_ISR ssp_ack p = Some (ssp_ack\<lparr>SSP1IF := False, CKP := True, SSP1BUF := i2c_buf p ! unat (i2c_idx p)\<rparr>,
    p\<lparr>i2c_idx := i2c_idx p + 1\<rparr>)"
    using isr_ack_read [of p] Suc.prems lt by simp
  obtain q where "bus_fetch n (p\<lparr>i2c_idx := i2c_idx p + 1\<rparr>) = Some (take n (drop (Suc (unat (i2c_idx p))) (i2c_buf p)), q)"
    using Suc.IH [of "p\<lparr>i2c_idx := i2c_idx p + 1\<rparr>"] Suc.prems s by (auto simp: algebra_simps)
  then show ?case using lt Suc.prems(4)
    by (simp add: isr Cons_nth_drop_Suc [symmetric])
qed simp


section \<open>Set and get\<close>

definition i2c_pairs :: "(u8 \<times> u8 \<times> nat) list" where
  "i2c_pairs = [(I2C_LED_SET, I2C_LED_GET, 3), (I2C_SWDT_SET, I2C_SWDT_GET, 2),
     (I2C_MSG_SET, I2C_MSG_GET, 2), (I2C_RBPT_SET, I2C_RBPT_GET, 2)]"

text \<open>What a pair needs: the writing side stores what the reading side loads.\<close>

lemma bus_set_get:
  assumes "i2c_wf p" and "even a" and "odd g" and "cs \<noteq> []" and "length cs \<le> 3"
    and st: "\<And>p. i2c_wf p \<Longrightarrow> i2c_start (p\<lparr>i2c_addr := a, i2c_idx := 0\<rparr>) = (True, p\<lparr>i2c_addr := a, i2c_idx := 0, i2c_nb := of_nat (length cs)\<rparr>)"
    and ex: "\<And>p. i2c_addr p = a \<Longrightarrow> length (i2c_buf p) = 8 \<Longrightarrow> take (length cs) (i2c_buf p) = cs \<Longrightarrow>
      \<exists>q. i2c_exec p = Some (False, q) \<and> P q \<and> (\<forall>i. i2c_start (q\<lparr>i2c_addr := g, i2c_idx := 0\<rparr>)
        = (True, i2c_load cs (q\<lparr>i2c_addr := g, i2c_idx := 0, i2c_nb := of_nat (length cs)\<rparr>)))"
  shows "\<exists>q r. bus_write a cs p = Some (Some (length cs), q) \<and> bus_read g (length cs) q = Some (Some cs, r) \<and> P q"
proof -
  let ?p = "p\<lparr>i2c_addr := a, i2c_idx := 0, i2c_nb := of_nat (length cs)\<rparr>"
  have buf: "length (i2c_buf p) = 8" using assms(1) by (simp add: i2c_wf_def)
  obtain q where q: "i2c_exec (?p\<lparr>i2c_buf := cs @ drop (length cs) (i2c_buf ?p), i2c_idx := 0\<rparr>) = Some (False, q)"
    and P: "P q" and g: "i2c_start (q\<lparr>i2c_addr := g, i2c_idx := 0\<rparr>)
        = (True, i2c_load cs (q\<lparr>i2c_addr := g, i2c_idx := 0, i2c_nb := of_nat (length cs)\<rparr>))"
    using ex [of "?p\<lparr>i2c_buf := cs @ drop (length cs) (i2c_buf ?p), i2c_idx := 0\<rparr>"] buf assms(5) by auto
  have "bus_data cs ?p = Some (length cs, q)"
    by (rule bus_cmd [OF _ _ _ assms(4,5) _ q]) (use assms(2) buf in simp_all)
  then have w: "bus_write a cs p = Some (Some (length cs), q)"
    using bus_write_start [OF st [OF assms(1)]] by simp
  let ?q = "i2c_load cs (q\<lparr>i2c_addr := g, i2c_idx := 0, i2c_nb := of_nat (length cs)\<rparr>)"
  have "i2c_wf q" using i2c_exec_wf [OF q] assms(1,5) buf
    by (auto simp: i2c_wf_def word_le_nat_alt unat_of_nat)
  then have "length (i2c_buf q) = 8" by (simp add: i2c_wf_def)
  then obtain r where "bus_fetch (length cs) ?q = Some (take (length cs) (i2c_buf ?q), r)"
    using bus_reply [of ?q "length cs"] assms(3,5) by (auto simp: i2c_load_def)
  then have "bus_read g (length cs) q = Some (Some cs, r)"
    using bus_read_start [OF g] by (simp add: i2c_load_def)
  then show ?thesis using w P by blast
qed

lemma three: "length cs = 3 \<Longrightarrow> \<exists>a b c. cs = [a, b, c]"
  by (auto simp: length_Suc_conv numeral_eq_Suc)

lemma two: "length cs = 2 \<Longrightarrow> \<exists>a b. cs = [a, b]"
  by (auto simp: length_Suc_conv numeral_eq_Suc)

lemma set_get_led:
  assumes "i2c_wf p" and "length cs = 3"
  shows "\<exists>q r. bus_write I2C_LED_SET cs p = Some (Some (length cs), q) \<and> bus_read I2C_LED_GET (length cs) q = Some (Some cs, r)"
proof -
  have "\<exists>q r. bus_write I2C_LED_SET cs p = Some (Some (length cs), q) \<and> bus_read I2C_LED_GET (length cs) q = Some (Some cs, r) \<and> True"
    by (rule bus_set_get [OF assms(1), where P = "\<lambda>q. True"])
      (use assms(2) in \<open>auto simp: i2c_start_def i2c_exec_def led_set_def Let_def i2c_load_def\<close>)
  then show ?thesis by simp
qed

lemma bus_set_get_two:
  assumes "i2c_wf p" and "even a" and "odd g" and "length cs = 2"
    and st: "\<And>p. i2c_start (p\<lparr>i2c_addr := a, i2c_idx := 0\<rparr>) = (True, p\<lparr>i2c_addr := a, i2c_idx := 0, i2c_nb := 2\<rparr>)"
    and ex: "\<And>p. i2c_addr p = a \<Longrightarrow> i2c_exec p = Some (False, upd (join16 (i2c_buf p ! 0) (i2c_buf p ! 1)) p)"
    and rd: "\<And>p w. i2c_start ((upd w p)\<lparr>i2c_addr := g, i2c_idx := 0\<rparr>)
        = (True, i2c_load [byte_lo w, byte_hi w] ((upd w p)\<lparr>i2c_addr := g, i2c_idx := 0, i2c_nb := 2\<rparr>))"
  shows "\<exists>q r. bus_write a cs p = Some (Some (length cs), q) \<and> bus_read g (length cs) q = Some (Some cs, r)
    \<and> (\<exists>p'. q = upd (join16 (cs ! 0) (cs ! 1)) p')"
proof (rule bus_set_get [OF assms(1)])
  fix q :: pic assume q: "i2c_addr q = a" "length (i2c_buf q) = 8" "take (length cs) (i2c_buf q) = cs"
  obtain c d where cs: "cs = [c, d]" using two [OF assms(4)] by blast
  have t: "take 2 (i2c_buf q) = [c, d]" using q(3) by (simp add: cs numeral_2_eq_2)
  have "i2c_buf q ! 0 = c" "i2c_buf q ! 1 = d"
    using arg_cong [OF t, of "\<lambda>xs. xs ! 0"] arg_cong [OF t, of "\<lambda>xs. xs ! 1"] by simp_all
  then have "i2c_exec q = Some (False, upd (join16 c d) q)" using ex [OF q(1)] by (simp add: cs)
  then show "\<exists>r. i2c_exec q = Some (False, r) \<and> (\<exists>p'. r = upd (join16 (cs ! 0) (cs ! 1)) p') \<and> (\<forall>i. i2c_start (r\<lparr>i2c_addr := g, i2c_idx := 0\<rparr>)
        = (True, i2c_load cs (r\<lparr>i2c_addr := g, i2c_idx := 0, i2c_nb := of_nat (length cs)\<rparr>)))"
    using rd [of "join16 c d" q] by (auto simp: cs)
qed (use assms st in auto)

lemma set_get_swdt:
  assumes "i2c_wf p" and "length cs = 2"
  shows "\<exists>q r. bus_write I2C_SWDT_SET cs p = Some (Some (length cs), q) \<and> bus_read I2C_SWDT_GET (length cs) q = Some (Some cs, r)
    \<and> swdt q = join16 (cs ! 0) (cs ! 1) \<and> swdt_cnt q = 0"
proof -
  have "\<exists>q r. bus_write I2C_SWDT_SET cs p = Some (Some (length cs), q) \<and> bus_read I2C_SWDT_GET (length cs) q = Some (Some cs, r)
    \<and> (\<exists>p'. q = (\<lambda>w p. p\<lparr>swdt := w, swdt_cnt := 0\<rparr>) (join16 (cs ! 0) (cs ! 1)) p')"
    by (rule bus_set_get_two [OF assms(1) _ _ assms(2), where upd = "\<lambda>w p. p\<lparr>swdt := w, swdt_cnt := 0\<rparr>"])
      (simp_all add: i2c_start_def i2c_exec_def Let_def i2c_load_def)
  then show ?thesis by fastforce
qed

lemma set_get_word:
  assumes "i2c_wf p" and "length cs = 2" and "(a, g) \<in> {(I2C_MSG_SET, I2C_MSG_GET), (I2C_RBPT_SET, I2C_RBPT_GET)}"
  shows "\<exists>q r. bus_write a cs p = Some (Some (length cs), q) \<and> bus_read g (length cs) q = Some (Some cs, r)"
proof -
  have m: "\<exists>q r. bus_write I2C_MSG_SET cs p = Some (Some (length cs), q) \<and> bus_read I2C_MSG_GET (length cs) q = Some (Some cs, r)
    \<and> (\<exists>p'. q = (\<lambda>w p. p\<lparr>mptr := w\<rparr>) (join16 (cs ! 0) (cs ! 1)) p')"
    by (rule bus_set_get_two [OF assms(1) _ _ assms(2), where upd = "\<lambda>w p. p\<lparr>mptr := w\<rparr>"])
      (simp_all add: i2c_start_def i2c_exec_def Let_def i2c_load_def)
  have r: "\<exists>q r. bus_write I2C_RBPT_SET cs p = Some (Some (length cs), q) \<and> bus_read I2C_RBPT_GET (length cs) q = Some (Some cs, r)
    \<and> (\<exists>p'. q = (\<lambda>w p. p\<lparr>rstcnt := w\<rparr>) (join16 (cs ! 0) (cs ! 1)) p')"
    by (rule bus_set_get_two [OF assms(1) _ _ assms(2), where upd = "\<lambda>w p. p\<lparr>rstcnt := w\<rparr>"])
      (simp_all add: i2c_start_def i2c_exec_def Let_def i2c_load_def)
  show ?thesis using assms(3) m r by blast
qed

section \<open>The message buffer\<close>

lemma putc_start:
  assumes "unat (mptr p) < SIZE_MSG"
  shows "i2c_start (p\<lparr>i2c_addr := I2C_MSG_PUTC, i2c_idx := 0\<rparr>) = (True, p\<lparr>i2c_addr := I2C_MSG_PUTC, i2c_idx := 0, i2c_nb := 1\<rparr>)"
  using assms by (simp add: i2c_start_def Let_def i2c_read_def)

lemma putc_put:
  assumes "i2c_addr p = I2C_MSG_PUTC" and "i2c_idx p = 0" and "i2c_nb p = 1" and "length (i2c_buf p) = 8"
  shows "i2c_put c n p = (if SIZE_MSG \<le> unat (mptr p) then None else
    Some (False, p\<lparr>i2c_buf := (i2c_buf p)[0 := c], i2c_idx := 0, msg := (msg p)[unat (mptr p) := c], mptr := mptr p + 1\<rparr>))"
  using assms i2c_put_last [of p c n] by (simp add: i2c_exec_def Let_def)

lemma putc_run:
  assumes "i2c_addr p = I2C_MSG_PUTC" and "i2c_idx p = 0" and "i2c_nb p = 1" and "length (i2c_buf p) = 8" and "length (msg p) = SIZE_MSG"
  shows "(if unat (mptr p) + length cs \<le> SIZE_MSG
     then \<exists>q. bus_data cs p = Some (length cs, q) \<and> unat (mptr q) = unat (mptr p) + length cs
       \<and> msg q = take (unat (mptr p)) (msg p) @ cs @ drop (unat (mptr p) + length cs) (msg p)
     else cs = [] \<or> bus_data cs p = None)"
  using assms
proof (induction cs arbitrary: p)
  case (Cons c cs)
  show ?case
  proof (cases "unat (mptr p) < SIZE_MSG")
    case False
    then show ?thesis using Cons.prems putc_put [of p c True] by (simp add: bus_data_Cons)
  next
    case True
    let ?q = "p\<lparr>i2c_buf := (i2c_buf p)[0 := c], i2c_idx := 0, msg := (msg p)[unat (mptr p) := c], mptr := mptr p + 1\<rparr>"
    have m: "unat (mptr p + 1) = Suc (unat (mptr p))" using True by (simp add: unat_word_ariths SIZE_MSG_def)
    have b: "bus_data (c # cs) p = map_option (apfst Suc) (bus_data cs ?q)"
      using True Cons.prems putc_put [of p c True] by (simp add: bus_data_Cons)
    have e: "take (Suc (unat (mptr p))) ((msg p)[unat (mptr p) := c]) = take (unat (mptr p)) (msg p) @ [c]"
      using True Cons.prems(5) by (simp add: take_Suc_conv_app_nth)
    show ?thesis using Cons.IH [of ?q] Cons.prems True m b e by (auto split: if_splits)
  qed
qed simp

end
