(* ===== verification/Pic_Claims.thy ===== *)
theory Pic_Claims
  imports Pic_Board Pic_Dog Pic_Fail Pic_Bus
begin

text \<open>
  The properties of the Edge 510 power controller.
\<close>

section \<open>A running board\<close>

definition reset_por :: reset_bits where
  "reset_por = \<lparr>nPD = True, nTO = True, nPOR = False, nBOR = True, nRMCLR = True, nRI = True, STKUNF = False, STKOVF = False\<rparr>"

definition boot0 :: pic where "boot0 = main_init reset_por True True (replicate 256 0)"

lemma boot0_reach: "pic_reach (L_BTN, boot0)"
  unfolding boot0_def by (rule pic_reach.start) simp

lemma reach_run: "pic_reach s \<Longrightarrow> main_run es s = Some t \<Longrightarrow> pic_reach t"
proof (induction es arbitrary: s)
  case (Cons e es)
  then show ?case by (auto split: option.splits intro: pic_reach.step)
qed simp

lemma boot0_fields [simp]: "pstate boot0 = 4" "nstate boot0 = 0" "\<not> TMR6IF boot0" "\<not> btn_cur boot0" "rstdeb boot0 = 0"
  "swdt_cnt boot0 = 0" "i2c_wf boot0" "mptr boot0 = 400"
  by (simp_all add: boot0_def main_init_def led_red_def led_set_def Let_def i2c_wf_def SIZE_MSG_def)

lemma boot0_on:
  "\<exists>q. main_run power_up_events (L_BTN, boot0) = Some (L_BTN, q) \<and> pstate q = PST_RUNNING \<and> PSON_OUT q
     \<and> RSMRST_OUT q \<and> CLKPWRGD_OUT q \<and> COREPWR_OUT q"
  using power_up_run [of boot0] boot0_fields by auto

text \<open>(C19) In every state the main loop, interrupts and timers can reach, COREPWR is on only with
  CLKPWRGD, and CLKPWRGD only with RSMRST.
\<close>

theorem pic_power_order:
  assumes "pic_reach (l, p)"
  shows "(COREPWR_OUT p \<longrightarrow> CLKPWRGD_OUT p) \<and> (CLKPWRGD_OUT p \<longrightarrow> RSMRST_OUT p)"
  using pic_reach_inv [OF assms] by (simp add: pic_inv_def pwr_ok_def pwr_view_def)

theorem pic_power_order_witness:
  "\<exists>l p. pic_reach (l, p) \<and> COREPWR_OUT p \<and> CLKPWRGD_OUT p \<and> RSMRST_OUT p"
proof -
  obtain q where q: "main_run power_up_events (L_BTN, boot0) = Some (L_BTN, q)" "COREPWR_OUT q"
    using boot0_on by blast
  note r = reach_run [OF boot0_reach q(1)]
  show ?thesis using r q(2) pic_power_order [OF r] by blast
qed

text \<open>(C20) Every reachable state is well formed: \<open>pstate\<close> is one of the fifteen states of the machine
  (the \<open>default\<close> of the \<open>switch\<close> is never taken), a request of the host is one of the three states it
  may ask for, and the arrays have the lengths of their declarations.
\<close>

theorem pic_typed:
  assumes "pic_reach (l, p)"
  shows "pstate p \<in> {PST_TURN_OFF, PST_MINOFF, PST_OFF, PST_TURN_ON, PST_WAIT_PWRGD, PST_PWRGD_STABLE, PST_RSMRST_DELAY,
      PST_WAIT_PMUSLP, PST_CLKPWRGD_DELAY, PST_COREPWR_DELAY, PST_RESET_ASSERT, PST_RESET_DELAY, PST_RUNNING,
      PST_COLD_RESET, PST_SLP_CR_DELAY}
    \<and> nstate p \<in> {PST_OK, PST_TURN_OFF, PST_RESET_ASSERT, PST_COLD_RESET}
    \<and> length (rgb p) = 3 \<and> length (i2c_buf p) = 8 \<and> i2c_nb p \<le> 4 \<and> length (msg p) = SIZE_MSG \<and> length (EEPROM p) = 256"
proof -
  have inv: "pwr_ok (pwr_view p)" "i2c_wf p" using pic_reach_inv [OF assms] by (simp_all add: pic_inv_def)
  have "pstate p \<in> {1, 2, 3, 4, 5, 6, 7, 8, 9, 10, 11, 12, 13, 14, 15}"
    using inv(1) by (intro pst_cases) (auto simp: pwr_ok_def pwr_view_def)
  then show ?thesis using inv(2) by (simp add: i2c_wf_def)
qed

theorem pic_typed_witness:
  "pic_reach (L_BTN, boot0) \<and> pstate boot0 = PST_TURN_ON \<and> nstate boot0 \<in> {PST_OK, PST_TURN_OFF, PST_RESET_ASSERT, PST_COLD_RESET}
   \<and> length (msg boot0) = SIZE_MSG"
  using pic_typed [OF boot0_reach] boot0_reach by simp

text \<open>(C21) On a board whose inputs stay good the machine goes from \<open>PST_TURN_ON\<close> to
  \<open>PST_RUNNING\<close>, whatever the number of passes of the main loop in each clock of the power timer (at least
  one) and whenever the watchdog and button timers tick in between (at most a minute of watchdog ticks in
  all, and no interrupt of the bus). The supplies are on from the first pass. Each release waits for its
  delays: RSMRST is not on within 222 clocks of half a millisecond and is on after 224, CLKPWRGD not within 233
  and after 236, COREPWR not within 534 and after 537, when the machine runs and stays running.
\<close>

theorem pic_power_up:
  assumes "pstate p = PST_TURN_ON" and "nstate p = 0" and "wd_ticks (concat fss) \<le> 1498" and "\<forall>fs \<in> set fss. fs \<noteq> []"
    and "fss \<noteq> []"
  shows "\<exists>q. main_run (schedule fss) (L_BTN, p) = Some (L_BTN, q) \<and> PSON_OUT q
     \<and> (if length fss \<le> 222 then \<not> RSMRST_OUT q else 224 \<le> length fss \<longrightarrow> RSMRST_OUT q)
     \<and> (if length fss \<le> 233 then \<not> CLKPWRGD_OUT q else 236 \<le> length fss \<longrightarrow> CLKPWRGD_OUT q)
     \<and> (if length fss \<le> 534 then \<not> COREPWR_OUT q else 537 \<le> length fss \<longrightarrow> COREPWR_OUT q \<and> pstate q = PST_RUNNING)"
  using assms by (rule schedule_power_up)

theorem pic_power_up_witness:
  "\<exists>q. main_run (schedule (replicate 600 [(True, True), (False, False)])) (L_BTN, boot0) = Some (L_BTN, q)
    \<and> COREPWR_OUT q \<and> pstate q = PST_RUNNING"
proof -
  have "wd_ticks (concat (replicate n [(True, True), (False, False)])) = n" for n by (induction n) simp_all
  then show ?thesis using pic_power_up [of boot0 "replicate 600 [(True, True), (False, False)]"] by auto
qed

text \<open>(C22) When a call of the machine in a state from \<open>PST_WAIT_PMUSLP\<close> on finds the thermal trip or no
  power good behind its \<open>switch\<close>, and no request of the host is pending from then on (a pending request
  replaces the state the failure has set), all power outputs are off as soon as the main loop has made one
  more pass, its next call of the machine included, and they stay off for at least the 6000 clocks of the
  minimal off time, whatever the pins show and whichever interrupts, ticks and clocks come in between.
\<close>

theorem pic_supply_failure:
  assumes "PST_WAIT_PMUSLP \<le> pstate p" and "pstate p \<le> PST_SLP_CR_DELAY" and "THMTRIP_PORT b \<or> \<not> PWRGD_PORT b"
    and "main_step (Loop a b) (L_PWR, p) = Some t" and "unasked es t" and "main_run es t = Some (l, q)"
    and "5 \<le> loops es" and "clocks es \<le> 6000"
  shows "\<not> PSON_OUT q \<and> \<not> RSMRST_OUT q \<and> \<not> COREPWR_OUT q \<and> \<not> CLKPWRGD_OUT q"
  using failure_off [OF _ _ assms(3-8)] assms(1,2) by (simp add: all_off_def)

lemma unasked_round:
  assumes "nstate p = 0" and "\<not> TMR6IF p"
  shows "unasked (rounds a) (L_HOST, p) \<and> (\<exists>q. main_run (rounds a) (L_HOST, p) = Some (L_HOST, q))"
  using assms by (simp add: rounds_def eval_nat_numeral rstbtn_fsm_def power_fsm_frame ee_fsm_def ee_write_def)

theorem pic_supply_failure_witness:
  "\<exists>p b t q. pstate p = PST_RUNNING \<and> PSON_OUT p \<and> \<not> PWRGD_PORT b \<and> main_step (Loop board_good b) (L_PWR, p) = Some t
    \<and> main_run (rounds board_good) t = Some (L_HOST, q) \<and> \<not> PSON_OUT q"
proof -
  let ?b = "board_good\<lparr>PWRGD_PORT := False\<rparr>" and ?p = "boot0\<lparr>pstate := PST_RUNNING, PSON_OUT := True\<rparr>"
  let ?q = "snd (power_fsm board_good ?b ?p)"
  have n: "nstate ?q = 0" "\<not> TMR6IF ?q" by (simp_all add: power_fsm_frame)
  obtain q where q: "main_run (rounds board_good) (L_HOST, ?q) = Some (L_HOST, q)" using unasked_round [OF n] by blast
  have "\<not> PSON_OUT q"
    using pic_supply_failure [of ?p ?b board_good "(L_HOST, ?q)" "rounds board_good" L_HOST q] unasked_round [OF n] q
    by (simp add: word_le_nat_alt) (simp add: loops_def rounds_def)
  moreover have "main_step (Loop board_good ?b) (L_PWR, ?p) = Some (L_HOST, ?q)" by simp
  ultimately show ?thesis using q by (intro exI [of _ ?p] exI [of _ ?b] exI [of _ "(L_HOST, ?q)"] exI [of _ q]) simp
qed

text \<open>(C25) A watchdog of \<open>v\<close> ticks, at least the minute of \<open>SWDT_MIN\<close>, on a running good board with no
  request: as long as fewer than \<open>v\<close> ticks have been taken the machine runs on and the watchdog counts them
  down; the pass that takes the tick \<open>v\<close> fires it, the first time with a cold reset, after that with a
  power cycle. The ticks taken are those of the timer, and one more when its flag is still set from before.
\<close>

theorem pic_watchdog:
  assumes "pstate p = PST_RUNNING" and "nstate p = 0" and "\<not> btn_push p" and "SWDT_MIN \<le> swdt p"
    and "n = taken (TMR4IF p) fs" and "n < unat (swdt p)"
  shows "wd_ticks fs \<le> n \<and> n \<le> wd_ticks fs + of_bool (TMR4IF p)
    \<and> (\<exists>q. main_run (concat (map pass fs)) (L_BTN, p) = Some (L_BTN, q) \<and> pstate q = PST_RUNNING \<and> swdt q = swdt p - of_nat n)
    \<and> (unat (swdt p) \<le> taken (TMR4IF p) (fs @ [f]) \<longrightarrow>
       (\<exists>q. main_run (concat (map pass (fs @ [f]))) (L_BTN, p) = Some (L_BTN, q) \<and> swdt q = 0
         \<and> (if swdt_cnt p = 0 then pstate q = PST_COLD_RESET \<and> rstate q = RESET_SWDT \<and> swdt_cnt q = 1
            else pstate q = PST_TURN_OFF \<and> rstate q = POWER_CYCLE_SWDT \<and> pcycle q = PC_NOW \<and> swdt_cnt q \<noteq> 0)))"
proof -
  have nz: "swdt p \<noteq> 0" using assms(6) by auto
  have t: "taken (TMR4IF p) fs < unat (swdt p)" using assms(5,6) by simp
  have st: "pstate p = 13" using assms(1) by simp
  have "\<exists>q. main_run (concat (map pass fs)) (L_BTN, p) = Some (L_BTN, q) \<and> pstate q = PST_RUNNING \<and> swdt q = swdt p - of_nat n"
    using dog_runs [OF st assms(2,3) t, of "[]"] assms(5) by (auto simp: dog_view_def)
  moreover have "\<exists>q. main_run (concat (map pass (fs @ [f]))) (L_BTN, p) = Some (L_BTN, q) \<and> swdt q = 0
         \<and> (if swdt_cnt p = 0 then pstate q = PST_COLD_RESET \<and> rstate q = RESET_SWDT \<and> swdt_cnt q = 1
            else pstate q = PST_TURN_OFF \<and> rstate q = POWER_CYCLE_SWDT \<and> pcycle q = PC_NOW \<and> swdt_cnt q \<noteq> 0)"
    if u: "unat (swdt p) \<le> taken (TMR4IF p) (fs @ [f])"
    using dog_fires [OF st assms(2,3) nz t u] by (elim exE) (rule exI, auto split: if_splits)
  ultimately show ?thesis
    using taken_bounds(1) [of fs "TMR4IF p"] taken_bounds(2) [of "TMR4IF p" fs] assms(5) by blast
qed

theorem pic_watchdog_witness:
  "let p = boot0\<lparr>pstate := PST_RUNNING, swdt := 7500\<rparr>; es = concat (map pass (replicate 7499 (True, False)))
   in (\<exists>q. main_run es (L_BTN, p) = Some (L_BTN, q) \<and> pstate q = PST_RUNNING)
    \<and> (\<exists>q. main_run (es @ pass (True, False)) (L_BTN, p) = Some (L_BTN, q) \<and> pstate q = PST_COLD_RESET)"
proof -
  let ?p = "boot0\<lparr>pstate := PST_RUNNING, swdt := 7500\<rparr>"
  have w: "wd_ticks (replicate k (True, False)) = k" for k by (induction k) simp_all
  have f: "\<not> TMR4IF boot0" by (simp add: boot0_def main_init_def led_red_def led_set_def Let_def)
  have b: "\<not> btn_push boot0" by (simp add: boot0_def main_init_def led_red_def led_set_def Let_def)
  have t: "taken (TMR4IF ?p) (replicate k (True, False)) = k" "taken (TMR4IF ?p) (replicate k (True, False) @ [(True, False)]) = Suc k" for k
    using f by (simp_all add: taken_clear w)
  have h: "pstate ?p = PST_RUNNING" "nstate ?p = 0" "\<not> btn_push ?p" "SWDT_MIN \<le> swdt ?p" "7499 < unat (swdt ?p)"
    using b by (simp_all add: SWDT_MIN_def word_le_nat_alt)
  have "(\<exists>q. main_run (concat (map pass (replicate 7499 (True, False)))) (L_BTN, ?p) = Some (L_BTN, q) \<and> pstate q = PST_RUNNING)
    \<and> (\<exists>q. main_run (concat (map pass (replicate 7499 (True, False) @ [(True, False)]))) (L_BTN, ?p) = Some (L_BTN, q) \<and> pstate q = PST_COLD_RESET)"
    using pic_watchdog [OF h(1-4) t(1) [of 7499, symmetric] h(5), of "(True, False)"] t(2) [of 7499] by auto
  then show ?thesis by (simp only: Let_def map_append concat_append list.map concat.simps append_Nil2)
qed

text \<open>(C26) Two push events of the reset button are at least 38 ticks of its timer apart, whatever the
  pin shows in between.
\<close>

theorem pic_debounce:
  assumes "btn_push (btn_tick a p)" and "btn_push (btn_tick b (fold btn_tick as (btn_tick a p)))"
  shows "2 * unat RSTBTN_DEB - 2 \<le> Suc (length as)"
  using btn_push_apart [OF assms] by (simp add: RSTBTN_DEB_def)

theorem pic_debounce_witness:
  "btn_push (btn_tick (pin0 False) boot0)
   \<and> btn_push (btn_tick (pin0 False) (fold btn_tick (replicate 37 (pin0 True)) (btn_tick (pin0 False) boot0)))
   \<and> 2 * unat RSTBTN_DEB - 2 \<le> (38 :: nat)"
  using btn_two_pushes [of boot0]
    pic_debounce [of "pin0 False" boot0 "pin0 False" "replicate 37 (pin0 True)"] by simp

text \<open>(C24) What a set command writes its get command reads back, byte for byte: colours, watchdog,
  message pointer and button counter (with nothing else in between). For the watchdog this is the contract
  for 0 (off) and for the times from one minute on; a shorter time, which the documentation of the interface
  takes as off, is outside of the statement.
\<close>

theorem pic_set_get:
  assumes "i2c_wf p" and "(a, g, n) \<in> set i2c_pairs" and "length cs = n"
    and "a = I2C_SWDT_SET \<Longrightarrow> join16 (cs ! 0) (cs ! 1) = 0 \<or> SWDT_MIN \<le> join16 (cs ! 0) (cs ! 1)"
  shows "\<exists>q r. bus_write a cs p = Some (Some n, q) \<and> bus_read g n q = Some (Some cs, r)
    \<and> (a = I2C_SWDT_SET \<longrightarrow> swdt q = join16 (cs ! 0) (cs ! 1) \<and> swdt_cnt q = 0)"
  using assms(1-3) set_get_led [of p cs] set_get_swdt [of p cs] set_get_word [of p cs] by (auto simp: i2c_pairs_def)

theorem pic_set_get_witness:
  "\<exists>q r. bus_write I2C_SWDT_SET [0x4c, 0x1d] boot0 = Some (Some 2, q) \<and> bus_read I2C_SWDT_GET 2 q = Some (Some [0x4c, 0x1d], r)
    \<and> swdt q = 7500"
proof -
  have m: "join16 0x4c 0x1d = 7500" by (simp add: join16_def)
  show ?thesis
    using pic_set_get [of boot0 I2C_SWDT_SET I2C_SWDT_GET 2 "[0x4c, 0x1d]"] by (auto simp: i2c_pairs_def m SWDT_MIN_def word_le_nat_alt)
qed

text \<open>(C23) The bytes of a \<open>I2C_MSG_PUTC\<close> transaction go to the message buffer one after the other. The bound
  is checked once, at the address: a transaction that goes past the end stores outside the array.
\<close>

theorem pic_putc:
  assumes "i2c_wf p" and "unat (mptr p) < SIZE_MSG"
  shows "if unat (mptr p) + length cs \<le> SIZE_MSG
     then \<exists>q. bus_write I2C_MSG_PUTC cs p = Some (Some (length cs), q) \<and> unat (mptr q) = unat (mptr p) + length cs
       \<and> msg q = take (unat (mptr p)) (msg p) @ cs @ drop (unat (mptr p) + length cs) (msg p)
     else bus_write I2C_MSG_PUTC cs p = None"
proof -
  let ?q = "p\<lparr>i2c_addr := I2C_MSG_PUTC, i2c_idx := 0, i2c_nb := 1\<rparr>"
  have w: "bus_write I2C_MSG_PUTC cs p = map_option (apfst Some) (bus_data cs ?q)"
    using bus_write_start [OF putc_start [OF assms(2)]] by simp
  have "length (i2c_buf p) = 8" "length (msg p) = SIZE_MSG" using assms(1) by (simp_all add: i2c_wf_def)
  then show ?thesis using putc_run [of ?q cs] assms(2) unfolding w by (auto split: if_splits)
qed

theorem pic_putc_witness:
  "bus_write I2C_MSG_PUTC [0x41, 0x42] (boot0\<lparr>mptr := 399\<rparr>) = None
   \<and> (\<exists>q. bus_write I2C_MSG_PUTC [0x41] (boot0\<lparr>mptr := 399\<rparr>) = Some (Some 1, q) \<and> mptr q = 400)"
proof -
  have wf: "i2c_wf (boot0\<lparr>mptr := 399\<rparr>)" using boot0_fields(7) unfolding i2c_wf_def by simp
  show ?thesis using pic_putc [OF wf, of "[0x41, 0x42]"] pic_putc [OF wf, of "[0x41]"]
    by (auto simp: SIZE_MSG_def word_unat_eq_iff)
qed

text \<open>(C18) When the supplies go off, they come on again only after more than 6000 clocks of the timer,
  which are the 3 s of \<open>PSTATE_MIN_OFF\<close>; no sequence of passes, interrupts, commands of the host,
  ticks and clocks shortens this, as long as the controller itself is not reset: its watchdog, a brown-out or MCLR
  start \<open>main\<close> anew, which goes to \<open>PST_TURN_ON\<close> at once.
\<close>

theorem pic_min_off:
  assumes "pic_reach s" and "main_step e s = Some t" and "PSON_OUT (snd s)" and "\<not> PSON_OUT (snd t)"
    and "main_run es t = Some u" and "PSON_OUT (snd u)"
  shows "2 * 3000 < clocks es"
proof -
  have inv: "pic_inv s" using assms(1) by (rule pic_reach_inv)
  have e: "elapse e = 0" using assms(2-4) by (cases e) (auto simp: elapse_def tmr1_clock_def split: if_splits)
  show ?thesis using pic_off.restart [OF assms(2) inv assms(3,4) main_run_timed [OF assms(5)] assms(6)] e by simp
qed

theorem pic_min_off_witness:
  "\<exists>s e t es u. pic_reach s \<and> main_step e s = Some t \<and> PSON_OUT (snd s) \<and> \<not> PSON_OUT (snd t)
     \<and> main_run es t = Some u \<and> PSON_OUT (snd u) \<and> 6000 < clocks es"
proof -
  let ?p = "(tmr1_clock ^^ 401) (loop_pass board_good boot0)"
  have v0: "seq_view boot0 = ((4, RSMRST_OUT boot0, COREPWR_OUT boot0, CLKPWRGD_OUT boot0, PSON_OUT boot0,
      TMR1 boot0, TMR1ON boot0, TMR1IF boot0), 0, False)"
    by (simp add: seq_view_def pwr_view_def)
  note v1 = loop_pass_view(1) [OF v0 refl]
  have v2: "seq_view ?p = ((5, False, False, False, True, NOT 400 + of_nat 401, True, True), 0, False)"
    using clocks_view [OF v1, of 401] by (simp add: unat_not16)
  have r: "main_run (rounds board_good @ replicate 401 Clock) (L_BTN, boot0) = Some (L_BTN, ?p)"
    using run_round_view [OF v0, of board_good "replicate 401 Clock @ []"] by (simp only: run_clocks append_Nil2 main_run.simps)
      (metis run_clocks append_Nil2 main_run.simps(1))
  have b: "\<not> btn_cur ?p" "rstdeb ?p = 0" by simp_all
  obtain s t u es where "main_run (rounds board_bad @ [Loop board_good board_good]) (L_BTN, ?p) = Some s
    \<and> main_step (Loop board_good board_good) s = Some t \<and> PSON_OUT (snd s) \<and> \<not> PSON_OUT (snd t)
    \<and> main_run es t = Some u \<and> PSON_OUT (snd u)"
    using off_and_on [OF v2 b] by blast
  then have *: "main_run (rounds board_bad @ [Loop board_good board_good]) (L_BTN, ?p) = Some s"
    "main_step (Loop board_good board_good) s = Some t" "PSON_OUT (snd s)" "\<not> PSON_OUT (snd t)"
    "main_run es t = Some u" "PSON_OUT (snd u)" by blast+
  have reach: "pic_reach s" by (rule reach_run [OF reach_run [OF boot0_reach r] *(1)])
  have "2 * 3000 < clocks es" by (rule pic_min_off [OF reach *(2-6)])
  then have "6000 < clocks es" by simp
  then show ?thesis using reach * by blast
qed

end
