(* ===== verification/Rcc_Pic.thy ===== *)
theory Rcc_Pic
  imports VC_Prelude Restart_Delay
begin

text \<open>
  The power sequencer of the older boards (\<open>firmware/VC_EDGE_PIC12.X/rccvepic12.c\<close>), a PIC12:
  its state machine, pass by pass through the endless loop, and its properties.

  Every reading of an input is a new sample: \<open>env n\<close> is what the pins show at the reading
  number \<open>n\<close>. Delays are added up in \<open>msec\<close>, those that pass with the supplies off in \<open>off_ms\<close> as well, so
  that the order of a write to the output and a delay shows. A \<open>switch\<close> that never ends is \<open>Hang\<close>.
\<close>

section \<open>State\<close>

definition PMU_SLP_S45_TIMEOUT :: int where [simp]: "PMU_SLP_S45_TIMEOUT = 10"
definition CAT_ERR_TIMEOUT :: int where [simp]: "CAT_ERR_TIMEOUT = 180"

record rcc_pins =
  GPIO_CPU_SUS2 :: bool
  PWRGD_COREPWR :: bool
  PIC_SLP_N :: bool
  SYS_SHDN_N :: bool

datatype pic_state = PWR_ON | G3_IDLE | PWR_UP1 | PWR_UP2 | PWR_BTN1 | PWR_BTN2 | S0_IDLE | FAULT | PWR_DN1

record rcc =
  state :: pic_state
  cat_err :: int
  first_on :: bool
  cpu_pc :: bool
  cold_reset :: int
  ATX_PS_ON :: bool
  reads :: nat
  msec :: nat
  off_ms :: nat

type_synonym env = "nat \<Rightarrow> rcc_pins"

datatype outcome = Next rcc | Hang rcc

definition rd :: "(rcc_pins \<Rightarrow> bool) \<Rightarrow> env \<Rightarrow> rcc \<Rightarrow> bool \<times> rcc" where
  "rd pin env s = (pin (env (reads s)), s\<lparr>reads := reads s + 1\<rparr>)"

definition delay_ms :: "nat \<Rightarrow> rcc \<Rightarrow> rcc" where
  "delay_ms n s = s\<lparr>msec := msec s + n, off_ms := if ATX_PS_ON s then off_ms s else off_ms s + n\<rparr>"

text \<open>The conditions that read a second pin only if the first one allows.\<close>

definition rd_and :: "(rcc_pins \<Rightarrow> bool) \<Rightarrow> (rcc_pins \<Rightarrow> bool) \<Rightarrow> env \<Rightarrow> rcc \<Rightarrow> bool \<times> rcc" where
  "rd_and f g env s = (let (x, s) = rd f env s in if x then rd g env s else (False, s))"

definition rd_or :: "(rcc_pins \<Rightarrow> bool) \<Rightarrow> (rcc_pins \<Rightarrow> bool) \<Rightarrow> env \<Rightarrow> rcc \<Rightarrow> bool \<times> rcc" where
  "rd_or f g env s = (let (x, s) = rd f env s in if x then (True, s) else rd g env s)"

definition low :: "(rcc_pins \<Rightarrow> bool) \<Rightarrow> rcc_pins \<Rightarrow> bool" where
  "low pin v \<longleftrightarrow> \<not> pin v"

definition rcc_init :: rcc where
  "rcc_init = \<lparr>state = PWR_ON, cat_err = 0, first_on = True, cpu_pc = False, cold_reset = 0,
     ATX_PS_ON = False, reads = 0, msec = 0, off_ms = 0\<rparr>"

section \<open>States\<close>

definition pwr_up2 :: "env \<Rightarrow> rcc \<Rightarrow> rcc" where
  "pwr_up2 env s =
     (let (shdn, s) = rd SYS_SHDN_N env s in
      if shdn then s\<lparr>state := FAULT\<rparr>
      else let (good, s) = rd_and PIC_SLP_N PWRGD_COREPWR env s in
      if good then s\<lparr>cat_err := 0, state := S0_IDLE\<rparr>
      else let (bad, s) = rd_or (low PIC_SLP_N) (low PWRGD_COREPWR) env s in
      if bad then
        let s = (delay_ms 1000 s)\<lparr>cat_err := cat_err s + 1\<rparr>
        in if cat_err s > CAT_ERR_TIMEOUT then s\<lparr>state := FAULT\<rparr> else s
      else s)"

text \<open>The two \<open>do while\<close> loops of \<open>S0_IDLE\<close>.\<close>

function wait_slp :: "env \<Rightarrow> rcc \<Rightarrow> rcc" where
  "wait_slp env s =
     (let s = (delay_ms 1000 s)\<lparr>cold_reset := cold_reset s + 1\<rparr>;
          (slp0, s) = rd (low PIC_SLP_N) env s
      in if slp0 \<and> cold_reset s < PMU_SLP_S45_TIMEOUT then wait_slp env s else s)"
  by pat_completeness auto
termination
  by (relation "measure (\<lambda>(env, s). nat (10 - cold_reset s))") (auto simp: rd_def delay_ms_def)

function wait_pwrgd :: "env \<Rightarrow> rcc \<Rightarrow> rcc" where
  "wait_pwrgd env s =
     (let s = (delay_ms 1000 s)\<lparr>cold_reset := cold_reset s + 1\<rparr>;
          (again, s) = rd_and (low PWRGD_COREPWR) PIC_SLP_N env s
      in if again \<and> cold_reset s < PMU_SLP_S45_TIMEOUT then wait_pwrgd env s else s)"
  by pat_completeness auto
termination
  by (relation "measure (\<lambda>(env, s). nat (10 - cold_reset s))")
    (auto simp: rd_and_def rd_def delay_ms_def split: if_splits)

definition s0_sleep :: "env \<Rightarrow> rcc \<Rightarrow> rcc" where
  "s0_sleep env s =
     (let s = wait_slp env (s\<lparr>cold_reset := 0\<rparr>);
          (parked, s) = rd_and (low PIC_SLP_N) (low PWRGD_COREPWR) env s
      in if parked \<and> cold_reset s \<ge> PMU_SLP_S45_TIMEOUT then s\<lparr>state := FAULT\<rparr>
         else let (unstable, s) = rd_and PIC_SLP_N (low PWRGD_COREPWR) env s in
         if unstable then
           let s = wait_pwrgd env (s\<lparr>cold_reset := 0\<rparr>);
               (good, s) = (if cold_reset s < PMU_SLP_S45_TIMEOUT then rd_and PWRGD_COREPWR PIC_SLP_N env s else (False, s))
           in if good then s\<lparr>state := S0_IDLE\<rparr> else s\<lparr>cpu_pc := True, state := PWR_DN1\<rparr>
         else s\<lparr>state := S0_IDLE\<rparr>)"

definition s0_idle :: "env \<Rightarrow> rcc \<Rightarrow> rcc" where
  "s0_idle env s =
     (let (bad, s) = rd (low PWRGD_COREPWR) env s in
      if bad then s\<lparr>state := FAULT\<rparr>
      else let (shdn, s) = rd SYS_SHDN_N env s in
      if shdn then s\<lparr>state := FAULT\<rparr>
      else let (sleep, s) = rd_and (low PIC_SLP_N) GPIO_CPU_SUS2 env s in
      if sleep then s0_sleep env s
      else let (cycle, s) = rd_and (low PIC_SLP_N) (low GPIO_CPU_SUS2) env s in
      if cycle then s\<lparr>cpu_pc := True, state := PWR_DN1\<rparr>
      else s)"

definition rcc_step :: "env \<Rightarrow> rcc \<Rightarrow> outcome" where
  "rcc_step env s = (case state s of
     PWR_ON \<Rightarrow> Next ((delay_ms 2000 s)\<lparr>state := G3_IDLE\<rparr>)
   | G3_IDLE \<Rightarrow> Next (if first_on s \<or> cpu_pc s then s\<lparr>first_on := False, cpu_pc := False, state := PWR_UP1\<rparr> else s)
   | PWR_UP1 \<Rightarrow> Next ((delay_ms 6000 (s\<lparr>ATX_PS_ON := True\<rparr>))\<lparr>state := PWR_UP2\<rparr>)
   | PWR_UP2 \<Rightarrow> Next (pwr_up2 env s)
   | S0_IDLE \<Rightarrow> Next (s0_idle env s)
   | FAULT \<Rightarrow> Hang (s\<lparr>ATX_PS_ON := False\<rparr>)
   | PWR_DN1 \<Rightarrow> Next ((delay_ms 6000 (s\<lparr>ATX_PS_ON := False\<rparr>))\<lparr>state := G3_IDLE\<rparr>)
   | _ \<Rightarrow> Next (let (shdn, s) = rd SYS_SHDN_N env s in if shdn then s\<lparr>state := FAULT\<rparr> else s))"

inductive rcc_reach :: "env \<Rightarrow> rcc \<Rightarrow> bool" for env where
  init: "rcc_reach env rcc_init"
| step: "rcc_reach env s \<Longrightarrow> rcc_step env s = Next t \<Longrightarrow> rcc_reach env t"

section \<open>The loops end\<close>

declare wait_slp.simps [simp del] wait_pwrgd.simps [simp del]

text \<open>Fields no reading changes; the time a loop takes.\<close>

definition quiet :: "rcc \<Rightarrow> rcc \<Rightarrow> bool" where
  "quiet s t \<longleftrightarrow> state t = state s \<and> cat_err t = cat_err s \<and> first_on t = first_on s \<and> cpu_pc t = cpu_pc s
     \<and> ATX_PS_ON t = ATX_PS_ON s \<and> off_ms s \<le> off_ms t"

lemma rd_fields [simp]: "fst (rd f env s) = f (env (reads s))" "snd (rd f env s) = s\<lparr>reads := reads s + 1\<rparr>"
  by (simp_all add: rd_def)

lemma rd_and_quiet:
  assumes "rd_and f g env s = (x, t)"
  shows "quiet s t \<and> cold_reset t = cold_reset s \<and> msec t = msec s"
  using assms by (auto simp: rd_and_def rd_def quiet_def split: if_splits)

lemma rd_or_quiet:
  assumes "rd_or f g env s = (x, t)"
  shows "quiet s t \<and> cold_reset t = cold_reset s \<and> msec t = msec s"
  using assms by (auto simp: rd_or_def rd_def quiet_def split: if_splits)

lemma wait_slp_bound:
  assumes "cold_reset s < 10"
  shows "quiet s (wait_slp env s) \<and> cold_reset s < cold_reset (wait_slp env s) \<and> cold_reset (wait_slp env s) \<le> 10
    \<and> int (msec (wait_slp env s)) = int (msec s) + 1000 * (cold_reset (wait_slp env s) - cold_reset s)"
  using assms
proof (induction env s rule: wait_slp.induct)
  case (1 env s)
  let ?t = "(delay_ms 1000 s)\<lparr>cold_reset := cold_reset s + 1, reads := reads s + 1\<rparr>"
  show ?case
  proof (cases "low PIC_SLP_N (env (reads s)) \<and> cold_reset s + 1 < 10")
    case True
    then have "wait_slp env s = wait_slp env ?t"
      by (subst wait_slp.simps) (simp add: Let_def rd_def delay_ms_def)
    moreover have "quiet ?t (wait_slp env ?t) \<and> cold_reset ?t < cold_reset (wait_slp env ?t) \<and> cold_reset (wait_slp env ?t) \<le> 10
    \<and> int (msec (wait_slp env ?t)) = int (msec ?t) + 1000 * (cold_reset (wait_slp env ?t) - cold_reset ?t)"
      by (rule 1(1) [OF refl _ _]) (use True in \<open>simp_all add: rd_def delay_ms_def\<close>)
    ultimately show ?thesis by (simp add: quiet_def delay_ms_def split: if_splits)
  next
    case False
    then have "wait_slp env s = ?t"
      by (subst wait_slp.simps) (auto simp: Let_def rd_def delay_ms_def)
    then show ?thesis using 1(2) by (simp add: quiet_def delay_ms_def)
  qed
qed


lemma wait_pwrgd_bound:
  assumes "cold_reset s < 10"
  shows "quiet s (wait_pwrgd env s) \<and> cold_reset s < cold_reset (wait_pwrgd env s) \<and> cold_reset (wait_pwrgd env s) \<le> 10
    \<and> int (msec (wait_pwrgd env s)) = int (msec s) + 1000 * (cold_reset (wait_pwrgd env s) - cold_reset s)"
  using assms
proof (induction env s rule: wait_pwrgd.induct)
  case (1 env s)
  let ?d = "(delay_ms 1000 s)\<lparr>cold_reset := cold_reset s + 1\<rparr>"
  obtain x t where r: "rd_and (low PWRGD_COREPWR) PIC_SLP_N env ?d = (x, t)" by fastforce
  have t: "quiet s t" "cold_reset t = cold_reset s + 1" "msec t = msec s + 1000"
    using rd_and_quiet [OF r] by (simp_all add: quiet_def delay_ms_def split: if_splits)
  show ?case
  proof (cases "x \<and> cold_reset t < 10")
    case True
    then have "wait_pwrgd env s = wait_pwrgd env t"
      by (subst wait_pwrgd.simps) (simp add: Let_def r)
    moreover have "quiet t (wait_pwrgd env t) \<and> cold_reset t < cold_reset (wait_pwrgd env t) \<and> cold_reset (wait_pwrgd env t) \<le> 10
      \<and> int (msec (wait_pwrgd env t)) = int (msec t) + 1000 * (cold_reset (wait_pwrgd env t) - cold_reset t)"
      by (rule 1(1) [OF refl r [symmetric] refl]) (use True in simp_all)
    ultimately show ?thesis using t by (simp add: quiet_def)
  next
    case False
    then have "wait_pwrgd env s = t"
      by (subst wait_pwrgd.simps) (auto simp: Let_def r)
    then show ?thesis using 1(2) t by simp
  qed
qed

section \<open>What a pass does\<close>

text \<open>The result of a pass in \<open>S0_IDLE\<close>: nothing but the state, the cycle flag and the counters changes.\<close>

definition s0_result :: "rcc \<Rightarrow> rcc \<Rightarrow> bool" where
  "s0_result s t \<longleftrightarrow> state t \<in> {S0_IDLE, FAULT, PWR_DN1} \<and> ATX_PS_ON t = ATX_PS_ON s \<and> cat_err t = cat_err s
     \<and> first_on t = first_on s \<and> (state t = PWR_DN1 \<longrightarrow> cpu_pc t) \<and> (cpu_pc s \<or> cpu_pc t \<longrightarrow> state t = PWR_DN1 \<or> cpu_pc s)
     \<and> msec s \<le> msec t \<and> msec t \<le> msec s + 20000 \<and> off_ms s \<le> off_ms t"

lemma s0_sleep_result:
  assumes "state s = S0_IDLE"
  shows "s0_result s (s0_sleep env s)"
proof -
  let ?w = "wait_slp env (s\<lparr>cold_reset := 0\<rparr>)"
  have w: "quiet s ?w" "cold_reset ?w \<le> 10" "msec s \<le> msec ?w" "msec ?w \<le> msec s + 10000"
    using wait_slp_bound [of "s\<lparr>cold_reset := 0\<rparr>" env] by (auto simp: quiet_def)
  obtain x a where a: "rd_and (low PIC_SLP_N) (low PWRGD_COREPWR) env ?w = (x, a)" by fastforce
  obtain y b where b: "rd_and PIC_SLP_N (low PWRGD_COREPWR) env a = (y, b)" by fastforce
  note qa = rd_and_quiet [OF a] and qb = rd_and_quiet [OF b]
  let ?v = "wait_pwrgd env (b\<lparr>cold_reset := 0\<rparr>)"
  have v: "quiet b ?v" "msec b \<le> msec ?v" "msec ?v \<le> msec b + 10000"
    using wait_pwrgd_bound [of "b\<lparr>cold_reset := 0\<rparr>" env] by (auto simp: quiet_def)
  obtain z c where c: "rd_and PWRGD_COREPWR PIC_SLP_N env ?v = (z, c)" by fastforce
  note qc = rd_and_quiet [OF c]
  show ?thesis using assms w qa qb v qc
    by (simp add: s0_sleep_def a b c s0_result_def quiet_def Let_def)
qed

lemma s0_idle_result:
  assumes "state s = S0_IDLE"
  shows "s0_result s (s0_idle env s)"
proof -
  let ?t = "s\<lparr>reads := reads s + 1\<rparr>" and ?u = "s\<lparr>reads := reads s + 1 + 1\<rparr>"
  obtain x a where a: "rd_and (low PIC_SLP_N) GPIO_CPU_SUS2 env ?u = (x, a)" by fastforce
  obtain y b where b: "rd_and (low PIC_SLP_N) (low GPIO_CPU_SUS2) env a = (y, b)" by fastforce
  note qa = rd_and_quiet [OF a] and qb = rd_and_quiet [OF b]
  have "s0_result a (s0_sleep env a)" by (rule s0_sleep_result) (use qa assms in \<open>simp add: quiet_def\<close>)
  then show ?thesis using assms qa qb a b
    by (auto simp: s0_idle_def rd_def s0_result_def quiet_def Let_def)
qed

lemma pwr_up2_result:
  assumes "state s = PWR_UP2" and "cat_err s \<le> 180"
  shows "msec s \<le> msec (pwr_up2 env s) \<and> off_ms s \<le> off_ms (pwr_up2 env s) \<and> ATX_PS_ON (pwr_up2 env s) = ATX_PS_ON s \<and> first_on (pwr_up2 env s) = first_on s \<and> cpu_pc (pwr_up2 env s) = cpu_pc s
    \<and> (cat_err (pwr_up2 env s) \<in> {0, cat_err s, cat_err s + 1})
    \<and> (state (pwr_up2 env s) = PWR_UP2 \<and> cat_err (pwr_up2 env s) \<le> 180
       \<or> state (pwr_up2 env s) = S0_IDLE \<and> cat_err (pwr_up2 env s) = 0 \<or> state (pwr_up2 env s) = FAULT)"
proof -
  let ?t = "s\<lparr>reads := reads s + 1\<rparr>"
  obtain x a where a: "rd_and PIC_SLP_N PWRGD_COREPWR env ?t = (x, a)" by fastforce
  obtain y b where b: "rd_or (low PIC_SLP_N) (low PWRGD_COREPWR) env a = (y, b)" by fastforce
  show ?thesis using assms rd_and_quiet [OF a] rd_or_quiet [OF b] a b
    by (auto simp: pwr_up2_def rd_def quiet_def delay_ms_def Let_def)
qed

section \<open>Reachable states\<close>

text \<open>The supply is on in the states that follow \<open>PWR_UP1\<close>; one power-up reason is left in \<open>G3_IDLE\<close>.\<close>

definition rcc_inv :: "rcc \<Rightarrow> bool" where
  "rcc_inv s \<longleftrightarrow> state s \<notin> {PWR_BTN1, PWR_BTN2} \<and> (ATX_PS_ON s \<longleftrightarrow> state s \<in> {PWR_UP2, S0_IDLE, FAULT, PWR_DN1})
     \<and> (state s = PWR_ON \<longrightarrow> first_on s) \<and> (state s \<in> {G3_IDLE, PWR_DN1} \<longrightarrow> first_on s \<or> cpu_pc s)
     \<and> 0 \<le> cat_err s \<and> cat_err s \<le> 181 \<and> (state s = PWR_UP2 \<longrightarrow> cat_err s \<le> 180)
     \<and> (state s \<notin> {PWR_UP2, FAULT} \<longrightarrow> cat_err s = 0)"

lemma rcc_step_inv:
  assumes "rcc_inv s" and "rcc_step env s = Next t" shows "rcc_inv t"
proof (cases "state s")
  case S0_IDLE
  then show ?thesis using assms s0_idle_result [OF S0_IDLE, of env]
    by (auto simp: rcc_step_def rcc_inv_def s0_result_def)
next
  case PWR_UP2
  have "cat_err s \<le> 180" using assms(1) PWR_UP2 by (simp add: rcc_inv_def)
  then show ?thesis using assms pwr_up2_result [OF PWR_UP2, of env] PWR_UP2
    by (auto simp: rcc_step_def rcc_inv_def)
qed (use assms in \<open>auto simp: rcc_step_def rcc_inv_def delay_ms_def split: if_splits\<close>)

lemma rcc_reach_inv: "rcc_reach env s \<Longrightarrow> rcc_inv s"
proof (induction rule: rcc_reach.induct)
  case init
  then show ?case by (simp add: rcc_inv_def rcc_init_def)
next
  case (step s t)
  then show ?case using rcc_step_inv by blast
qed

section \<open>Power-up that fails\<close>

fun rcc_run :: "nat \<Rightarrow> env \<Rightarrow> rcc \<Rightarrow> outcome" where
  "rcc_run 0 env s = Next s"
| "rcc_run (Suc n) env s = (case rcc_step env s of Next t \<Rightarrow> rcc_run n env t | Hang t \<Rightarrow> Hang t)"

lemma up2_wait:
  assumes "\<forall>k. \<not> PWRGD_COREPWR (env k) \<and> \<not> SYS_SHDN_N (env k)" and "state s = PWR_UP2" and "ATX_PS_ON s"
  shows "\<exists>r. pwr_up2 env s = (let t = s\<lparr>reads := r, msec := msec s + 1000, cat_err := cat_err s + 1\<rparr>
     in if cat_err t > 180 then t\<lparr>state := FAULT\<rparr> else t)"
  using assms by (auto simp: pwr_up2_def rd_def rd_and_def rd_or_def low_def delay_ms_def Let_def)

lemma up2_run:
  assumes "\<forall>k. \<not> PWRGD_COREPWR (env k) \<and> \<not> SYS_SHDN_N (env k)" and "state s = PWR_UP2" and "ATX_PS_ON s" and "0 \<le> cat_err s"
    and "cat_err s + int n \<le> 180"
  shows "\<exists>r. rcc_run n env s = Next (s\<lparr>reads := r, msec := msec s + 1000 * n, cat_err := cat_err s + int n\<rparr>)"
  using assms(2-)
proof (induction n arbitrary: s)
  case 0
  then show ?case by (intro exI [of _ "reads s"]) simp
next
  case (Suc n)
  obtain r where "pwr_up2 env s = s\<lparr>reads := r, msec := msec s + 1000, cat_err := cat_err s + 1\<rparr>"
    using up2_wait [OF assms(1) Suc.prems(1,2)] Suc.prems by (auto simp: Let_def)
  then show ?case
    using Suc.IH [of "s\<lparr>reads := r, msec := msec s + 1000, cat_err := cat_err s + 1\<rparr>"] Suc.prems
    by (auto simp: rcc_step_def algebra_simps)
qed

lemma rcc_run_add: "rcc_run (m + n) env s = (case rcc_run m env s of Next t \<Rightarrow> rcc_run n env t | Hang t \<Rightarrow> Hang t)"
  by (induction m arbitrary: s) (simp_all split: outcome.split)

lemma up2_gives_up:
  assumes "\<forall>k. \<not> PWRGD_COREPWR (env k) \<and> \<not> SYS_SHDN_N (env k)" and "state s = PWR_UP2" and "ATX_PS_ON s" and "cat_err s = 0"
  shows "\<exists>t. rcc_run 182 env s = Hang t \<and> \<not> ATX_PS_ON t \<and> msec t = msec s + 181000"
proof -
  obtain r where r: "rcc_run 180 env s = Next (s\<lparr>reads := r, msec := msec s + 1000 * 180, cat_err := 180\<rparr>)"
    using up2_run [OF assms(1-3), of 180] assms(4) by auto
  let ?t = "s\<lparr>reads := r, msec := msec s + 1000 * 180, cat_err := 180\<rparr>"
  obtain r2 where "pwr_up2 env ?t = ?t\<lparr>reads := r2, msec := msec ?t + 1000, cat_err := 181, state := FAULT\<rparr>"
    using up2_wait [OF assms(1), of ?t] assms(2,3) by (auto simp: Let_def)
  then have "rcc_run 2 env ?t = Hang (?t\<lparr>reads := r2, msec := msec ?t + 1000, cat_err := 181, state := FAULT, ATX_PS_ON := False\<rparr>)"
    using assms(2) by (simp add: numeral_2_eq_2 rcc_step_def)
  then show ?thesis using rcc_run_add [of 180 2 env s] r by simp
qed

section \<open>Running\<close>

text \<open>With the power good, no shutdown and no cycle request, sleeping does not end a session.\<close>

lemma s0_stays:
  assumes "\<forall>k. PWRGD_COREPWR (env k) \<and> \<not> SYS_SHDN_N (env k) \<and> GPIO_CPU_SUS2 (env k)" and "state s = S0_IDLE"
  shows "state (s0_idle env s) = S0_IDLE"
proof -
  have slp: "state (wait_slp env (a\<lparr>cold_reset := 0\<rparr>)) = state a" for a
    using wait_slp_bound [of "a\<lparr>cold_reset := 0\<rparr>" env] by (simp add: quiet_def)
  show ?thesis using assms
    by (simp add: s0_idle_def s0_sleep_def rd_and_def rd_def low_def Let_def)
qed

section \<open>Supplies that go off\<close>

text \<open>The time of a pass is the part of its delays that passes with the supplies off.\<close>

definition rcc_next :: "env \<Rightarrow> unit \<Rightarrow> rcc \<Rightarrow> rcc option" where
  "rcc_next env e s = (case rcc_step env s of Next t \<Rightarrow> Some t | Hang t \<Rightarrow> None)"

definition rcc_elapse :: "env \<Rightarrow> unit \<Rightarrow> rcc \<Rightarrow> nat" where
  "rcc_elapse env e s = (case rcc_step env s of Next t \<Rightarrow> off_ms t - off_ms s | Hang t \<Rightarrow> 0)"

lemma rcc_next_some: "rcc_next env e s = Some t \<longleftrightarrow> rcc_step env s = Next t"
  by (simp add: rcc_next_def split: outcome.split)

lemma rcc_step_off:
  assumes "rcc_inv s" and "rcc_step env s = Next t" shows "off_ms s \<le> off_ms t"
proof (cases "state s")
  case S0_IDLE
  then show ?thesis using assms s0_idle_result [OF S0_IDLE, of env] by (auto simp: rcc_step_def s0_result_def)
next
  case PWR_UP2
  then show ?thesis using assms pwr_up2_result [OF PWR_UP2, of env] by (auto simp: rcc_step_def rcc_inv_def)
qed (use assms in \<open>auto simp: rcc_step_def rcc_inv_def delay_ms_def\<close>)

lemma rcc_falls:
  assumes "rcc_inv s" and "rcc_step env s = Next t" and "ATX_PS_ON s" and "\<not> ATX_PS_ON t"
  shows "state s = PWR_DN1 \<and> state t = G3_IDLE \<and> off_ms t = off_ms s + 6000"
proof -
  have "state s = PWR_DN1"
  proof (rule ccontr)
    assume "state s \<noteq> PWR_DN1"
    then consider "state s = PWR_UP2" "cat_err s \<le> 180" | "state s = S0_IDLE" | "state s = FAULT"
      using assms(1,3) by (auto simp: rcc_inv_def)
    then show False
    proof cases
      case 1
      then show ?thesis using pwr_up2_result [OF 1, of env] assms by (simp add: rcc_step_def)
    next
      case 2
      then show ?thesis using s0_idle_result [OF 2, of env] assms by (simp add: rcc_step_def s0_result_def)
    next
      case 3
      then show ?thesis using assms by (simp add: rcc_step_def)
    qed
  qed
  then show ?thesis using assms(2) by (auto simp: rcc_step_def delay_ms_def)
qed

interpretation rcc_off: restart_delay "rcc_next env" "rcc_elapse env" ATX_PS_ON rcc_inv "\<lambda>n s. 6000 \<le> n" 6000 for env
  by unfold_locales (use rcc_step_inv rcc_falls in \<open>fastforce simp: rcc_next_some rcc_elapse_def\<close>)+

lemma rcc_run_timed:
  "rcc_run n env s = Next u \<Longrightarrow> rcc_inv s \<Longrightarrow>
   timed_run (rcc_next env) (rcc_elapse env) (replicate n ()) s = Some (u, off_ms u - off_ms s) \<and> off_ms s \<le> off_ms u"
proof (induction n arbitrary: s)
  case (Suc n)
  then obtain t where t: "rcc_step env s = Next t" "rcc_run n env t = Next u" by (auto split: outcome.splits)
  have inv: "rcc_inv t" using rcc_step_inv [OF Suc.prems(2) t(1)] .
  have le: "off_ms s \<le> off_ms t" using rcc_step_off [OF Suc.prems(2) t(1)] .
  have "rcc_next env () s = Some t" and "rcc_elapse env () s = off_ms t - off_ms s"
    using t(1) by (simp_all add: rcc_next_some rcc_elapse_def)
  then show ?case using Suc.IH [OF t(2) inv] le by simp
qed simp

section \<open>Properties\<close>

definition pins_with :: "bool \<Rightarrow> bool \<Rightarrow> bool \<Rightarrow> bool \<Rightarrow> rcc_pins" where
  "pins_with sus2 pwrgd slp shdn = \<lparr>GPIO_CPU_SUS2 = sus2, PWRGD_COREPWR = pwrgd, PIC_SLP_N = slp, SYS_SHDN_N = shdn\<rparr>"

text \<open>(C27) Between the passes of the loop, in every reachable state, the supplies are on exactly in \<open>PWR_UP2\<close>
  and \<open>S0_IDLE\<close> and before the passes of \<open>FAULT\<close> and \<open>PWR_DN1\<close>, which turn them off before anything else:
  \<open>FAULT\<close> stays there for good, and \<open>PWR_DN1\<close> waits 6000 ms with the supplies off. \<open>PWR_UP1\<close> waits its 6000 ms
  with the supplies on, \<open>G3_IDLE\<close> always goes on to power up, and the deprecated states do not occur. From
  a pass that takes the supplies away to one that ends with them on again at least 6000 ms pass with the
  supplies off, whatever the passes in between see.
\<close>

theorem rcc_supply:
  assumes "rcc_reach env s"
  shows "(ATX_PS_ON s \<longleftrightarrow> state s \<in> {PWR_UP2, S0_IDLE, FAULT, PWR_DN1}) \<and> state s \<notin> {PWR_BTN1, PWR_BTN2}
    \<and> (state s = FAULT \<longrightarrow> (\<exists>t. rcc_step env s = Hang t \<and> \<not> ATX_PS_ON t \<and> msec t = msec s))
    \<and> (state s = PWR_DN1 \<longrightarrow> (\<exists>t. rcc_step env s = Next t \<and> \<not> ATX_PS_ON t \<and> state t = G3_IDLE
         \<and> msec t = msec s + 6000 \<and> off_ms t = off_ms s + 6000))
    \<and> (state s = PWR_UP1 \<longrightarrow> (\<exists>t. rcc_step env s = Next t \<and> ATX_PS_ON t \<and> state t = PWR_UP2
         \<and> msec t = msec s + 6000 \<and> off_ms t = off_ms s))
    \<and> (state s = G3_IDLE \<longrightarrow> rcc_step env s = Next (s\<lparr>first_on := False, cpu_pc := False, state := PWR_UP1\<rparr>))
    \<and> (\<forall>t n u. rcc_step env s = Next t \<and> ATX_PS_ON s \<and> \<not> ATX_PS_ON t \<and> rcc_run n env t = Next u \<and> ATX_PS_ON u \<longrightarrow>
        off_ms s + 6000 \<le> off_ms u)"
proof -
  have inv: "rcc_inv s" using assms by (rule rcc_reach_inv)
  have "off_ms s + 6000 \<le> off_ms u"
    if t: "rcc_step env s = Next t" "ATX_PS_ON s" "\<not> ATX_PS_ON t" "rcc_run n env t = Next u" "ATX_PS_ON u" for t n u
  proof -
    have n: "rcc_next env () s = Some t" using t(1) by (simp add: rcc_next_some)
    note r = rcc_run_timed [OF t(4) rcc_step_inv [OF inv t(1)]]
    have "6000 \<le> rcc_elapse env () s + (off_ms u - off_ms t)"
      by (rule rcc_off.restart [OF n inv t(2,3) conjunct1 [OF r] t(5)])
    then show ?thesis using conjunct2 [OF r] rcc_step_off [OF inv t(1)] t(1) by (simp add: rcc_elapse_def)
  qed
  moreover have "rcc_step env s = Next (s\<lparr>first_on := False, cpu_pc := False, state := PWR_UP1\<rparr>)" if "state s = G3_IDLE"
    using that inv by (simp add: rcc_inv_def rcc_step_def)
  moreover have "(ATX_PS_ON s \<longleftrightarrow> state s \<in> {PWR_UP2, S0_IDLE, FAULT, PWR_DN1}) \<and> state s \<notin> {PWR_BTN1, PWR_BTN2}"
    using inv by (simp add: rcc_inv_def)
  moreover have "\<exists>t. rcc_step env s = Hang t \<and> \<not> ATX_PS_ON t \<and> msec t = msec s" if "state s = FAULT"
    using that by (simp add: rcc_step_def)
  moreover have "\<exists>t. rcc_step env s = Next t \<and> \<not> ATX_PS_ON t \<and> state t = G3_IDLE \<and> msec t = msec s + 6000 \<and> off_ms t = off_ms s + 6000"
    if "state s = PWR_DN1" using that by (simp add: rcc_step_def delay_ms_def)
  moreover have "\<exists>t. rcc_step env s = Next t \<and> ATX_PS_ON t \<and> state t = PWR_UP2 \<and> msec t = msec s + 6000 \<and> off_ms t = off_ms s"
    if "state s = PWR_UP1" using that by (simp add: rcc_step_def delay_ms_def)
  ultimately show ?thesis by blast
qed

lemma rcc_run_reach: "rcc_reach env s \<Longrightarrow> rcc_run n env s = Next t \<Longrightarrow> rcc_reach env t"
proof (induction n arbitrary: s)
  case (Suc n)
  then show ?case by (auto split: outcome.splits intro: rcc_reach.step)
qed simp

definition all_good :: env where "all_good = (\<lambda>_. pins_with True True True False)"
definition no_power :: env where "no_power = (\<lambda>_. pins_with True False False False)"
definition cycle_now :: env where "cycle_now = (\<lambda>k. pins_with False True (k < 3) False)"

lemma rcc_run_numeral:
  "rcc_run (numeral k) env s = (case rcc_step env s of Next t \<Rightarrow> rcc_run (pred_numeral k) env t | Hang t \<Rightarrow> Hang t)"
  by (simp add: numeral_eq_Suc)

text \<open>Up, running, told to cycle the power, and up again.\<close>

lemma cycle_states:
  "\<exists>s t u. rcc_run 5 cycle_now rcc_init = Next s \<and> ATX_PS_ON s \<and> rcc_step cycle_now s = Next t \<and> \<not> ATX_PS_ON t
    \<and> rcc_run 2 cycle_now t = Next u \<and> ATX_PS_ON u"
  by (simp add: rcc_run_numeral rcc_init_def rcc_step_def delay_ms_def pwr_up2_def s0_idle_def rd_def rd_and_def low_def
      cycle_now_def pins_with_def)

theorem rcc_supply_witness:
  "\<exists>s t u. rcc_reach cycle_now s \<and> ATX_PS_ON s \<and> rcc_step cycle_now s = Next t \<and> \<not> ATX_PS_ON t
    \<and> rcc_run 2 cycle_now t = Next u \<and> ATX_PS_ON u \<and> off_ms s + 6000 \<le> off_ms u"
proof -
  obtain s t u where s: "rcc_run 5 cycle_now rcc_init = Next s" "ATX_PS_ON s" "rcc_step cycle_now s = Next t" "\<not> ATX_PS_ON t"
    "rcc_run 2 cycle_now t = Next u" "ATX_PS_ON u"
    using cycle_states by blast
  have r: "rcc_reach cycle_now s" by (rule rcc_run_reach [OF rcc_reach.init s(1)])
  show ?thesis using rcc_supply [OF r] r s by blast
qed

text \<open>(C28) Every pass returns unless the state is \<open>FAULT\<close>, and takes at most 20 s of delays: the two
  \<open>do while\<close> loops of \<open>S0_IDLE\<close> end after at most ten rounds each, whatever the pins show.
\<close>

theorem rcc_pass_ends:
  assumes "rcc_reach env s" and "state s \<noteq> FAULT"
  shows "\<exists>t. rcc_step env s = Next t \<and> msec t \<le> msec s + 20000"
proof (cases "state s")
  case S0_IDLE
  then show ?thesis using s0_idle_result [OF S0_IDLE, of env] by (simp add: rcc_step_def s0_result_def)
next
  case PWR_UP2
  obtain x a where a: "rd_and PIC_SLP_N PWRGD_COREPWR env (s\<lparr>reads := reads s + 1\<rparr>) = (x, a)" by fastforce
  obtain y b where b: "rd_or (low PIC_SLP_N) (low PWRGD_COREPWR) env a = (y, b)" by fastforce
  show ?thesis using PWR_UP2 rd_and_quiet [OF a] rd_or_quiet [OF b] a b
    by (simp add: rcc_step_def pwr_up2_def rd_def delay_ms_def Let_def)
next
  case PWR_BTN1
  then show ?thesis using rcc_reach_inv [OF assms(1)] by (simp add: rcc_inv_def)
next
  case PWR_BTN2
  then show ?thesis using rcc_reach_inv [OF assms(1)] by (simp add: rcc_inv_def)
qed (use assms(2) in \<open>simp_all add: rcc_step_def delay_ms_def\<close>)

theorem rcc_pass_ends_witness:
  "\<exists>t. rcc_step all_good rcc_init = Next t \<and> msec t \<le> 20000"
  using rcc_pass_ends [OF rcc_reach.init, of all_good] by (simp add: rcc_init_def)

text \<open>Without power good the machine gives up after 181 s: the supplies are off for good.
\<close>

theorem rcc_gives_up:
  assumes "\<forall>k. \<not> PWRGD_COREPWR (env k) \<and> \<not> SYS_SHDN_N (env k)" and "state s = PWR_UP2" and "ATX_PS_ON s" and "cat_err s = 0"
  shows "\<exists>t. rcc_run 182 env s = Hang t \<and> \<not> ATX_PS_ON t \<and> msec t = msec s + 181 * 1000"
  using up2_gives_up [OF assms] by simp

theorem rcc_gives_up_witness:
  "\<exists>s t. rcc_reach no_power s \<and> state s = PWR_UP2 \<and> rcc_run 182 no_power s = Hang t \<and> msec t = msec s + 181000"
proof -
  have "\<exists>s. rcc_run 3 no_power rcc_init = Next s \<and> state s = PWR_UP2 \<and> ATX_PS_ON s \<and> cat_err s = 0"
    by (simp add: rcc_run_numeral rcc_init_def rcc_step_def delay_ms_def)
  then obtain s where s: "rcc_run 3 no_power rcc_init = Next s" "state s = PWR_UP2" "ATX_PS_ON s" "cat_err s = 0" by blast
  have r: "rcc_reach no_power s" by (rule rcc_run_reach [OF rcc_reach.init s(1)])
  have "\<forall>k. \<not> PWRGD_COREPWR (no_power k) \<and> \<not> SYS_SHDN_N (no_power k)" by (simp add: no_power_def pins_with_def)
  from rcc_gives_up [OF this s(2-4)] show ?thesis using r s(2) by auto
qed

text \<open>While power is good, with no shutdown and no cycle request, the board stays on.\<close>

theorem rcc_stays_on:
  assumes "\<forall>k. PWRGD_COREPWR (env k) \<and> \<not> SYS_SHDN_N (env k) \<and> GPIO_CPU_SUS2 (env k)"
    and "state s = S0_IDLE" and "ATX_PS_ON s"
  shows "\<exists>t. rcc_run n env s = Next t \<and> state t = S0_IDLE \<and> ATX_PS_ON t"
  using assms(2,3)
proof (induction n arbitrary: s)
  case (Suc n)
  have "state (s0_idle env s) = S0_IDLE \<and> ATX_PS_ON (s0_idle env s)"
    using s0_stays [OF assms(1) Suc.prems(1)] s0_idle_result [OF Suc.prems(1), of env] Suc.prems(2)
    by (simp add: s0_result_def)
  then show ?case using Suc.IH Suc.prems(1) by (simp add: rcc_step_def)
qed simp

theorem rcc_stays_on_witness:
  "\<exists>s t. rcc_reach all_good s \<and> state s = S0_IDLE \<and> rcc_run 100 all_good s = Next t \<and> ATX_PS_ON t"
proof -
  have "\<exists>s. rcc_run 4 all_good rcc_init = Next s \<and> state s = S0_IDLE \<and> ATX_PS_ON s"
    by (simp add: rcc_run_numeral rcc_init_def rcc_step_def delay_ms_def pwr_up2_def rd_def rd_and_def
        all_good_def pins_with_def)
  then obtain s where s: "rcc_run 4 all_good rcc_init = Next s" "state s = S0_IDLE" "ATX_PS_ON s" by blast
  have r: "rcc_reach all_good s" by (rule rcc_run_reach [OF rcc_reach.init s(1)])
  have "\<forall>k. PWRGD_COREPWR (all_good k) \<and> \<not> SYS_SHDN_N (all_good k) \<and> GPIO_CPU_SUS2 (all_good k)"
    by (simp add: all_good_def pins_with_def)
  from rcc_stays_on [OF this s(2,3), of 100] show ?thesis using r s(2) by blast
qed

end
