(* ===== verification/Ip_Calc.thy ===== *)
theory Ip_Calc
  imports C_Strings
begin

text \<open>
  The address calculator (\<open>owipcalc/src/owipcalc.c\<close>): addresses with a prefix length on a stack,
  and operations that push results. The address union is its 16 bytes, of which IPv4 uses the
  first four; \<open>big\<close> says whether the machine is big-endian. \<open>None\<close> is undefined behaviour: a
  shift by 32 or more, an access outside the 16 bytes, an empty stack that is dereferenced.
\<close>

section \<open>State\<close>

record cidr =
  family6 :: bool
  prefix :: u32
  addr :: "u8 list"

record ipc =
  stack :: "cidr list"
  quiet :: bool
  printed :: bool
  out :: string

definition qprintf :: "string \<Rightarrow> ipc \<Rightarrow> ipc" where
  "qprintf t s = s\<lparr>out := (if quiet s then out s else out s @ t), printed := True\<rparr>"

definition sep :: "ipc \<Rightarrow> ipc" where
  "sep s = (if printed s then qprintf '' '' s else s)"

definition answer :: "bool \<Rightarrow> ipc \<Rightarrow> bool \<times> ipc" where
  "answer r s = (r, qprintf (if r then ''1'' else ''0'') s)"

definition cidr_push :: "cidr \<Rightarrow> ipc \<Rightarrow> ipc" where
  "cidr_push a s = s\<lparr>stack := a # stack s\<rparr>"

definition cidr_pop :: "ipc \<Rightarrow> bool \<times> ipc" where
  "cidr_pop s = (if stack s = [] then (False, s) else (True, s\<lparr>stack := tl (stack s)\<rparr>))"

text \<open>An operation works on the top of the stack; most of them on a copy they push first.\<close>

abbreviation top :: "ipc \<Rightarrow> cidr" where "top s \<equiv> hd (stack s)"

definition cidr_clone :: "cidr \<Rightarrow> ipc \<Rightarrow> ipc" where
  "cidr_clone n s = s\<lparr>stack := n # stack s\<rparr>"

section \<open>Bytes\<close>

definition be32 :: "u8 list \<Rightarrow> u32" where
  "be32 b = push_bit 24 (ucast (b ! 0)) OR push_bit 16 (ucast (b ! 1)) OR push_bit 8 (ucast (b ! 2)) OR ucast (b ! 3)"

definition bytes32 :: "u32 \<Rightarrow> u8 list" where
  "bytes32 w = [ucast (drop_bit 24 w), ucast (drop_bit 16 w), ucast (drop_bit 8 w), ucast w]"

text \<open>The word the machine sees in four bytes, and back; \<open>be32\<close> is this after \<open>ntohl\<close>.\<close>

definition host32 :: "bool \<Rightarrow> u8 list \<Rightarrow> u32" where
  "host32 big b = (if big then be32 b else be32 (rev (take 4 b)))"

definition host_bytes :: "bool \<Rightarrow> u32 \<Rightarrow> u8 list" where
  "host_bytes big w = (if big then bytes32 w else rev (bytes32 w))"

definition set_v4 :: "u8 list \<Rightarrow> cidr \<Rightarrow> cidr" where
  "set_v4 b a = a\<lparr>addr := b @ drop 4 (addr a)\<rparr>"

definition shl1 :: "u32 \<Rightarrow> u32 option" where
  "shl1 c = (if c < 32 then Some (push_bit (unat c) 1) else None)"

section \<open>IPv4\<close>

definition cidr_add4 :: "cidr \<Rightarrow> ipc \<Rightarrow> bool \<times> ipc" where
  "cidr_add4 b s =
     (let a = top s; x = be32 (addr a); y = be32 (addr b) in
      if family6 a \<or> family6 b then (False, cidr_clone a s)
      else if x + y < x then (False, cidr_clone a s)
      else (True, cidr_clone (set_v4 (bytes32 (x + y)) a) s))"

definition cidr_sub4 :: "cidr \<Rightarrow> ipc \<Rightarrow> bool \<times> ipc" where
  "cidr_sub4 b s =
     (let a = top s; x = be32 (addr a); y = be32 (addr b) in
      if family6 a \<or> family6 b then (False, cidr_clone a s)
      else if x - y > x then (False, cidr_clone a s)
      else (True, cidr_clone (set_v4 (bytes32 (x - y)) a) s))"

definition cidr_network4 :: "ipc \<Rightarrow> (bool \<times> ipc) option" where
  "cidr_network4 s = (let a = top s in map_option
     (\<lambda>h. (True, cidr_clone ((set_v4 (bytes32 (be32 (addr a) AND NOT (h - 1))) a)\<lparr>prefix := 32\<rparr>) s))
     (shl1 (32 - prefix a)))"

definition cidr_broadcast4 :: "ipc \<Rightarrow> (bool \<times> ipc) option" where
  "cidr_broadcast4 s = (let a = top s in map_option
     (\<lambda>h. (True, cidr_clone ((set_v4 (bytes32 (be32 (addr a) OR (h - 1))) a)\<lparr>prefix := 32\<rparr>) s))
     (shl1 (32 - prefix a)))"

definition cidr_contains4 :: "cidr \<Rightarrow> ipc \<Rightarrow> (bool \<times> ipc) option" where
  "cidr_contains4 b s = (let a = top s in map_option
     (\<lambda>h. let net1 = be32 (addr a) AND NOT (h - 1); net2 = be32 (addr b) AND NOT (h - 1)
          in answer (prefix b \<ge> prefix a \<and> net1 = net2) (sep s))
     (shl1 (32 - prefix a)))"

definition cidr_netmask4 :: "ipc \<Rightarrow> (bool \<times> ipc) option" where
  "cidr_netmask4 s = (let a = top s in map_option
     (\<lambda>h. (True, cidr_clone ((set_v4 (bytes32 (NOT (h - 1))) a)\<lparr>prefix := 32\<rparr>) s))
     (shl1 (32 - prefix a)))"

definition cidr_private4 :: "ipc \<Rightarrow> bool \<times> ipc" where
  "cidr_private4 s = (let x = be32 (addr (top s)) in answer
     (x \<ge> 0x0A000000 \<and> x \<le> 0x0AFFFFFF \<or> x \<ge> 0xAC100000 \<and> x \<le> 0xAC1FFFFF \<or> x \<ge> 0xC0A80000 \<and> x \<le> 0xC0A8FFFF)
     (sep s))"

definition cidr_linklocal4 :: "ipc \<Rightarrow> bool \<times> ipc" where
  "cidr_linklocal4 s = (let x = be32 (addr (top s)) in answer (x \<ge> 0xA9FE0000 \<and> x \<le> 0xA9FEFFFF) (sep s))"

text \<open>These two add in the byte order of the machine.\<close>

definition cidr_prev4 :: "bool \<Rightarrow> cidr \<Rightarrow> ipc \<Rightarrow> (bool \<times> ipc) option" where
  "cidr_prev4 big b s = (let a = top s in map_option
     (\<lambda>h. (True, cidr_clone
        ((set_v4 (host_bytes big (host32 big (addr a) - host32 big (bytes32 h))) a)\<lparr>prefix := prefix b\<rparr>) s))
     (shl1 (32 - prefix b)))"

definition cidr_next4 :: "bool \<Rightarrow> cidr \<Rightarrow> ipc \<Rightarrow> (bool \<times> ipc) option" where
  "cidr_next4 big b s = (let a = top s in map_option
     (\<lambda>h. (True, cidr_clone
        ((set_v4 (host_bytes big (host32 big (addr a) + host32 big (bytes32 h))) a)\<lparr>prefix := prefix b\<rparr>) s))
     (shl1 (32 - prefix b)))"

definition cidr_6to4 :: "bool \<Rightarrow> ipc \<Rightarrow> bool \<times> ipc" where
  "cidr_6to4 big s = (let a = top s; x = host32 big (addr a)
     in (True, cidr_clone \<lparr>family6 = True, prefix = 48, addr = [0x20, 0x02] @ bytes32 x @ replicate 10 0\<rparr> s))"

section \<open>IPv6\<close>

text \<open>The loops run from \<open>idx\<close> down to 0. Each returns the last carry and the bytes.\<close>

fun add6_loop :: "nat \<Rightarrow> nat \<Rightarrow> u8 list \<Rightarrow> u8 list \<Rightarrow> nat \<times> u8 list" where
  "add6_loop idx carry x y =
     (let overflow = (if unat (x ! idx) + unat (y ! idx) + carry \<ge> 256 then 1 else 0);
          x = x[idx := x ! idx + (y ! idx + of_nat carry)]
      in if idx = 0 then (overflow, x) else add6_loop (idx - 1) overflow x y)"

fun sub6_loop :: "nat \<Rightarrow> nat \<Rightarrow> u8 list \<Rightarrow> u8 list \<Rightarrow> nat \<times> u8 list" where
  "sub6_loop idx carry x y =
     (let underflow = (if int (unat (x ! idx)) - int (unat (y ! idx)) - int carry < 0 then 1 else 0);
          x = x[idx := x ! idx - (y ! idx + of_nat carry)]
      in if idx = 0 then (underflow, x) else sub6_loop (idx - 1) underflow x y)"

fun next6_loop :: "nat \<Rightarrow> nat \<Rightarrow> u8 list \<Rightarrow> nat \<times> u8 list" where
  "next6_loop idx carry x =
     (let overflow = (if unat (x ! idx) + carry \<ge> 256 then 1 else 0);
          x = x[idx := x ! idx + of_nat carry]
      in if idx = 0 then (overflow, x) else next6_loop (idx - 1) overflow x)"

fun prev6_loop :: "nat \<Rightarrow> nat \<Rightarrow> u8 list \<Rightarrow> nat \<times> u8 list" where
  "prev6_loop idx carry x =
     (let underflow = (if int (unat (x ! idx)) - int carry < 0 then 1 else 0);
          x = x[idx := x ! idx - of_nat carry]
      in if idx = 0 then (underflow, x) else prev6_loop (idx - 1) underflow x)"

declare add6_loop.simps [simp del] sub6_loop.simps [simp del] next6_loop.simps [simp del] prev6_loop.simps [simp del]

definition cidr_add6 :: "cidr \<Rightarrow> ipc \<Rightarrow> bool \<times> ipc" where
  "cidr_add6 b s = (let a = top s in
     if \<not> family6 a \<or> \<not> family6 b then (False, cidr_clone a s)
     else let (carry, x) = add6_loop 15 0 (addr a) (addr b) in (carry = 0, cidr_clone (a\<lparr>addr := x\<rparr>) s))"

definition cidr_sub6 :: "cidr \<Rightarrow> ipc \<Rightarrow> bool \<times> ipc" where
  "cidr_sub6 b s = (let a = top s in
     if \<not> family6 a \<or> \<not> family6 b then (False, cidr_clone a s)
     else let (carry, x) = sub6_loop 15 0 (addr a) (addr b) in (carry = 0, cidr_clone (a\<lparr>addr := x\<rparr>) s))"

definition idx6 :: "u32 \<Rightarrow> nat" where
  "idx6 p = unat (ucast ((p - 1) div 8) :: u8)"

definition cidr_prev6 :: "cidr \<Rightarrow> ipc \<Rightarrow> (bool \<times> ipc) option" where
  "cidr_prev6 b s = (let a = top s in
     if prefix b = 0 then Some (False, cidr_clone a s)
     else if 16 \<le> idx6 (prefix b) then None
     else let (carry, x) = prev6_loop (idx6 (prefix b)) 1 (addr a)
       in Some (if carry \<noteq> 0 then (False, cidr_clone (a\<lparr>addr := x\<rparr>) s)
                else (True, cidr_clone (a\<lparr>addr := x, prefix := prefix b\<rparr>) s)))"

definition cidr_next6 :: "cidr \<Rightarrow> ipc \<Rightarrow> (bool \<times> ipc) option" where
  "cidr_next6 b s = (let a = top s in
     if prefix b = 0 then Some (False, cidr_clone a s)
     else if 16 \<le> idx6 (prefix b) then None
     else let (carry, x) = next6_loop (idx6 (prefix b)) 1 (addr a)
       in Some (if carry \<noteq> 0 then (False, cidr_clone (a\<lparr>addr := x\<rparr>) s)
                else (True, cidr_clone (a\<lparr>addr := x, prefix := prefix b\<rparr>) s)))"

text \<open>The bytes from the end that the loop clears; with more than 16 it leaves the address.\<close>

definition cidr_network6 :: "ipc \<Rightarrow> (bool \<times> ipc) option" where
  "cidr_network6 s =
     (let a = top s; i = unat ((128 - prefix a) div 8); r = unat ((128 - prefix a) mod 8) in
      if 16 < i \<or> i = 16 \<and> r \<noteq> 0 then None
      else let x = take (16 - i) (addr a) @ replicate i 0;
               x = (if r \<noteq> 0 then x[15 - i := x ! (15 - i) AND NOT (push_bit r 1 - 1)] else x)
           in Some (True, cidr_clone (a\<lparr>addr := x\<rparr>) s))"

definition cidr_contains6 :: "cidr \<Rightarrow> ipc \<Rightarrow> (bool \<times> ipc) option" where
  "cidr_contains6 b s =
     (let a = top s; x = addr a; y = addr b;
          i = unat (ucast ((128 - prefix a) div 8) :: u8);
          m = NOT (push_bit (unat ((128 - prefix a) mod 8)) 1 - 1) :: u8
      in if 15 < i then None
         else let net1 = x ! (15 - i) AND m; net2 = y ! (15 - i) AND m in
           Some (answer (prefix b \<ge> prefix a \<and> net1 = net2 \<and> (i = 15 \<or> take (15 - i) x = take (15 - i) y))
             (sep (cidr_clone a s))))"

definition cidr_linklocal6 :: "ipc \<Rightarrow> bool \<times> ipc" where
  "cidr_linklocal6 s = (let x = addr (top s) in
     answer (x ! 0 = 0xFE \<and> x ! 1 \<ge> 0x80 \<and> x ! 1 \<le> 0xBF) (sep s))"

definition cidr_ula6 :: "ipc \<Rightarrow> bool \<times> ipc" where
  "cidr_ula6 s = (let x = addr (top s) in answer (x ! 0 \<ge> 0xFC \<and> x ! 0 \<le> 0xFD) (sep s))"

section \<open>Either family\<close>

definition cidr_howmany :: "cidr \<Rightarrow> ipc \<Rightarrow> (bool \<times> ipc) option" where
  "cidr_howmany b s =
     (let a = top s; s = sep s in
      if prefix b < prefix a then Some (True, qprintf ''0'' s)
      else map_option (\<lambda>h. (True, qprintf (show_nat (unat h)) s)) (shl1 (prefix b - prefix a)))"

definition cidr_prefix :: "cidr \<Rightarrow> ipc \<Rightarrow> bool \<times> ipc" where
  "cidr_prefix b s = (True, s\<lparr>stack := (top s)\<lparr>prefix := prefix b\<rparr> # tl (stack s)\<rparr>)"

definition cidr_quiet :: "ipc \<Rightarrow> bool \<times> ipc" where
  "cidr_quiet s = (True, s\<lparr>quiet := True\<rparr>)"

end
