(* ===== verification/Ip_Main.thy ===== *)
theory Ip_Main
  imports Ip_Calc
begin

text \<open>
  The address calculator (\<open>owipcalc/src/owipcalc.c\<close>): parsing and printing, the table of
  operations, running them, \<open>main\<close>. The conversions of IPv6 addresses by the C library are the
  parameters \<open>pton6\<close> and \<open>ntop6\<close>; those of IPv4 addresses are written out.
\<close>

section \<open>Dotted quads\<close>

fun split_at :: "char \<Rightarrow> string \<Rightarrow> string list" where
  "split_at c [] = [[]]"
| "split_at c (d # s) = (if d = c then [] # split_at c s else case split_at c s of p # ps \<Rightarrow> (d # p) # ps | [] \<Rightarrow> [[d]])"

definition octet :: "string \<Rightarrow> bool" where
  "octet t \<longleftrightarrow> t \<noteq> [] \<and> list_all (is_digit 10) t \<and> (hd t = CHR ''0'' \<longrightarrow> tl t = []) \<and> digits_val 10 t \<le> 255"

definition pton4 :: "string \<Rightarrow> u8 list option" where
  "pton4 s = (let ps = split_at CHR ''.'' s in
     if length ps = 4 \<and> list_all octet ps then Some (map (\<lambda>t. of_nat (digits_val 10 t)) ps) else None)"

definition ntop4 :: "u8 list \<Rightarrow> string" where
  "ntop4 b = show_nat (unat (b ! 0)) @ ''.'' @ show_nat (unat (b ! 1)) @ ''.''
     @ show_nat (unat (b ! 2)) @ ''.'' @ show_nat (unat (b ! 3))"

record inet =
  pton6 :: "string \<Rightarrow> u8 list option"
  ntop6 :: "u8 list \<Rightarrow> string"

section \<open>Parsing\<close>

definition V4_SIZE :: nat where "V4_SIZE = 33"
definition V6_SIZE :: nat where "V6_SIZE = 51"

definition prefix_number :: "u32 \<Rightarrow> string \<Rightarrow> u32 option" where
  "prefix_number most p = (let (v, k) = strtoul 10 p in
     if k = 0 \<or> k \<noteq> length p \<or> most < (ucast v :: u32) then None else Some (ucast v))"

text \<open>A dotted mask counts its bits, wherever they are.\<close>

definition prefix4 :: "string \<Rightarrow> u32 option" where
  "prefix4 p = (if strchr p CHR ''.'' \<noteq> None then
       map_option (\<lambda>m. of_nat (sum_list (map (\<lambda>b. length (filter (bit b) [0..<8])) m))) (pton4 p)
     else prefix_number 32 p)"

definition cidr_parse4 :: "string \<Rightarrow> cidr option" where
  "cidr_parse4 s = (if V4_SIZE \<le> length s then None
     else
       let cut = strchr s CHR ''/'';
           host = (case cut of None \<Rightarrow> s | Some k \<Rightarrow> take k s);
           pfx = (case cut of None \<Rightarrow> Some 32 | Some k \<Rightarrow> prefix4 (drop (Suc k) s));
           ip = (if cut = Some 0 then Some [0, 0, 0, 0] else pton4 host)
       in case (pfx, ip) of (Some p, Some b) \<Rightarrow> Some \<lparr>family6 = False, prefix = p, addr = b @ replicate 12 0\<rparr>
          | _ \<Rightarrow> None)"

definition cidr_parse6 :: "inet \<Rightarrow> string \<Rightarrow> cidr option" where
  "cidr_parse6 env s = (if V6_SIZE \<le> length s then None
     else
       let cut = strchr s CHR ''/'';
           host = (case cut of None \<Rightarrow> s | Some k \<Rightarrow> take k s);
           pfx = (case cut of None \<Rightarrow> Some 128 | Some k \<Rightarrow> prefix_number 128 (drop (Suc k) s));
           ip = (if cut = Some 0 then Some (replicate 16 0) else pton6 env host)
       in case (pfx, ip) of (Some p, Some b) \<Rightarrow> Some \<lparr>family6 = True, prefix = p, addr = b\<rparr>
          | _ \<Rightarrow> None)"

text \<open>The operand of an operation. A number is an address and a prefix length at once. \<open>Inl\<close> is \<open>exit\<close>.\<close>

fun low_bytes :: "nat \<Rightarrow> u32 \<Rightarrow> u8 list" where
  "low_bytes 0 w = []"
| "low_bytes (Suc n) w = low_bytes n (drop_bit 8 w) @ [ucast (w mod 256)]"

definition cidr_parse :: "inet \<Rightarrow> string \<Rightarrow> bool \<Rightarrow> nat + cidr option" where
  "cidr_parse env s v6 =
     (let (v, r) = strtoul 0 s; w = ucast v :: u32 in
      if 0 < r \<and> r = length s then
        Inr (Some \<lparr>family6 = v6, prefix = w, addr = (if v6 then low_bytes 16 w else bytes32 w @ replicate 12 0)\<rparr>)
      else case (if strchr s CHR '':'' \<noteq> None then cidr_parse6 env s else cidr_parse4 s) of
          None \<Rightarrow> Inr None
        | Some a \<Rightarrow> if family6 a \<noteq> v6 then Inl 4 else Inr (Some a))"

section \<open>Printing\<close>

definition print_with :: "string \<Rightarrow> u32 \<Rightarrow> ipc \<Rightarrow> bool \<times> ipc" where
  "print_with t most s =
     (let a = top s; s = qprintf t (sep s);
          s = (if prefix a < most then qprintf (''/'' @ show_nat (unat (prefix a))) s else s)
      in (True, snd (cidr_pop s)))"

definition cidr_print4 :: "ipc \<Rightarrow> bool \<times> ipc" where
  "cidr_print4 s = (if family6 (top s) then (False, s) else print_with (ntop4 (take 4 (addr (top s)))) 32 s)"

definition cidr_print6 :: "inet \<Rightarrow> ipc \<Rightarrow> bool \<times> ipc" where
  "cidr_print6 env s = (if \<not> family6 (top s) then (False, s) else print_with (ntop6 env (addr (top s))) 128 s)"

section \<open>Operations\<close>

type_synonym act1 = "ipc \<Rightarrow> (bool \<times> ipc) option"
type_synonym act2 = "cidr \<Rightarrow> ipc \<Rightarrow> (bool \<times> ipc) option"

record ip_op =
  op_name :: string
  f4a1 :: "act1 option"
  f4a2 :: "act2 option"
  f6a1 :: "act1 option"
  f6a2 :: "act2 option"

definition op1 :: "string \<Rightarrow> act1 option \<Rightarrow> act1 option \<Rightarrow> ip_op" where
  "op1 n f g = \<lparr>op_name = n, f4a1 = f, f4a2 = None, f6a1 = g, f6a2 = None\<rparr>"

definition op2 :: "string \<Rightarrow> act2 option \<Rightarrow> act2 option \<Rightarrow> ip_op" where
  "op2 n f g = \<lparr>op_name = n, f4a1 = None, f4a2 = f, f6a1 = None, f6a2 = g\<rparr>"

definition ops :: "bool \<Rightarrow> inet \<Rightarrow> ip_op list" where
  "ops big env =
    [op2 ''add'' (Some (\<lambda>b s. Some (cidr_add4 b s))) (Some (\<lambda>b s. Some (cidr_add6 b s))),
     op2 ''sub'' (Some (\<lambda>b s. Some (cidr_sub4 b s))) (Some (\<lambda>b s. Some (cidr_sub6 b s))),
     op2 ''next'' (Some (cidr_next4 big)) (Some cidr_next6),
     op2 ''prev'' (Some (cidr_prev4 big)) (Some cidr_prev6),
     op1 ''network'' (Some cidr_network4) (Some cidr_network6),
     op1 ''broadcast'' (Some cidr_broadcast4) None,
     op2 ''prefix'' (Some (\<lambda>b s. Some (cidr_prefix b s))) (Some (\<lambda>b s. Some (cidr_prefix b s))),
     op1 ''netmask'' (Some cidr_netmask4) None,
     op1 ''6to4'' (Some (\<lambda>s. Some (cidr_6to4 big s))) None,
     op2 ''howmany'' (Some cidr_howmany) (Some cidr_howmany),
     op2 ''contains'' (Some cidr_contains4) (Some cidr_contains6),
     op1 ''private'' (Some (\<lambda>s. Some (cidr_private4 s))) None,
     op1 ''linklocal'' (Some (\<lambda>s. Some (cidr_linklocal4 s))) (Some (\<lambda>s. Some (cidr_linklocal6 s))),
     op1 ''ula'' None (Some (\<lambda>s. Some (cidr_ula6 s))),
     op1 ''quiet'' (Some (\<lambda>s. Some (cidr_quiet s))) (Some (\<lambda>s. Some (cidr_quiet s))),
     op1 ''pop'' (Some (\<lambda>s. Some (cidr_pop s))) (Some (\<lambda>s. Some (cidr_pop s))),
     op1 ''print'' (Some (\<lambda>s. Some (cidr_print4 s))) (Some (\<lambda>s. Some (cidr_print6 env s)))]"

text \<open>
  One operation: go on, stop, \<open>exit\<close> or crash. The arguments left and the status come with it. A
  missing or malformed operand leaves the operation in the arguments.
\<close>

datatype ip_run = Go "string list" nat ipc | Stop "string list" nat ipc | Exit nat ipc | Crash

definition finish :: "string list \<Rightarrow> (bool \<times> ipc) option \<Rightarrow> ip_run" where
  "finish args r = (case r of None \<Rightarrow> Crash | Some (ok, s) \<Rightarrow> Go args (if ok then 0 else 1) s)"

definition run_op2 :: "inet \<Rightarrow> ip_op \<Rightarrow> string list \<Rightarrow> nat \<Rightarrow> ipc \<Rightarrow> ip_run" where
  "run_op2 env f args status s = (case tl args of
     [] \<Rightarrow> Stop args 2 s
   | arg2 # rest \<Rightarrow> if stack s = [] then Crash
       else case cidr_parse env arg2 (family6 (top s)) of
         Inl n \<Rightarrow> Exit n s
       | Inr None \<Rightarrow> Stop args 3 s
       | Inr (Some b) \<Rightarrow> (case (if family6 (top s) then f6a2 f else f4a2 f) of
           None \<Rightarrow> Stop rest 5 s
         | Some act \<Rightarrow> finish rest (act b s)))"

definition run_op1 :: "ip_op \<Rightarrow> string list \<Rightarrow> nat \<Rightarrow> ipc \<Rightarrow> ip_run" where
  "run_op1 f args status s = (if stack s = [] then Crash
     else case (if family6 (top s) then f6a1 f else f4a1 f) of
         None \<Rightarrow> Stop (tl args) 5 s
       | Some act \<Rightarrow> finish (tl args) (act s))"

definition runop :: "bool \<Rightarrow> inet \<Rightarrow> string list \<Rightarrow> nat \<Rightarrow> ipc \<Rightarrow> ip_run" where
  "runop big env args status s = (case args of
     [] \<Rightarrow> Stop args status s
   | arg1 # _ \<Rightarrow> (case List.find (\<lambda>f. op_name f = arg1) (ops big env) of
       None \<Rightarrow> Stop args status s
     | Some f \<Rightarrow> if f4a2 f \<noteq> None \<or> f6a2 f \<noteq> None then run_op2 env f args status s
                 else run_op1 f args status s))"

lemma finish_Go: "finish r x = Go args st s \<Longrightarrow> args = r"
  by (auto simp: finish_def split: option.splits)

lemma run_op2_less: "run_op2 env f args0 status0 s0 = Go args st s \<Longrightarrow> length args < length args0"
  by (cases args0) (auto simp: run_op2_def split: list.splits sum.splits option.splits if_splits dest!: finish_Go)

lemma run_op1_less: "args0 \<noteq> [] \<Longrightarrow> run_op1 f args0 status0 s0 = Go args st s \<Longrightarrow> length args < length args0"
  by (cases args0) (auto simp: run_op1_def split: option.splits if_splits dest!: finish_Go)

lemma runop_less: "runop big env args0 status0 s0 = Go args st s \<Longrightarrow> length args < length args0"
  by (auto simp: runop_def split: list.splits option.splits if_splits dest: run_op2_less run_op1_less [rotated])

text \<open>The loop of \<open>main\<close>.\<close>

function runops :: "bool \<Rightarrow> inet \<Rightarrow> string list \<Rightarrow> nat \<Rightarrow> ipc \<Rightarrow> ip_run" where
  "runops big env args status s = (case runop big env args status s of
     Go args' st s' \<Rightarrow> runops big env args' st s' | r \<Rightarrow> r)"
  by pat_completeness auto
termination
  by (relation "measure (\<lambda>(big, env, args, status, s). length args)") (auto dest: runop_less)

declare runops.simps [simp del]

text \<open>The arguments of \<open>main\<close> come without the name of the program. A result is the exit status and the output.\<close>

definition base_addr :: "inet \<Rightarrow> string \<Rightarrow> cidr option" where
  "base_addr env t = (if strchr t CHR '':'' \<noteq> None then cidr_parse6 env t else cidr_parse4 t)"

definition ipc_start :: "cidr \<Rightarrow> ipc" where
  "ipc_start a = cidr_push a \<lparr>stack = [], quiet = False, printed = False, out = []\<rparr>"

definition ipc_end :: "inet \<Rightarrow> nat \<Rightarrow> ipc \<Rightarrow> (nat \<times> string) option" where
  "ipc_end env status s =
     (if \<not> printed s \<and> status < 2 then
        (if stack s = [] then None
         else let s = (if family6 (top s) then snd (cidr_print6 env s) else snd (cidr_print4 s))
           in Some (status, out (qprintf [CHR 0x0A] s)))
      else Some (status, out (qprintf [CHR 0x0A] s)))"

definition ipc_main :: "bool \<Rightarrow> inet \<Rightarrow> string list \<Rightarrow> (nat \<times> string) option" where
  "ipc_main big env args = (case args of
     base # arg # rest \<Rightarrow>
       (case base_addr env base of None \<Rightarrow> Some (1, [])
        | Some a \<Rightarrow> (case runops big env (arg # rest) 0 (ipc_start a) of
            Crash \<Rightarrow> None
          | Exit n s \<Rightarrow> Some (n, out s)
          | Go left status s \<Rightarrow> None
          | Stop left status s \<Rightarrow> if left \<noteq> [] then Some (6, out s) else ipc_end env status s))
   | _ \<Rightarrow> Some (1, []))"

end
