(* ===== verification/Ip_Num.thy ===== *)
theory Ip_Num
  imports Ip_Calc
begin

text \<open>
  Addresses as numbers: what the byte loops and the masks of the address calculator compute.
\<close>

section \<open>The number of a byte string\<close>

fun num :: "u8 list \<Rightarrow> nat" where
  "num [] = 0"
| "num (b # bs) = unat b * 256 ^ length bs + num bs"

lemma num_less: "num bs < 256 ^ length bs"
proof (induction bs)
  case (Cons b bs)
  have "unat b * 256 ^ length bs + num bs < (unat b + 1) * 256 ^ length bs" using Cons by simp
  also have "\<dots> \<le> 256 * 256 ^ length bs" using u8_less [of b] by (intro mult_right_mono) auto
  finally show ?case by simp
qed simp

lemma num_append: "num (xs @ ys) = num xs * 256 ^ length ys + num ys"
  by (induction xs) (simp_all add: power_add algebra_simps)

lemma num_take_Suc: "i < length x \<Longrightarrow> num (take (Suc i) x) = num (take i x) * 256 + unat (x ! i)"
  by (simp add: take_Suc_conv_app_nth num_append)

lemma num_inj: "length x = length y \<Longrightarrow> num x = num y \<Longrightarrow> x = y"
proof (induction x y rule: list_induct2)
  case (Cons b x c y)
  have r: "num x < 256 ^ length x" "num y < 256 ^ length x" using num_less [of x] num_less [of y] Cons.hyps by simp_all
  have e: "unat b * 256 ^ length x + num x = unat c * 256 ^ length x + num y" using Cons.prems Cons.hyps by simp
  have "unat b = (unat b * 256 ^ length x + num x) div 256 ^ length x" using r by simp
  also have "\<dots> = unat c" using r by (simp add: e)
  finally have "b = c" by (simp add: word_unat_eq_iff)
  then show ?case using e Cons.IH by simp
qed simp

section \<open>Carry\<close>

lemma add6_loop_num:
  assumes "idx < length x" and "length y = length x" and "carry \<le> 1" and "add6_loop idx carry x y = (carry', x')"
  shows "length x' = length x \<and> drop (Suc idx) x' = drop (Suc idx) x \<and> carry' \<le> 1
    \<and> num (take (Suc idx) x') + carry' * 256 ^ Suc idx = num (take (Suc idx) x) + num (take (Suc idx) y) + carry"
  using assms
proof (induction idx arbitrary: carry x)
  case (0 carry x)
  let ?t = "unat (x ! 0) + unat (y ! 0) + carry"
  have "unat (x ! 0 + (y ! 0 + of_nat carry)) = ?t mod 256"
    by (simp add: unat_word_ariths unat_of_nat mod_simps add.assoc)
  then show ?case using 0 u8_less [of "x ! 0"] u8_less [of "y ! 0"]
    by (subst (asm) add6_loop.simps) (auto simp: Let_def num_take_Suc mod_if drop_update_cancel)
next
  case (Suc idx carry x)
  let ?t = "unat (x ! Suc idx) + unat (y ! Suc idx) + carry"
  let ?x = "x[Suc idx := x ! Suc idx + (y ! Suc idx + of_nat carry)]" and ?c = "if 256 \<le> ?t then 1 else 0 :: nat"
  have u: "unat (x ! Suc idx + (y ! Suc idx + of_nat carry)) = ?t mod 256"
    by (simp add: unat_word_ariths unat_of_nat mod_simps add.assoc)
  have "add6_loop idx ?c ?x y = (carry', x')"
    using Suc.prems(4) by (subst (asm) add6_loop.simps) (simp add: Let_def)
  from Suc.IH [OF _ _ _ this] Suc.prems(1-3)
  have ih: "length x' = length x" "drop (Suc idx) x' = drop (Suc idx) ?x" "carry' \<le> 1"
    "num (take (Suc idx) x') + carry' * 256 ^ Suc idx = num (take (Suc idx) x) + num (take (Suc idx) y) + ?c"
    by simp_all
  have nth: "x' ! Suc idx = x ! Suc idx + (y ! Suc idx + of_nat carry)"
    using arg_cong [OF ih(2), of hd] ih(1) Suc.prems(1) by (simp add: hd_drop_conv_nth)
  have "drop (Suc (Suc idx)) x' = drop (Suc (Suc idx)) x"
    using arg_cong [OF ih(2), of tl] by (simp add: tl_drop drop_Suc [symmetric] del: drop_Suc_Cons)
  moreover have "num (take (Suc (Suc idx)) x') = num (take (Suc idx) x') * 256 + ?t mod 256"
    using num_take_Suc [of "Suc idx" x'] ih(1) Suc.prems(1) by (simp only: nth u)
  then have "num (take (Suc (Suc idx)) x') + carry' * 256 ^ Suc (Suc idx)
    = (num (take (Suc idx) x') + carry' * 256 ^ Suc idx) * 256 + ?t mod 256"
    by simp
  moreover have "?t mod 256 + ?c * 256 = ?t"
    using Suc.prems(3) u8_less [of "x ! Suc idx"] u8_less [of "y ! Suc idx"] by (auto simp: mod_if)
  ultimately have "num (take (Suc (Suc idx)) x') + carry' * 256 ^ Suc (Suc idx)
    = (num (take (Suc idx) x) + num (take (Suc idx) y)) * 256 + ?t"
    using ih(4) by (simp only: add_mult_distrib)
  then show ?case using ih \<open>drop (Suc (Suc idx)) x' = _\<close> Suc.prems(1,2)
    by (simp add: num_take_Suc [of "Suc idx"])
qed


lemma sub_byte:
  assumes "carry \<le> 1"
  shows "unat (a - (b + of_nat carry) :: u8) + unat b + carry = unat a + (if unat a < unat b + carry then 256 else 0)"
proof -
  have w: "unat (b + of_nat carry) = (unat b + carry) mod 256"
    using assms by (simp add: unat_word_ariths unat_of_nat mod_simps)
  have "unat (a - w) = (if unat w \<le> unat a then unat a - unat w else unat a + 256 - unat w)" for w :: u8
    by (simp add: unat_sub_if')
  then show ?thesis using assms u8_less [of a] u8_less [of b] by (auto simp: w mod_if)
qed

lemma sub_cond: "int (unat a) - int (unat b) - int c < 0 \<longleftrightarrow> unat (a :: u8) < unat (b :: u8) + c"
  by linarith

lemma sub6_loop_num:
  assumes "idx < length x" and "length y = length x" and "carry \<le> 1" and "sub6_loop idx carry x y = (carry', x')"
  shows "length x' = length x \<and> drop (Suc idx) x' = drop (Suc idx) x \<and> carry' \<le> 1
    \<and> num (take (Suc idx) x') + num (take (Suc idx) y) + carry = num (take (Suc idx) x) + carry' * 256 ^ Suc idx"
  using assms
proof (induction idx arbitrary: carry x)
  case (0 carry x)
  let ?c = "if unat (x ! 0) < unat (y ! 0) + carry then 1 else 0 :: nat"
  have "unat (x ! 0 - (y ! 0 + of_nat carry)) + unat (y ! 0) + carry = unat (x ! 0) + ?c * 256"
    using sub_byte [of carry "x ! 0" "y ! 0"] 0 by simp
  then show ?case using 0(1-3) 0(4) [unfolded sub6_loop.simps [of 0] Let_def sub_cond]
    by (auto simp: num_take_Suc split: if_splits)
next
  case (Suc idx carry x)
  let ?x = "x[Suc idx := x ! Suc idx - (y ! Suc idx + of_nat carry)]"
  let ?c = "if unat (x ! Suc idx) < unat (y ! Suc idx) + carry then 1 else 0 :: nat"
  have u: "unat (x ! Suc idx - (y ! Suc idx + of_nat carry)) + unat (y ! Suc idx) + carry = unat (x ! Suc idx) + ?c * 256"
    using sub_byte [of carry "x ! Suc idx" "y ! Suc idx"] Suc.prems(3) by simp
  have "sub6_loop idx ?c ?x y = (carry', x')"
    using Suc.prems(4) unfolding sub6_loop.simps [of "Suc idx"] Let_def sub_cond by simp
  from Suc.IH [OF _ _ _ this] Suc.prems(1-3)
  have ih: "length x' = length x" "drop (Suc idx) x' = drop (Suc idx) ?x" "carry' \<le> 1"
    "num (take (Suc idx) x') + num (take (Suc idx) y) + ?c = num (take (Suc idx) x) + carry' * 256 ^ Suc idx"
    by simp_all
  have nth: "x' ! Suc idx = x ! Suc idx - (y ! Suc idx + of_nat carry)"
    using arg_cong [OF ih(2), of hd] ih(1) Suc.prems(1) by (simp add: hd_drop_conv_nth)
  have "drop (Suc (Suc idx)) x' = drop (Suc (Suc idx)) x"
    using arg_cong [OF ih(2), of tl] by (simp add: tl_drop drop_Suc [symmetric] del: drop_Suc_Cons)
  then show ?case using ih u Suc.prems(1,2)
    by (simp add: num_take_Suc [of "Suc idx"] nth algebra_simps)
qed

text \<open>Adding or taking away one at a byte is adding or taking away a number of zeros with a carry.\<close>

lemma next6_add6: "idx < length x \<Longrightarrow> next6_loop idx carry x = add6_loop idx carry x (replicate (length x) 0)"
proof (induction idx arbitrary: carry x)
  case (Suc idx)
  then show ?case by (subst next6_loop.simps, subst add6_loop.simps) (simp add: Let_def)
qed (subst next6_loop.simps, subst add6_loop.simps, simp add: Let_def)

lemma prev6_sub6: "idx < length x \<Longrightarrow> prev6_loop idx carry x = sub6_loop idx carry x (replicate (length x) 0)"
proof (induction idx arbitrary: carry x)
  case (Suc idx)
  then show ?case by (subst prev6_loop.simps, subst sub6_loop.simps) (simp add: Let_def)
qed (subst prev6_loop.simps, subst sub6_loop.simps, simp add: Let_def)

lemma num_zeros [simp]: "num (replicate n 0) = 0"
  by (induction n) simp_all

text \<open>The part of the address up to the byte \<open>idx\<close> is moved by one, the rest stays.\<close>

lemma num_split: "k \<le> length x \<Longrightarrow> num x = num (take k x) * 256 ^ (length x - k) + num (drop k x)"
  using num_append [of "take k x" "drop k x"] by simp

lemma next6_num:
  assumes "idx < length x" and "next6_loop idx 1 x = (carry, x')"
  shows "length x' = length x \<and> carry \<le> 1 \<and> num x' + carry * 256 ^ length x = num x + 256 ^ (length x - Suc idx)"
proof -
  have r: "length x' = length x" "drop (Suc idx) x' = drop (Suc idx) x" "carry \<le> 1"
    "num (take (Suc idx) x') + carry * 256 ^ Suc idx = num (take (Suc idx) x) + 1"
    using add6_loop_num [of idx x "replicate (length x) 0" 1 carry x'] assms by (simp_all add: next6_add6 take_replicate)
  let ?k = "256 ^ (length x - Suc idx) :: nat"
  have p: "256 ^ length x = (256 ^ Suc idx :: nat) * ?k" using assms(1) by (metis Suc_leI le_add_diff_inverse power_add)
  have "num x' + carry * 256 ^ length x = (num (take (Suc idx) x') + carry * 256 ^ Suc idx) * ?k + num (drop (Suc idx) x)"
    using num_split [of "Suc idx" x'] r(1,2) assms(1) by (simp add: p algebra_simps del: power_Suc)
  also have "\<dots> = num x + ?k"
    unfolding r(4) using num_split [of "Suc idx" x] assms(1) by (simp add: algebra_simps)
  finally show ?thesis using r by simp
qed

lemma prev6_num:
  assumes "idx < length x" and "prev6_loop idx 1 x = (carry, x')"
  shows "length x' = length x \<and> carry \<le> 1 \<and> num x' + 256 ^ (length x - Suc idx) = num x + carry * 256 ^ length x"
proof -
  have r: "length x' = length x" "drop (Suc idx) x' = drop (Suc idx) x" "carry \<le> 1"
    "num (take (Suc idx) x') + 1 = num (take (Suc idx) x) + carry * 256 ^ Suc idx"
    using sub6_loop_num [of idx x "replicate (length x) 0" 1 carry x'] assms by (simp_all add: prev6_sub6 take_replicate)
  let ?k = "256 ^ (length x - Suc idx) :: nat"
  have p: "256 ^ length x = (256 ^ Suc idx :: nat) * ?k" using assms(1) by (metis Suc_leI le_add_diff_inverse power_add)
  have "num x' + ?k = (num (take (Suc idx) x') + 1) * ?k + num (drop (Suc idx) x)"
    using num_split [of "Suc idx" x'] r(1,2) assms(1) by (simp add: algebra_simps)
  also have "\<dots> = num x + carry * 256 ^ length x"
    unfolding r(4) using num_split [of "Suc idx" x] assms(1) by (simp add: p algebra_simps del: power_Suc)
  finally show ?thesis using r by simp
qed

text \<open>Whole addresses.\<close>

lemma add6_num:
  assumes "length x = 16" and "length y = 16" and "add6_loop 15 0 x y = (c, z)"
  shows "length z = 16 \<and> c \<le> 1 \<and> num z + c * 2 ^ 128 = num x + num y"
proof -
  note n = add6_loop_num [of 15 x y 0 c z]
  have "length z = 16" using n assms by simp
  then have t: "take 16 z = z" by simp
  show ?thesis using n assms by (simp add: t)
qed

lemma sub6_num:
  assumes "length x = 16" and "length y = 16" and "sub6_loop 15 0 x y = (c, z)"
  shows "length z = 16 \<and> c \<le> 1 \<and> num z + num y = num x + c * 2 ^ 128"
proof -
  note n = sub6_loop_num [of 15 x y 0 c z]
  have "length z = 16" using n assms by simp
  then have t: "take 16 z = z" by simp
  show ?thesis using n assms by (simp add: t)
qed

section \<open>Prefixes\<close>

text \<open>Bytes agree behind a mask of the low \<open>r\<close> bits when their quotients agree.\<close>

lemma byte_mask:
  assumes "r < 8"
  shows "(a :: u8) AND NOT (push_bit r 1 - 1) = b AND NOT (push_bit r 1 - 1) \<longleftrightarrow> unat a div 2 ^ r = unat b div 2 ^ r"
proof -
  have m: "push_bit r 1 - 1 = (mask r :: u8)" by (simp add: mask_eq_exp_minus_1 push_bit_eq_mult)
  have d: "drop_bit r (c AND NOT (mask r)) = drop_bit r c" for c :: u8
    by (rule bit_word_eqI) (auto simp: bit_simps dest: bit_imp_le_length)
  have q: "c AND NOT (mask r) = push_bit r (drop_bit r c)" for c :: u8
    by (rule bit_word_eqI) (auto simp: bit_simps not_less)
  have "a AND NOT (mask r) = b AND NOT (mask r) \<longleftrightarrow> drop_bit r a = drop_bit r b"
    by (metis d q)
  also have "\<dots> \<longleftrightarrow> unat (drop_bit r a) = unat (drop_bit r b)" by (simp add: word_unat_eq_iff)
  finally show ?thesis unfolding m by (metis unat_drop_bit_eq drop_bit_eq_div)
qed

lemma div_byte:
  assumes "b < 256" and "r < 8"
  shows "(A * 256 + b) div 2 ^ r = A * 2 ^ (8 - r) + b div (2 ^ r :: nat)" and "b div 2 ^ r < (2 ^ (8 - r) :: nat)"
proof -
  have e: "(256 :: nat) = 2 ^ (8 - r) * 2 ^ r" using assms(2) by (simp add: power_add [symmetric])
  have "A * 256 + b = b + (A * 2 ^ (8 - r)) * 2 ^ r" by (simp add: e)
  moreover have "(b + (A * 2 ^ (8 - r)) * 2 ^ r) div 2 ^ r = A * 2 ^ (8 - r) + b div 2 ^ r" by simp
  ultimately show "(A * 256 + b) div 2 ^ r = A * 2 ^ (8 - r) + b div 2 ^ r" by (simp only:)
  show "b div 2 ^ r < 2 ^ (8 - r)" using assms(1) by (simp add: less_mult_imp_div_less e)
qed

lemma pair_eq:
  assumes "b < (m :: nat)" and "c < m"
  shows "A * m + b = B * m + c \<longleftrightarrow> A = B \<and> b = c"
proof
  assume e: "A * m + b = B * m + c"
  have "A = (A * m + b) div m" using assms(1) by simp
  also have "\<dots> = B" using assms(2) by (simp add: e)
  finally show "A = B \<and> b = c" using e by simp
qed simp

text \<open>Two addresses agree in all but the last \<open>8 i + r\<close> bits.\<close>

lemma prefix_eq:
  assumes "length x = 16" and "length y = 16" and "i \<le> 15" and "r < 8"
  shows "num x div 2 ^ (8 * i + r) = num y div 2 ^ (8 * i + r) \<longleftrightarrow>
    take (15 - i) x = take (15 - i) y \<and> unat (x ! (15 - i)) div 2 ^ r = unat (y ! (15 - i)) div 2 ^ r"
proof -
  have q: "num z div 2 ^ (8 * i + r) = num (take (15 - i) z) * 2 ^ (8 - r) + unat (z ! (15 - i)) div 2 ^ r"
    if "length z = 16" for z
  proof -
    have "256 ^ i = (2 :: nat) ^ (8 * i)" by (simp add: power_mult)
    moreover have "num z = num (take (16 - i) z) * 256 ^ i + num (drop (16 - i) z)" "num (drop (16 - i) z) < 256 ^ i"
      using num_split [of "16 - i" z] num_less [of "drop (16 - i) z"] that assms(3) by simp_all
    ultimately have "num z div 2 ^ (8 * i) = num (take (16 - i) z)" by simp
    moreover have "16 - i = Suc (15 - i)" using assms(3) by simp
    ultimately have "num z div 2 ^ (8 * i) = num (take (15 - i) z) * 256 + unat (z ! (15 - i))"
      using num_take_Suc [of "15 - i" z] that assms(3) by simp
    then show ?thesis using div_byte(1) [OF u8_less [of "z ! (15 - i)"] assms(4)]
      by (simp add: power_add div_mult2_eq)
  qed
  have n: "num (take (15 - i) x) = num (take (15 - i) y) \<longleftrightarrow> take (15 - i) x = take (15 - i) y"
    using num_inj [of "take (15 - i) x" "take (15 - i) y"] assms by auto
  show ?thesis
    unfolding q [OF assms(1)] q [OF assms(2)] n [symmetric]
    by (rule pair_eq) (rule div_byte(2) [OF u8_less assms(4)])+
qed

section \<open>IPv4 words\<close>

lemma be32_bytes32 [simp]: "be32 (bytes32 w) = w"
proof (rule bit_word_eqI)
  fix n assume n: "n < LENGTH(32)"
  consider "n < 8" | "8 \<le> n" "n < 16" | "16 \<le> n" "n < 24" | "24 \<le> n" "n < 32" using n by fastforce
  then show "bit (be32 (bytes32 w)) n = bit w n"
    by cases (auto simp: be32_def bytes32_def bit_simps)
qed

lemma be32_append [simp]: "be32 (bytes32 w @ r) = w"
  using be32_bytes32 [of w] by (simp add: be32_def bytes32_def)

lemma bytes32_be32: "length b = 4 \<Longrightarrow> bytes32 (be32 b) = b"
proof -
  assume "length b = 4"
  then obtain c d e f where "b = [c, d, e, f]" by (auto simp: length_Suc_conv numeral_eq_Suc)
  moreover have "bytes32 (be32 [c, d, e, f]) = [c, d, e, f]"
    unfolding bytes32_def be32_def
    by (simp, intro conjI; rule bit_word_eqI; auto simp: bit_simps dest: bit_imp_le_length)
  ultimately show ?thesis by simp
qed

lemma shl1_mask: "n \<le> 31 \<Longrightarrow> shl1 (of_nat n) = Some (push_bit n 1) \<and> push_bit n 1 - 1 = (mask n :: u32)"
  by (simp add: shl1_def word_less_nat_alt unat_of_nat mask_eq_exp_minus_1 push_bit_eq_mult)

lemma u32_pow2: "n < 32 \<Longrightarrow> unat (2 ^ n :: u32) = 2 ^ n"
  by (rule bit_eqI) (auto simp: bit_simps)

lemma and_not_mask:
  assumes "n < 32" shows "unat (x AND NOT (mask n) :: u32) = unat x div 2 ^ n * 2 ^ n"
proof -
  have "x AND NOT (mask n) = push_bit n (drop_bit n x)"
    by (rule bit_word_eqI) (auto simp: bit_simps not_less)
  moreover have "unat x div 2 ^ n * 2 ^ n < 2 ^ 32"
    using unsigned_less [of x, where ?'a = nat] by (simp add: le_less_trans [OF div_times_less_eq_dividend])
  moreover have "unat (drop_bit n x) = unat x div 2 ^ n" by (metis unat_drop_bit_eq drop_bit_eq_div)
  moreover note u32_pow2 [OF assms]
  ultimately show ?thesis
    by (simp only: push_bit_eq_mult unat_word_ariths) simp
qed

lemma or_mask:
  assumes "n < 32" shows "unat (x OR mask n :: u32) = unat x div 2 ^ n * 2 ^ n + (2 ^ n - 1)"
proof -
  have "unat (x OR mask n) = unat x OR mask n" by (rule bit_eqI) (use assms in \<open>auto simp: bit_simps dest: bit_imp_le_length\<close>)
  also have "\<dots> = push_bit n (drop_bit n (unat x)) OR mask n"
    by (rule bit_eqI) (auto simp: bit_simps not_less)
  also have "\<dots> = push_bit n (drop_bit n (unat x)) + mask n"
    by (rule disjunctive_add [symmetric]) (auto simp: bit_simps)
  finally show ?thesis by (simp add: push_bit_eq_mult drop_bit_eq_div mask_eq_exp_minus_1)
qed

section \<open>Prefix lengths\<close>

lemma shl1_prefix:
  assumes "1 \<le> unat p" and "unat p \<le> 32"
  shows "shl1 (32 - p) = Some (push_bit (32 - unat p) 1) \<and> push_bit (32 - unat p) 1 - 1 = (mask (32 - unat p) :: u32)"
proof -
  have "32 - p = of_nat (32 - unat p)" using assms(2) by (simp add: of_nat_diff)
  then show ?thesis using shl1_mask [of "32 - unat p"] assms(1) by simp
qed

lemma unat_128_minus: "unat p \<le> 128 \<Longrightarrow> unat (128 - p :: u32) = 128 - unat p"
  by (simp add: unat_sub word_le_nat_alt)

lemma idx6_le: "1 \<le> unat p \<Longrightarrow> unat p \<le> 128 \<Longrightarrow> idx6 p = (unat p - 1) div 8 \<and> idx6 p \<le> 15"
proof -
  assume p: "1 \<le> unat p" "unat p \<le> 128"
  have "unat (p - 1) = unat p - 1" using p by (simp add: unat_sub word_le_nat_alt)
  then have "unat ((p - 1) div 8) = (unat p - 1) div 8" by (simp add: unat_div)
  moreover have "(unat p - 1) div 8 \<le> 15" using p by simp
  ultimately show ?thesis by (simp add: idx6_def unsigned_ucast_eq take_bit_nat_eq_self)
qed

lemma div_eq_range:
  assumes "0 < (m :: nat)"
  shows "x div m = y div m \<longleftrightarrow> x div m * m \<le> y \<and> y \<le> x div m * m + (m - 1)"
proof
  assume e: "x div m = y div m"
  have "y = y div m * m + y mod m" "y mod m < m" using assms by simp_all
  then show "x div m * m \<le> y \<and> y \<le> x div m * m + (m - 1)" unfolding e by linarith
next
  assume "x div m * m \<le> y \<and> y \<le> x div m * m + (m - 1)"
  then have "x div m * m \<le> y \<and> y < Suc (x div m) * m" unfolding mult_Suc using assms by linarith
  then show "x div m = y div m" using div_nat_eqI [of m "x div m" y] by (simp add: mult.commute)
qed

end
