(* ===== verification/Ip_Props.thy ===== *)
theory Ip_Props
  imports Ip_Main Ip_Num
begin

text \<open>
  Properties of the address calculator: arithmetic and prefixes as numbers, what it prints, and
  how it ends.
\<close>

section \<open>IPv6 arithmetic\<close>

abbreviation top_num :: "ipc \<Rightarrow> nat" where "top_num s \<equiv> num (addr (top s))"

lemma pow128: "(256 :: nat) ^ 16 = 2 ^ 128"
  by simp

text \<open>(C29) \<open>add\<close> and \<open>sub\<close> of IPv6 addresses, byte by byte with a carry, are addition and subtraction of
  128-bit numbers. They succeed exactly when the sum is below \<open>2 ^ 128\<close> and the difference is not
  negative; on failure the wrapped number is left on the stack above the old address.\<close>

theorem ip_add_sub6:
  assumes "family6 (top s)" and "family6 b" and "length (addr (top s)) = 16" and "length (addr b) = 16"
  shows "(\<forall>ok t. cidr_add6 b s = (ok, t) \<longrightarrow> (ok \<longleftrightarrow> top_num s + num (addr b) < 2 ^ 128)
      \<and> top_num t = (top_num s + num (addr b)) mod 2 ^ 128 \<and> tl (stack t) = stack s)
    \<and> (\<forall>ok t. cidr_sub6 b s = (ok, t) \<longrightarrow> (ok \<longleftrightarrow> num (addr b) \<le> top_num s)
      \<and> (top_num t + num (addr b)) mod 2 ^ 128 = top_num s \<and> tl (stack t) = stack s)"
proof (intro conjI allI impI)
  fix ok t assume r: "cidr_add6 b s = (ok, t)"
  obtain c x where l: "add6_loop 15 0 (addr (top s)) (addr b) = (c, x)" by fastforce
  have t: "ok = (c = 0)" "t = cidr_clone ((top s)\<lparr>addr := x\<rparr>) s"
    using r assms(1,2) by (simp_all add: cidr_add6_def l Let_def)
  have n: "length x = 16" "c \<le> 1" "num x + c * 2 ^ 128 = top_num s + num (addr b)"
    using add6_num [OF assms(3,4) l] by blast+
  have "num x < 2 ^ 128" using num_less [of x] n(1) by (simp add: pow128 del: power_numeral)
  then show "ok \<longleftrightarrow> top_num s + num (addr b) < 2 ^ 128" "top_num t = (top_num s + num (addr b)) mod 2 ^ 128"
    using n(2) unfolding n(3) [symmetric] t by (cases c, simp_all add: cidr_clone_def del: power_numeral)+
  show "tl (stack t) = stack s" by (simp add: t cidr_clone_def)
next
  fix ok t assume r: "cidr_sub6 b s = (ok, t)"
  obtain c x where l: "sub6_loop 15 0 (addr (top s)) (addr b) = (c, x)" by fastforce
  have t: "ok = (c = 0)" "t = cidr_clone ((top s)\<lparr>addr := x\<rparr>) s"
    using r assms(1,2) by (simp_all add: cidr_sub6_def l Let_def)
  have n: "length x = 16" "c \<le> 1" "num x + num (addr b) = top_num s + c * 2 ^ 128"
    using sub6_num [OF assms(3,4) l] by blast+
  have lt: "num x < 2 ^ 128" "top_num s < 2 ^ 128"
    using num_less [of x] num_less [of "addr (top s)"] n(1) assms(3) by (simp_all add: pow128 del: power_numeral)
  then show "ok \<longleftrightarrow> num (addr b) \<le> top_num s" using n(2,3) by (cases c) (auto simp: t(1))
  show "(top_num t + num (addr b)) mod 2 ^ 128 = top_num s"
    using lt(2) n(3) by (simp add: t(2) cidr_clone_def del: power_numeral)
  show "tl (stack t) = stack s" by (simp add: t cidr_clone_def)
qed

lemma ip_add_sub6_witness:
  "(fst (cidr_add6 \<lparr>family6 = True, prefix = 64, addr = replicate 15 0 @ [1]\<rparr> (ipc_start \<lparr>family6 = True, prefix = 64, addr = [0x20, 1] @ replicate 13 0 @ [255]\<rparr>)) \<longleftrightarrow> top_num (ipc_start \<lparr>family6 = True, prefix = 64, addr = [0x20, 1] @ replicate 13 0 @ [255]\<rparr>) + num (addr \<lparr>family6 = True, prefix = 64, addr = replicate 15 0 @ [1]\<rparr>) < 2 ^ 128)
    \<and> (top_num (snd (cidr_sub6 \<lparr>family6 = True, prefix = 64, addr = replicate 15 0 @ [1]\<rparr> (ipc_start \<lparr>family6 = True, prefix = 64, addr = [0x20, 1] @ replicate 13 0 @ [255]\<rparr>))) + num (addr \<lparr>family6 = True, prefix = 64, addr = replicate 15 0 @ [1]\<rparr>)) mod 2 ^ 128 = top_num (ipc_start \<lparr>family6 = True, prefix = 64, addr = [0x20, 1] @ replicate 13 0 @ [255]\<rparr>)"
proof -
  have a: "family6 (top (ipc_start \<lparr>family6 = True, prefix = 64, addr = [0x20, 1] @ replicate 13 0 @ [255]\<rparr>))" "family6 \<lparr>family6 = True, prefix = 64, addr = replicate 15 0 @ [1]\<rparr>"
    "length (addr (top (ipc_start \<lparr>family6 = True, prefix = 64, addr = [0x20, 1] @ replicate 13 0 @ [255]\<rparr>))) = 16" "length (addr \<lparr>family6 = True, prefix = 64, addr = replicate 15 0 @ [1]\<rparr>) = 16"
    by (simp_all add: ipc_start_def cidr_push_def)
  show ?thesis using ip_add_sub6 [OF a] surjective_pairing by blast
qed

text \<open>The step of \<open>next\<close> and \<open>prev\<close> is a whole number of bytes.\<close>

definition byte_step :: "u32 \<Rightarrow> nat" where
  "byte_step p = 256 ^ (15 - (unat p - 1) div 8)"

lemma cidr_next6_num:
  assumes "length (addr (top s)) = 16" and "1 \<le> unat (prefix b)" and "unat (prefix b) \<le> 128"
  shows "\<exists>ok t. cidr_next6 b s = Some (ok, t) \<and> (ok \<longleftrightarrow> top_num s + byte_step (prefix b) < 2 ^ 128)
    \<and> (ok \<longrightarrow> top_num t = top_num s + byte_step (prefix b) \<and> prefix (top t) = prefix b \<and> length (addr (top t)) = 16)"
proof -
  note i = idx6_le [OF assms(2,3)]
  have nz: "prefix b \<noteq> 0" using assms(2) by auto
  obtain c x where l: "next6_loop (idx6 (prefix b)) 1 (addr (top s)) = (c, x)" by fastforce
  have n: "length x = 16" "c \<le> 1" "num x + c * 2 ^ 128 = top_num s + byte_step (prefix b)"
    using next6_num [OF _ l] i assms(1) by (simp_all add: byte_step_def)
  have "num x < 2 ^ 128" using num_less [of x] n(1) by (simp add: pow128 del: power_numeral)
  then show ?thesis using nz i n l unfolding n(3) [symmetric]
    by (cases c) (force simp: cidr_next6_def cidr_clone_def Let_def simp del: power_numeral)+
qed

lemma cidr_prev6_num:
  assumes "length (addr (top s)) = 16" and "1 \<le> unat (prefix b)" and "unat (prefix b) \<le> 128"
  shows "\<exists>ok t. cidr_prev6 b s = Some (ok, t) \<and> (ok \<longleftrightarrow> byte_step (prefix b) \<le> top_num s)
    \<and> (ok \<longrightarrow> top_num t + byte_step (prefix b) = top_num s \<and> prefix (top t) = prefix b \<and> length (addr (top t)) = 16)"
proof -
  note i = idx6_le [OF assms(2,3)]
  have nz: "prefix b \<noteq> 0" using assms(2) by auto
  obtain c x where l: "prev6_loop (idx6 (prefix b)) 1 (addr (top s)) = (c, x)" by fastforce
  have n: "length x = 16" "c \<le> 1" "num x + byte_step (prefix b) = top_num s + c * 2 ^ 128"
    using prev6_num [OF _ l] i assms(1) by (simp_all add: byte_step_def)
  have "num x < 2 ^ 128" "top_num s < 2 ^ 128"
    using num_less [of x] num_less [of "addr (top s)"] n(1) assms(1) by (simp_all add: pow128 del: power_numeral)
  then show ?thesis using nz i n l
    by (cases c) (auto simp: cidr_prev6_def cidr_clone_def Let_def)
qed

section \<open>Containment\<close>

text \<open>\<open>contains\<close> of IPv6 compares exactly the leading bits that the prefix length counts, and wants
  the operand's prefix to be at least as long. With prefix length 0 it reads before the address.\<close>

theorem ip_contains6:
  assumes "length (addr (top s)) = 16" and "length (addr b) = 16" and "unat (prefix (top s)) \<le> 128"
  shows "(prefix (top s) = 0 \<longrightarrow> cidr_contains6 b s = None)
    \<and> (prefix (top s) \<noteq> 0 \<longrightarrow> (\<exists>t. cidr_contains6 b s = Some (prefix (top s) \<le> prefix b
        \<and> top_num s div 2 ^ (128 - unat (prefix (top s))) = num (addr b) div 2 ^ (128 - unat (prefix (top s))), t)))"
proof (intro conjI impI)
  let ?p = "prefix (top s)" and ?x = "addr (top s)" and ?y = "addr b"
  let ?k = "128 - unat ?p"
  have k: "unat ((128 - ?p) div 8) = ?k div 8" "unat ((128 - ?p) mod 8) = ?k mod 8"
    using unat_128_minus [OF assms(3)] by (simp_all add: unat_div unat_mod)
  have "?k div 8 \<le> 16" by simp
  then have i: "unat (ucast ((128 - ?p) div 8) :: u8) = ?k div 8"
    by (simp add: unsigned_ucast_eq take_bit_nat_eq_self k(1))
  show "cidr_contains6 b s = None" if "?p = 0"
    using i that by (simp add: cidr_contains6_def Let_def)
  show "\<exists>t. cidr_contains6 b s = Some (?p \<le> prefix b \<and> top_num s div 2 ^ ?k = num ?y div 2 ^ ?k, t)" if nz: "?p \<noteq> 0"
  proof -
    have "1 \<le> unat ?p" using nz by (simp add: Suc_le_eq unat_gt_0)
    then have le: "?k div 8 \<le> 15" by simp
    have r: "?k mod 8 < 8" by simp
    have e: "8 * (?k div 8) + ?k mod 8 = ?k" by simp
    have "(?x ! (15 - ?k div 8) AND NOT (push_bit (?k mod 8) 1 - 1) = ?y ! (15 - ?k div 8) AND NOT (push_bit (?k mod 8) 1 - 1)
        \<and> (?k div 8 = 15 \<or> take (15 - ?k div 8) ?x = take (15 - ?k div 8) ?y))
      \<longleftrightarrow> num ?x div 2 ^ ?k = num ?y div 2 ^ ?k"
      using prefix_eq [OF assms(1,2) le r] unfolding e byte_mask [OF r] by auto
    then show ?thesis using le by (simp add: cidr_contains6_def Let_def i k answer_def)
  qed
qed

lemma ip_contains6_witness:
  "\<exists>t. cidr_contains6 \<lparr>family6 = True, prefix = 64, addr = replicate 15 0 @ [1]\<rparr> (ipc_start \<lparr>family6 = True, prefix = 64, addr = [0x20, 1] @ replicate 13 0 @ [255]\<rparr>) = Some (64 \<le> (64 :: u32)
    \<and> top_num (ipc_start \<lparr>family6 = True, prefix = 64, addr = [0x20, 1] @ replicate 13 0 @ [255]\<rparr>) div 2 ^ 64 = num (addr \<lparr>family6 = True, prefix = 64, addr = replicate 15 0 @ [1]\<rparr>) div 2 ^ 64, t)"
  using ip_contains6 [of "(ipc_start \<lparr>family6 = True, prefix = 64, addr = [0x20, 1] @ replicate 13 0 @ [255]\<rparr>)" "\<lparr>family6 = True, prefix = 64, addr = replicate 15 0 @ [1]\<rparr>"] by (simp add: ipc_start_def cidr_push_def del: num.simps)

section \<open>IPv4 ranges\<close>

abbreviation v4 :: "cidr \<Rightarrow> nat" where "v4 a \<equiv> unat (be32 (addr a))"

definition v4_block :: "u32 \<Rightarrow> nat" where
  "v4_block p = 2 ^ (32 - unat p)"

text \<open>(C30) For IPv4 prefix lengths 1 to 32, \<open>network\<close> and \<open>broadcast\<close> are the ends of one aligned block that
  holds the address and has as many addresses as the prefix leaves, and \<open>contains\<close> is true of the
  operands in between with a prefix at least as long.\<close>

theorem ip_range4:
  assumes "1 \<le> unat (prefix (top s))" and "unat (prefix (top s)) \<le> 32"
  shows "\<exists>n t. cidr_network4 s = Some (True, n) \<and> cidr_broadcast4 s = Some (True, t)
    \<and> v4_block (prefix (top s)) dvd v4 (top n) \<and> v4 (top t) = v4 (top n) + (v4_block (prefix (top s)) - 1)
    \<and> v4 (top n) \<le> v4 (top s) \<and> v4 (top s) \<le> v4 (top t)
    \<and> (\<forall>b. map_option fst (cidr_contains4 b s)
        = Some (prefix (top s) \<le> prefix b \<and> v4 (top n) \<le> v4 b \<and> v4 b \<le> v4 (top t)))"
proof -
  let ?k = "32 - unat (prefix (top s))" and ?x = "be32 (addr (top s))"
  have k: "?k < 32" using assms by simp
  note h = shl1_prefix [OF assms]
  define n where "n = cidr_clone ((set_v4 (bytes32 (?x AND NOT (mask ?k))) (top s))\<lparr>prefix := 32\<rparr>) s"
  define t where "t = cidr_clone ((set_v4 (bytes32 (?x OR mask ?k)) (top s))\<lparr>prefix := 32\<rparr>) s"
  have ops: "cidr_network4 s = Some (True, n)" "cidr_broadcast4 s = Some (True, t)"
    using h by (simp_all add: cidr_network4_def cidr_broadcast4_def Let_def n_def t_def)
  have v: "v4 (top n) = unat ?x div 2 ^ ?k * 2 ^ ?k" "v4 (top t) = v4 (top n) + (2 ^ ?k - 1)"
    by (simp_all add: n_def t_def cidr_clone_def set_v4_def and_not_mask [OF k] or_mask [OF k])
  have "map_option fst (cidr_contains4 b s) = Some (prefix (top s) \<le> prefix b \<and> v4 (top n) \<le> v4 b \<and> v4 b \<le> v4 (top t))" for b
  proof -
    have "?x AND NOT (mask ?k) = be32 (addr b) AND NOT (mask ?k) \<longleftrightarrow> unat ?x div 2 ^ ?k = v4 b div 2 ^ ?k"
      by (simp add: word_unat_eq_iff and_not_mask [OF k])
    then show ?thesis using h div_eq_range [of "2 ^ ?k" "unat ?x" "v4 b"]
      by (simp add: cidr_contains4_def Let_def answer_def v)
  qed
  moreover have "v4 (top n) \<le> v4 (top s) \<and> v4 (top s) \<le> v4 (top t)"
    using div_eq_range [of "2 ^ ?k" "unat ?x" "unat ?x"] unfolding v by simp
  ultimately show ?thesis using ops v by (auto simp: v4_block_def)
qed

lemma ip_range4_witness:
  "\<exists>n t. cidr_network4 (ipc_start \<lparr>family6 = False, prefix = 24, addr = [10, 0, 0, 7] @ replicate 12 0\<rparr>) = Some (True, n) \<and> cidr_broadcast4 (ipc_start \<lparr>family6 = False, prefix = 24, addr = [10, 0, 0, 7] @ replicate 12 0\<rparr>) = Some (True, t)
    \<and> v4_block (prefix (top (ipc_start \<lparr>family6 = False, prefix = 24, addr = [10, 0, 0, 7] @ replicate 12 0\<rparr>))) dvd v4 (top n) \<and> v4 (top t) = v4 (top n) + (v4_block (prefix (top (ipc_start \<lparr>family6 = False, prefix = 24, addr = [10, 0, 0, 7] @ replicate 12 0\<rparr>))) - 1)
    \<and> v4 (top n) \<le> v4 (top (ipc_start \<lparr>family6 = False, prefix = 24, addr = [10, 0, 0, 7] @ replicate 12 0\<rparr>)) \<and> v4 (top (ipc_start \<lparr>family6 = False, prefix = 24, addr = [10, 0, 0, 7] @ replicate 12 0\<rparr>)) \<le> v4 (top t)
    \<and> (\<forall>b. map_option fst (cidr_contains4 b (ipc_start \<lparr>family6 = False, prefix = 24, addr = [10, 0, 0, 7] @ replicate 12 0\<rparr>))
        = Some (prefix (top (ipc_start \<lparr>family6 = False, prefix = 24, addr = [10, 0, 0, 7] @ replicate 12 0\<rparr>)) \<le> prefix b \<and> v4 (top n) \<le> v4 b \<and> v4 b \<le> v4 (top t)))"
  by (rule ip_range4) (simp_all add: ipc_start_def cidr_push_def)

text \<open>On a big-endian machine the next network is one block further; on a little-endian one it is not.\<close>

lemma next4_big:
  assumes "1 \<le> unat (prefix b)" and "unat (prefix b) \<le> 32"
  shows "\<exists>t. cidr_next4 True b s = Some (True, t) \<and> v4 (top t) = (v4 (top s) + v4_block (prefix b)) mod 2 ^ 32"
proof -
  let ?k = "32 - unat (prefix b)"
  have "?k < 32" using assms by simp
  then have "unat (push_bit ?k 1 :: u32) = 2 ^ ?k"
    by (simp add: push_bit_eq_mult u32_pow2)
  then show ?thesis using shl1_prefix [OF assms]
    by (simp add: cidr_next4_def host32_def host_bytes_def Let_def cidr_clone_def set_v4_def unat_word_ariths v4_block_def)
qed

lemma next4_little:
  "map_option (\<lambda>(ok, t). take 4 (addr (top t))) (cidr_next4 False
     \<lparr>family6 = False, prefix = 24, addr = replicate 16 0\<rparr>
     \<lparr>stack = [\<lparr>family6 = False, prefix = 24, addr = [192, 168, 255, 1] @ replicate 12 0\<rparr>],
      quiet = False, printed = False, out = []\<rparr>) = Some [192, 168, 0, 2]"
  by code_simp

section \<open>Next and previous\<close>

text \<open>\<open>next\<close> of IPv6 adds one unit of the byte in which the prefix ends, it fails exactly when that
  passes \<open>2 ^ 128\<close>, and \<open>prev\<close> with the same operand leads back to the address.\<close>

theorem ip_next_prev6:
  assumes "length (addr (top s)) = 16" and "1 \<le> unat (prefix b)" and "unat (prefix b) \<le> 128"
  shows "\<exists>ok t. cidr_next6 b s = Some (ok, t) \<and> (ok \<longleftrightarrow> top_num s + byte_step (prefix b) < 2 ^ 128)
    \<and> (ok \<longrightarrow> top_num t = top_num s + byte_step (prefix b)
      \<and> (\<exists>u. cidr_prev6 b t = Some (True, u) \<and> addr (top u) = addr (top s)))"
proof -
  obtain ok t where n: "cidr_next6 b s = Some (ok, t)" "ok \<longleftrightarrow> top_num s + byte_step (prefix b) < 2 ^ 128"
    "ok \<Longrightarrow> top_num t = top_num s + byte_step (prefix b)" "ok \<Longrightarrow> length (addr (top t)) = 16"
    using cidr_next6_num [OF assms] by metis
  have "\<exists>u. cidr_prev6 b t = Some (True, u) \<and> addr (top u) = addr (top s)" if o: ok
  proof -
    obtain ok' u where p: "cidr_prev6 b t = Some (ok', u)" "ok' \<longleftrightarrow> byte_step (prefix b) \<le> top_num t"
      "ok' \<Longrightarrow> top_num u + byte_step (prefix b) = top_num t" "ok' \<Longrightarrow> length (addr (top u)) = 16"
      using cidr_prev6_num [OF n(4) [OF o] assms(2,3)] by metis
    have ok' using p(2) n(3) [OF o] by simp
    then have "num (addr (top u)) = num (addr (top s))" using p(3) n(3) [OF o] by simp
    with \<open>ok'\<close> p(1,4) assms(1) show ?thesis by (metis num_inj)
  qed
  then show ?thesis using n(1-3) by blast
qed

lemma ip_next_prev6_witness:
  "\<exists>t u. cidr_next6 \<lparr>family6 = True, prefix = 64, addr = replicate 15 0 @ [1]\<rparr> (ipc_start \<lparr>family6 = True, prefix = 64, addr = [0x20, 1] @ replicate 13 0 @ [255]\<rparr>) = Some (True, t) \<and> cidr_prev6 \<lparr>family6 = True, prefix = 64, addr = replicate 15 0 @ [1]\<rparr> t = Some (True, u) \<and> addr (top u) = addr (top (ipc_start \<lparr>family6 = True, prefix = 64, addr = [0x20, 1] @ replicate 13 0 @ [255]\<rparr>))"
proof -
  have "top_num (ipc_start \<lparr>family6 = True, prefix = 64, addr = [0x20, 1] @ replicate 13 0 @ [255]\<rparr>) + byte_step 64 < 2 ^ 128"
    by (simp add: ipc_start_def cidr_push_def byte_step_def num_append)
  then show ?thesis using ip_next_prev6 [of "(ipc_start \<lparr>family6 = True, prefix = 64, addr = [0x20, 1] @ replicate 13 0 @ [255]\<rparr>)" "\<lparr>family6 = True, prefix = 64, addr = replicate 15 0 @ [1]\<rparr>"]
    by (force simp: ipc_start_def cidr_push_def simp del: num.simps)
qed

end
