(* ===== verification/C_Decimal.thy ===== *)
theory C_Decimal
  imports C_Strings
begin

text \<open>
  Decimal numbers: what is printed with \<open>%u\<close> is read back by the conversions of the C library.
\<close>

lemma digits_val_snoc: "digits_val base (ds @ [c]) = digits_val base ds * base + the (digit_val c)"
  by (simp add: digits_val_def)

lemma show_nat_digits:
  "show_nat n \<noteq> [] \<and> list_all (is_digit 10) (show_nat n) \<and> (hd (show_nat n) = CHR ''0'' \<longrightarrow> n = 0)
    \<and> digits_val 10 (show_nat n) = n"
proof (induction n rule: show_nat.induct)
  case (1 n)
  show ?case
  proof (cases "n < 10")
    case True
    then have "show_nat n = [hex_char n]" by (subst show_nat.simps) simp
    then show ?thesis using True by (simp add: cstr_simps digits_val_def)
  next
    case False
    then have s: "show_nat n = show_nat (n div 10) @ [hex_char (n mod 10)]" by (subst show_nat.simps) simp
    have "n mod 10 < 10" by simp
    then show ?thesis using 1 [OF False] False unfolding s
      by (auto simp: cstr_simps digits_val_snoc div_eq_0_iff)
  qed
qed

lemma digit_plain:
  assumes "is_digit 10 c"
  shows "c \<noteq> CHR ''.''" "c \<noteq> CHR ''/''" "c \<noteq> CHR ''-''" "c \<noteq> CHR ''+''" "\<not> isspace c"
  using assms by (auto simp: is_digit_def digit_val_def isspace_def)

lemma show_nat_set: "c \<in> set (show_nat n) \<Longrightarrow> is_digit 10 c"
  using show_nat_digits [of n] by (auto simp: list_all_iff)

lemma show_nat_clean: "CHR ''.'' \<notin> set (show_nat n)" "CHR ''/'' \<notin> set (show_nat n)"
  using show_nat_set digit_plain by blast+

text \<open>Conversion of what was printed, in base 10 or with the base to be found out.\<close>

lemma strto_scan_show_nat:
  assumes "base = 0 \<or> base = 10"
  shows "strto_scan base (show_nat n) = Some (False, n, length (show_nat n))"
proof -
  note d = show_nat_digits [of n]
  obtain c r where cr: "show_nat n = c # r" using d by (cases "show_nat n") auto
  have c: "is_digit 10 c" using show_nat_set [of c n] cr by simp
  note p = digit_plain [OF c]
  have z: "c = CHR ''0'' \<Longrightarrow> n = 0 \<and> r = []" using d cr show_nat.simps [of 0] by (auto simp: hex_char_def)
  have tw: "takeWhile (is_digit 10) r = r" using show_nat_set [of _ n] cr by (simp add: takeWhile_eq_all_conv)
  show ?thesis
  proof (cases "c = CHR ''0''")
    case True
    then have "show_nat n = [CHR ''0'']" "n = 0" using z cr by simp_all
    then show ?thesis using assms
      by (auto simp: strto_scan_def sign_of_def base_prefix_def digits_val_def is_digit_def digit_val_def isspace_def)
  next
    case False
    then have "base_prefix base (c # r) = (10, 0)" using assms by (auto simp: base_prefix_def)
    then show ?thesis using p d unfolding cr by (simp add: strto_scan_def sign_of_def tw)
  qed
qed

lemma strtoul_show_nat:
  "n < 2 ^ 64 \<Longrightarrow> strtoul 10 (show_nat n) = (of_nat n, length (show_nat n))"
  "n < 2 ^ 64 \<Longrightarrow> strtoul 0 (show_nat n) = (of_nat n, length (show_nat n))"
  by (simp_all add: strtoul_def strto_scan_show_nat)

lemma strtol_show_nat:
  "n < 2 ^ 63 \<Longrightarrow> strtol 0 (show_nat n) = (int n, length (show_nat n))"
  by (simp add: strtol_def strto_scan_show_nat)

lemma length_show_digits: "n < 10 ^ k \<Longrightarrow> 0 < k \<Longrightarrow> length (show_nat n) \<le> k"
proof (induction k arbitrary: n)
  case (Suc k)
  show ?case
  proof (cases "n < 10")
    case False
    then have "n div 10 < 10 ^ k" "0 < k" using Suc.prems(1) by (auto intro!: Nat.gr0I)
    then show ?thesis using False Suc.IH [of "n div 10"] by (subst show_nat.simps) simp
  qed (subst show_nat.simps, simp)
qed simp

lemma length_show_byte: "n < 256 \<Longrightarrow> length (show_nat n) \<le> 3"
  by (rule length_show_digits) simp_all

end
