(* ===== verification/Ip_Text.thy ===== *)
theory Ip_Text
  imports Ip_Main C_Decimal
begin

text \<open>
  What the address calculator prints it reads back, and the statuses it ends with.
\<close>

section \<open>Prefix lengths\<close>

lemma prefix_number_show:
  assumes "unat (p :: u32) \<le> m" and "m < 2 ^ 32"
  shows "prefix_number (of_nat m) (show_nat (unat p)) = Some p"
proof -
  have "unat p < 2 ^ 64" using unsigned_less [of p, where ?'a = nat] by simp
  moreover have "ucast (of_nat (unat p) :: u64) = p"
    by (rule bit_word_eqI) (auto simp: bit_simps)
  moreover have "p \<le> of_nat m" using assms by (simp add: word_le_nat_alt unat_of_nat)
  ultimately show ?thesis using show_nat_digits [of "unat p"]
    by (simp add: prefix_number_def strtoul_show_nat not_less)
qed

section \<open>Dotted quads\<close>

lemma split_at_append: "c \<notin> set a \<Longrightarrow> split_at c (a @ c # r) = a # split_at c r"
  by (induction a) auto

lemma split_at_single: "c \<notin> set a \<Longrightarrow> split_at c a = [a]"
  by (induction a) auto

lemma octet_show: "n < 256 \<Longrightarrow> octet (show_nat n)"
  using show_nat_digits [of n] by (auto simp: octet_def show_nat.simps [of 0])

lemma pton4_ntop4:
  assumes "length b = 4"
  shows "pton4 (ntop4 b) = Some b"
proof -
  obtain c d e f where b: "b = [c, d, e, f]" using assms by (auto simp: length_Suc_conv numeral_eq_Suc)
  have "split_at CHR ''.'' (ntop4 b) = map (\<lambda>x. show_nat (unat x)) b"
    by (simp add: b ntop4_def split_at_append split_at_single show_nat_clean)
  then show ?thesis
    using show_nat_digits octet_show u8_less by (simp add: pton4_def b)
qed

lemma ntop4_text:
  assumes "length b = 4"
  shows "CHR ''/'' \<notin> set (ntop4 b) \<and> length (ntop4 b) \<le> 15 \<and> ntop4 b \<noteq> []"
  using length_show_byte [OF u8_less, of "b ! 0"] length_show_byte [OF u8_less, of "b ! 1"]
    length_show_byte [OF u8_less, of "b ! 2"] length_show_byte [OF u8_less, of "b ! 3"]
  by (simp add: ntop4_def show_nat_clean)

text \<open>(C31) What \<open>cidr_print4\<close> prints for an IPv4 address and prefix, \<open>cidr_parse4\<close> reads back.\<close>

theorem ip_print_parse4:
  assumes "\<not> family6 (top s)" and "4 \<le> length (addr (top s))" and "unat (prefix (top s)) \<le> 32"
    and "\<not> quiet s" and "\<not> printed s" and "out s = []"
  shows "cidr_parse4 (out (snd (cidr_print4 s)))
    = Some \<lparr>family6 = False, prefix = prefix (top s), addr = take 4 (addr (top s)) @ replicate 12 0\<rparr>"
proof -
  let ?b = "take 4 (addr (top s))" and ?p = "prefix (top s)"
  have b: "length ?b = 4" using assms(2) by simp
  note n = pton4_ntop4 [OF b] ntop4_text [OF b]
  have t: "out (snd (cidr_print4 s)) = ntop4 ?b @ (if ?p < 32 then CHR ''/'' # show_nat (unat ?p) else [])"
    using assms by (simp add: cidr_print4_def print_with_def Let_def sep_def qprintf_def cidr_pop_def)
  show ?thesis
  proof (cases "?p < 32")
    case True
    have "length (show_nat (unat ?p)) \<le> 3" using assms(3) by (intro length_show_byte) simp
    moreover have "prefix4 (show_nat (unat ?p)) = Some ?p"
      using prefix_number_show [of ?p 32] assms(3) by (simp add: prefix4_def strchr_None show_nat_clean)
    ultimately show ?thesis using n True
      by (simp add: t cidr_parse4_def V4_SIZE_def strchr_append Let_def)
  next
    case False
    then have "?p = 32" using assms(3) by (simp add: word_less_nat_alt word_unat_eq_iff)
    moreover have "strchr (ntop4 ?b) CHR ''/'' = None" using n(2) by (simp add: strchr_None)
    ultimately show ?thesis using n False by (simp add: t cidr_parse4_def V4_SIZE_def Let_def)
  qed
qed

lemma ip_print_parse4_witness:
  "cidr_parse4 (out (snd (cidr_print4 (ipc_start \<lparr>family6 = False, prefix = 24, addr = [10, 0, 200, 1] @ replicate 12 0\<rparr>))))
    = Some \<lparr>family6 = False, prefix = 24, addr = [10, 0, 200, 1] @ replicate 12 0\<rparr>"
  using ip_print_parse4 [of "ipc_start \<lparr>family6 = False, prefix = 24, addr = [10, 0, 200, 1] @ replicate 12 0\<rparr>"]
  by (simp add: ipc_start_def cidr_push_def)

section \<open>Exit statuses\<close>

lemma run_op2_Stop: "run_op2 env f args st0 s = Stop left st t \<Longrightarrow> args \<noteq> [] \<Longrightarrow> st = 5 \<or> left \<noteq> [] \<and> (st = 2 \<or> st = 3)"
  by (cases args) (auto simp: run_op2_def finish_def split: list.splits sum.splits option.splits if_splits)

lemma run_op1_Stop: "run_op1 f args st0 s = Stop left st t \<Longrightarrow> st = 5"
  by (auto simp: run_op1_def finish_def split: option.splits if_splits)

lemma runop_Stop:
  "runop big env args st0 s = Stop left st t \<Longrightarrow> st = st0 \<or> st = 5 \<or> left \<noteq> []"
  by (auto simp: runop_def split: list.splits option.splits if_splits dest!: run_op2_Stop run_op1_Stop)

lemma runop_Go: "runop big env args st0 s = Go left st t \<Longrightarrow> st \<le> 1"
  by (auto simp: runop_def run_op1_def run_op2_def finish_def split: list.splits sum.splits option.splits if_splits)

lemma runop_Exit: "runop big env args st0 s = Exit n t \<Longrightarrow> n = 4"
  by (auto simp: runop_def run_op1_def run_op2_def finish_def cidr_parse_def Let_def
    split: list.splits sum.splits option.splits if_splits prod.splits)

lemma runops_end:
  assumes "st0 \<le> 1"
  shows "(\<exists>left st t. runops big env args st0 s = Stop left st t \<and> (st \<le> 1 \<or> st = 5 \<or> left \<noteq> []))
    \<or> (\<exists>t. runops big env args st0 s = Exit 4 t) \<or> runops big env args st0 s = Crash"
  using assms
proof (induction big env args st0 s rule: runops.induct)
  case (1 big env args st0 s)
  show ?case
  proof (cases "runop big env args st0 s")
    case (Go left st t)
    then show ?thesis using 1(1) [OF Go] runop_Go [OF Go] by (simp add: runops.simps [of big env args])
  next
    case (Stop left st t)
    then show ?thesis using runop_Stop [OF Stop] 1(2) by (auto simp: runops.simps [of big env args])
  next
    case (Exit n t)
    then show ?thesis using runop_Exit [OF Exit] by (simp add: runops.simps [of big env args])
  qed (simp add: runops.simps [of big env args])
qed

text \<open>The operations of the command line, as many as \<open>k\<close> of them.\<close>

fun run_n :: "nat \<Rightarrow> bool \<Rightarrow> inet \<Rightarrow> string list \<Rightarrow> nat \<Rightarrow> ipc \<Rightarrow> ip_run" where
  "run_n 0 big env args status s = Go args status s"
| "run_n (Suc k) big env args status s = (case runop big env args status s of
     Go args' st s' \<Rightarrow> run_n k big env args' st s' | r \<Rightarrow> r)"

lemma run_n_runops:
  "run_n k big env args st s = Go args' st' s' \<Longrightarrow> runops big env args st s = runops big env args' st' s'"
proof (induction k arbitrary: args st s)
  case (Suc k)
  then obtain args2 st2 s2 where g: "runop big env args st s = Go args2 st2 s2" "run_n k big env args2 st2 s2 = Go args' st' s'"
    by (auto split: ip_run.splits)
  then show ?case using Suc.IH [OF g(2)] by (subst runops.simps) simp
qed simp

definition operand_ops :: "string list" where
  "operand_ops = [''add'', ''sub'', ''next'', ''prev'', ''prefix'', ''howmany'', ''contains'']"

lemma operand_found:
  assumes "f \<in> set operand_ops"
  shows "\<exists>p. List.find (\<lambda>p. op_name p = f) (ops big env) = Some p \<and> f4a2 p \<noteq> None"
  using assms by (auto simp: operand_ops_def ops_def op1_def op2_def)

lemma bad_operand_stops:
  assumes "f \<in> set operand_ops" and "xs = [] \<or> stack s \<noteq> [] \<and> cidr_parse env (hd xs) (family6 (top s)) = Inr None"
  shows "\<exists>m. runops big env (f # xs) st s = Stop (f # xs) m s"
proof -
  obtain p where p: "List.find (\<lambda>p. op_name p = f) (ops big env) = Some p" "f4a2 p \<noteq> None"
    using operand_found [OF assms(1)] by blast
  have "\<exists>m. runop big env (f # xs) st s = Stop (f # xs) m s"
    using assms(2) p by (cases xs) (auto simp: runop_def run_op2_def)
  then show ?thesis by (subst runops.simps) auto
qed

text \<open>(C33) Whatever the command line, a program that returns has one of the statuses 0, 1, 4, 5 and 6. When the
  run comes to an operation whose operand is missing or does not parse, the status is 6 (and not the 2 or 3
  that is set for it): the operation is still among the arguments, and is reported as unknown.
\<close>

theorem ip_status:
  "(ipc_main big env args = Some (n, t) \<longrightarrow> n \<in> {0, 1, 4, 5, 6})
   \<and> (base_addr env base = Some a \<and> run_n k big env (arg # rest) 0 (ipc_start a) = Go (f # xs) st s
       \<and> f \<in> set operand_ops \<and> (xs = [] \<or> stack s \<noteq> [] \<and> cidr_parse env (hd xs) (family6 (top s)) = Inr None)
      \<longrightarrow> ipc_main big env (base # arg # rest) = Some (6, out s))"
proof (intro conjI impI)
  assume m: "ipc_main big env args = Some (n, t)"
  consider "n = 1" | a arg rest where "(case runops big env (arg # rest) 0 (ipc_start a) of
            Crash \<Rightarrow> None
          | Exit n s \<Rightarrow> Some (n, out s)
          | Go left status s \<Rightarrow> None
          | Stop left status s \<Rightarrow> if left \<noteq> [] then Some (6, out s) else ipc_end env status s) = Some (n, t)"
    using m by (fastforce simp: ipc_main_def split: list.splits option.splits)
  then show "n \<in> {0, 1, 4, 5, 6}"
  proof cases
    case 2
    then show ?thesis using runops_end [of 0 big env "arg # rest" "ipc_start a"]
      by (auto simp: ipc_end_def Let_def le_Suc_eq split: if_splits)
  qed simp
next
  assume h: "base_addr env base = Some a \<and> run_n k big env (arg # rest) 0 (ipc_start a) = Go (f # xs) st s
       \<and> f \<in> set operand_ops \<and> (xs = [] \<or> stack s \<noteq> [] \<and> cidr_parse env (hd xs) (family6 (top s)) = Inr None)"
  then obtain m where "runops big env (arg # rest) 0 (ipc_start a) = Stop (f # xs) m s"
    using run_n_runops [of k big env "arg # rest" 0 "ipc_start a" "f # xs" st s] bad_operand_stops [of f xs s env big st] by auto
  then show "ipc_main big env (base # arg # rest) = Some (6, out s)" using h by (simp add: ipc_main_def)
qed

lemma ip_status_witness:
  "ipc_main False \<lparr>pton6 = (\<lambda>_. None), ntop6 = (\<lambda>_. [])\<rparr> [''10.0.0.1'', ''network'', ''add''] = Some (6, [])
   \<and> (6 :: nat) \<in> {0, 1, 4, 5, 6}"
proof -
  let ?e = "\<lparr>pton6 = (\<lambda>_. None), ntop6 = (\<lambda>_. [])\<rparr>" and ?a = "\<lparr>family6 = False, prefix = 32, addr = [10, 0, 0, 1] @ replicate 12 0\<rparr>"
  have b: "base_addr ?e ''10.0.0.1'' = Some ?a" by code_simp
  have r: "case run_n 1 False ?e [''network'', ''add''] 0 (ipc_start ?a) of Go xs n s \<Rightarrow> xs = [''add''] \<and> n = 0 \<and> out s = [] | _ \<Rightarrow> False"
    by code_simp
  then obtain s where s: "run_n 1 False ?e [''network'', ''add''] 0 (ipc_start ?a) = Go [''add''] 0 s" "out s = []"
    by (auto split: ip_run.splits)
  have "ipc_main False ?e [''10.0.0.1'', ''network'', ''add''] = Some (6, out s)"
    using ip_status [of False ?e "[]" 0 "[]" "''10.0.0.1''" ?a 1 "''network''" "[''add'']" "''add''" "[]" 0 s] b s(1)
    by (simp add: operand_ops_def)
  then show ?thesis
    using ip_status [of False ?e "[''10.0.0.1'', ''network'', ''add'']" 6 "[]"] s(2) by simp
qed

text \<open>The last address is popped or printed, and then looked at again.\<close>

lemma pop_crashes: "ipc_main False \<lparr>pton6 = (\<lambda>_. None), ntop6 = (\<lambda>_. [])\<rparr> [''10.0.0.1'', ''pop''] = None"
  by code_simp

lemma print_print_crashes:
  "ipc_main False \<lparr>pton6 = (\<lambda>_. None), ntop6 = (\<lambda>_. [])\<rparr> [''10.0.0.1'', ''print'', ''print''] = None"
  by code_simp

end
