(* ===== verification/Ip_Safe.thy ===== *)
theory Ip_Safe
  imports Ip_Main Ip_Num
begin

text \<open>
  No operation of the address calculator leaves its address or shifts too far, as long as the
  prefix lengths on the stack and of the operands are those of their families.
\<close>

definition width :: "cidr \<Rightarrow> nat" where
  "width a = (if family6 a then 128 else 32)"

definition cidr_ok :: "cidr \<Rightarrow> bool" where
  "cidr_ok a \<longleftrightarrow> length (addr a) = 16 \<and> 1 \<le> unat (prefix a) \<and> unat (prefix a) \<le> width a"

definition ipc_ok :: "ipc \<Rightarrow> bool" where
  "ipc_ok s \<longleftrightarrow> list_all cidr_ok (stack s)"

text \<open>Only the numbers added and taken away need not have a prefix length.\<close>

definition fits :: "string \<Rightarrow> cidr \<Rightarrow> cidr \<Rightarrow> bool" where
  "fits f a b \<longleftrightarrow> length (addr b) = 16 \<and> family6 b = family6 a
    \<and> (f = ''add'' \<or> f = ''sub'' \<or> cidr_ok b)
    \<and> (f = ''howmany'' \<longrightarrow> unat (prefix b) < unat (prefix a) + 32)"

definition good :: "ipc \<Rightarrow> (bool \<times> ipc) option \<Rightarrow> bool" where
  "good s r \<longleftrightarrow> (\<exists>ok t. r = Some (ok, t) \<and> ipc_ok t \<and> length (stack s) \<le> Suc (length (stack t)))"

section \<open>What the operations do to the stack\<close>

lemma stack_simps [simp]:
  "stack (qprintf t s) = stack s" "stack (sep s) = stack s" "stack (cidr_clone n s) = n # stack s"
  "stack (snd (answer r s)) = stack s"
  by (simp_all add: qprintf_def sep_def cidr_clone_def answer_def)

lemma good_push: "ipc_ok s \<Longrightarrow> cidr_ok n \<Longrightarrow> good s (Some (ok, cidr_clone n s))"
  by (simp add: good_def ipc_ok_def)

lemma good_same: "ipc_ok s \<Longrightarrow> stack t = stack s \<Longrightarrow> good s (Some (ok, t))"
  by (simp add: good_def ipc_ok_def)

lemma good_answer: "ipc_ok s \<Longrightarrow> stack t = stack s \<Longrightarrow> good s (Some (answer r t))"
  by (simp add: answer_def good_same)

lemma good_pop: "ipc_ok s \<Longrightarrow> stack t = stack s \<Longrightarrow> good s (Some (ok, snd (cidr_pop t)))"
  by (cases "stack s") (auto simp: good_def ipc_ok_def cidr_pop_def)

lemmas goods = good_push good_same good_answer good_pop

lemma top_ok: "ipc_ok s \<Longrightarrow> stack s \<noteq> [] \<Longrightarrow> cidr_ok (top s)"
  by (simp add: ipc_ok_def list.pred_set)

lemma shl1_less: "unat c < 32 \<Longrightarrow> shl1 c = Some (push_bit (unat c) 1)"
  by (simp add: shl1_def word_less_nat_alt)

lemma set_v4_ok: "cidr_ok a \<Longrightarrow> length b = 4 \<Longrightarrow> cidr_ok (set_v4 b a)"
  by (simp add: cidr_ok_def set_v4_def width_def)

lemma set_v4_prefix_ok:
  "cidr_ok a \<Longrightarrow> \<not> family6 a \<Longrightarrow> length b = 4 \<Longrightarrow> 1 \<le> unat p \<Longrightarrow> unat p \<le> 32 \<Longrightarrow> cidr_ok ((set_v4 b a)\<lparr>prefix := p\<rparr>)"
  by (simp add: cidr_ok_def set_v4_def width_def)

lemma length_bytes32 [simp]: "length (bytes32 w) = 4" "length (host_bytes big w) = 4"
  by (simp_all add: bytes32_def host_bytes_def)

lemma addr_ok: "cidr_ok a \<Longrightarrow> length x = 16 \<Longrightarrow> cidr_ok (a\<lparr>addr := x\<rparr>)"
  by (simp add: cidr_ok_def width_def)

lemma addr_prefix_ok: "cidr_ok a \<Longrightarrow> cidr_ok b \<Longrightarrow> family6 b = family6 a \<Longrightarrow> length x = 16 \<Longrightarrow> cidr_ok (a\<lparr>addr := x, prefix := prefix b\<rparr>)"
  by (simp add: cidr_ok_def width_def)

lemma idx6_less: "cidr_ok b \<Longrightarrow> idx6 (prefix b) < 16"
  using idx6_le [of "prefix b"] by (auto simp: cidr_ok_def width_def split: if_splits)

section \<open>Operations with an operand\<close>

lemma v4_good:
  assumes "ipc_ok s" and "stack s \<noteq> []"
  shows "good s (Some (cidr_add4 b s))" and "good s (Some (cidr_sub4 b s))"
  using top_ok [OF assms] assms(1)
  by (simp_all add: cidr_add4_def cidr_sub4_def Let_def good_push set_v4_ok)

lemma v6_good:
  assumes "ipc_ok s" and "stack s \<noteq> []" and "length (addr b) = 16"
  shows "good s (Some (cidr_add6 b s))" and "good s (Some (cidr_sub6 b s))"
proof -
  note t = top_ok [OF assms(1,2)]
  have l: "length (addr (top s)) = 16" using t by (simp add: cidr_ok_def)
  obtain c x where a: "add6_loop 15 0 (addr (top s)) (addr b) = (c, x)" by fastforce
  show "good s (Some (cidr_add6 b s))" using add6_num [OF l assms(3) a] t assms(1)
    by (simp add: cidr_add6_def Let_def a good_push addr_ok)
  obtain d y where d: "sub6_loop 15 0 (addr (top s)) (addr b) = (d, y)" by fastforce
  show "good s (Some (cidr_sub6 b s))" using sub6_num [OF l assms(3) d] t assms(1)
    by (simp add: cidr_sub6_def Let_def d good_push addr_ok)
qed

lemma step4_good:
  "ipc_ok s \<Longrightarrow> stack s \<noteq> [] \<Longrightarrow> cidr_ok b \<Longrightarrow> \<not> family6 b \<Longrightarrow> \<not> family6 (top s) \<Longrightarrow> good s (cidr_next4 big b s) \<and> good s (cidr_prev4 big b s)"
  using top_ok [of s]
  by (simp add: cidr_next4_def cidr_prev4_def Let_def cidr_ok_def [of b] width_def shl1_prefix good_push set_v4_prefix_ok)

lemma step6_good:
  assumes "ipc_ok s" and "stack s \<noteq> []" and "cidr_ok b" and "family6 b = family6 (top s)"
  shows "good s (cidr_next6 b s) \<and> good s (cidr_prev6 b s)"
proof -
  note t = top_ok [OF assms(1,2)]
  have l: "length (addr (top s)) = 16" using t by (simp add: cidr_ok_def)
  have "length x = 16" if "next6_loop (idx6 (prefix b)) 1 (addr (top s)) = (c, x) \<or> prev6_loop (idx6 (prefix b)) 1 (addr (top s)) = (c, x)" for c x
    using that next6_num [of "idx6 (prefix b)" "addr (top s)" c x] prev6_num [of "idx6 (prefix b)" "addr (top s)" c x]
      idx6_less [OF assms(3)] l by auto
  then show ?thesis using idx6_less [OF assms(3)] t assms
    by (auto simp: cidr_next6_def cidr_prev6_def Let_def intro!: good_push addr_ok addr_prefix_ok split: prod.split)
qed

lemma contains_good:
  assumes "ipc_ok s" and "stack s \<noteq> []"
  shows "family6 (top s) \<Longrightarrow> good s (cidr_contains6 b s)" and "\<not> family6 (top s) \<Longrightarrow> good s (cidr_contains4 b s)"
proof -
  note t = top_ok [OF assms]
  show "good s (cidr_contains6 b s)" if "family6 (top s)"
  proof -
    have p: "1 \<le> unat (prefix (top s))" "unat (prefix (top s)) \<le> 128" using t that by (simp_all add: cidr_ok_def width_def)
    then have "unat ((128 - prefix (top s)) div 8) \<le> 15" by (simp add: unat_div unat_128_minus)
    then have "unat (ucast ((128 - prefix (top s)) div 8) :: u8) \<le> 15"
      by (simp add: unsigned_ucast_eq take_bit_nat_eq_self)
    then show ?thesis using good_push [OF assms(1) t] assms(1)
      by (auto simp: cidr_contains6_def Let_def answer_def good_def ipc_ok_def)
  qed
  show "good s (cidr_contains4 b s)" if "\<not> family6 (top s)"
    using t that assms by (simp add: cidr_contains4_def Let_def cidr_ok_def width_def shl1_prefix good_answer)
qed

lemma howmany_good:
  assumes "ipc_ok s" and "unat (prefix b) < unat (prefix (top s)) + 32"
  shows "good s (cidr_howmany b s)"
proof (cases "prefix b < prefix (top s)")
  case False
  then have "unat (prefix b - prefix (top s)) < 32" using assms(2) by (simp add: unat_sub not_less word_le_nat_alt)
  then show ?thesis using False assms(1) by (simp add: cidr_howmany_def Let_def shl1_less good_same)
qed (use assms(1) in \<open>simp add: cidr_howmany_def Let_def good_same\<close>)

lemma prefix_good: "ipc_ok s \<Longrightarrow> stack s \<noteq> [] \<Longrightarrow> cidr_ok b \<Longrightarrow> family6 b = family6 (top s) \<Longrightarrow> good s (Some (cidr_prefix b s))"
  by (cases "stack s") (auto simp: good_def cidr_prefix_def ipc_ok_def cidr_ok_def width_def)

section \<open>Operations without one\<close>

lemma mask4_good:
  assumes "ipc_ok s" and "stack s \<noteq> []" and "\<not> family6 (top s)"
  shows "good s (cidr_network4 s)" and "good s (cidr_broadcast4 s)" and "good s (cidr_netmask4 s)"
proof -
  note t = top_ok [OF assms(1,2)]
  have "shl1 (32 - prefix (top s)) = Some (push_bit (32 - unat (prefix (top s))) 1)"
    using t assms(3) by (simp add: cidr_ok_def width_def shl1_prefix)
  then show "good s (cidr_network4 s)" "good s (cidr_broadcast4 s)" "good s (cidr_netmask4 s)"
    using t assms by (simp_all add: cidr_network4_def cidr_broadcast4_def cidr_netmask4_def Let_def good_push set_v4_prefix_ok)
qed

lemma network6_good:
  assumes "ipc_ok s" and "stack s \<noteq> []" and "family6 (top s)"
  shows "good s (cidr_network6 s)"
proof -
  note t = top_ok [OF assms(1,2)]
  have p: "1 \<le> unat (prefix (top s))" "unat (prefix (top s)) \<le> 128" using t assms(3) by (simp_all add: cidr_ok_def width_def)
  then have "unat ((128 - prefix (top s)) div 8) \<le> 15" by (simp add: unat_div unat_128_minus)
  moreover have "length (addr (top s)) = 16" using t by (simp add: cidr_ok_def)
  ultimately show ?thesis using t assms(1)
    by (simp add: cidr_network6_def Let_def good_push addr_ok)
qed

lemma tunnel_good: "ipc_ok s \<Longrightarrow> good s (Some (cidr_6to4 big s))"
  by (simp add: cidr_6to4_def Let_def good_push cidr_ok_def width_def)

lemma query_good:
  assumes "ipc_ok s"
  shows "good s (Some (cidr_private4 s))" and "good s (Some (cidr_linklocal4 s))" and "good s (Some (cidr_linklocal6 s))"
    and "good s (Some (cidr_ula6 s))" and "good s (Some (cidr_quiet s))"
  using assms by (simp_all add: cidr_private4_def cidr_linklocal4_def cidr_linklocal6_def cidr_ula6_def cidr_quiet_def
    Let_def good_answer good_same)

lemma print_good:
  assumes "ipc_ok s"
  shows "good s (Some (cidr_pop s))" and "good s (Some (cidr_print4 s))" and "good s (Some (cidr_print6 env s))"
proof -
  have "good s (Some (print_with t m s))" for t m
    unfolding print_with_def Let_def using assms by (intro good_pop) simp_all
  then show "good s (Some (cidr_print4 s))" "good s (Some (cidr_print6 env s))"
    using assms by (simp_all add: cidr_print4_def cidr_print6_def good_same)
  show "good s (Some (cidr_pop s))" using assms by (cases "stack s") (auto simp: good_def ipc_ok_def cidr_pop_def)
qed

section \<open>Running them\<close>

lemma op1_good:
  assumes "f \<in> set (ops big env)" and "ipc_ok s" and "stack s \<noteq> []"
    and "(if family6 (top s) then f6a1 f else f4a1 f) = Some act"
  shows "good s (act s)"
  using assms mask4_good [OF assms(2,3)] network6_good [OF assms(2,3)] tunnel_good [OF assms(2)]
    query_good [OF assms(2)] print_good [OF assms(2)]
  by (auto simp: ops_def op1_def op2_def split: if_splits)

lemma op2_good:
  assumes "f \<in> set (ops big env)" and "ipc_ok s" and "stack s \<noteq> []" and "fits (op_name f) (top s) b"
    and "(if family6 (top s) then f6a2 f else f4a2 f) = Some act"
  shows "good s (act b s)"
  using assms v4_good [OF assms(2,3)] v6_good [OF assms(2,3)] step4_good [OF assms(2,3)] step6_good [OF assms(2,3)]
    contains_good [OF assms(2,3)] howmany_good [OF assms(2)] prefix_good [OF assms(2,3)]
  by (auto simp: ops_def op1_def op2_def fits_def split: if_splits)

definition good_run :: "ipc \<Rightarrow> ip_run \<Rightarrow> bool" where
  "good_run s r \<longleftrightarrow> (case r of Crash \<Rightarrow> False
     | Go left n t \<Rightarrow> ipc_ok t \<and> length (stack s) \<le> Suc (length (stack t)) | _ \<Rightarrow> True)"

lemma good_run_simps [simp]: "good_run s (Stop left n t)" "good_run s (Exit n t)"
  by (simp_all add: good_run_def)

lemma good_finish: "good s r \<Longrightarrow> good_run s (finish rest r)"
  by (auto simp: good_def good_run_def finish_def)

text \<open>(C32) When the stack is not empty, every prefix length on it is at least 1 and at most that of its family,
  and the next argument, where it reads as an address, is of the family of the top, with a prefix length in
  the same bounds (of no concern for \<open>add\<close> and \<open>sub\<close>) and for \<open>howmany\<close> at most 31 longer than that of the top,
  then running the operation neither shifts by more than a word, nor leaves an address, nor reads an
  empty stack; what it leaves on the stack is again in order, and at most one element shorter.\<close>

theorem ip_runop_safe:
  assumes "ipc_ok s" and "stack s \<noteq> []"
    and "\<And>b. rest \<noteq> [] \<Longrightarrow> cidr_parse env (hd rest) (family6 (top s)) = Inr (Some b) \<Longrightarrow> fits f (top s) b"
  shows "good_run s (runop big env (f # rest) status s)"
proof (cases "List.find (\<lambda>p. op_name p = f) (ops big env)")
  case (Some p)
  then have p: "p \<in> set (ops big env)" "op_name p = f" by (auto simp: find_Some_iff)
  show ?thesis
  proof (cases "f4a2 p \<noteq> None \<or> f6a2 p \<noteq> None")
    case True
    have "good_run s (run_op2 env p (f # rest) status s)"
    proof (cases rest)
      case (Cons x more)
      have "good_run s (finish more (act b s))"
        if "cidr_parse env x (family6 (top s)) = Inr (Some b)" "(if family6 (top s) then f6a2 p else f4a2 p) = Some act" for b act
        using op2_good [OF p(1) assms(1,2) _ that(2), of b] assms(3) [of b] that(1) p(2) Cons by (simp add: good_finish)
      then show ?thesis using assms(2) Cons
        by (auto simp: run_op2_def split: sum.split option.split)
    qed (simp add: run_op2_def)
    then show ?thesis using True Some by (simp add: runop_def)
  next
    case False
    have "good_run s (run_op1 p (f # rest) status s)"
      using op1_good [OF p(1) assms(1,2)] assms(2) by (auto simp: run_op1_def good_finish split: option.split)
    then show ?thesis using False Some by (simp add: runop_def)
  qed
qed (simp add: runop_def)

lemma ip_runop_safe_witness:
  "good_run (ipc_start \<lparr>family6 = False, prefix = 24, addr = [10, 0, 0, 1] @ replicate 12 0\<rparr>)
     (runop False \<lparr>pton6 = (\<lambda>_. None), ntop6 = (\<lambda>_. [])\<rparr> [''contains'', ''10.0.0.7''] 0
       (ipc_start \<lparr>family6 = False, prefix = 24, addr = [10, 0, 0, 1] @ replicate 12 0\<rparr>))"
proof (rule ip_runop_safe)
  fix b
  have t: "top (ipc_start a) = a" for a by (simp add: ipc_start_def cidr_push_def)
  have p: "cidr_parse \<lparr>pton6 = (\<lambda>_. None), ntop6 = (\<lambda>_. [])\<rparr> ''10.0.0.7'' False
    = Inr (Some \<lparr>family6 = False, prefix = 32, addr = [10, 0, 0, 7] @ replicate 12 0\<rparr>)"
  proof -
    have "strtoul 0 ''10.0.0.7'' = (10, 2)" by (simp add: strto_eval)
    moreover have "cidr_parse4 ''10.0.0.7'' = Some \<lparr>family6 = False, prefix = 32, addr = [10, 0, 0, 7] @ replicate 12 0\<rparr>"
      by code_simp
    ultimately show ?thesis by (simp add: cidr_parse_def)
  qed
  assume "cidr_parse \<lparr>pton6 = (\<lambda>_. None), ntop6 = (\<lambda>_. [])\<rparr> (hd [''10.0.0.7''])
    (family6 (top (ipc_start \<lparr>family6 = False, prefix = 24, addr = [10, 0, 0, 1] @ replicate 12 0\<rparr>))) = Inr (Some b)"
  then have "b = \<lparr>family6 = False, prefix = 32, addr = [10, 0, 0, 7] @ replicate 12 0\<rparr>"
    unfolding t list.sel cidr.select_convs p by simp
  then show "fits ''contains'' (top (ipc_start \<lparr>family6 = False, prefix = 24, addr = [10, 0, 0, 1] @ replicate 12 0\<rparr>)) b"
    unfolding t by (simp add: fits_def cidr_ok_def width_def)
qed (simp_all add: ipc_ok_def cidr_ok_def width_def ipc_start_def cidr_push_def)

end
