(* ===== verification/Ssd_Stress.thy ===== *)
theory Ssd_Stress
  imports C_Strings
begin

text \<open>
  The disk test (\<open>ssd-stress/src/ssd-stress.c\<close>): it writes pages that follow from a seed to random
  blocks, reads them back and reports the blocks that differ; run as \<open>ssd-check\<close> it works out again
  what an earlier run has written. The disk and the C library's random numbers are parameters: an
  environment of operations on a device state, and for each seed the sequence \<open>random()\<close> returns.
  A page is its 1024 words.
\<close>

section \<open>Pages\<close>

definition POLY :: u32 where "POLY = 0x04c11db7"

definition next_seed :: "u32 \<Rightarrow> u32" where
  "next_seed seed = (if seed AND 0x80000000 \<noteq> 0 then push_bit 1 seed XOR POLY else push_bit 1 seed)"

fun fill_words :: "nat \<Rightarrow> u32 \<Rightarrow> u32 list" where
  "fill_words 0 seed = []"
| "fill_words (Suc n) seed = seed # fill_words n (next_seed seed)"

definition FillPage :: "nat \<Rightarrow> u32 \<Rightarrow> u32 list" where
  "FillPage sz seed = fill_words (sz div 4) seed"

section \<open>The disk\<close>

record 'd ssd =
  seek_ok :: "nat \<Rightarrow> bool"
  put :: "'d \<Rightarrow> nat \<Rightarrow> u32 list \<Rightarrow> 'd option"
  get :: "'d \<Rightarrow> nat \<Rightarrow> u32 list option"
  sync :: "'d \<Rightarrow> 'd option"
  flush_cache :: "'d \<Rightarrow> 'd option"

section \<open>Random blocks\<close>

partial_function (option) mask_loop :: "nat \<Rightarrow> u32 \<Rightarrow> u32 option" where
  "mask_loop nblks m = (if m < 0xffffffff then
      if unat m \<ge> nblks then Some m else mask_loop nblks (push_bit 1 m OR 1)
    else Some m)"

declare mask_loop.simps [code]

text \<open>\<open>rnd i\<close> is the \<open>i\<close>th number since \<open>srandom\<close>; the loop may draw for ever.\<close>

partial_function (option) draw :: "(nat \<Rightarrow> u32) \<Rightarrow> u32 \<Rightarrow> nat \<Rightarrow> nat \<Rightarrow> (nat \<times> nat) option" where
  "draw rnd m nblks i =
     (if unat (rnd i AND m) \<ge> nblks then draw rnd m nblks (Suc i) else Some (unat (rnd i AND m), Suc i))"

declare draw.simps [code]

section \<open>One round\<close>

text \<open>The writing, \<open>n\<close> blocks to go. \<open>None\<close> is a draw that does not end, \<open>Inl\<close> an exit status.\<close>

fun write_loop :: "'d ssd \<Rightarrow> bool \<Rightarrow> (nat \<Rightarrow> u32) \<Rightarrow> u32 \<Rightarrow> nat \<Rightarrow> nat \<Rightarrow> nat \<Rightarrow> u32 list \<Rightarrow> 'd \<Rightarrow> (nat + u32 list \<times> 'd) option" where
  "write_loop env check rnd m nblks 0 i sbuf d = Some (Inr (sbuf, d))"
| "write_loop env check rnd m nblks (Suc n) i sbuf d = (case draw rnd m nblks i of None \<Rightarrow> None
   | Some (blk, i) \<Rightarrow>
      let seed = rnd i; sbuf = sbuf[blk := seed] in
      if check then write_loop env check rnd m nblks n (Suc i) sbuf d
      else if \<not> seek_ok env blk then Some (Inl 4)
      else (case put env d blk (FillPage 4096 seed) of None \<Rightarrow> Some (Inl 5)
        | Some d \<Rightarrow> write_loop env check rnd m nblks n (Suc i) sbuf d))"

definition flush_disk :: "'d ssd \<Rightarrow> bool \<Rightarrow> 'd \<Rightarrow> nat + 'd" where
  "flush_disk env check d = (if check then Inr d else
     case sync env d of None \<Rightarrow> Inl 7 | Some d \<Rightarrow>
     (case flush_cache env d of None \<Rightarrow> Inl 7 | Some d \<Rightarrow> Inr d))"

text \<open>The blocks reported, in order.\<close>

fun check_loop :: "'d ssd \<Rightarrow> u32 list \<Rightarrow> 'd \<Rightarrow> nat list \<Rightarrow> nat + nat list" where
  "check_loop env sbuf d [] = Inr []"
| "check_loop env sbuf d (blk # blks) =
     (if sbuf ! blk = 0 then check_loop env sbuf d blks
      else if \<not> seek_ok env blk then Inl 8
      else case get env d blk of None \<Rightarrow> Inl 9
        | Some page \<Rightarrow> (case check_loop env sbuf d blks of Inl e \<Rightarrow> Inl e
          | Inr bad \<Rightarrow> Inr (if FillPage 4096 (sbuf ! blk) \<noteq> page then blk # bad else bad)))"

definition ssd_round :: "'d ssd \<Rightarrow> (u32 \<Rightarrow> nat \<Rightarrow> u32) \<Rightarrow> u32 \<Rightarrow> nat \<Rightarrow> nat \<Rightarrow> bool \<Rightarrow> u32 \<Rightarrow> 'd \<Rightarrow> (nat + nat list \<times> 'd) option" where
  "ssd_round env rnds m nblks maxb check seed d =
     (case write_loop env check (rnds seed) m nblks maxb 0 (replicate nblks 0) d of
        None \<Rightarrow> None
      | Some (Inl e) \<Rightarrow> Some (Inl e)
      | Some (Inr (sbuf, d)) \<Rightarrow> Some (case flush_disk env check d of Inl e \<Rightarrow> Inl e
          | Inr d \<Rightarrow> (case check_loop env sbuf d [0..<nblks] of Inl e \<Rightarrow> Inl e
              | Inr bad \<Rightarrow> Inr (bad, d))))"

section \<open>The program\<close>

text \<open>It runs until something fails; here for \<open>n\<close> rounds, of which the \<open>k\<close>th ends at the time \<open>now k\<close>.\<close>

fun ssd_rounds :: "'d ssd \<Rightarrow> (u32 \<Rightarrow> nat \<Rightarrow> u32) \<Rightarrow> (nat \<Rightarrow> u64) \<Rightarrow> u32 \<Rightarrow> nat \<Rightarrow> nat \<Rightarrow> nat \<Rightarrow> nat \<Rightarrow> bool \<Rightarrow> u32 \<Rightarrow> 'd
    \<Rightarrow> (nat list list \<times> (nat + 'd)) option" where
  "ssd_rounds env rnds now m nblks maxb 0 k check seed d = Some ([], Inr d)"
| "ssd_rounds env rnds now m nblks maxb (Suc n) k check seed d =
     (case ssd_round env rnds m nblks maxb check seed d of
        None \<Rightarrow> None
      | Some (Inl e) \<Rightarrow> Some ([], Inl e)
      | Some (Inr (bad, d)) \<Rightarrow> map_option (apfst ((#) bad))
          (ssd_rounds env rnds now m nblks maxb n (Suc k) False (ucast (now k)) d))"

definition arg_seed :: "string list \<Rightarrow> u64 \<Rightarrow> u32" where
  "arg_seed args time = (let seed = (case args of _ # _ # s # _ \<Rightarrow> ucast (fst (strtoul 0 s)) | _ \<Rightarrow> 0) in
     if seed = 0 then ucast time else seed)"

definition arg_maxb :: "string list \<Rightarrow> nat" where
  "arg_maxb args = (case args of _ # _ # _ # s # _ \<Rightarrow> unat (fst (strtoul 0 s)) | _ \<Rightarrow> 0)"

definition use_blocks :: "nat \<Rightarrow> nat \<Rightarrow> nat" where
  "use_blocks maxb nblks = (if maxb \<noteq> 0 then maxb div 2 ^ 12 else nblks)"

text \<open>\<open>disk\<close> is what \<open>open\<close> returns, \<open>bytes\<close> what the device answers for its size in bytes.\<close>

definition ssd_main :: "'d ssd \<Rightarrow> (u32 \<Rightarrow> nat \<Rightarrow> u32) \<Rightarrow> (nat \<Rightarrow> u64) \<Rightarrow> u64 \<Rightarrow> string list \<Rightarrow> 'd option \<Rightarrow> u64 option \<Rightarrow> nat
    \<Rightarrow> (nat list list \<times> (nat + 'd)) option" where
  "ssd_main env rnds now time args disk bytes n =
     (if length args < 2 then Some ([], Inl 255)
      else case disk of None \<Rightarrow> Some ([], Inl 1)
      | Some d \<Rightarrow> (case bytes of None \<Rightarrow> Some ([], Inl 2)
      | Some b \<Rightarrow>
          let nblks = unat (drop_bit 12 b) in
          (case mask_loop nblks 1 of None \<Rightarrow> None
           | Some m \<Rightarrow> ssd_rounds env rnds now m nblks (use_blocks (arg_maxb args) nblks) n 0
               (strstr (hd args) ''ssd-check'') (arg_seed args time) d)))"

end
