(* ===== verification/Ssd_Props.thy ===== *)
theory Ssd_Props
  imports Ssd_Stress
begin

text \<open>
  Properties of the disk test: what its pages tell apart, which blocks it draws, that it returns,
  and which blocks a check reports.
\<close>

section \<open>Pages\<close>

lemma bit_push1: "bit (push_bit 1 s :: u32) n \<longleftrightarrow> n < 32 \<and> 1 \<le> n \<and> bit s (n - 1)"
  by (simp only: bit_push_bit_iff possible_bit_word) auto

lemma bit_next_seed: "bit (next_seed s) n \<longleftrightarrow> (n < 32 \<and> 1 \<le> n \<and> bit s (n - 1)) \<noteq> (bit s 31 \<and> bit POLY n)"
proof -
  have "s AND 0x80000000 \<noteq> 0 \<longleftrightarrow> bit s 31" using and_exp_eq_0_iff_not_bit [of s 31] by simp
  then show ?thesis unfolding next_seed_def by (simp only: bit_xor_iff bit_push1 if_distrib [of bit] split: if_split) auto
qed

lemma next_seed_nz:
  assumes "seed \<noteq> 0"
  shows "next_seed seed \<noteq> 0"
proof
  assume "next_seed seed = 0"
  then have z: "\<not> bit (next_seed seed) n" for n by simp
  have b: "\<not> bit seed 31" using z [of 0] by (simp add: bit_next_seed POLY_def)
  have "\<not> bit seed n" for n
    using z [of "Suc n"] b bit_imp_le_length [of seed n] by (cases "n = 31") (auto simp: bit_next_seed)
  then have "seed = 0" by (simp add: bit_eq_iff)
  with assms show False by simp
qed

lemma fill_words_length [simp]: "length (fill_words n seed) = n"
  by (induction n arbitrary: seed) simp_all

lemma fill_words_nz: "seed \<noteq> 0 \<Longrightarrow> 0 \<notin> set (fill_words n seed)"
proof (induction n arbitrary: seed)
  case (Suc n)
  then show ?case using Suc.IH [OF next_seed_nz [OF Suc.prems]] by auto
qed simp

lemma FillPage_eq: "FillPage 4096 a = FillPage 4096 b \<longleftrightarrow> a = b"
proof
  have "FillPage 4096 s = s # fill_words 1023 (next_seed s)" for s
    using fill_words.simps(2) [of 1023 s] by (simp add: FillPage_def)
  moreover assume "FillPage 4096 a = FillPage 4096 b"
  ultimately show "a = b" by simp
qed simp

section \<open>Draws\<close>

lemma mask_shift: "push_bit 1 (mask k) OR 1 = (mask (Suc k) :: u32)"
  by (rule bit_word_eqI) (simp only: bit_or_iff bit_push1, auto simp: bit_simps)

lemma unat_mask: "k \<le> 32 \<Longrightarrow> unat (mask k :: u32) = 2 ^ k - 1"
  unfolding mask_eq_exp_minus_1 [symmetric] by (rule bit_eqI) (auto simp: bit_simps)

lemma mask_loop_value:
  assumes "k \<le> 32" and "k = 1 \<or> 2 ^ (k - 1) \<le> nblks" and "1 \<le> k"
  shows "\<exists>j \<le> 32. mask_loop nblks (mask k) = Some (mask j) \<and> 1 \<le> j \<and> (nblks < 2 ^ j \<or> j = 32) \<and> (j = 1 \<or> 2 ^ (j - 1) \<le> nblks)"
  using assms
proof (induction "32 - k" arbitrary: k)
  case 0
  then have "mask k = (0xffffffff :: u32)" by (simp add: mask_eq_exp_minus_1)
  then have "mask_loop nblks (mask k) = Some (mask k)" by (simp add: mask_loop.simps)
  then show ?case using 0 by (intro exI [of _ k]) simp
next
  case (Suc n)
  have u: "unat (mask k :: u32) = 2 ^ k - 1" using Suc.prems(1) by (rule unat_mask)
  have "(2 :: nat) ^ k \<le> 2 ^ 31" using Suc.hyps(2) by (intro power_increasing) simp_all
  then have l: "mask k < (0xffffffff :: u32)" by (simp add: word_less_nat_alt u)
  show ?case
  proof (cases "nblks \<le> 2 ^ k - 1")
    case True
    then have "nblks < 2 ^ k" by (simp add: Suc_le_eq le_diff_conv2 less_eq_Suc_le flip: Suc_le_eq)
    moreover have "mask_loop nblks (mask k) = Some (mask k)" using True l u by (simp add: mask_loop.simps)
    ultimately show ?thesis using Suc.prems by (intro exI [of _ k]) simp
  next
    case False
    have "mask_loop nblks (mask k) = mask_loop nblks (mask (Suc k))"
      using False l u by (subst mask_loop.simps) (simp only: mask_shift, simp)
    moreover have "2 ^ (Suc k - 1) \<le> nblks" using False by simp
    ultimately show ?thesis using Suc.hyps(1) [of "Suc k"] Suc.hyps(2) by simp
  qed
qed

lemma draw_first:
  assumes "i \<le> j" and "unat (rnd j AND m) < nblks"
  shows "\<exists>blk k. draw rnd m nblks i = Some (blk, k) \<and> blk < nblks"
  using assms
proof (induction "j - i" arbitrary: i)
  case 0
  then show ?case by (subst draw.simps) simp
next
  case (Suc n)
  then show ?case using Suc.hyps(1) [of "Suc i"] by (subst draw.simps) simp
qed

lemma write_loop_returns:
  assumes "\<And>i. \<exists>j \<ge> i. unat (rnd j AND m) < nblks"
  shows "\<exists>r. write_loop env check rnd m nblks n i sbuf d = Some r"
proof (induction n arbitrary: i sbuf d)
  case (Suc n)
  obtain blk k where "draw rnd m nblks i = Some (blk, k)" using assms [of i] draw_first by blast
  then show ?case using Suc by (cases check) (auto simp: Let_def split: option.split)
qed simp

text \<open>A disk that is a map from blocks to pages.\<close>

abbreviation map_disk :: "(nat \<Rightarrow> u32 list) ssd" where
  "map_disk \<equiv> \<lparr>seek_ok = \<lambda>_. True, put = \<lambda>d b p. Some (d(b := p)), get = \<lambda>d b. Some (d b), sync = Some, flush_cache = Some\<rparr>"

text \<open>A round returns, with a list of bad blocks or an exit status, when the random numbers hit
  the disk again and again.\<close>

theorem ssd_round_returns:
  assumes "\<And>i. \<exists>j \<ge> i. unat (rnds seed j AND m) < nblks"
  shows "\<exists>r. ssd_round env rnds m nblks maxb check seed d = Some r"
  using write_loop_returns [OF assms, of env check maxb 0 "replicate nblks 0" d]
  by (auto simp: ssd_round_def split: sum.split)

lemma ssd_round_returns_witness:
  "\<exists>r. ssd_round map_disk (\<lambda>_ _. 0) 1 2 1 False 7 (\<lambda>_. []) = Some r"
  by (rule ssd_round_returns) auto

section \<open>Checks\<close>


definition faithful :: "'d ssd \<Rightarrow> bool" where
  "faithful env \<longleftrightarrow> (\<forall>d blk pg e. put env d blk pg = Some e \<longrightarrow> get env e blk = Some pg \<and> (\<forall>b. b \<noteq> blk \<longrightarrow> get env e b = get env d b))
    \<and> (\<forall>d e. sync env d = Some e \<longrightarrow> get env e = get env d) \<and> (\<forall>d e. flush_cache env d = Some e \<longrightarrow> get env e = get env d)"

definition holds :: "'d ssd \<Rightarrow> u32 list \<Rightarrow> 'd \<Rightarrow> bool" where
  "holds env sbuf d \<longleftrightarrow> (\<forall>b < length sbuf. sbuf ! b \<noteq> 0 \<longrightarrow> get env d b = Some (FillPage 4096 (sbuf ! b)))"

lemma write_loop_holds:
  assumes "faithful env" and "write_loop env False rnd m nblks n i sbuf d = Some (Inr (sbuf', d'))"
    and "length sbuf = nblks" and "holds env sbuf d"
  shows "length sbuf' = nblks \<and> holds env sbuf' d'"
  using assms(2-4)
proof (induction n arbitrary: i sbuf d)
  case (Suc n)
  from Suc.prems(1) obtain blk k e where s: "draw rnd m nblks i = Some (blk, k)" "put env d blk (FillPage 4096 (rnd k)) = Some e"
    "write_loop env False rnd m nblks n (Suc k) (sbuf[blk := rnd k]) e = Some (Inr (sbuf', d'))"
    by (auto simp: Let_def split: option.splits prod.splits if_splits)
  have g: "get env e blk = Some (FillPage 4096 (rnd k))" "\<And>b. b \<noteq> blk \<Longrightarrow> get env e b = get env d b"
    using assms(1) s(2) by (simp_all add: faithful_def)
  have "get env e b = Some (FillPage 4096 (sbuf[blk := rnd k] ! b))"
    if "b < length sbuf" "sbuf[blk := rnd k] ! b \<noteq> 0" for b
    using that Suc.prems(3) g by (cases "b = blk") (auto simp: holds_def)
  then have "holds env (sbuf[blk := rnd k]) e" by (simp add: holds_def)
  then show ?case using Suc.IH [OF s(3)] Suc.prems(2) by simp
qed simp

lemma write_loop_check:
  "write_loop env False rnd m nblks n i sbuf d = Some (Inr (sbuf', d')) \<Longrightarrow> write_loop env True rnd m nblks n i sbuf e = Some (Inr (sbuf', e))"
  by (induction n arbitrary: i sbuf d) (auto simp: Let_def split: option.splits prod.splits if_splits)

lemma check_loop_bad:
  "check_loop env sbuf d blks = Inr bad \<Longrightarrow>
    bad = filter (\<lambda>b. sbuf ! b \<noteq> 0 \<and> get env d b \<noteq> Some (FillPage 4096 (sbuf ! b))) blks"
  by (induction blks arbitrary: bad) (auto split: if_splits option.splits sum.splits)

lemma flush_get: "faithful env \<Longrightarrow> flush_disk env check d = Inr e \<Longrightarrow> get env e = get env d"
  by (auto simp: faithful_def flush_disk_def split: if_splits option.splits)

lemma ssd_round_parts:
  "ssd_round env rnds m nblks maxb check seed d = Some (Inr (bad, e)) \<longleftrightarrow>
    (\<exists>sbuf d'. write_loop env check (rnds seed) m nblks maxb 0 (replicate nblks 0) d = Some (Inr (sbuf, d'))
      \<and> flush_disk env check d' = Inr e \<and> check_loop env sbuf e [0..<nblks] = Inr bad)"
  by (auto simp: ssd_round_def split: option.splits sum.splits)

lemma ssd_round_clean:
  assumes "faithful env" and "ssd_round env rnds m nblks maxb False seed d = Some (Inr (bad, e))"
  shows "bad = []"
proof -
  obtain sbuf d' where w: "write_loop env False (rnds seed) m nblks maxb 0 (replicate nblks 0) d = Some (Inr (sbuf, d'))"
    "flush_disk env False d' = Inr e" "check_loop env sbuf e [0..<nblks] = Inr bad"
    using assms(2) unfolding ssd_round_parts by blast
  have "length sbuf = nblks \<and> holds env sbuf e"
    using write_loop_holds [OF assms(1) w(1)] flush_get [OF assms(1) w(2)] by (simp add: holds_def)
  then show ?thesis using check_loop_bad [OF w(3)] by (auto simp: holds_def filter_empty_conv)
qed

lemma ssd_rounds_clean:
  assumes "faithful env"
  shows "ssd_rounds env rnds now m nblks maxb n k False seed d = Some (bads, r) \<Longrightarrow> \<forall>bad \<in> set bads. bad = []"
proof (induction n arbitrary: k seed d bads)
  case (Suc n)
  then show ?case using ssd_round_clean [OF assms, of rnds m nblks maxb seed d]
    by (fastforce split: option.splits sum.splits)
qed simp

text \<open>(C34) On a disk that keeps what is written, the check at the end of a writing round reports nothing,
  and a later check with the same seed, which writes nothing, works out the same seeds again and
  reports exactly the blocks with a seed other than 0 whose contents have changed since.\<close>

theorem ssd_check_finds:
  assumes "faithful env"
    and "ssd_round env rnds m nblks maxb False seed d = Some (Inr (bad, d1))"
    and "ssd_round env rnds m nblks maxb True seed d2 = Some (Inr (bad', d3))"
  shows "bad = [] \<and> d3 = d2 \<and> (\<exists>sbuf. write_loop env True (rnds seed) m nblks maxb 0 (replicate nblks 0) d2 = Some (Inr (sbuf, d2))
    \<and> bad' = filter (\<lambda>b. sbuf ! b \<noteq> 0 \<and> get env d2 b \<noteq> get env d1 b) [0..<nblks])"
proof -
  obtain sbuf e where w: "write_loop env False (rnds seed) m nblks maxb 0 (replicate nblks 0) d = Some (Inr (sbuf, e))"
    "flush_disk env False e = Inr d1" "check_loop env sbuf d1 [0..<nblks] = Inr bad"
    using assms(2) unfolding ssd_round_parts by blast
  have h: "length sbuf = nblks" "holds env sbuf d1"
    using write_loop_holds [OF assms(1) w(1)] flush_get [OF assms(1) w(2)] by (simp_all add: holds_def)
  note r = write_loop_check [OF w(1), of d2]
  have c: "d3 = d2" "check_loop env sbuf d2 [0..<nblks] = Inr bad'"
    using assms(3) unfolding ssd_round_parts r by (auto simp: flush_disk_def)
  have "bad = []" by (rule ssd_round_clean [OF assms(1,2)])
  moreover have "bad' = filter (\<lambda>b. sbuf ! b \<noteq> 0 \<and> get env d2 b \<noteq> get env d1 b) [0..<nblks]"
    unfolding check_loop_bad [OF c(2)] by (rule filter_cong) (use h in \<open>auto simp: holds_def\<close>)
  ultimately show ?thesis using r c(1) by blast
qed

lemma ssd_check_finds_witness:
  "[] = ([] :: nat list) \<and> (\<lambda>_. []) = (\<lambda>_ :: nat. [] :: u32 list)
   \<and> (\<exists>sbuf. write_loop map_disk True (\<lambda>i. if i = 0 then 1 else 5) 1 2 1 0 (replicate 2 0) (\<lambda>_. []) = Some (Inr (sbuf, (\<lambda>_. [])))
    \<and> [1] = filter (\<lambda>b. sbuf ! b \<noteq> 0 \<and> get map_disk (\<lambda>_. []) b \<noteq> get map_disk ((\<lambda>_. [])(1 := FillPage 4096 5)) b) [0..<2])"
proof (rule ssd_check_finds [where rnds = "\<lambda>_ i. if i = 0 then 1 else 5" and seed = 7])
  have d: "draw (\<lambda>i. if i = 0 then 1 else 5) 1 2 0 = Some (1, 1)" by (subst draw.simps) simp
  have n: "FillPage 4096 5 \<noteq> []" using fill_words.simps(2) [of 1023 5] by (simp add: FillPage_def)
  have u: "[0..<2] = [0 :: nat, 1]" "replicate 2 (0 :: u32) = [0, 0]" by (simp_all add: upt_rec numeral_2_eq_2)
  show "faithful map_disk" by (simp add: faithful_def)
  show "ssd_round map_disk (\<lambda>_ i. if i = 0 then 1 else 5) 1 2 1 False 7 (\<lambda>_. []) = Some (Inr ([], (\<lambda>_. [])(1 := FillPage 4096 5)))"
    using d u by (simp add: ssd_round_def flush_disk_def)
  show "ssd_round map_disk (\<lambda>_ i. if i = 0 then 1 else 5) 1 2 1 True 7 (\<lambda>_. []) = Some (Inr ([1], (\<lambda>_. [])))"
    using d n u by (simp add: ssd_round_def flush_disk_def)
qed

text \<open>With an amount below 4096 nothing is written and every check is passed.\<close>

lemma small_amount: "0 < maxb \<Longrightarrow> maxb < 4096 \<Longrightarrow> use_blocks maxb nblks = 0"
  by (simp add: use_blocks_def)

lemma check_nothing: "ssd_round env rnds m nblks 0 True seed d = Some (Inr ([], d))"
proof -
  have "check_loop env (replicate nblks 0) d blks = Inr []" if "\<forall>b \<in> set blks. b < nblks" for blks
    using that by (induction blks) auto
  then show ?thesis by (simp add: ssd_round_def flush_disk_def)
qed

text \<open>The mask for the random numbers is all ones, lets every block of the disk through, and at
  least every second of the numbers it leaves is a block of the disk.\<close>

theorem ssd_mask:
  assumes "1 \<le> nblks" and "nblks \<le> 2 ^ 32"
  shows "\<exists>k. mask_loop nblks 1 = Some (mask k) \<and> nblks \<le> 2 ^ k \<and> 2 ^ k \<le> 2 * nblks
    \<and> (\<forall>blk < nblks. unat (of_nat blk AND mask k :: u32) = blk)"
proof -
  have "mask 1 = (1 :: u32)" by simp
  then obtain j where j: "j \<le> 32" "mask_loop nblks 1 = Some (mask j)" "1 \<le> j" "nblks < 2 ^ j \<or> j = 32" "j = 1 \<or> 2 ^ (j - 1) \<le> nblks"
    using mask_loop_value [of 1 nblks] by auto
  have le: "nblks \<le> 2 ^ j" using j(4) assms(2) by auto
  have "(2 :: nat) ^ j = 2 * 2 ^ (j - 1)" using j(3) by (simp flip: power_Suc)
  then have "2 ^ j \<le> 2 * nblks" using j(5) assms(1) by auto
  moreover have "unat (of_nat blk AND mask j :: u32) = blk" if "blk < nblks" for blk
  proof -
    have "unat (of_nat blk AND mask j :: u32) = (blk mod 2 ^ 32) mod 2 ^ j"
      by (simp only: take_bit_eq_mask [symmetric] unsigned_take_bit_eq) (simp add: take_bit_eq_mod unat_of_nat)
    moreover have "(2 :: nat) ^ j \<le> 2 ^ 32" using j(1) by (intro power_increasing) simp_all
    ultimately show ?thesis using that le by simp
  qed
  ultimately show ?thesis using j(2) le by blast
qed

lemma ssd_mask_witness:
  "\<exists>k. mask_loop 5 1 = Some (mask k) \<and> 5 \<le> (2 :: nat) ^ k \<and> (2 :: nat) ^ k \<le> 2 * 5
    \<and> unat (of_nat 4 AND mask k :: u32) = 4"
proof -
  obtain k where k: "mask_loop 5 1 = Some (mask k)" "5 \<le> (2 :: nat) ^ k" "(2 :: nat) ^ k \<le> 2 * 5"
    "\<forall>blk < 5. unat (of_nat blk AND mask k :: u32) = blk"
    using ssd_mask [of 5] by force
  have "unat (of_nat 4 AND mask k :: u32) = 4" by (rule k(4) [rule_format]) simp
  then show ?thesis using k(1-3) by blast
qed

end
