(* ===== verification/Brf_Sample.thy ===== *)
theory Brf_Sample
  imports C_Strings
begin

text \<open>
  Sampling in the spectrum analyzer (\<open>mfgtest/sdrsvr/bladerf.c\<close>): the callback that runs the
  buffers of a stream, copying the messages of the buffers to the samples, and the statistics.
  The radio library is a parameter: the size of its messages and of their headers, the time stamp of
  a message, and for each attempt to sample what its calls return and what the buffers then hold.
\<close>

definition SDR_BPS :: nat where "SDR_BPS = 4"
definition SDR_SPBUF :: nat where "SDR_SPBUF = 1024"
definition SDR_NXFER :: nat where "SDR_NXFER = 16"
definition SDR_FUDGE :: nat where "SDR_FUDGE = 16"

record radio =
  msg_size :: nat
  hdr_size :: nat
  time_stamp :: "u8 list \<Rightarrow> u64"

section \<open>The stream\<close>

record strm =
  spmsg :: nat
  spbuf :: nat
  nbufs :: nat
  bidx :: nat
  last_ts :: u64

definition strm_init :: "radio \<Rightarrow> nat \<Rightarrow> strm" where
  "strm_init R n = (let b = (SDR_SPBUF * (msg_size R - hdr_size R)) div msg_size R in
     \<lparr>spmsg = (msg_size R - hdr_size R) div SDR_BPS, spbuf = b, nbufs = n div b + 1 + SDR_FUDGE, bidx = 0, last_ts = 0\<rparr>)"

datatype cbret = Shutdown | NoData | Buf nat

text \<open>The callback. \<open>filled\<close> is the number of the buffer that the library hands over; \<open>None\<close> is reading
  the table of buffers behind its end.\<close>

definition sdr_rx_async_cb :: "u64 \<Rightarrow> nat \<Rightarrow> strm \<Rightarrow> (cbret \<times> strm) option" where
  "sdr_rx_async_cb ts filled g =
     (if 16 \<le> bidx g \<and> ts \<noteq> last_ts g + of_nat (spbuf g) then Some (Shutdown, g)
      else
        let g = g\<lparr>last_ts := ts\<rparr> in
        if nbufs g \<le> bidx g then None
        else if filled \<noteq> bidx g then Some (Shutdown, g)
        else
          let g = g\<lparr>bidx := bidx g + 1\<rparr>; b = bidx g + (SDR_NXFER - 1) in
          Some (if nbufs g \<le> bidx g then Shutdown else if nbufs g \<le> b then NoData else Buf b, g))"

text \<open>The library goes on until it is told to stop, or has no more buffers.\<close>

fun run_stream :: "(u64 \<times> nat) list \<Rightarrow> strm \<Rightarrow> strm option" where
  "run_stream [] g = Some g"
| "run_stream ((ts, k) # evs) g = (case sdr_rx_async_cb ts k g of None \<Rightarrow> None
   | Some (Shutdown, g) \<Rightarrow> Some g
   | Some (_, g) \<Rightarrow> run_stream evs g)"

section \<open>Copying the messages\<close>

text \<open>The messages of one buffer, from \<open>off\<close> on. The state is the expected time stamp, the bytes to go,
  the bytes copied and the samples counted. Other time stamps end it with \<open>False\<close>.\<close>

type_synonym copied = "u64 \<times> nat \<times> u8 list \<times> nat"

function copy_buf :: "radio \<Rightarrow> nat \<Rightarrow> u8 list \<Rightarrow> nat \<Rightarrow> copied \<Rightarrow> bool \<times> copied" where
  "copy_buf R m b off (ts, nb, sd, got) =
     (if SDR_SPBUF * SDR_BPS \<le> off \<or> msg_size R = 0 then (True, ts, nb, sd, got)
      else if time_stamp R (drop off b) \<noteq> ts then (False, ts, nb, sd, got)
      else
        let len = min nb (msg_size R - hdr_size R) in
        if len = 0 then (True, ts, nb, sd, got)
        else copy_buf R m b (off + msg_size R)
          (ts + of_nat m, nb - len, sd @ slice (off + hdr_size R) len b, got + len div SDR_BPS))"
  by pat_completeness auto
termination
  by (relation "measure (\<lambda>(R, m, b, off, s). SDR_SPBUF * SDR_BPS - off)") auto

declare copy_buf.simps [simp del]

fun copy_bufs :: "radio \<Rightarrow> nat \<Rightarrow> u8 list list \<Rightarrow> copied \<Rightarrow> bool \<times> copied" where
  "copy_bufs R m [] s = (True, s)"
| "copy_bufs R m (b # bs) (ts, nb, sd, got) = (if nb = 0 then (True, ts, nb, sd, got)
     else case copy_buf R m b 0 (ts, nb, sd, got) of (ok, s) \<Rightarrow> if ok then copy_bufs R m bs s else (False, s))"

text \<open>One attempt: which calls succeed, the callbacks, the buffers afterwards.\<close>

record attempt =
  freq_ok :: bool
  gain_ok :: bool
  srate_ok :: bool
  bwidth_ok :: bool
  init_ok :: bool
  timeout_ok :: bool
  enable_ok :: bool
  stream_ok :: bool
  callbacks :: "(u64 \<times> nat) list"
  buffers :: "u8 list list"

text \<open>The error, the bytes copied, and the number of samples got. \<open>None\<close> is a crash in the callback.
  The number of bytes wanted is an \<open>unsigned\<close>.\<close>

definition sdr_rx_async :: "radio \<Rightarrow> nat \<Rightarrow> attempt \<Rightarrow> (string option \<times> u8 list \<times> nat) option" where
  "sdr_rx_async R n a =
     (let g = strm_init R n in
      if \<not> init_ok a then Some (Some ''async stream init failed'', [], 0)
      else if \<not> timeout_ok a then Some (Some ''error setting stream timeout'', [], 0)
      else if \<not> enable_ok a then Some (Some ''cannot enable SDR rx'', [], 0)
      else case run_stream (callbacks a) g of None \<Rightarrow> None
      | Some g \<Rightarrow> Some (
        if \<not> stream_ok a then (Some ''error streaming rx samples'', [], 0)
        else if bidx g \<noteq> nbufs g then (Some ''sampling truncated'', [], 0)
        else
          let bs = drop SDR_FUDGE (take (nbufs g) (buffers a));
              (ok, ts, nb, sd, got) = copy_bufs R (spmsg g) bs
                (time_stamp R (hd bs), unat (of_nat (n * SDR_BPS) :: u32), [], 0)
          in (if ok then None else Some ''sample discontinuity'', sd, got)))"

section \<open>Statistics\<close>

record 'f sstats =
  st_min :: "int \<times> int"
  st_max :: "int \<times> int"
  st_avg :: "'f \<times> 'f"

text \<open>The samples: pairs of signed 16-bit values, least significant byte first.\<close>

definition short :: "u8 list \<Rightarrow> nat \<Rightarrow> int" where
  "short b k = sint (get16 (2 * k) b)"

definition samples :: "nat \<Rightarrow> u8 list \<Rightarrow> (int \<times> int) list" where
  "samples n b = map (\<lambda>k. (short b (2 * k), short b (2 * k + 1))) [0..<n]"

fun stats_loop :: "(int \<times> int) list \<Rightarrow> (int \<times> int) \<times> (int \<times> int) \<times> (int \<times> int) \<Rightarrow> (int \<times> int) \<times> (int \<times> int) \<times> (int \<times> int)" where
  "stats_loop [] s = s"
| "stats_loop ((i, q) # xs) ((imin, qmin), (imax, qmax), (iavg, qavg)) =
     stats_loop xs ((if i < imin then i else imin, if q < qmin then q else qmin),
       (if imax < i then i else imax, if qmax < q then q else qmax), (iavg + i, qavg + q))"

text \<open>\<open>quot\<close> divides as floating point numbers.\<close>

definition stats_compute :: "(int \<Rightarrow> nat \<Rightarrow> 'f) \<Rightarrow> nat \<Rightarrow> u8 list \<Rightarrow> 'f sstats" where
  "stats_compute quot n b =
     (let (mn, mx, (iavg, qavg)) = stats_loop (samples n b) ((32767, 32767), (-32768, -32768), (0, 0))
      in \<lparr>st_min = mn, st_max = mx, st_avg = (quot iavg n, quot qavg n)\<rparr>)"

section \<open>An attempt\<close>

text \<open>\<open>n\<close> samples; the result is the error or the statistics, and the bytes put into the sample buffer.\<close>

definition sdr_rx :: "(int \<Rightarrow> nat \<Rightarrow> 'f) \<Rightarrow> radio \<Rightarrow> nat \<Rightarrow> attempt \<Rightarrow> ((string + 'f sstats) \<times> u8 list) option" where
  "sdr_rx quot R n a =
     (if \<not> freq_ok a then Some (Inl ''cannot set SDR frequency'', [])
      else if \<not> gain_ok a then Some (Inl ''cannot set RX gain'', [])
      else if \<not> srate_ok a then Some (Inl ''cannot set SDR sample rate'', [])
      else if \<not> bwidth_ok a then Some (Inl ''cannot set SDR bandwidth'', [])
      else case sdr_rx_async R n a of None \<Rightarrow> None
      | Some (Some e, sd, got) \<Rightarrow> Some (Inl e, sd)
      | Some (None, sd, got) \<Rightarrow> Some (
          if got \<noteq> n then (Inl ''not enough samples'', sd) else (Inr (stats_compute quot n sd), sd)))"

text \<open>\<open>SDR_RETRY\<close>: a truncated attempt is made again, as often as it takes. The attempts are numbered;
  a truncated one has copied nothing.\<close>

partial_function (option) sdr_rx_retry :: "(int \<Rightarrow> nat \<Rightarrow> 'f) \<Rightarrow> radio \<Rightarrow> nat \<Rightarrow> (nat \<Rightarrow> attempt) \<Rightarrow> nat
    \<Rightarrow> ((string + 'f sstats) \<times> u8 list \<times> nat) option" where
  "sdr_rx_retry quot R n att k = (case sdr_rx quot R n (att k) of
     None \<Rightarrow> None
   | Some (r, sd) \<Rightarrow> if r = Inl ''sampling truncated'' then sdr_rx_retry quot R n att (Suc k) else Some (r, sd, Suc k))"

declare sdr_rx_retry.simps [code]

end
