(* ===== verification/Brf_Cal.thy ===== *)
theory Brf_Cal
  imports Brf_Sample Sw_Profile
begin

text \<open>
  Calibration of the spectrum analyzer (\<open>mfgtest/sdrsvr/bladerf.c\<close>): the table that comes with the
  radio, the file with the residual offsets, reading it in sorted order, and looking up the entry
  nearest to a frequency. Floats are a type \<open>'f\<close>.
\<close>

text \<open>What the server needs of floating point numbers beyond \<open>fops\<close>: comparison for equality, cosine,
  decimal logarithm, and the constants of \<open>float.h\<close>.\<close>

record 'f dops = "'f fops" +
  f_eq :: "'f \<Rightarrow> 'f \<Rightarrow> bool"
  f_cos :: "'f \<Rightarrow> 'f"
  f_log10 :: "'f \<Rightarrow> 'f"
  f_max :: 'f
  f_tiny :: 'f
  f_pi :: 'f
  f_dec :: "string \<Rightarrow> 'f"

record 'f cal_entry =
  c_freq :: int
  c_lnbr :: nat
  c_gain :: 'f
  c_dco :: "'f \<times> 'f"

section \<open>Looking up\<close>

text \<open>The table of the radio: frequencies. The result is the error, or the index of the entry.\<close>

fun dc_scan :: "int \<Rightarrow> nat \<Rightarrow> int list \<Rightarrow> nat option \<times> int \<Rightarrow> nat option \<times> int" where
  "dc_scan f n [] s = s"
| "dc_scan f n (e # es) (m, mf) = dc_scan f (Suc n) es (let df = \<bar>f - e\<bar> in if df < mf then (Some n, df) else (m, mf))"

definition dc_cal_lookup :: "int list option \<Rightarrow> int \<Rightarrow> string + nat" where
  "dc_cal_lookup tab f = (case tab of None \<Rightarrow> Inl ''no rx dc calibrations''
     | Some es \<Rightarrow> (case dc_scan f 0 es (None, 2 ^ 40) of
         (None, mf) \<Rightarrow> Inl ''no rx dc calibration for frequency''
       | (Some n, mf) \<Rightarrow> if 10000000 < mf then Inl ''rx dc calibration frequency offset too large'' else Inr n))"

text \<open>The list is sorted by frequency, so the search ends when the distance grows.\<close>

fun cal_scan :: "'f dops \<Rightarrow> int \<Rightarrow> 'f \<Rightarrow> 'f cal_entry list \<Rightarrow> 'f cal_entry option \<times> int \<Rightarrow> 'f cal_entry option" where
  "cal_scan F f g [] (e, mf) = e"
| "cal_scan F f g (c # cs) (e, mf) =
     (if \<not> f_eq F (c_gain c) g then cal_scan F f g cs (e, mf)
      else
        let df = \<bar>f - c_freq c\<bar>; (e, mf) = (if df < mf then (Some c, df) else (e, mf)) in
        if mf < df then e else cal_scan F f g cs (e, mf))"

definition cal_lookup :: "'f dops \<Rightarrow> 'f cal_entry list \<Rightarrow> int \<Rightarrow> 'f \<Rightarrow> 'f cal_entry option" where
  "cal_lookup F cs f g = cal_scan F f g cs (None, 2 ^ 40)"

section \<open>Reading the file\<close>

text \<open>One line without its newline: nothing to read, an error, or an entry.\<close>

definition cal_line :: "'f dops \<Rightarrow> nat \<Rightarrow> string \<Rightarrow> string + 'f cal_entry option" where
  "cal_line F n l =
     (let s = skip_spc l in
      if s = [] \<or> hd s = CHR ''#'' then Inr None
      else let (freq, k) = strtol 0 s in
      if freq \<le> 0 \<or> k = 0 then Inl ''invalid frequency''
      else let s = skip_spc (drop k s); (gain, k) = f_strtof F s in
      if k = 0 then Inl ''invalid gain''
      else let s = skip_spc (drop k s); (idc, k) = f_strtof F s in
      if k = 0 then Inl ''invalid I dc offset''
      else let s = skip_spc (drop k s); (qdc, k) = f_strtof F s in
      if k = 0 then Inl ''invalid Q dc offset''
      else Inr (Some \<lparr>c_freq = freq, c_lnbr = n, c_gain = gain, c_dco = (idc, qdc)\<rparr>))"

fun cal_insert :: "'f dops \<Rightarrow> 'f cal_entry \<Rightarrow> 'f cal_entry list \<Rightarrow> 'f cal_entry list option" where
  "cal_insert F c [] = Some [c]"
| "cal_insert F c (e # es) =
     (if c_freq c < c_freq e then Some (c # e # es)
      else if c_freq e = c_freq c \<and> f_eq F (c_gain e) (c_gain c) then None
      else if c_freq e = c_freq c \<and> f_less F (c_gain c) (c_gain e) then Some (c # e # es)
      else map_option ((#) e) (cal_insert F c es))"

fun cal_lines :: "'f dops \<Rightarrow> nat \<Rightarrow> string list \<Rightarrow> 'f cal_entry list \<Rightarrow> string + 'f cal_entry list" where
  "cal_lines F n [] cs = Inr cs"
| "cal_lines F n (l # ls) cs = (case cal_line F (Suc n) l of
     Inl e \<Rightarrow> Inl e
   | Inr None \<Rightarrow> cal_lines F (Suc n) ls cs
   | Inr (Some c) \<Rightarrow> (case cal_insert F c cs of None \<Rightarrow> Inl ''duplicate entry'' | Some cs \<Rightarrow> cal_lines F (Suc n) ls cs))"

text \<open>Every frequency of the radio's table must come next in the list.\<close>

fun cal_match :: "int list \<Rightarrow> 'f cal_entry list \<Rightarrow> bool" where
  "cal_match [] cs = True"
| "cal_match (d # ds) cs = (cs \<noteq> [] \<and> d = c_freq (hd cs) \<and> cal_match ds (dropWhile (\<lambda>c. d = c_freq c) cs))"

text \<open>\<open>cal\<close> is the list so far, empty at the start; the file is its lines.\<close>

definition cal_get :: "'f dops \<Rightarrow> int list option \<Rightarrow> string list option \<Rightarrow> 'f cal_entry list \<Rightarrow> string + 'f cal_entry list" where
  "cal_get F tab file cal = (case file of None \<Rightarrow> Inl ''cannot open file''
     | Some ls \<Rightarrow> (case cal_lines F 0 ls cal of Inl e \<Rightarrow> Inl e
       | Inr cs \<Rightarrow> (case tab of None \<Rightarrow> Inl ''no rx dc calibrations''
         | Some ds \<Rightarrow> if cal_match ds cs then Inr cs else Inl ''calibration mismatch, rerun calibration'')))"

section \<open>Writing it\<close>

text \<open>One line for each entry of the radio's table, from the averages of its samples. The gain that is
  printed is a variable that has no value: \<open>gain\<close> is whatever it holds. \<open>fmt\<close> prints with two or
  three digits behind the point.\<close>

definition cal_text :: "(nat \<Rightarrow> 'f \<Rightarrow> string) \<Rightarrow> int \<Rightarrow> 'f \<Rightarrow> 'f \<times> 'f \<Rightarrow> string" where
  "cal_text fmt freq gain dco = show_int freq @ '' '' @ fmt 2 gain @ '' '' @ fmt 3 (fst dco) @ '' '' @ fmt 3 (snd dco)"

definition cal_samples :: nat where "cal_samples = 14000000"

text \<open>The state is the number of attempts made and the bytes in the sample buffer.\<close>

fun cal_entries :: "(int \<Rightarrow> nat \<Rightarrow> 'f) \<Rightarrow> (nat \<Rightarrow> 'f \<Rightarrow> string) \<Rightarrow> radio \<Rightarrow> 'f \<Rightarrow> (nat \<Rightarrow> attempt) \<Rightarrow> int list
    \<Rightarrow> nat \<times> u8 list \<Rightarrow> (string option \<times> string list \<times> nat \<times> u8 list) option" where
  "cal_entries quot fmt R gain att [] s = Some (None, [], s)"
| "cal_entries quot fmt R gain att (f # fs) (k, old) = (case sdr_rx_retry quot R cal_samples att k of
     None \<Rightarrow> None
   | Some (r, sd, k) \<Rightarrow>
       let s = (k, sd @ drop (length sd) old) in
       (case r of Inl e \<Rightarrow> Some (Some e, [], s)
        | Inr st \<Rightarrow> map_option (apsnd (apfst ((#) (cal_text fmt f gain (st_avg st)))))
            (cal_entries quot fmt R gain att fs s)))"

text \<open>The error, the lines of the file, the attempts, and the sample buffer, which the server goes on to use.\<close>

definition cal_sdr :: "(int \<Rightarrow> nat \<Rightarrow> 'f) \<Rightarrow> (nat \<Rightarrow> 'f \<Rightarrow> string) \<Rightarrow> radio \<Rightarrow> 'f \<Rightarrow> (nat \<Rightarrow> attempt) \<Rightarrow> int list option \<Rightarrow> bool
    \<Rightarrow> (string option \<times> string list \<times> nat \<times> (nat \<times> u8 list)) option" where
  "cal_sdr quot fmt R gain att tab writable = (case tab of None \<Rightarrow> Some (Some ''no rx dc calibrations'', [], 0, (0, []))
     | Some fs \<Rightarrow> if \<not> writable then Some (Some ''cannot open file'', [], 0, (0, []))
         else map_option (\<lambda>(e, ls, k, b). (e, ls, k, (cal_samples * SDR_BPS, b))) (cal_entries quot fmt R gain att fs (0, [])))"

end
