(* ===== verification/Brf_Main.thy ===== *)
theory Brf_Main
  imports Brf_Cal
begin

text \<open>
  The server of the spectrum analyzer (\<open>mfgtest/sdrsvr/bladerf.c\<close>): the handlers of the requests, the
  processing of the input from a client, and the main loop as a step over what \<open>select\<close> reports.
  The radio is present (\<open>main\<close> ends without one). Memory does not run out.
\<close>

definition SRV_RXB :: nat where "SRV_RXB = 1024"
definition SRV_TXB :: nat where "SRV_TXB = 1280"
definition SDR_IQ_MIN :: int where "SDR_IQ_MIN = -2048"
definition SDR_IQ_MAX :: int where "SDR_IQ_MAX = 2047"

section \<open>State\<close>

text \<open>\<open>g_sbuf\<close> is the size of the sample buffer (0: none) and the bytes at its start that samples were
  copied to; the bytes behind them have no value. The data of \<open>getps\<close> stay in the table of requests.\<close>

record 'f srv =
  g_srate :: u32
  g_bwidth :: u32
  g_freq :: int
  g_rxgain :: int
  g_ns :: u32
  g_sbuf :: "nat \<times> u8 list"
  g_spwr :: "('f \<times> 'f \<times> 'f) list"
  g_psdata :: string
  g_cal :: "'f cal_entry list"
  g_dc :: "int list option"
  g_tries :: nat

text \<open>What does not change: the radio, its attempts, the transform, and how a float lies in memory.\<close>

record 'f srv_env =
  e_ops :: "'f dops"
  e_quot :: "int \<Rightarrow> nat \<Rightarrow> 'f"
  e_radio :: radio
  e_att :: "nat \<Rightarrow> attempt"
  e_dft :: "('f \<times> 'f) list \<Rightarrow> ('f \<times> 'f) list"
  e_bytes :: "'f \<Rightarrow> string"

text \<open>\<open>Ok\<close> and \<open>Data\<close> are the pointers 0 and 1.\<close>

datatype reply = Ok | Data | Err string

section \<open>Settings\<close>

definition lower :: "char \<Rightarrow> char" where
  "lower c = (let n = (of_char c :: nat) in if 65 \<le> n \<and> n \<le> 90 then char_of (n + 32) else c)"

definition strcasecmp_eq :: "string \<Rightarrow> string \<Rightarrow> bool" where
  "strcasecmp_eq a b \<longleftrightarrow> map lower a = map lower b"

definition f_scale :: "string \<Rightarrow> int" where
  "f_scale s = (if s = [] then 1
     else if strcasecmp_eq s ''Hz'' then 1
     else if strcasecmp_eq s ''k'' then 1000
     else if strcasecmp_eq s ''kHz'' then 1000
     else if strcasecmp_eq s ''M'' then 1000000
     else if strcasecmp_eq s ''MHz'' then 1000000
     else 0)"

definition hdl_sr :: "string \<Rightarrow> 'f srv \<Rightarrow> reply \<times> 'f srv" where
  "hdl_sr s g = (let (v, k) = strtoul 0 s; scale = f_scale (drop k s) in
     if k = 0 then (Err ''missing sample rate'', g)
     else if scale = 0 then (Err ''invalid sample rate'', g)
     else (Ok, g\<lparr>g_srate := ucast v * of_int scale\<rparr>))"

definition hdl_bw :: "string \<Rightarrow> 'f srv \<Rightarrow> reply \<times> 'f srv" where
  "hdl_bw s g = (let (v, k) = strtoul 0 s; scale = f_scale (drop k s) in
     if k = 0 then (Err ''missing bandwidth'', g)
     else if scale = 0 then (Err ''invalid bandwidth'', g)
     else (Ok, g\<lparr>g_bwidth := ucast v * of_int scale\<rparr>))"

text \<open>A 64-bit product that is too large wraps.\<close>

definition hdl_f :: "string \<Rightarrow> 'f srv \<Rightarrow> reply \<times> 'f srv" where
  "hdl_f s g = (let (v, k) = strtol 0 s; scale = f_scale (drop k s) in
     if k = 0 then (Err ''missing frequency'', g)
     else if scale = 0 then (Err ''invalid frequency'', g)
     else (Ok, g\<lparr>g_freq := sint (of_int (v * scale) :: u64)\<rparr>))"

definition hdl_rxgain :: "string \<Rightarrow> 'f srv \<Rightarrow> reply \<times> 'f srv" where
  "hdl_rxgain s g = (let (v, k) = strtol 0 s; v = int32 v in
     if k = 0 then (Err ''missing rx gain'', g)
     else if drop k s \<noteq> [] \<or> v < 0 \<or> 66 < v then (Err ''invalid rx gain'', g)
     else (Ok, g\<lparr>g_rxgain := v\<rparr>))"

definition hdl_ns :: "string \<Rightarrow> 'f srv \<Rightarrow> reply \<times> 'f srv" where
  "hdl_ns s g = (let (v, k) = strtoul 0 s in
     if k = 0 \<or> drop k s \<noteq> [] then (Err ''invalid # of samples'', g)
     else (Ok, g\<lparr>g_ns := ucast v\<rparr>))"

section \<open>Sampling\<close>

text \<open>The buffer only grows; a new one has no values. Before the first samples are asked for there is none.\<close>

definition sdr_sbuf :: "u32 \<Rightarrow> nat \<times> u8 list \<Rightarrow> nat \<times> u8 list" where
  "sdr_sbuf ns b = (let szsb = unat (ns * 4) in if fst b < szsb then (szsb, []) else b)"

definition clipped :: "'f sstats \<Rightarrow> bool" where
  "clipped st \<longleftrightarrow> fst (st_min st) \<le> SDR_IQ_MIN \<or> snd (st_min st) \<le> SDR_IQ_MIN
     \<or> SDR_IQ_MAX \<le> fst (st_max st) \<or> SDR_IQ_MAX \<le> snd (st_max st)"

definition hdl_sample :: "'f srv_env \<Rightarrow> string \<Rightarrow> 'f srv \<Rightarrow> (reply \<times> 'f srv) option" where
  "hdl_sample E s g =
     (let (sz, old) = sdr_sbuf (g_ns g) (g_sbuf g) in
      if sz = 0 then Some (Err ''cannot allocate sample buffer'', g)
      else case sdr_rx_retry (e_quot E) (e_radio E) (unat (g_ns g)) (e_att E) (g_tries g) of
        None \<Rightarrow> None
      | Some (r, sd, k) \<Rightarrow>
          let g = g\<lparr>g_sbuf := (sz, sd @ drop (length sd) old), g_tries := k\<rparr> in
          Some (case r of Inl e \<Rightarrow> Err e | Inr st \<Rightarrow> if clipped st then Err ''clipped samples'' else Ok, g))"

section \<open>The spectrum\<close>

definition wf_hann :: "'f dops \<Rightarrow> 'f \<Rightarrow> nat \<Rightarrow> 'f" where
  "wf_hann F sc n = f_mul F (f_dec F ''0.5'') (f_sub F (f_dec F ''1.0'') (f_cos F (f_mul F (f_of_int F (int n)) sc)))"

definition wf_hamming :: "'f dops \<Rightarrow> 'f \<Rightarrow> nat \<Rightarrow> 'f" where
  "wf_hamming F sc n = f_sub F (f_dec F ''0.53836'') (f_mul F (f_dec F ''0.46164'') (f_cos F (f_mul F (f_of_int F (int n)) sc)))"

definition wf_blackman :: "'f dops \<Rightarrow> 'f \<Rightarrow> nat \<Rightarrow> 'f" where
  "wf_blackman F sc n = (let x = f_of_int F (int n) in
     f_add F (f_sub F (f_dec F ''0.42659'') (f_mul F (f_dec F ''0.49656'') (f_cos F (f_mul F x sc))))
       (f_mul F (f_dec F ''0.076849'') (f_cos F (f_mul F (f_mul F x (f_dec F ''2.0'')) sc))))"

definition window :: "'f dops \<Rightarrow> string \<Rightarrow> ('f \<Rightarrow> nat \<Rightarrow> 'f) option" where
  "window F s = (if s = ''rect'' then Some (\<lambda>sc n. f_dec F ''1.0'')
     else if s = ''hann'' then Some (wf_hann F)
     else if s = ''hamming'' then Some (wf_hamming F)
     else if s = ''blackman'' then Some (wf_blackman F)
     else None)"

text \<open>Minimum, maximum and sum of the power of a bin over the windows, then in decibels.\<close>

definition mma_init :: "'f dops \<Rightarrow> 'f \<times> 'f \<times> 'f" where
  "mma_init F = (f_max F, f_tiny F, f_dec F ''0.0'')"

definition mma_add :: "'f dops \<Rightarrow> 'f \<times> 'f \<Rightarrow> 'f \<times> 'f \<times> 'f \<Rightarrow> 'f \<times> 'f \<times> 'f" where
  "mma_add F c s = (case (c, s) of ((r, i), (mn, mx, sm)) \<Rightarrow>
     let m = f_add F (f_mul F r r) (f_mul F i i) in
     (if f_less F m mn then m else mn, if f_less F mx m then m else mx, f_add F sm m))"

definition mma_db :: "'f dops \<Rightarrow> nat \<Rightarrow> nat \<Rightarrow> 'f \<times> 'f \<times> 'f \<Rightarrow> 'f \<times> 'f \<times> 'f" where
  "mma_db F dftsz bins s = (case s of (mn, mx, sm) \<Rightarrow>
     let m = f_div F (f_dec F ''0.5'') (f_of_int F (int dftsz));
         sc = f_div F (f_dec F ''0.5'') (f_of_int F (int (dftsz * bins)));
         db = (\<lambda>x. f_mul F (f_dec F ''10.0'') (f_log10 F x)) in
     (db (f_mul F mn m), db (f_mul F mx m), db (f_mul F sm sc)))"

definition dft_in :: "'f dops \<Rightarrow> 'f list \<Rightarrow> 'f \<times> 'f \<Rightarrow> (int \<times> int) list \<Rightarrow> ('f \<times> 'f) list" where
  "dft_in F wnd dco xs = map2 (\<lambda>w (i, q).
     (f_mul F (f_add F (f_of_int F i) (fst dco)) w, f_mul F (f_add F (f_of_int F q) (snd dco)) w)) wnd xs"

fun windows :: "'f srv_env \<Rightarrow> nat \<Rightarrow> 'f list \<Rightarrow> 'f \<times> 'f \<Rightarrow> nat \<Rightarrow> (int \<times> int) list \<Rightarrow> ('f \<times> 'f \<times> 'f) list \<Rightarrow> ('f \<times> 'f \<times> 'f) list" where
  "windows E dftsz wnd dco 0 xs acc = acc"
| "windows E dftsz wnd dco (Suc n) xs acc = windows E dftsz wnd dco n (drop dftsz xs)
     (map2 (mma_add (e_ops E)) (e_dft E (dft_in (e_ops E) wnd dco (take dftsz xs))) acc)"

definition spectrum :: "'f srv_env \<Rightarrow> ('f \<Rightarrow> nat \<Rightarrow> 'f) \<Rightarrow> nat \<Rightarrow> nat \<Rightarrow> 'f \<times> 'f \<Rightarrow> (int \<times> int) list \<Rightarrow> ('f \<times> 'f \<times> 'f) list" where
  "spectrum E winf dftsz bins dco xs =
     (let F = e_ops E;
          sc = f_div F (f_mul F (f_dec F ''2.0'') (f_pi F)) (f_of_int F (int (dftsz - 1)));
          wnd = map (\<lambda>n. f_mul F (f_div F (f_dec F ''1.0'') (f_of_int F SDR_IQ_MAX)) (winf sc n)) [0..<dftsz]
      in map (mma_db F dftsz bins) (windows E dftsz wnd dco bins xs (replicate dftsz (mma_init F))))"

text \<open>\<open>None\<close>: samples are read that are not in the buffer.\<close>

definition hdl_comps :: "'f srv_env \<Rightarrow> string \<Rightarrow> 'f srv \<Rightarrow> (reply \<times> 'f srv) option" where
  "hdl_comps E s g =
     (if g_ns g = 0 then Some (Err ''no samples'', g)
      else
      let F = e_ops E; (v, k) = strtol 0 s; dftsz = int32 v; ep = drop k s; xp = skip_spc ep in
      if k = 0 \<or> xp = ep \<or> dftsz < 10 then Some (Err ''invalid dft size'', g)
      else case window F xp of None \<Rightarrow> Some (Err ''unknown window function'', g)
      | Some winf \<Rightarrow>
          let bins = unat (g_ns g) div nat dftsz in
          if bins = 0 then Some (Err ''not enough samples for dft size'', g)
          else case dc_cal_lookup (g_dc g) (g_freq g) of Inl e \<Rightarrow> Some (Err e, g)
          | Inr _ \<Rightarrow>
            (case cal_lookup F (g_cal g) (g_freq g) (f_of_int F (g_rxgain g)) of
               None \<Rightarrow> Some (Err ''no/unusable fine calibration data'', g)
             | Some c \<Rightarrow>
                 let dco = (f_sub F (f_dec F ''0.5'') (fst (c_dco c)), f_sub F (f_dec F ''0.5'') (snd (c_dco c)));
                     n = nat dftsz * bins
                 in if length (snd (g_sbuf g)) < n * 4 then None
                    else Some (Ok, g\<lparr>g_spwr := spectrum E winf (nat dftsz) bins dco (samples n (snd (g_sbuf g)))\<rparr>)))"

text \<open>The upper half of the bins first.\<close>

definition unfold :: "'a list \<Rightarrow> 'a list" where
  "unfold xs = (let k = (length xs + 1) div 2 in drop k xs @ take k xs)"

definition hdl_getps :: "'f srv_env \<Rightarrow> string \<Rightarrow> 'f srv \<Rightarrow> reply \<times> 'f srv" where
  "hdl_getps E s g =
     (let p = (if s = ''min'' then Some fst else if s = ''max'' then Some (\<lambda>m. fst (snd m))
                else if s = ''avg'' then Some (\<lambda>m. snd (snd m)) else None) in
      case p of None \<Rightarrow> (Err ''unknown power index'', g)
      | Some p \<Rightarrow> if g_spwr g = [] then (Err ''no spectrum data'', g)
        else (Data, g\<lparr>g_psdata := concat (map (e_bytes E \<circ> p) (unfold (g_spwr g)))\<rparr>))"

section \<open>Requests\<close>

definition req_names :: "string list" where
  "req_names = [''sr='', ''bw='', ''f='', ''ns='', ''rxgain='', ''sample'', ''comps '', ''getps '']"

definition req_hdl :: "'f srv_env \<Rightarrow> nat \<Rightarrow> string \<Rightarrow> 'f srv \<Rightarrow> (reply \<times> 'f srv) option" where
  "req_hdl E n s g = (if n = 0 then Some (hdl_sr s g) else if n = 1 then Some (hdl_bw s g) else if n = 2 then Some (hdl_f s g)
     else if n = 3 then Some (hdl_ns s g) else if n = 4 then Some (hdl_rxgain s g) else if n = 5 then hdl_sample E s g
     else if n = 6 then hdl_comps E s g else Some (hdl_getps E s g))"

text \<open>The first request whose name the line starts with.\<close>

fun req_scan :: "nat \<Rightarrow> string list \<Rightarrow> string \<Rightarrow> (nat \<times> string) option" where
  "req_scan n [] l = None"
| "req_scan n (s # ss) l = (if strncmp_eq s l (length s) then Some (n, drop (length s) l) else req_scan (Suc n) ss l)"

definition req_lookup :: "string \<Rightarrow> (nat \<times> string) option" where
  "req_lookup l = req_scan 0 req_names l"

definition req_data :: "nat \<Rightarrow> 'f srv \<Rightarrow> string" where
  "req_data n g = (if n = 7 then g_psdata g else [])"

definition reply_text :: "string \<Rightarrow> reply \<Rightarrow> nat \<Rightarrow> string" where
  "reply_text l r ndata = (case r of Ok \<Rightarrow> ''ok'' | Data \<Rightarrow> show_nat (unat (of_nat ndata :: u32)) | Err e \<Rightarrow> l @ '': '' @ e) @ [CHR 0x0A]"

text \<open>
  One line. The variable \<open>req\<close> keeps the request of the line before when the name is unknown;
  before the first line it has no value. The state ends with what is sent, one string for each call
  of \<open>send\<close>. \<open>None\<close> also is a reply that does not fit its buffer.
\<close>

definition do_line :: "'f srv_env \<Rightarrow> string \<Rightarrow> nat option \<times> 'f srv \<times> string list \<Rightarrow> (nat option \<times> 'f srv \<times> string list) option" where
  "do_line E line st = (case st of (req, g, sent) \<Rightarrow>
     let l = takeWhile (\<lambda>c. c \<noteq> CHR 0x00) line in
     case (case req_lookup l of None \<Rightarrow> Some (Err ''unknown request or no handler'', req, g)
           | Some (n, arg) \<Rightarrow> map_option (\<lambda>(r, g). (r, Some n, g)) (req_hdl E n arg g)) of
       None \<Rightarrow> None
     | Some (r, None, g) \<Rightarrow> None
     | Some (r, Some n, g) \<Rightarrow>
         let data = req_data n g; t = reply_text l r (length data) in
         if SRV_TXB \<le> length t then None
         else Some (Some n, g, sent @ [t] @ (if data = [] then [] else [data])))"

fun do_scan :: "'f srv_env \<Rightarrow> string \<Rightarrow> string \<Rightarrow> nat option \<times> 'f srv \<times> string list \<Rightarrow> (string \<times> nat option \<times> 'f srv \<times> string list) option" where
  "do_scan E line [] st = Some (line, st)"
| "do_scan E line (c # s) st = (if c \<noteq> CHR 0x0A then do_scan E (line @ [c]) s st
     else case do_line E line st of None \<Rightarrow> None | Some st \<Rightarrow> do_scan E [] s st)"

text \<open>The server with its input buffer, and whether a client is connected.\<close>

record 'f conn =
  g_srv :: "'f srv"
  g_rxb :: string
  g_open :: bool

text \<open>
  The rest behind the last line goes to the front of the buffer with \<open>memcpy\<close>: when it is longer than the
  lines before it the two regions overlap, and the copy is undefined.
\<close>

definition do_proc :: "'f srv_env \<Rightarrow> 'f conn \<Rightarrow> (string list \<times> 'f conn) option" where
  "do_proc E c = (case do_scan E [] (g_rxb c) (None, g_srv c, []) of None \<Rightarrow> None
     | Some (rest, req, g, sent) \<Rightarrow>
         let nb = length (g_rxb c) - length rest in
         if 0 < nb \<and> nb < length rest then None else Some (sent, c\<lparr>g_srv := g, g_rxb := rest\<rparr>))"

section \<open>The main loop\<close>

text \<open>What \<open>select\<close> reports: a connection and whether \<open>accept\<close> succeeds, or the client and what \<open>read\<close>
  finds. A read takes as much as fits; what is left over is the input of a later event.\<close>

datatype srv_event = Connect bool | Input string | Eof | ReadError

definition do_accept :: "bool \<Rightarrow> 'f conn \<Rightarrow> 'f conn" where
  "do_accept ok c = c\<lparr>g_open := ok\<rparr>"

text \<open>The number of bytes there are now, and the state.\<close>

definition do_read :: "srv_event \<Rightarrow> 'f conn \<Rightarrow> nat \<times> 'f conn" where
  "do_read ev c =
     (let left = SRV_RXB - length (g_rxb c) in
      if left = 0 then (0, c)
      else case ev of
        Input s \<Rightarrow> if s = [] then (0, c)
          else let c = c\<lparr>g_rxb := g_rxb c @ take left s\<rparr> in (length (g_rxb c), c)
      | ReadError \<Rightarrow> (0, c\<lparr>g_rxb := []\<rparr>)
      | _ \<Rightarrow> (0, c))"

definition srv_step :: "'f srv_env \<Rightarrow> srv_event \<Rightarrow> 'f conn \<Rightarrow> (string list \<times> 'f conn) option" where
  "srv_step E ev c = (case ev of
     Connect ok \<Rightarrow> Some ([], do_accept ok c)
   | _ \<Rightarrow> if \<not> g_open c then Some ([], c)
       else case do_read ev c of (nb, c) \<Rightarrow>
         if 0 < nb then do_proc E c else Some ([], c\<lparr>g_open := False\<rparr>))"

fun serve :: "'f srv_env \<Rightarrow> srv_event list \<Rightarrow> 'f conn \<Rightarrow> (string list \<times> 'f conn) option" where
  "serve E [] c = Some ([], c)"
| "serve E (ev # evs) c = (case srv_step E ev c of None \<Rightarrow> None
   | Some (sent, c) \<Rightarrow> map_option (apfst ((@) sent)) (serve E evs c))"

text \<open>The global variables are 0 when \<open>main\<close> enters the loop: the file descriptor of the client too, which
  counts as open.\<close>

definition srv_start :: "'f cal_entry list \<Rightarrow> int list option \<Rightarrow> 'f srv" where
  "srv_start cal dc = \<lparr>g_srate = 0, g_bwidth = 0, g_freq = 0, g_rxgain = 0, g_ns = 0, g_sbuf = (0, []), g_spwr = [],
     g_psdata = [], g_cal = cal, g_dc = dc, g_tries = 0\<rparr>"

definition conn_start :: "'f srv \<Rightarrow> 'f conn" where
  "conn_start g = \<lparr>g_srv = g, g_rxb = [], g_open = True\<rparr>"

text \<open>The start of \<open>main\<close>: calibration on request, then the calibration file. \<open>Inl\<close> is \<open>exit(1)\<close> with the message.\<close>

definition brf_init :: "'f srv_env \<Rightarrow> (nat \<Rightarrow> 'f \<Rightarrow> string) \<Rightarrow> 'f \<Rightarrow> bool \<Rightarrow> int list option \<Rightarrow> string list option \<Rightarrow> bool \<Rightarrow> (string + 'f srv) option" where
  "brf_init E fmt gain calibrate tab file writable =
     (let done = (if calibrate then cal_sdr (e_quot E) fmt (e_radio E) gain (e_att E) tab writable else Some (None, [], 0, (0, []))) in
      case done of None \<Rightarrow> None
      | Some (Some e, ls, k, sb) \<Rightarrow> Some (Inl (''calibration failed: '' @ e))
      | Some (None, ls, k, sb) \<Rightarrow> Some (case cal_get (e_ops E) tab (if calibrate then Some ls else file) [] of
          Inl e \<Rightarrow> Inl ''invalid calibration data'' | Inr cs \<Rightarrow> Inr ((srv_start cs tab)\<lparr>g_sbuf := sb, g_tries := k\<rparr>)))"

end
