(* ===== verification/Brf_Sample_Props.thy ===== *)
theory Brf_Sample_Props
  imports Brf_Sample
begin

text \<open>
  Properties of sampling: when a stream counts as complete, that the samples are the payloads of
  the messages in order, and the statistics.
\<close>

section \<open>The stream\<close>

lemma strm_init_simps [simp]:
  "bidx (strm_init R n) = 0" "nbufs (strm_init R n) = n div spbuf (strm_init R n) + 17" "last_ts (strm_init R n) = 0"
  "spbuf (strm_init R n) = (1024 * (msg_size R - hdr_size R)) div msg_size R"
  "spmsg (strm_init R n) = (msg_size R - hdr_size R) div 4"
  by (simp_all add: strm_init_def Let_def SDR_SPBUF_def SDR_FUDGE_def SDR_BPS_def)

lemma cb_Buf:
  "sdr_rx_async_cb ts k g = Some (Buf j, g') \<Longrightarrow> j = bidx g + 16 \<and> j < nbufs g \<and> bidx g' = bidx g + 1"
  by (auto simp: sdr_rx_async_cb_def Let_def SDR_NXFER_def split: if_splits)

text \<open>The \<open>k\<close>th callback from \<open>g\<close> on brings the next buffer, and from buffer 16 on the next time stamp.\<close>

definition in_step :: "strm \<Rightarrow> (u64 \<times> nat) list \<Rightarrow> nat \<Rightarrow> bool" where
  "in_step g evs k \<longleftrightarrow> snd (evs ! k) = bidx g + k \<and>
     (16 \<le> bidx g + k \<longrightarrow> fst (evs ! k) = (if k = 0 then last_ts g else fst (evs ! (k - 1))) + of_nat (spbuf g))"

lemma in_step_Suc: "in_step g ((ts, b) # evs) (Suc k) \<longleftrightarrow> in_step (g\<lparr>last_ts := ts, bidx := bidx g + 1\<rparr>) evs k"
  by (cases k) (auto simp: in_step_def)

lemma run_stream_complete:
  assumes "bidx g < nbufs g"
  shows "\<exists>g'. run_stream evs g = Some g' \<and> nbufs g' = nbufs g \<and>
    (bidx g' = nbufs g \<longleftrightarrow> nbufs g - bidx g \<le> length evs \<and> (\<forall>k < nbufs g - bidx g. in_step g evs k))"
  using assms
proof (induction evs arbitrary: g)
  case (Cons e evs)
  obtain ts b where e: "e = (ts, b)" by fastforce
  let ?g = "g\<lparr>last_ts := ts, bidx := bidx g + 1\<rparr>"
  obtain m where m: "nbufs g - bidx g = Suc m" using Cons.prems by (metis Suc_diff_Suc)
  have all: "(\<forall>k < nbufs g - bidx g. in_step g (e # evs) k) \<longleftrightarrow> in_step g (e # evs) 0 \<and> (\<forall>k < m. in_step ?g evs k)"
    unfolding m All_less_Suc2 e in_step_Suc ..
  have z: "in_step g (e # evs) 0 \<longleftrightarrow> b = bidx g \<and> (16 \<le> bidx g \<longrightarrow> ts = last_ts g + of_nat (spbuf g))"
    by (simp add: in_step_def e)
  show ?case
  proof (cases "in_step g (e # evs) 0")
    case False
    then have "\<exists>g'. run_stream (e # evs) g = Some g' \<and> nbufs g' = nbufs g \<and> bidx g' = bidx g"
      using Cons.prems unfolding z by (auto simp: e sdr_rx_async_cb_def Let_def)
    then show ?thesis using False Cons.prems unfolding all by auto
  next
    case True
    then have nb: "\<not> (16 \<le> bidx g \<and> ts \<noteq> last_ts g + of_nat (spbuf g))" and b: "b = bidx g" unfolding z by blast+
    have cb: "sdr_rx_async_cb ts b g = Some (if nbufs g \<le> bidx g + 1 then Shutdown
        else if nbufs g \<le> bidx g + 1 + 15 then NoData else Buf (bidx g + 1 + 15), ?g)"
      using Cons.prems unfolding sdr_rx_async_cb_def if_not_P [OF nb] by (simp add: Let_def SDR_NXFER_def b)
    show ?thesis
    proof (cases "bidx g + 1 < nbufs g")
      case l: True
      then have "run_stream (e # evs) g = run_stream evs ?g" by (simp add: e cb)
      moreover have "nbufs ?g - bidx ?g = m" using m by simp
      ultimately show ?thesis using Cons.IH [of ?g] l True unfolding all unfolding m by simp
    next
      case l: False
      then have "m = 0" and "run_stream (e # evs) g = Some ?g" using Cons.prems m by (simp_all add: e cb)
      then show ?thesis using True Cons.prems l unfolding all unfolding m by simp
    qed
  qed
qed simp

section \<open>Copying\<close>

text \<open>Messages fill a buffer, and their payloads are whole samples.\<close>

definition radio_ok :: "radio \<Rightarrow> bool" where
  "radio_ok R \<longleftrightarrow> hdr_size R < msg_size R \<and> msg_size R dvd 4096 \<and> 4 dvd msg_size R - hdr_size R"

definition per_buf :: "radio \<Rightarrow> nat" where "per_buf R = 4096 div msg_size R"
definition plen :: "radio \<Rightarrow> nat" where "plen R = msg_size R - hdr_size R"

definition payload :: "radio \<Rightarrow> u8 list \<Rightarrow> nat \<Rightarrow> u8 list" where
  "payload R b j = slice (j * msg_size R + hdr_size R) (plen R) b"

definition payloads :: "radio \<Rightarrow> u8 list \<Rightarrow> nat \<Rightarrow> u8 list" where
  "payloads R b j = concat (map (payload R b) [j..<per_buf R])"

lemma radio_okD:
  assumes "radio_ok R"
  shows "0 < plen R" "0 < msg_size R" "per_buf R * msg_size R = 4096" "4 dvd plen R" "plen R + hdr_size R = msg_size R" "0 < per_buf R"
proof -
  show "0 < plen R" "0 < msg_size R" "4 dvd plen R" "plen R + hdr_size R = msg_size R"
    using assms by (auto simp: radio_ok_def plen_def)
  show k: "per_buf R * msg_size R = 4096" using assms by (simp add: radio_ok_def per_buf_def)
  show "0 < per_buf R" using k by (cases "per_buf R") auto
qed

lemma length_payload:
  assumes "radio_ok R" and "4096 \<le> length b" and "j < per_buf R"
  shows "length (payload R b j) = plen R"
proof -
  have "(j + 1) * msg_size R \<le> per_buf R * msg_size R" using assms(3) by (intro mult_right_mono) auto
  then show ?thesis using assms(2) radio_okD(3,5) [OF assms(1)] by (simp add: payload_def length_slice)
qed

lemma payloads_Cons: "j < per_buf R \<Longrightarrow> payloads R b j = payload R b j @ payloads R b (Suc j)"
  by (simp add: payloads_def upt_conv_Cons)

lemma length_payloads:
  assumes "radio_ok R" and "4096 \<le> length b" and "j \<le> per_buf R"
  shows "length (payloads R b j) = plen R * (per_buf R - j)"
  using assms(3)
proof (induction "per_buf R - j" arbitrary: j)
  case (Suc k)
  then have "j < per_buf R" "Suc j \<le> per_buf R" "k = per_buf R - Suc j" by simp_all
  moreover have "per_buf R - j = Suc (per_buf R - Suc j)" using Suc.hyps(2) by simp
  ultimately show ?case using Suc.hyps(1) [of "Suc j"] length_payload [OF assms(1,2)]
    by (simp add: payloads_Cons)
qed (simp add: payloads_def)

text \<open>The time stamps of one buffer from message \<open>j\<close> on.\<close>

definition stamped :: "radio \<Rightarrow> nat \<Rightarrow> u8 list \<Rightarrow> nat \<Rightarrow> u64 \<Rightarrow> bool" where
  "stamped R m b j ts \<longleftrightarrow> (\<forall>i. j \<le> i \<and> i < per_buf R \<longrightarrow> time_stamp R (drop (i * msg_size R) b) = ts + of_nat m * of_nat (i - j))"

lemma stamped_Suc: "stamped R m b j ts \<Longrightarrow> stamped R m b (Suc j) (ts + of_nat m)"
proof -
  have "of_nat (i - j) = (of_nat (i - Suc j) + 1 :: u64)" if "Suc j \<le> i" for i
    using that by (metis Suc_diff_Suc Suc_le_eq of_nat_Suc add.commute)
  then show "stamped R m b j ts \<Longrightarrow> stamped R m b (Suc j) (ts + of_nat m)"
    by (auto simp: stamped_def algebra_simps)
qed

lemma min_add: "min (n :: nat) (a + b) = min n a + min (n - min n a) b"
  by linarith

lemma copy_buf_all:
  assumes "radio_ok R" and "4096 \<le> length b" and "j \<le> per_buf R" and "stamped R m b j ts" and "4 dvd nb"
  shows "\<exists>ts'. copy_buf R m b (j * msg_size R) (ts, nb, sd, got) =
      (True, ts', nb - min nb (plen R * (per_buf R - j)), sd @ take nb (payloads R b j),
        got + min nb (plen R * (per_buf R - j)) div 4)
    \<and> (plen R * (per_buf R - j) < nb \<longrightarrow> ts' = ts + of_nat m * of_nat (per_buf R - j))"
  using assms(3-5)
proof (induction "per_buf R - j" arbitrary: j ts nb sd got)
  case 0
  then have "j = per_buf R" by simp
  then show ?case using radio_okD(3) [OF assms(1)]
    by (subst copy_buf.simps) (simp add: SDR_SPBUF_def SDR_BPS_def payloads_def)
next
  case (Suc k)
  note ok = radio_okD [OF assms(1)]
  have j: "j < per_buf R" "k = per_buf R - Suc j" "per_buf R - j = Suc k" using Suc.hyps(2) by simp_all
  have "j * msg_size R < per_buf R * msg_size R" using j(1) ok(2) by simp
  then have off: "j * msg_size R < 4096" using ok(3) by simp
  have st: "time_stamp R (drop (j * msg_size R) b) = ts" using Suc.prems(2) j(1) by (auto simp: stamped_def)
  have pl: "msg_size R - hdr_size R = plen R" by (simp add: plen_def)
  have lp: "length (payload R b j) = plen R" by (rule length_payload [OF assms(1,2) j(1)])
  show ?case
  proof (cases "nb = 0")
    case True
    then show ?thesis using off st by (subst copy_buf.simps) (simp add: SDR_SPBUF_def SDR_BPS_def)
  next
    case False
    let ?len = "min nb (plen R)"
    have len: "?len \<noteq> 0" "4 dvd ?len" using False ok(1,4) Suc.prems(3) by (auto simp: min_def)
    have sl: "slice (j * msg_size R + hdr_size R) ?len b = take nb (payload R b j)"
      by (simp add: payload_def slice_def)
    have step: "copy_buf R m b (j * msg_size R) (ts, nb, sd, got)
      = copy_buf R m b (Suc j * msg_size R) (ts + of_nat m, nb - ?len, sd @ take nb (payload R b j), got + ?len div 4)"
    proof -
      have c1: "\<not> (SDR_SPBUF * 4 \<le> j * msg_size R \<or> msg_size R = 0)"
        using off ok(2) by (simp add: SDR_SPBUF_def)
      have c2: "\<not> time_stamp R (drop (j * msg_size R) b) \<noteq> ts" using st by simp
      have e: "Suc j * msg_size R = j * msg_size R + msg_size R" by simp
      show ?thesis
        by (subst copy_buf.simps) (simp only: if_not_P [OF c1] if_not_P [OF c2] Let_def pl if_not_P [OF len(1)] sl SDR_BPS_def e)
    qed
    have d: "4 dvd nb - ?len" using Suc.prems(3) len(2) by simp
    obtain ts' where ih: "copy_buf R m b (Suc j * msg_size R) (ts + of_nat m, nb - ?len, sd @ take nb (payload R b j), got + ?len div 4) =
      (True, ts', nb - ?len - min (nb - ?len) (plen R * k), (sd @ take nb (payload R b j)) @ take (nb - ?len) (payloads R b (Suc j)),
        got + ?len div 4 + min (nb - ?len) (plen R * k) div 4)"
      "plen R * k < nb - ?len \<longrightarrow> ts' = ts + of_nat m + of_nat m * of_nat k"
      using Suc.hyps(1) [OF j(2) _ stamped_Suc [OF Suc.prems(2)] d] j by (metis Suc_leI)
    have t: "take nb (payloads R b j) = take nb (payload R b j) @ take (nb - ?len) (payloads R b (Suc j))"
      using lp by (simp add: payloads_Cons [OF j(1)] min_def)
    have mm: "min nb (plen R * Suc k) = ?len + min (nb - ?len) (plen R * k)" by (simp only: mult_Suc_right min_add)
    have dd: "min nb (plen R * Suc k) div 4 = ?len div 4 + min (nb - ?len) (plen R * k) div 4"
      unfolding mm using len(2) by (simp add: div_plus_div_distrib_dvd_left)
    have "ts' = ts + of_nat m * of_nat (Suc k)" if "plen R * Suc k < nb"
      using ih(2) that by (simp add: algebra_simps min_def)
    then show ?thesis unfolding step ih(1) j(3) t dd unfolding mm by (intro exI [of _ ts']) simp
  qed
qed

text \<open>The buffers, one after the other.\<close>

definition all_stamped :: "radio \<Rightarrow> nat \<Rightarrow> u8 list list \<Rightarrow> u64 \<Rightarrow> bool" where
  "all_stamped R m bs ts \<longleftrightarrow> (\<forall>i < length bs. stamped R m (bs ! i) 0 (ts + of_nat m * of_nat (i * per_buf R)))"

lemma all_stamped_Cons:
  "all_stamped R m (b # bs) ts \<Longrightarrow> stamped R m b 0 ts \<and> all_stamped R m bs (ts + of_nat m * of_nat (per_buf R))"
proof
  assume a: "all_stamped R m (b # bs) ts"
  have h: "stamped R m ((b # bs) ! i) 0 (ts + of_nat m * of_nat (i * per_buf R))" if "i < Suc (length bs)" for i
    using a that unfolding all_stamped_def by simp
  show "stamped R m b 0 ts" using h [of 0] by simp
  have "ts + of_nat m * of_nat (Suc i * per_buf R) = ts + of_nat m * of_nat (per_buf R) + (of_nat m * of_nat (i * per_buf R) :: u64)" for i
    by (simp add: algebra_simps)
  then show "all_stamped R m bs (ts + of_nat m * of_nat (per_buf R))"
    using h [of "Suc i" for i] unfolding all_stamped_def by (metis Suc_less_eq nth_Cons_Suc)
qed

lemma copy_bufs_all:
  assumes "radio_ok R" and "\<forall>b \<in> set bs. 4096 \<le> length b" and "all_stamped R m bs ts" and "4 dvd nb"
  shows "\<exists>ts'. copy_bufs R m bs (ts, nb, sd, got) =
      (True, ts', nb - min nb (plen R * per_buf R * length bs), sd @ take nb (concat (map (\<lambda>b. payloads R b 0) bs)),
        got + min nb (plen R * per_buf R * length bs) div 4)"
  using assms(2-4)
proof (induction bs arbitrary: ts nb sd got)
  case (Cons b bs)
  let ?p = "plen R * per_buf R"
  have lb: "length (payloads R b 0) = ?p" using length_payloads [OF assms(1), of b 0] Cons.prems(1) by simp
  show ?case
  proof (cases "nb = 0")
    case False
    note st = all_stamped_Cons [OF Cons.prems(2)]
    obtain ts1 where c: "copy_buf R m b 0 (ts, nb, sd, got) = (True, ts1, nb - min nb ?p, sd @ take nb (payloads R b 0), got + min nb ?p div 4)"
      "?p < nb \<longrightarrow> ts1 = ts + of_nat m * of_nat (per_buf R)"
      using copy_buf_all [OF assms(1), of b 0 m ts nb sd got] Cons.prems(1,3) st by auto
    have d: "4 dvd ?p" using radio_okD(4) [OF assms(1)] by simp
    have "\<exists>ts'. copy_bufs R m bs (ts1, nb - min nb ?p, sd @ take nb (payloads R b 0), got + min nb ?p div 4) =
      (True, ts', nb - min nb ?p - min (nb - min nb ?p) (?p * length bs),
        (sd @ take nb (payloads R b 0)) @ take (nb - min nb ?p) (concat (map (\<lambda>b. payloads R b 0) bs)),
        got + min nb ?p div 4 + min (nb - min nb ?p) (?p * length bs) div 4)"
    proof (cases "?p < nb")
      case True
      then have "4 dvd nb - min nb ?p" using Cons.prems(3) d by simp
      moreover have "all_stamped R m bs ts1" using True st c(2) by simp
      moreover have "\<forall>b \<in> set bs. 4096 \<le> length b" using Cons.prems(1) by simp
      ultimately show ?thesis by (intro Cons.IH)
    next
      case False
      then have "nb - min nb ?p = 0" by simp
      then show ?thesis by (cases bs) simp_all
    qed
    then obtain ts' where e: "copy_bufs R m bs (ts1, nb - min nb ?p, sd @ take nb (payloads R b 0), got + min nb ?p div 4) =
      (True, ts', nb - min nb ?p - min (nb - min nb ?p) (?p * length bs),
        (sd @ take nb (payloads R b 0)) @ take (nb - min nb ?p) (concat (map (\<lambda>b. payloads R b 0) bs)),
        got + min nb ?p div 4 + min (nb - min nb ?p) (?p * length bs) div 4)"
      by blast
    have mm: "min nb (?p * length (b # bs)) = min nb ?p + min (nb - min nb ?p) (?p * length bs)"
      by (simp only: list.size mult_Suc_right min_add add_Suc_right add_0_right)
    have "4 dvd min nb ?p" using d Cons.prems(3) by (simp add: min_def)
    then have dd: "min nb (?p * length (b # bs)) div 4 = min nb ?p div 4 + min (nb - min nb ?p) (?p * length bs) div 4"
      unfolding mm by (simp add: div_plus_div_distrib_dvd_left)
    have t: "take nb (concat (map (\<lambda>b. payloads R b 0) (b # bs)))
      = take nb (payloads R b 0) @ take (nb - min nb ?p) (concat (map (\<lambda>b. payloads R b 0) bs))"
      using lb by (simp add: min_def)
    show ?thesis using False unfolding t dd unfolding mm by (simp add: c e)
  qed simp
qed simp

text \<open>The number of buffers is enough for the samples.\<close>

lemma enough_buffers:
  assumes "radio_ok R"
  shows "4 * n \<le> plen R * per_buf R * (nbufs (strm_init R n) - 16)"
proof -
  note ok = radio_okD [OF assms]
  obtain q where q: "plen R = 4 * q" using ok(4) by (auto simp: dvd_def)
  have "1024 * plen R = q * per_buf R * msg_size R" using ok(3) q by simp
  then have sp: "spbuf (strm_init R n) = q * per_buf R" using ok(2) by (simp add: plen_def [symmetric])
  have pos: "0 < q * per_buf R" using ok(1,6) q by simp
  have "n = n div (q * per_buf R) * (q * per_buf R) + n mod (q * per_buf R)" by (rule div_mult_mod_eq [symmetric])
  also have "\<dots> \<le> (n div (q * per_buf R) + 1) * (q * per_buf R)" using mod_less_divisor [OF pos, of n] by simp
  finally have "n \<le> (n div spbuf (strm_init R n) + 1) * (q * per_buf R)" unfolding sp .
  then have "4 * n \<le> 4 * ((n div spbuf (strm_init R n) + 1) * (q * per_buf R))" by (rule mult_le_mono2)
  also have "\<dots> = plen R * per_buf R * (nbufs (strm_init R n) - 16)"
    unfolding q strm_init_simps(2) by (simp add: algebra_simps)
  finally show ?thesis .
qed

section \<open>A stream that is accepted\<close>

definition in_order :: "strm \<Rightarrow> (u64 \<times> nat) list \<Rightarrow> bool" where
  "in_order g evs \<longleftrightarrow> nbufs g \<le> length evs \<and> (\<forall>k < nbufs g. snd (evs ! k) = k \<and>
     (16 \<le> k \<longrightarrow> fst (evs ! k) = fst (evs ! (k - 1)) + of_nat (spbuf g)))"

lemma run_stream_init:
  "\<exists>g. run_stream evs (strm_init R n) = Some g \<and> nbufs g = nbufs (strm_init R n)
    \<and> (bidx g = nbufs g \<longleftrightarrow> in_order (strm_init R n) evs)"
proof -
  let ?I = "strm_init R n"
  have s: "in_step (strm_init R n) evs k \<longleftrightarrow> snd (evs ! k) = k \<and>
     (16 \<le> k \<longrightarrow> fst (evs ! k) = fst (evs ! (k - 1)) + of_nat (spbuf (strm_init R n)))" for k
    by (cases "k = 0") (simp_all add: in_step_def)
  have e: "(nbufs ?I - bidx ?I \<le> length evs \<and> (\<forall>k < nbufs ?I - bidx ?I. in_step ?I evs k)) \<longleftrightarrow> in_order ?I evs"
    by (simp only: in_order_def strm_init_simps(1) diff_zero s)
  have "bidx ?I < nbufs ?I" by simp
  from run_stream_complete [OF this, of evs] show ?thesis unfolding e by metis
qed

definition all_ok :: "attempt \<Rightarrow> bool" where
  "all_ok a \<longleftrightarrow> freq_ok a \<and> gain_ok a \<and> srate_ok a \<and> bwidth_ok a \<and> init_ok a \<and> timeout_ok a \<and> enable_ok a \<and> stream_ok a"

text \<open>The buffers that count: behind the first 16, as many as the stream has.\<close>

definition kept :: "radio \<Rightarrow> nat \<Rightarrow> attempt \<Rightarrow> u8 list list" where
  "kept R n a = drop 16 (take (nbufs (strm_init R n)) (buffers a))"

definition filled :: "radio \<Rightarrow> nat \<Rightarrow> attempt \<Rightarrow> bool" where
  "filled R n a \<longleftrightarrow> nbufs (strm_init R n) \<le> length (buffers a) \<and> (\<forall>b \<in> set (buffers a). 4096 \<le> length b)"

lemma cb_spmsg: "sdr_rx_async_cb ts k g = Some (c, g') \<Longrightarrow> spmsg g' = spmsg g"
  by (auto simp: sdr_rx_async_cb_def Let_def split: if_splits)

lemma run_stream_spmsg: "run_stream evs g = Some g' \<Longrightarrow> spmsg g' = spmsg g"
proof (induction evs arbitrary: g)
  case (Cons e evs)
  obtain ts k where e: "e = (ts, k)" by fastforce
  obtain c h where c: "sdr_rx_async_cb ts k g = Some (c, h)"
    using Cons.prems by (auto simp: e split: option.splits)
  then have "h = g' \<or> run_stream evs h = Some g'" using Cons.prems by (cases c) (auto simp: e)
  then show ?case using Cons.IH [of h] cb_spmsg [OF c] by auto
qed simp

lemma sdr_rx_async_ok:
  assumes "radio_ok R" and "4 * n < 2 ^ 32" and "all_ok a" and "filled R n a"
    and "in_order (strm_init R n) (callbacks a)" and "all_stamped R (spmsg (strm_init R n)) (kept R n a) (time_stamp R (hd (kept R n a)))"
  shows "sdr_rx_async R n a = Some (None, take (4 * n) (concat (map (\<lambda>b. payloads R b 0) (kept R n a))), n)"
proof -
  let ?g = "strm_init R n" and ?bs = "kept R n a"
  obtain g where g: "run_stream (callbacks a) ?g = Some g" "nbufs g = nbufs ?g" "bidx g = nbufs g"
    using run_stream_init [of "callbacks a" R n] assms(5) by auto
  have bs: "drop SDR_FUDGE (take (nbufs g) (buffers a)) = ?bs" by (simp add: g(2) kept_def SDR_FUDGE_def)
  have len: "length ?bs = nbufs ?g - 16" using assms(4) by (simp add: kept_def filled_def)
  have big: "\<forall>b \<in> set ?bs. 4096 \<le> length b"
    using assms(4) by (auto simp: kept_def filled_def dest!: in_set_dropD in_set_takeD)
  have nb: "unat (of_nat (n * SDR_BPS) :: u32) = 4 * n" using assms(2) by (simp only: unat_of_nat) (simp add: SDR_BPS_def mult.commute)
  have "spmsg g = spmsg ?g"
    using run_stream_spmsg [OF g(1)] .
  moreover obtain ts' where "copy_bufs R (spmsg ?g) ?bs (time_stamp R (hd ?bs), 4 * n, [], 0) =
      (True, ts', 4 * n - min (4 * n) (plen R * per_buf R * length ?bs), [] @ take (4 * n) (concat (map (\<lambda>b. payloads R b 0) ?bs)),
        0 + min (4 * n) (plen R * per_buf R * length ?bs) div 4)"
    using copy_bufs_all [OF assms(1) big assms(6), of "4 * n" "[]" 0] by auto
  moreover have "min (4 * n) (plen R * per_buf R * length ?bs) = 4 * n"
    using enough_buffers [OF assms(1), of n] len by simp
  ultimately show ?thesis
    using assms(3) g(1,3) unfolding sdr_rx_async_def Let_def bs nb by (simp add: all_ok_def g(1) bs nb)
qed

section \<open>Statistics\<close>

lemma stats_loop_spec:
  "stats_loop xs ((a, b), (c, d), (e, f)) =
    ((fold min (map fst xs) a, fold min (map snd xs) b), (fold max (map fst xs) c, fold max (map snd xs) d),
      (e + sum_list (map fst xs), f + sum_list (map snd xs)))"
proof (induction xs arbitrary: a b c d e f)
  case (Cons x xs)
  obtain i q where x: "x = (i, q)" by fastforce
  have "(if i < a then i else a) = min i a" "(if q < b then q else b) = min q b"
    "(if c < i then i else c) = max i c" "(if d < q then q else d) = max q d" by auto
  then show ?case by (simp add: x Cons.IH)
qed simp

lemma short_range: "- 32768 \<le> short b k" "short b k \<le> 32767"
  using sint_greater_eq [of "get16 (2 * k) b"] sint_lt [of "get16 (2 * k) b"] by (simp_all add: short_def)

lemma samples_length [simp]: "length (samples n b) = n"
  by (simp add: samples_def)

lemma fold_min_Min: "xs \<noteq> [] \<Longrightarrow> \<forall>x \<in> set xs. x \<le> (a :: int) \<Longrightarrow> fold min xs a = Min (set xs)"
  by (cases xs) (simp_all only: Min.set_eq_fold fold_simps list.set_intros min_absorb1 simp_thms)

lemma fold_max_Max: "xs \<noteq> [] \<Longrightarrow> \<forall>x \<in> set xs. (a :: int) \<le> x \<Longrightarrow> fold max xs a = Max (set xs)"
  by (cases xs) (simp_all only: Max.set_eq_fold fold_simps list.set_intros max_absorb1 simp_thms)

lemma stats_compute_spec:
  assumes "0 < n"
  shows "stats_compute quot n b =
    \<lparr>st_min = (Min (fst ` set (samples n b)), Min (snd ` set (samples n b))),
     st_max = (Max (fst ` set (samples n b)), Max (snd ` set (samples n b))),
     st_avg = (quot (sum_list (map fst (samples n b))) n, quot (sum_list (map snd (samples n b))) n)\<rparr>"
proof -
  have ne: "map f (samples n b) \<noteq> []" for f using assms samples_length [of n b] by (metis length_greater_0_conv length_map)
  have r: "\<forall>x \<in> set (map fst (samples n b)). - 32768 \<le> x \<and> x \<le> 32767" "\<forall>x \<in> set (map snd (samples n b)). - 32768 \<le> x \<and> x \<le> 32767"
    using short_range by (auto simp: samples_def)
  show ?thesis using r fold_min_Min [OF ne] fold_max_Max [OF ne]
    by (simp add: stats_compute_def Let_def stats_loop_spec)
qed

section \<open>What a sample is\<close>

text \<open>(C37) When all calls of the radio library succeed and its time stamps are consecutive, an attempt
  is accepted exactly when the callbacks brought the buffers in order and with consecutive time stamps
  from buffer 16 on. The samples are then the payloads of the messages behind the first 16
  buffers, without the headers, in order and as many as wanted, and the statistics are theirs.\<close>

theorem brf_samples:
  assumes "radio_ok R" and "4 * n < 2 ^ 32" and "all_ok a" and "filled R n a"
    and "all_stamped R (spmsg (strm_init R n)) (kept R n a) (time_stamp R (hd (kept R n a)))"
  shows "sdr_rx quot R n a = (let sd = take (4 * n) (concat (map (\<lambda>b. payloads R b 0) (kept R n a))) in
    if in_order (strm_init R n) (callbacks a) then Some (Inr (stats_compute quot n sd), sd)
    else Some (Inl ''sampling truncated'', []))"
proof (cases "in_order (strm_init R n) (callbacks a)")
  case True
  then show ?thesis using sdr_rx_async_ok [OF assms(1-4) True assms(5)] assms(3)
    by (simp add: sdr_rx_def all_ok_def Let_def)
next
  case False
  obtain g where "run_stream (callbacks a) (strm_init R n) = Some g" "bidx g \<noteq> nbufs g"
    using run_stream_init [of "callbacks a" R n] False by auto
  then have "sdr_rx_async R n a = Some (Some ''sampling truncated'', [], 0)"
    using assms(3) by (simp add: sdr_rx_async_def all_ok_def Let_def)
  then show ?thesis using False assms(3) by (simp add: sdr_rx_def all_ok_def Let_def)
qed

end
