(* ===== verification/Brf_Cal_Props.thy ===== *)
theory Brf_Cal_Props
  imports Brf_Cal
begin

text \<open>
  Properties of the calibration: the list that is read is sorted by frequency and has an entry for
  every frequency of the radio, so that the search which stops early finds the nearest entry.
\<close>

section \<open>The list\<close>

lemma cal_insert_set: "cal_insert F c es = Some es' \<Longrightarrow> set es' = insert c (set es)"
  by (induction F c es arbitrary: es' rule: cal_insert.induct) (auto split: if_splits)

lemma cal_insert_sorted:
  "cal_insert F c es = Some es' \<Longrightarrow> sorted (map c_freq es) \<Longrightarrow> sorted (map c_freq es')"
proof (induction es arbitrary: es')
  case (Cons e es)
  consider "es' = c # e # es" "c_freq c \<le> c_freq e"
    | t where "es' = e # t" "cal_insert F c es = Some t" "c_freq e \<le> c_freq c"
    using Cons.prems(1) by (simp split: if_splits) auto
  then show ?case
  proof cases
    case 1
    then show ?thesis using Cons.prems(2) by auto
  next
    case 2
    then show ?thesis using Cons.IH [OF 2(2)] Cons.prems(2) cal_insert_set [OF 2(2)] by auto
  qed
qed simp

lemma cal_lines_sorted: "cal_lines F n ls cs = Inr cs' \<Longrightarrow> sorted (map c_freq cs) \<Longrightarrow> sorted (map c_freq cs')"
  by (induction F n ls cs rule: cal_lines.induct)
    (auto split: sum.splits option.splits dest: cal_insert_sorted)

lemma cal_match_covers: "cal_match ds cs \<Longrightarrow> d \<in> set ds \<Longrightarrow> \<exists>c \<in> set cs. c_freq c = d"
proof (induction ds cs rule: cal_match.induct)
  case (2 e ds cs)
  have "set (dropWhile (\<lambda>c. e = c_freq c) cs) \<subseteq> set cs" by (auto dest: set_dropWhileD)
  then show ?case using 2 by (cases "d = e") (auto intro: hd_in_set)
qed simp

lemma cal_get_list:
  assumes "cal_get F tab file [] = Inr cs"
  shows "sorted (map c_freq cs) \<and> (\<exists>ds. tab = Some ds \<and> (\<forall>d \<in> set ds. \<exists>c \<in> set cs. c_freq c = d))"
proof -
  obtain ls ds where a: "cal_lines F 0 ls [] = Inr cs" "tab = Some ds" "cal_match ds cs"
    using assms by (auto simp: cal_get_def split: option.splits sum.splits if_splits)
  show ?thesis using cal_lines_sorted [OF a(1)] a(2) cal_match_covers [OF a(3)] by auto
qed

section \<open>The search\<close>

lemma cal_scan_nearest:
  assumes "sorted (map c_freq cs)" and "\<forall>c \<in> set cs. \<bar>f - c_freq c\<bar> < 2 ^ 40"
    and "case e of None \<Rightarrow> mf = 2 ^ 40 | Some a \<Rightarrow> mf = \<bar>f - c_freq a\<bar> \<and> (\<forall>c \<in> set cs. c_freq a \<le> c_freq c)"
  shows "case cal_scan F f g cs (e, mf) of
      None \<Rightarrow> e = None \<and> (\<forall>c \<in> set cs. \<not> f_eq F (c_gain c) g)
    | Some r \<Rightarrow> (e = Some r \<or> r \<in> set cs \<and> f_eq F (c_gain r) g) \<and> \<bar>f - c_freq r\<bar> \<le> mf
        \<and> (\<forall>c \<in> set cs. f_eq F (c_gain c) g \<longrightarrow> \<bar>f - c_freq r\<bar> \<le> \<bar>f - c_freq c\<bar>)"
  using assms
proof (induction F f g cs "(e, mf)" arbitrary: e mf rule: cal_scan.induct)
  case (2 F f g c cs e mf)
  let ?df = "\<bar>f - c_freq c\<bar>"
  have s: "sorted (map c_freq cs)" "\<forall>d \<in> set cs. c_freq c \<le> c_freq d" "\<forall>c \<in> set cs. \<bar>f - c_freq c\<bar> < 2 ^ 40"
    using "2.prems" by auto
  show ?case
  proof (cases "f_eq F (c_gain c) g")
    case False
    moreover have "case e of None \<Rightarrow> mf = 2 ^ 40 | Some a \<Rightarrow> mf = \<bar>f - c_freq a\<bar> \<and> (\<forall>c \<in> set cs. c_freq a \<le> c_freq c)"
      using "2.prems"(3) by (cases e) auto
    ultimately show ?thesis using "2.hyps"(1) [OF False s(1,3)] by (auto split: option.split)
  next
    case True
    show ?thesis
    proof (cases "?df < mf")
      case less: True
      have "case cal_scan F f g cs (Some c, ?df) of
          None \<Rightarrow> Some c = None \<and> (\<forall>c \<in> set cs. \<not> f_eq F (c_gain c) g)
        | Some r \<Rightarrow> (Some c = Some r \<or> r \<in> set cs \<and> f_eq F (c_gain r) g) \<and> \<bar>f - c_freq r\<bar> \<le> ?df
            \<and> (\<forall>c \<in> set cs. f_eq F (c_gain c) g \<longrightarrow> \<bar>f - c_freq r\<bar> \<le> \<bar>f - c_freq c\<bar>)"
        using "2.hyps"(2) [of ?df "(Some c, ?df)" "Some c" ?df] True less s by simp
      then show ?thesis using True less by (auto split: option.splits)
    next
      case ge: False
      then obtain a where a: "e = Some a" "mf = \<bar>f - c_freq a\<bar>" "c_freq a \<le> c_freq c" "\<forall>d \<in> set cs. c_freq a \<le> c_freq d"
        using "2.prems" by (cases e) auto
      show ?thesis
      proof (cases "mf < ?df")
        case True
        have "f < c_freq c" using True a(2,3) by linarith
        then have "mf \<le> \<bar>f - c_freq d\<bar>" if "d \<in> set cs" for d using s(2) that True by fastforce
        then show ?thesis using True ge a by (auto simp: \<open>f_eq F (c_gain c) g\<close>)
      next
        case False
        then show ?thesis using "2.hyps"(2) [of ?df "(e, mf)" e mf] True ge s a by (auto split: option.splits)
      qed
    qed
  qed
qed (auto split: option.splits)

text \<open>(C40) The calibration read from a file is sorted and has an entry for every frequency of the radio's
  table, and looking up a frequency less than \<open>2 ^ 40\<close> Hz away from all of them finds an entry with
  the gain wanted that is nearest to it, or none when no entry has that gain.\<close>

theorem brf_cal_nearest:
  assumes "cal_get F (Some ds) file [] = Inr cs" and "\<forall>c \<in> set cs. \<bar>f - c_freq c\<bar> < 2 ^ 40"
  shows "sorted (map c_freq cs) \<and> set ds \<subseteq> c_freq ` set cs \<and>
    (case cal_lookup F cs f g of
      None \<Rightarrow> (\<forall>c \<in> set cs. \<not> f_eq F (c_gain c) g)
    | Some r \<Rightarrow> r \<in> set cs \<and> f_eq F (c_gain r) g
        \<and> (\<forall>c \<in> set cs. f_eq F (c_gain c) g \<longrightarrow> \<bar>f - c_freq r\<bar> \<le> \<bar>f - c_freq c\<bar>))"
proof -
  have s: "sorted (map c_freq cs)" "set ds \<subseteq> c_freq ` set cs"
    using cal_get_list [OF assms(1)] by auto
  note n = cal_scan_nearest [OF s(1) assms(2), where e = None and mf = "2 ^ 40" and F = F and g = g]
  show ?thesis
  proof (cases "cal_lookup F cs f g")
    case None
    then show ?thesis using n s by (simp add: cal_lookup_def)
  next
    case (Some r)
    then show ?thesis using n s by (simp add: cal_lookup_def)
  qed
qed

abbreviation cal_ops :: "int dops" where
  "cal_ops \<equiv> \<lparr>f_strtof = \<lambda>s. (0, 1), f_of_int = id, f_less = (<), f_add = (+), f_sub = (-), f_mul = (*), f_div = (div), f_db_bin = 0,
     f_eq = (=), f_cos = id, f_log10 = id, f_max = 0, f_tiny = 0, f_pi = 3, f_dec = \<lambda>_. 0\<rparr>"

lemma brf_cal_nearest_witness:
  "\<exists>cs r. cal_get cal_ops (Some [100, 200]) (Some [''200 0 0 0'', ''100 0 0 0'']) [] = Inr cs
    \<and> cal_lookup cal_ops cs 160 0 = Some r \<and> c_freq r = 200"
proof -
  let ?e = "\<lambda>f n. \<lparr>c_freq = f, c_lnbr = n, c_gain = 0, c_dco = (0, 0)\<rparr> :: int cal_entry"
  have p: "strtol 0 ''100 0 0 0'' = (100, 3)" "strtol 0 ''200 0 0 0'' = (200, 3)"
    by (simp_all add: strtol_def strto_eval Let_def)
  have "cal_line cal_ops n ''100 0 0 0'' = Inr (Some (?e 100 n))" "cal_line cal_ops n ''200 0 0 0'' = Inr (Some (?e 200 n))" for n
    by (simp_all add: cal_line_def p skip_spc_def isblank_def)
  then have g: "cal_get cal_ops (Some [100, 200]) (Some [''200 0 0 0'', ''100 0 0 0'']) [] = Inr [?e 100 2, ?e 200 1]"
    by (simp add: cal_get_def numeral_2_eq_2)
  have d: "\<forall>c \<in> set [?e 100 2, ?e 200 1]. \<bar>160 - c_freq c\<bar> < 2 ^ 40" by simp
  note n = brf_cal_nearest [OF g d, of 0]
  then obtain r where r: "cal_lookup cal_ops [?e 100 2, ?e 200 1] 160 0 = Some r"
    by (cases "cal_lookup cal_ops [?e 100 2, ?e 200 1] 160 0") auto
  have "c_freq r = 200" using n unfolding r by auto
  then show ?thesis using g r by blast
qed

end
