(* ===== verification/Brf_Props.thy ===== *)
theory Brf_Props
  imports Brf_Main Brf_Sample_Props Brf_Cal_Props C_Decimal
begin

text \<open>
  Properties of the server of the spectrum analyzer: its input does not depend on how it is cut into
  reads, what stays behind, when it gets stuck, and that its buffers are not overrun.
\<close>

section \<open>Lines\<close>

abbreviation nl :: char where "nl \<equiv> CHR 0x0A"

lemma do_scan_append:
  "do_scan E l (a @ b) st = (case do_scan E l a st of None \<Rightarrow> None | Some (l, st) \<Rightarrow> do_scan E l b st)"
  by (induction E l a st rule: do_scan.induct) (auto split: option.split)

lemma do_scan_plain: "nl \<notin> set a \<Longrightarrow> do_scan E l a st = Some (l @ a, st)"
  by (induction a arbitrary: l) auto

lemma do_scan_rest: "do_scan E l s st = Some (l', st') \<Longrightarrow> nl \<notin> set l \<Longrightarrow> nl \<notin> set l' \<and> length l' \<le> length l + length s"
  by (induction E l s st arbitrary: rule: do_scan.induct) (fastforce split: if_splits option.splits)+

text \<open>Lines that name a request do not depend on the request before.\<close>

definition line_name :: "string \<Rightarrow> string" where
  "line_name line = takeWhile (\<lambda>c. c \<noteq> CHR 0x00) line"

fun known :: "string \<Rightarrow> string \<Rightarrow> bool" where
  "known l [] \<longleftrightarrow> True"
| "known l (c # s) \<longleftrightarrow> (if c \<noteq> nl then known (l @ [c]) s else req_lookup (line_name l) \<noteq> None \<and> known [] s)"

lemma do_line_known:
  "req_lookup (line_name line) \<noteq> None \<Longrightarrow> do_line E line (req, g, sent) = do_line E line (req', g, sent)"
  by (auto simp: do_line_def line_name_def Let_def)

lemma do_line_sent:
  "do_line E line (req, g, pre @ sent) = map_option (\<lambda>(req, g, sent). (req, g, pre @ sent)) (do_line E line (req, g, sent))"
  by (auto simp: do_line_def Let_def split: option.split prod.split)

lemma do_scan_sent:
  "do_scan E l s (req, g, pre @ sent) = map_option (\<lambda>(l, req, g, sent). (l, req, g, pre @ sent)) (do_scan E l s (req, g, sent))"
proof (induction s arbitrary: l req g sent)
  case (Cons c s)
  show ?case
  proof (cases "c = nl")
    case True
    then show ?thesis using Cons.IH by (auto simp: do_line_sent split: option.split prod.split)
  next
    case False
    then show ?thesis using Cons.IH by simp
  qed
qed simp

text \<open>The variable \<open>req\<close> aside, the result is the same.\<close>

lemma do_scan_known:
  assumes "known l s"
  shows "map_option (\<lambda>(l, req, g). (l, g)) (do_scan E l s (req, g, sent)) = map_option (\<lambda>(l, req, g). (l, g)) (do_scan E l s (req', g, sent))"
  using assms
proof (induction s arbitrary: l req req')
  case (Cons c s)
  show ?case
  proof (cases "c = nl")
    case True
    then show ?thesis using Cons.prems do_line_known [of l E req g sent req'] by simp
  next
    case False
    then show ?thesis using Cons by simp
  qed
qed simp

lemma known_append: "known l (a @ b) \<Longrightarrow> do_scan E l a st = Some (l', st') \<Longrightarrow> known l a \<and> known l' b"
  by (induction E l a st arbitrary: rule: do_scan.induct) (auto split: if_splits option.splits)

section \<open>Reads\<close>

text \<open>The reference: the whole input at once, without a buffer.\<close>

definition session :: "'f srv_env \<Rightarrow> string \<Rightarrow> 'f srv \<Rightarrow> (string list \<times> 'f srv \<times> string) option" where
  "session E s g = map_option (\<lambda>(l, req, g, sent). (sent, g, l)) (do_scan E [] s (None, g, []))"

text \<open>
  The chunks fit: what is kept and the next chunk are not longer than the buffer, and what is kept of
  them is moved over no byte of itself.
\<close>

definition unread :: "string \<Rightarrow> string" where
  "unread s = rev (takeWhile (\<lambda>c. c \<noteq> nl) (rev s))"

fun fits_rxb :: "string \<Rightarrow> string list \<Rightarrow> bool" where
  "fits_rxb s [] \<longleftrightarrow> True"
| "fits_rxb s (c # cs) \<longleftrightarrow> c \<noteq> [] \<and> length (unread s) + length c \<le> SRV_RXB
     \<and> (nl \<in> set c \<longrightarrow> 2 * length (unread (s @ c)) \<le> length (unread s) + length c) \<and> fits_rxb (s @ c) cs"

lemma do_scan_unread: "do_scan E [] s st = Some (l, st') \<Longrightarrow> l = unread s"
proof (induction s arbitrary: l st' rule: rev_induct)
  case (snoc c s)
  then obtain l0 st0 where s: "do_scan E [] s st = Some (l0, st0)" "do_scan E l0 [c] st0 = Some (l, st')"
    by (auto simp: do_scan_append split: option.splits)
  then show ?case using snoc.IH [OF s(1)] by (auto simp: unread_def split: if_splits option.splits)
qed (simp add: unread_def)

lemma nl_unread: "nl \<notin> set (unread s)"
  by (auto simp: unread_def dest: set_takeWhileD)

lemma unread_append: "unread (unread s @ d) = unread (s @ d)"
proof (cases "nl \<in> set d")
  case True
  then show ?thesis by (simp add: unread_def takeWhile_append1 [where x = nl])
next
  case False
  have "takeWhile (\<lambda>c. c \<noteq> nl) (rev d @ x) = rev d @ takeWhile (\<lambda>c. c \<noteq> nl) x" for x
    using False by (subst takeWhile_append2) auto
  moreover have "takeWhile P (takeWhile P x) = takeWhile P x" for P :: "char \<Rightarrow> bool" and x
    by (simp add: takeWhile_eq_all_conv)
  ultimately show ?thesis by (simp add: unread_def)
qed

lemma do_scan_unread2: "do_scan E (unread s) d st = Some (l, st') \<Longrightarrow> l = unread (s @ d)"
proof -
  assume a: "do_scan E (unread s) d st = Some (l, st')"
  have "do_scan E [] (unread s @ d) st = do_scan E (unread s) d st"
    by (simp add: do_scan_append do_scan_plain [OF nl_unread])
  then show ?thesis using do_scan_unread a unread_append by metis
qed

lemma unread_plain: "nl \<notin> set d \<Longrightarrow> unread (s @ d) = unread s @ d"
  unfolding unread_def by (subst rev_append, subst takeWhile_append2) auto

text \<open>A read that fits.\<close>

lemma step_input:
  assumes "g_open c" and "s \<noteq> []" and "length (g_rxb c) + length s \<le> SRV_RXB"
  shows "srv_step E (Input s) c = do_proc E (c\<lparr>g_rxb := g_rxb c @ s\<rparr>)"
proof -
  have "length s \<noteq> 0" using assms(2) by simp
  then have "\<not> SRV_RXB \<le> length (g_rxb c)" using assms(3) by linarith
  then show ?thesis using assms by (simp add: srv_step_def do_read_def Let_def)
qed

abbreviation view :: "(string list \<times> 'f conn) option \<Rightarrow> (string list \<times> 'f srv \<times> string) option" where
  "view \<equiv> map_option (\<lambda>(sent, c). (sent, g_srv c, g_rxb c))"

lemma serve_chunks:
  assumes "fits_rxb s cs" and "known (unread s) (concat cs)" and "g_open c" and "g_rxb c = unread s"
  shows "view (serve E (map Input cs) c)
    = map_option (\<lambda>(l, req, g, sent). (sent, g, l)) (do_scan E (unread s) (concat cs) (None, g_srv c, []))"
  using assms
proof (induction cs arbitrary: s c)
  case (Cons d cs)
  have fit: "d \<noteq> []" "length (g_rxb c) + length d \<le> SRV_RXB" "fits_rxb (s @ d) cs"
    "nl \<in> set d \<longrightarrow> 2 * length (unread (s @ d)) \<le> length (g_rxb c) + length d" using Cons.prems by simp_all
  note st = step_input [OF Cons.prems(3) fit(1,2), of E]
  have pr: "do_scan E [] (g_rxb c @ d) (None, g_srv c, []) = do_scan E (unread s) d (None, g_srv c, [])"
    using Cons.prems(4) by (simp add: do_scan_append do_scan_plain [OF nl_unread])
  show ?case
  proof (cases "do_scan E (unread s) d (None, g_srv c, [])")
    case None
    then show ?thesis using st pr by (simp add: do_proc_def do_scan_append)
  next
    case (Some r)
    obtain l req g sent where r: "r = (l, req, g, sent)" by (cases r) auto
    let ?c = "c\<lparr>g_srv := g, g_rxb := l\<rparr>"
    have l: "l = unread (s @ d)" using do_scan_unread2 Some r by blast
    have k: "known l (concat cs)" using known_append [OF _ Some [unfolded r]] Cons.prems(2) by simp
    have "unread (s @ d) = g_rxb c @ d" if "nl \<notin> set d"
      using that Cons.prems(4) by (simp add: unread_plain)
    then have "\<not> (0 < length (g_rxb c @ d) - length l \<and> length (g_rxb c @ d) - length l < length l)"
      using fit(4) unfolding l by (cases "nl \<in> set d") auto
    then have one: "srv_step E (Input d) c = Some (sent, ?c)" using st pr Some r by (simp add: do_proc_def Let_def)
    have ih: "view (serve E (map Input cs) ?c)
      = map_option (\<lambda>(l, req, g, sent). (sent, g, l)) (do_scan E l (concat cs) (None, g, []))"
      using Cons.IH [of "s @ d" ?c] fit(3) k l Cons.prems(3) by simp
    have "map_option (\<lambda>(l, req, g, sent). (sent, g, l)) (do_scan E l (concat cs) (req, g, sent @ []))
      = map_option (apfst ((@) sent)) (map_option (\<lambda>(l, req, g, sent). (sent, g, l)) (do_scan E l (concat cs) (None, g, [])))"
      using do_scan_known [OF k, of E req g "[]" None] unfolding do_scan_sent
      by (cases "do_scan E l (concat cs) (req, g, [])"; cases "do_scan E l (concat cs) (None, g, [])") auto
    then have "map_option (\<lambda>(l, req, g, sent). (sent, g, l)) (do_scan E (unread s) (concat (d # cs)) (None, g_srv c, []))
      = map_option (apfst ((@) sent)) (view (serve E (map Input cs) ?c))"
      unfolding ih by (simp add: do_scan_append Some r)
    moreover have "view (serve E (map Input (d # cs)) c) = map_option (apfst ((@) sent)) (view (serve E (map Input cs) ?c))"
      by (cases "serve E (map Input cs) ?c") (auto simp: one)
    ultimately show ?thesis by simp
  qed
qed simp

text \<open>(C36) However the input of a client is cut into reads, the replies, the settings and the rest of the
  input are those of processing it at once, as long as every line is a known request and fits the
  buffer with the read that ends it, and what a read leaves of the next line is not longer than the lines the server
  takes out of the buffer before it (a longer rest is copied over itself, which is undefined).\<close>

theorem brf_chunks:
  assumes "fits_rxb [] cs" and "known [] (concat cs)" and "g_open c" and "g_rxb c = []"
  shows "map_option (\<lambda>(sent, c). (sent, g_srv c, g_rxb c)) (serve E (map Input cs) c) = session E (concat cs) (g_srv c)"
  using serve_chunks [of "[]" cs c E] assms by (simp add: session_def unread_def)

section \<open>A full buffer\<close>

lemma step_full:
  "length (g_rxb c) = SRV_RXB \<Longrightarrow> \<exists>c'. srv_step E ev c = Some ([], c') \<and> g_rxb c' = g_rxb c \<and> g_srv c' = g_srv c"
  by (cases ev; cases "g_open c") (simp_all add: srv_step_def do_accept_def do_read_def Let_def)

text \<open>(C39) Once the buffer is full without a newline, the server never answers again: it closes every
  connection as soon as there is input, and nothing empties the buffer.\<close>

theorem brf_full_stuck:
  assumes "length (g_rxb c) = SRV_RXB"
  shows "\<exists>c'. serve E evs c = Some ([], c') \<and> g_rxb c' = g_rxb c \<and> g_srv c' = g_srv c"
  using assms
proof (induction evs arbitrary: c)
  case (Cons ev evs)
  obtain c' where c: "srv_step E ev c = Some ([], c')" "g_rxb c' = g_rxb c" "g_srv c' = g_srv c"
    using step_full [OF Cons.prems] by metis
  then show ?case using Cons.IH [of c'] Cons.prems by auto
qed simp

section \<open>Invariants\<close>

lemma copy_buf_bound:
  "copy_buf R m b off (ts, nb, sd, got) = (ok, ts', nb', sd', got') \<Longrightarrow> length sd' + nb' \<le> length sd + nb"
proof (induction R m b off "(ts, nb, sd, got)" arbitrary: ts nb sd got rule: copy_buf.induct)
  case (1 R m b off ts nb sd got)
  let ?len = "min nb (msg_size R - hdr_size R)"
  have l: "length (slice (off + hdr_size R) ?len b) \<le> ?len"
    unfolding slice_def length_take by (rule min.cobounded2)
  show ?case
  proof (cases "SDR_SPBUF * SDR_BPS \<le> off \<or> msg_size R = 0 \<or> time_stamp R (drop off b) \<noteq> ts \<or> ?len = 0")
    case True
    then show ?thesis using 1(2) by (subst (asm) copy_buf.simps) (auto simp: Let_def split: if_splits)
  next
    case False
    then have c: "\<not> (SDR_SPBUF * SDR_BPS \<le> off \<or> msg_size R = 0)" "\<not> time_stamp R (drop off b) \<noteq> ts" "?len \<noteq> 0"
      by blast+
    have "copy_buf R m b (off + msg_size R) (ts + of_nat m, nb - ?len, sd @ slice (off + hdr_size R) ?len b, got + ?len div SDR_BPS)
      = (ok, ts', nb', sd', got')"
      using 1(2) unfolding copy_buf.simps [of R m b off] Let_def if_not_P [OF c(1)] if_not_P [OF c(2)] if_not_P [OF c(3)] .
    from 1(1) [OF c(1,2) refl c(3) this]
    have "length sd' + nb' \<le> length sd + length (slice (off + hdr_size R) ?len b) + (nb - ?len)"
      by (simp only: length_append)
    then show ?thesis using l by linarith
  qed
qed

lemma copy_bufs_bound:
  "copy_bufs R m bs (ts, nb, sd, got) = (ok, ts', nb', sd', got') \<Longrightarrow> length sd' + nb' \<le> length sd + nb"
proof (induction bs arbitrary: ts nb sd got)
  case (Cons b bs)
  obtain ok1 ts1 nb1 sd1 got1 where c: "copy_buf R m b 0 (ts, nb, sd, got) = (ok1, ts1, nb1, sd1, got1)"
    by (cases "copy_buf R m b 0 (ts, nb, sd, got)") auto
  show ?case using Cons.prems Cons.IH [of ts1 nb1 sd1 got1] copy_buf_bound [OF c] c
    by (auto split: if_splits)
qed simp

lemma sdr_rx_bound:
  assumes "sdr_rx quot R n a = Some (r, sd)"
  shows "length sd \<le> unat (of_nat (n * SDR_BPS) :: u32)"
proof -
  have b: "length sd' \<le> unat (of_nat (n * SDR_BPS) :: u32)"
    if s: "sdr_rx_async R n a = Some (e, sd', got)" for e sd' got
  proof -
    define nb where "nb = unat (of_nat (n * SDR_BPS) :: u32)"
    have "length sd' \<le> nb" if "copy_bufs R m bs (t, nb, [], 0) = (ok, ts, nb', sd', got)" for m bs t ok ts nb'
      using copy_bufs_bound [OF that] by simp
    then show ?thesis using s unfolding sdr_rx_async_def nb_def [symmetric]
      by (auto simp: Let_def split: if_splits option.splits prod.splits)
  qed
  then show ?thesis using assms by (auto simp: sdr_rx_def split: if_splits option.splits)
qed

lemma sdr_rx_retry_last:
  assumes "sdr_rx_retry quot R n att k = Some (r, sd, k')"
  shows "\<exists>j. sdr_rx quot R n (att j) = Some (r, sd) \<and> r \<noteq> Inl ''sampling truncated''"
proof -
  have "\<exists>j. sdr_rx quot R n (att j) = Some (fst y, fst (snd y)) \<and> fst y \<noteq> Inl ''sampling truncated''"
    if "sdr_rx_retry quot R n att k = Some y" for y
    using that
    by (rule sdr_rx_retry.raw_induct [where P = "\<lambda>quot R n att k y.
        \<exists>j. sdr_rx quot R n (att j) = Some (fst y, fst (snd y)) \<and> fst y \<noteq> Inl ''sampling truncated''", rotated])
      (auto split: option.splits prod.splits if_splits)
  then show ?thesis using assms by fastforce
qed

lemma sdr_rx_retry_bound:
  "sdr_rx_retry quot R n att k = Some (r, sd, k') \<Longrightarrow> length sd \<le> unat (of_nat (n * SDR_BPS) :: u32)"
  using sdr_rx_retry_last sdr_rx_bound by metis

lemma cal_entries_bound:
  "cal_entries quot fmt R gain att fs (k, old) = Some (e, ls, k', b) \<Longrightarrow> length old \<le> cal_samples * SDR_BPS
    \<Longrightarrow> length b \<le> cal_samples * SDR_BPS"
proof (induction fs arbitrary: k old ls)
  case (Cons f fs)
  then obtain r sd k1 where r: "sdr_rx_retry quot R cal_samples att k = Some (r, sd, k1)"
    by (auto split: option.splits)
  have "length sd \<le> cal_samples * SDR_BPS"
    using sdr_rx_retry_bound [OF r] by (simp add: cal_samples_def SDR_BPS_def)
  then have "length (sd @ drop (length sd) old) \<le> cal_samples * SDR_BPS" using Cons.prems(2) by simp
  then show ?case using Cons.prems(1) Cons.IH [of k1 "sd @ drop (length sd) old"] r
    by (auto simp: Let_def split: sum.splits)
qed simp

definition srv_ok :: "'f cal_entry list \<Rightarrow> int list option \<Rightarrow> 'f srv \<Rightarrow> bool" where
  "srv_ok cal dc g \<longleftrightarrow> 0 \<le> g_rxgain g \<and> g_rxgain g \<le> 66 \<and> length (snd (g_sbuf g)) \<le> fst (g_sbuf g)
    \<and> g_cal g = cal \<and> g_dc g = dc"

lemma hdl_sample_ok:
  assumes "hdl_sample E s g = Some (r, g')" and "srv_ok cal dc g"
  shows "srv_ok cal dc g'"
proof -
  obtain sz old where so: "sdr_sbuf (g_ns g) (g_sbuf g) = (sz, old)" by fastforce
  show ?thesis
  proof (cases "sz = 0")
    case True
    then show ?thesis using assms by (simp add: hdl_sample_def so)
  next
    case False
    then obtain x sd k where x: "sdr_rx_retry (e_quot E) (e_radio E) (unat (g_ns g)) (e_att E) (g_tries g) = Some (x, sd, k)"
      "g' = g\<lparr>g_sbuf := (sz, sd @ drop (length sd) old), g_tries := k\<rparr>"
      using assms(1) by (auto simp: hdl_sample_def so Let_def split: option.splits)
    have "length sd \<le> unat (g_ns g * 4)" using sdr_rx_retry_bound [OF x(1)] by (simp add: SDR_BPS_def)
    moreover have "unat (g_ns g * 4) \<le> sz" "length old \<le> sz"
      using so assms(2) by (auto simp: sdr_sbuf_def Let_def srv_ok_def split: if_splits)
    ultimately show ?thesis using assms(2) by (simp add: x(2) srv_ok_def)
  qed
qed

lemma req_hdl_ok:
  assumes "req_hdl E n s g = Some (r, g')" and "srv_ok cal dc g"
  shows "srv_ok cal dc g'"
proof (cases "n = 5")
  case True
  then show ?thesis using assms hdl_sample_ok by (simp add: req_hdl_def) blast
next
  case False
  then show ?thesis using assms
    by (auto simp: req_hdl_def hdl_sr_def hdl_bw_def hdl_f_def hdl_rxgain_def hdl_ns_def hdl_comps_def hdl_getps_def srv_ok_def Let_def
      split: if_splits option.splits sum.splits prod.splits)
qed

lemma do_line_ok:
  assumes "do_line E line (req, g, sent) = Some (req', g', sent')" and "srv_ok cal dc g"
  shows "srv_ok cal dc g'"
  using assms req_hdl_ok [of E _ _ g _ g' cal dc]
  by (auto simp: do_line_def Let_def split: option.splits if_splits)

lemma do_scan_ok:
  "do_scan E l s (req, g, sent) = Some (l', req', g', sent') \<Longrightarrow> srv_ok cal dc g \<Longrightarrow> srv_ok cal dc g'"
proof (induction s arbitrary: l req g sent)
  case (Cons c s)
  show ?case
  proof (cases "c = nl")
    case True
    then obtain req1 g1 sent1 where d: "do_line E l (req, g, sent) = Some (req1, g1, sent1)"
      "do_scan E [] s (req1, g1, sent1) = Some (l', req', g', sent')"
      using Cons.prems(1) by (auto split: option.splits)
    show ?thesis by (rule Cons.IH [OF d(2) do_line_ok [OF d(1) Cons.prems(2)]])
  next
    case False
    then show ?thesis using Cons by simp
  qed
qed simp

definition conn_ok :: "'f cal_entry list \<Rightarrow> int list option \<Rightarrow> 'f conn \<Rightarrow> bool" where
  "conn_ok cal dc c \<longleftrightarrow> srv_ok cal dc (g_srv c) \<and> length (g_rxb c) \<le> SRV_RXB \<and> nl \<notin> set (g_rxb c)"

lemma do_proc_ok:
  assumes "do_proc E c = Some (sent, c')" and "srv_ok cal dc (g_srv c)" and "length (g_rxb c) \<le> SRV_RXB"
  shows "conn_ok cal dc c'"
proof -
  obtain rest req g where s: "do_scan E [] (g_rxb c) (None, g_srv c, []) = Some (rest, req, g, sent)" "c' = c\<lparr>g_srv := g, g_rxb := rest\<rparr>"
    using assms(1) by (auto simp: do_proc_def Let_def split: option.splits if_splits)
  show ?thesis using do_scan_ok [OF s(1) assms(2)] do_scan_rest [OF s(1)] assms(3) by (simp add: conn_ok_def s(2))
qed

lemma srv_step_ok:
  assumes "srv_step E ev c = Some (sent, c')" and "conn_ok cal dc c"
  shows "conn_ok cal dc c'"
proof (cases "\<exists>s. ev = Input s \<and> s \<noteq> [] \<and> g_open c \<and> length (g_rxb c) < SRV_RXB")
  case True
  then obtain s where s: "ev = Input s" "s \<noteq> []" "g_open c" "length (g_rxb c) < SRV_RXB" by blast
  let ?c = "c\<lparr>g_rxb := g_rxb c @ take (SRV_RXB - length (g_rxb c)) s\<rparr>"
  have "0 < length (g_rxb ?c)" using s(2,4) by simp
  then have "do_proc E ?c = Some (sent, c')" using assms(1) s by (simp add: srv_step_def do_read_def Let_def)
  then show ?thesis using assms(2) s(4) by (intro do_proc_ok) (auto simp: conn_ok_def)
next
  case False
  then show ?thesis using assms
    by (cases ev) (auto simp: srv_step_def do_accept_def do_read_def Let_def conn_ok_def split: if_splits)
qed

lemma cal_sdr_bound:
  "cal_sdr quot fmt R gain att tab writable = Some (e, ls, k, sb) \<Longrightarrow> length (snd sb) \<le> fst sb"
  by (auto simp: cal_sdr_def dest!: cal_entries_bound split: option.splits if_splits)

lemma brf_init_ok:
  assumes "brf_init E fmt gain calibrate tab file writable = Some (Inr g)"
  shows "srv_ok (g_cal g) tab g" and "calibrate \<or> cal_get (e_ops E) tab file [] = Inr (g_cal g)"
proof -
  have "length (snd sb) \<le> fst sb"
    if "(if calibrate then cal_sdr (e_quot E) fmt (e_radio E) gain (e_att E) tab writable else Some (None, [], 0, (0, []))) = Some (e, ls, k, sb)" for e ls k sb
    using that by (cases sb; cases calibrate) (auto dest: cal_sdr_bound)
  then show "srv_ok (g_cal g) tab g"
    using assms by (auto simp: brf_init_def Let_def srv_start_def srv_ok_def split: option.splits sum.splits)
  show "calibrate \<or> cal_get (e_ops E) tab file [] = Inr (g_cal g)"
    using assms by (cases calibrate) (auto simp: brf_init_def srv_start_def split: sum.splits)
qed

text \<open>(C38) Whatever clients do once the server has started, with or without calibrating, the input that
  is kept is part of one line and fits its buffer, the samples do not exceed the sample buffer, the
  gain is between 0 and 66, and the calibration is that of the start.\<close>

theorem brf_invariant:
  assumes "brf_init E fmt gain calibrate tab file writable = Some (Inr g)" and "serve E evs (conn_start g) = Some (sent, c)"
  shows "conn_ok (g_cal g) tab c"
proof -
  have "serve E evs c0 = Some (sent, c) \<Longrightarrow> conn_ok (g_cal g) tab c0 \<Longrightarrow> conn_ok (g_cal g) tab c" for c0 sent
  proof (induction evs arbitrary: c0 sent)
    case (Cons ev evs)
    then obtain s1 c1 s2 where "srv_step E ev c0 = Some (s1, c1)" "serve E evs c1 = Some (s2, c)"
      by (auto split: option.splits)
    then show ?case using Cons.IH srv_step_ok Cons.prems(2) by blast
  qed simp
  moreover have "conn_ok (g_cal g) tab (conn_start g)"
    using brf_init_ok(1) [OF assms(1)] by (simp add: conn_ok_def conn_start_def)
  ultimately show ?thesis using assms(2) by blast
qed

section \<open>Replies\<close>

lemma sdr_rx_err: "sdr_rx quot R n a = Some (Inl e, sd) \<Longrightarrow> length e \<le> 60"
  by (auto simp: sdr_rx_def sdr_rx_async_def Let_def split: if_splits option.splits prod.splits)

lemma hdl_sample_err: "hdl_sample E s g = Some (Err e, g') \<Longrightarrow> length e \<le> 60"
  by (auto simp: hdl_sample_def split: prod.splits option.splits sum.splits if_splits dest!: sdr_rx_retry_last sdr_rx_err)

lemma dc_err: "dc_cal_lookup tab f = Inl e \<Longrightarrow> length e \<le> 60"
  by (auto simp: dc_cal_lookup_def split: option.splits prod.splits if_splits)

lemma hdl_comps_err: "hdl_comps E s g = Some (Err e, g') \<Longrightarrow> length e \<le> 60"
  by (auto simp: hdl_comps_def Let_def dest: dc_err split: if_splits option.splits sum.splits prod.splits)

lemma req_hdl_err:
  assumes "req_hdl E n s g = Some (Err e, g')"
  shows "length e \<le> 60"
proof (cases "n = 5 \<or> n = 6")
  case True
  then show ?thesis using assms hdl_sample_err hdl_comps_err by (auto simp: req_hdl_def)
next
  case False
  then show ?thesis using assms
    by (auto simp: req_hdl_def hdl_sr_def hdl_bw_def hdl_f_def hdl_rxgain_def hdl_ns_def hdl_getps_def Let_def
      split: if_splits option.splits prod.splits)
qed

lemma length_show_u32: "length (show_nat (unat (w :: u32))) \<le> 10"
  by (rule length_show_digits) (use unsigned_less [of w, where ?'a = nat] in simp_all)

lemma reply_fits:
  assumes "length l < SRV_RXB" and "\<And>e. r = Err e \<Longrightarrow> length e \<le> 60"
  shows "length (reply_text l r n) < SRV_TXB"
  using assms length_show_u32 [of "of_nat n"] by (cases r) (fastforce simp: reply_text_def SRV_RXB_def SRV_TXB_def)+

text \<open>A line that fits the input buffer has a reply that fits the output buffer: the server fails on a
  line only when its handler does, or when the line is no request and none came before it in the same read.\<close>

theorem brf_reply_fits:
  assumes "length line < SRV_RXB"
  shows "do_line E line (req, g, sent) = None \<longleftrightarrow>
    (case req_lookup (line_name line) of None \<Rightarrow> req = None | Some (n, arg) \<Rightarrow> req_hdl E n arg g = None)"
proof -
  have n: "length (line_name line) < SRV_RXB"
    using assms length_takeWhile_le [of "\<lambda>c. c \<noteq> CHR 0x00" line] by (simp add: line_name_def)
  have f: "\<not> SRV_TXB \<le> length (reply_text (line_name line) r k)" if "\<And>e. r = Err e \<Longrightarrow> length e \<le> 60" for r k
    using reply_fits [OF n that] by (simp add: not_le)
  have u: "\<not> SRV_TXB \<le> length (reply_text (line_name line) (Err ''unknown request or no handler'') k)" for k
    by (rule f) auto
  show ?thesis
  proof (cases "req_lookup (line_name line)")
    case None
    then show ?thesis using u unfolding do_line_def line_name_def [symmetric] Let_def by (auto split: option.split)
  next
    case (Some p)
    obtain k arg where p: "p = (k, arg)" by fastforce
    show ?thesis
    proof (cases "req_hdl E k arg g")
      case (Some q)
      obtain r g' where q: "q = (r, g')" by fastforce
      have "\<not> SRV_TXB \<le> length (reply_text (line_name line) r m)" for m
        by (rule f) (use Some q req_hdl_err in auto)
      then show ?thesis using Some q p \<open>req_lookup (line_name line) = Some p\<close>
        unfolding do_line_def line_name_def [symmetric] Let_def by simp
    qed (use Some p in \<open>simp add: do_line_def line_name_def [symmetric] Let_def\<close>)
  qed
qed

text \<open>After a spectrum was sent, a refused request for another is answered with the error and the old data.\<close>

lemma brf_stale:
  assumes "g_psdata g \<noteq> []"
  shows "do_line E ''getps top'' (req, g, sent) = Some (Some 7, g, sent @ [''getps top: unknown power index'' @ [nl], g_psdata g])"
  using assms by (simp add: do_line_def req_lookup_def req_names_def strncmp_eq_def req_hdl_def hdl_getps_def req_data_def
    reply_text_def SRV_TXB_def)

text \<open>The number of samples can be set without sampling; the transform then reads what is not there.\<close>

lemma brf_unsampled:
  assumes "cal_lookup (e_ops E) cs 0 (f_of_int (e_ops E) 0) = Some c"
  shows "hdl_comps E ''1024 hann'' ((srv_start cs (Some [0]))\<lparr>g_ns := 1024\<rparr>) = None"
proof -
  have "strtol 0 ''1024 hann'' = (1024, 4)" by (simp add: strtol_def strto_eval Let_def)
  then show ?thesis using assms
    by (simp add: hdl_comps_def srv_start_def dc_cal_lookup_def int32_def skip_spc_def isblank_def window_def)
qed

end
