(* ===== verification/Brf_Demo.thy ===== *)
theory Brf_Demo
  imports Brf_Props
begin

text \<open>
  An example: a radio with messages of one buffer each, an attempt that succeeds with 1024 samples of
  zero, and the transform of them. It shows that the hypotheses of the properties can hold.
\<close>

section \<open>Sampling\<close>

definition demo_radio :: radio where
  "demo_radio = \<lparr>msg_size = 4096, hdr_size = 16, time_stamp = \<lambda>b. ucast (hd b) * 1020\<rparr>"

definition demo_attempt :: attempt where
  "demo_attempt = \<lparr>freq_ok = True, gain_ok = True, srate_ok = True, bwidth_ok = True, init_ok = True, timeout_ok = True,
     enable_ok = True, stream_ok = True, callbacks = map (\<lambda>k. (of_nat k * 1020, k)) [0..<18],
     buffers = replicate 17 (replicate 4096 0) @ [1 # replicate 4095 0]\<rparr>"

lemma demo_strm: "nbufs (strm_init demo_radio 1024) = 18" "spbuf (strm_init demo_radio 1024) = 1020" "spmsg (strm_init demo_radio 1024) = 1020"
  by (simp_all add: demo_radio_def)

lemma demo_kept: "kept demo_radio 1024 demo_attempt = [replicate 4096 0, 1 # replicate 4095 0]"
proof -
  have "replicate 17 x = replicate 16 x @ [x]" for x :: "u8 list" by (simp add: numeral_eq_Suc)
  then show ?thesis by (simp add: kept_def demo_radio_def demo_attempt_def)
qed

lemma demo_attempt_ok: "radio_ok demo_radio" "4 * (1024 :: nat) < 2 ^ 32" "all_ok demo_attempt" "filled demo_radio 1024 demo_attempt"
  "in_order (strm_init demo_radio 1024) (callbacks demo_attempt)"
  "all_stamped demo_radio (spmsg (strm_init demo_radio 1024)) (kept demo_radio 1024 demo_attempt) (time_stamp demo_radio (hd (kept demo_radio 1024 demo_attempt)))"
proof -
  show "radio_ok demo_radio" by (simp add: radio_ok_def demo_radio_def)
  show "all_ok demo_attempt" by (simp add: all_ok_def demo_attempt_def)
  show "filled demo_radio 1024 demo_attempt" by (auto simp: filled_def demo_radio_def demo_attempt_def)
  show "in_order (strm_init demo_radio 1024) (callbacks demo_attempt)"
    by (auto simp: in_order_def demo_strm(1,2) demo_attempt_def of_nat_diff algebra_simps simp del: strm_init_simps)
  show "all_stamped demo_radio (spmsg (strm_init demo_radio 1024)) (kept demo_radio 1024 demo_attempt) (time_stamp demo_radio (hd (kept demo_radio 1024 demo_attempt)))"
    unfolding demo_kept demo_strm(3)
    by (auto simp: all_stamped_def stamped_def per_buf_def demo_radio_def less_Suc_eq)
qed simp

lemma demo_samples: "take (4 * 1024) (concat (map (\<lambda>b. payloads demo_radio b 0) (kept demo_radio 1024 demo_attempt))) = replicate 4096 0"
proof -
  have "drop 16 (1 # replicate 4095 (0 :: u8)) = replicate 4080 0" by (simp add: drop_Cons')
  then show ?thesis unfolding demo_kept
    by (simp add: payloads_def per_buf_def demo_radio_def payload_def plen_def slice_def replicate_add [symmetric])
qed

lemma demo_async: "sdr_rx_async demo_radio 1024 demo_attempt = Some (None, replicate 4096 0, 1024)"
  using sdr_rx_async_ok [OF demo_attempt_ok] by (simp only: demo_samples)

lemma demo_zero: "samples n (replicate 4096 0) = replicate n (0, 0)" if "n \<le> 1024" for n
proof -
  have "short (replicate 4096 0) k = 0" if "k < 2048" for k
    using that by (simp add: short_def get16_def)
  then show ?thesis using that by (intro nth_equalityI) (simp_all add: samples_def)
qed

lemma demo_rx: "sdr_rx quot demo_radio 1024 demo_attempt
    = Some (Inr \<lparr>st_min = (0, 0), st_max = (0, 0), st_avg = (quot 0 1024, quot 0 1024)\<rparr>, replicate 4096 0)"
  using stats_compute_spec [of 1024 quot "replicate 4096 0"]
  by (simp add: sdr_rx_def demo_async demo_zero sum_list_replicate) (simp add: demo_attempt_def)

section \<open>The transform\<close>

definition probe_env :: "int srv_env" where
  "probe_env = \<lparr>e_ops = cal_ops, e_quot = \<lambda>_ _. 0, e_radio = demo_radio, e_att = \<lambda>_. demo_attempt, e_dft = id,
     e_bytes = \<lambda>_. replicate 4 CHR 0x00\<rparr>"

definition demo_srv :: "int srv" where
  "demo_srv = (srv_start [\<lparr>c_freq = 700000000, c_lnbr = 1, c_gain = 0, c_dco = (0, 0)\<rparr>] (Some [700000000]))
     \<lparr>g_srate := 2048, g_bwidth := 10, g_freq := 700000000, g_rxgain := 0, g_ns := 1024\<rparr>"

definition demo_sampled :: "int srv" where
  "demo_sampled = demo_srv\<lparr>g_sbuf := (4096, replicate 4096 0), g_tries := 1\<rparr>"

lemma demo_sample: "hdl_sample probe_env [] demo_srv = Some (Ok, demo_sampled)"
proof -
  have "sdr_rx_retry (\<lambda>_ _. 0) demo_radio 1024 (\<lambda>_. demo_attempt) 0
    = Some (Inr \<lparr>st_min = (0, 0), st_max = (0, 0), st_avg = (0 :: int, 0)\<rparr>, replicate 4096 0, 1)"
    by (subst sdr_rx_retry.simps) (simp add: demo_rx)
  then show ?thesis
    by (simp add: hdl_sample_def probe_env_def demo_srv_def srv_start_def sdr_sbuf_def demo_sampled_def clipped_def SDR_IQ_MIN_def SDR_IQ_MAX_def)
qed

lemma windows_length:
  "length acc = n \<Longrightarrow> length w = n \<Longrightarrow> n * k \<le> length xs \<Longrightarrow> length (windows probe_env n w dco k xs acc) = n"
  by (induction k arbitrary: xs acc) (auto simp: probe_env_def dft_in_def)

lemma demo_spectrum: "length xs = 1024 \<Longrightarrow> spectrum probe_env winf 1024 1 dco xs = replicate 1024 (0, 0, 0)"
proof -
  assume "length xs = 1024"
  then have l: "length (windows probe_env 1024 w dco 1 xs (replicate 1024 (mma_init cal_ops))) = 1024" if "length w = 1024" for w
    using that by (intro windows_length) simp_all
  have z: "mma_db cal_ops 1024 1 = (\<lambda>s. (0, 0, 0))" by (rule ext) (auto simp: mma_db_def Let_def)
  have o: "e_ops probe_env = cal_ops" by (simp add: probe_env_def)
  show ?thesis unfolding spectrum_def Let_def o z map_replicate_const by (subst l) simp_all
qed

lemma demo_comps: "hdl_comps probe_env ''1024 hann'' demo_sampled = Some (Ok, demo_sampled\<lparr>g_spwr := replicate 1024 (0, 0, 0)\<rparr>)"
proof -
  have p: "strtol 0 ''1024 hann'' = (1024, 4)" by (simp add: strtol_def strto_eval Let_def)
  have o: "e_ops probe_env = cal_ops" by (simp add: probe_env_def)
  have dc: "dc_cal_lookup (Some [700000000]) 700000000 = Inr 0" by (simp add: dc_cal_lookup_def)
  show ?thesis unfolding hdl_comps_def p o
    by (simp add: demo_sampled_def demo_srv_def srv_start_def int32_def skip_spc_def isblank_def window_def dc
      cal_lookup_def demo_spectrum [unfolded One_nat_def])
qed

end
