(* ===== verification/Brf_Link.thy ===== *)
theory Brf_Link
  imports Brf_Props Sw_Sdr_Props C_Decimal
begin

text \<open>
  The modem test \<open>swtest\<close> and the server of the spectrum analyzer together: the server understands the
  requests of a measurement, and the test gets the spectrum that the server has computed.
\<close>

section \<open>Settings\<close>

lemma show_nat_plain: "nl \<notin> set (show_nat n)" "CHR 0x00 \<notin> set (show_nat n)"
proof -
  have "\<not> is_digit 10 nl" "\<not> is_digit 10 (CHR 0x00)" by (simp_all add: is_digit_def digit_val_def)
  then show "nl \<notin> set (show_nat n)" "CHR 0x00 \<notin> set (show_nat n)" using show_nat_set by blast+
qed

lemma do_scan_line: "nl \<notin> set l \<Longrightarrow> do_scan E [] (line l @ s) st = (case do_line E l st of None \<Rightarrow> None | Some st \<Rightarrow> do_scan E [] s st)"
  by (simp add: line_def do_scan_append do_scan_plain)

lemma strncmp_eq_append: "CHR 0x00 \<notin> set a \<Longrightarrow> strncmp_eq a (a @ s) (length a)"
  by (simp add: strncmp_eq_def)

text \<open>A line without NUL that names the request \<open>n\<close>.\<close>

lemma do_line_named:
  assumes "CHR 0x00 \<notin> set l" and "req_lookup l = Some (n, arg)" and "req_hdl E n arg g = Some (Ok, g')" and "req_data n g' = []"
  shows "do_line E l (req, g, sent) = Some (Some n, g', sent @ [line ''ok''])"
proof -
  have t: "takeWhile (\<lambda>c. c \<noteq> CHR 0x00) l = l" using assms(1) by (auto simp: takeWhile_eq_all_conv)
  show ?thesis using assms(2-4) unfolding do_line_def Let_def prod.case t
    by (simp add: reply_text_def line_def SRV_TXB_def)
qed

lemmas lookup_simps = req_lookup_def req_names_def strncmp_eq_def

definition settings :: "'f rfm \<Rightarrow> 'f srv \<Rightarrow> 'f srv" where
  "settings r g = g\<lparr>g_srate := m_sr r, g_bwidth := of_int (m_bandwidth r), g_freq := m_uf r, g_rxgain := 0, g_ns := m_sr r div 2\<rparr>"

definition in_range :: "'f rfm \<Rightarrow> bool" where
  "in_range r \<longleftrightarrow> 0 \<le> sint (m_sr r) \<and> 0 \<le> m_bandwidth r \<and> m_bandwidth r < 2 ^ 32 \<and> 0 \<le> m_uf r \<and> m_uf r < 2 ^ 63"

lemma show_int_nat: "0 \<le> i \<Longrightarrow> show_int i = show_nat (nat i)"
  by (simp add: show_int_def)

lemma u64_u32: "n < 2 ^ 32 \<Longrightarrow> ucast (of_nat n :: u64) = (of_nat n :: u32)"
  by (simp add: unsigned_of_nat take_bit_nat_eq_self)

lemma sint_nat: "n < 2 ^ 63 \<Longrightarrow> sint (of_nat n :: u64) = int n"
  by (simp add: signed_of_nat signed_take_bit_int_eq_self)

lemma hdl_sr_nat: "n < 2 ^ 32 \<Longrightarrow> hdl_sr (show_nat n) g = (Ok, g\<lparr>g_srate := of_nat n\<rparr>)"
  using show_nat_digits [of n] by (simp add: hdl_sr_def strtoul_show_nat f_scale_def u64_u32)

lemma hdl_bw_nat: "n < 2 ^ 32 \<Longrightarrow> hdl_bw (show_nat n) g = (Ok, g\<lparr>g_bwidth := of_nat n\<rparr>)"
  using show_nat_digits [of n] by (simp add: hdl_bw_def strtoul_show_nat f_scale_def u64_u32)

lemma hdl_ns_nat: "n < 2 ^ 32 \<Longrightarrow> hdl_ns (show_nat n) g = (Ok, g\<lparr>g_ns := of_nat n\<rparr>)"
  using show_nat_digits [of n] by (simp add: hdl_ns_def strtoul_show_nat u64_u32)

lemma hdl_f_nat: "n < 2 ^ 63 \<Longrightarrow> hdl_f (show_nat n) g = (Ok, g\<lparr>g_freq := int n\<rparr>)"
  using show_nat_digits [of n]
  by (simp add: hdl_f_def strtol_show_nat f_scale_def sint_nat)

lemma hdl_rxgain_0: "hdl_rxgain (show_nat 0) g = (Ok, g\<lparr>g_rxgain := 0\<rparr>)"
  using show_nat_digits [of 0] strtol_show_nat [of 0] by (simp add: hdl_rxgain_def int32_def)

section \<open>Conversations\<close>

text \<open>What the server sends for one request after the other, a list of \<open>send\<close> calls for each.\<close>

fun answers :: "'f srv_env \<Rightarrow> 'f srv \<Rightarrow> string list \<Rightarrow> (string list list \<times> 'f srv) option" where
  "answers E g [] = Some ([], g)"
| "answers E g (q # qs) = (case session E q g of
     Some (sent, g, []) \<Rightarrow> map_option (apfst ((#) sent)) (answers E g qs)
   | _ \<Rightarrow> None)"

lemma answers_append:
  "answers E g (ps @ qs) = (case answers E g ps of None \<Rightarrow> None
     | Some (a, g) \<Rightarrow> map_option (apfst ((@) a)) (answers E g qs))"
proof (induction ps arbitrary: g)
  case Nil
  show ?case by (cases "answers E g qs") auto
next
  case (Cons q ps)
  show ?case
  proof (cases "session E q g")
    case (Some s)
    obtain sent g' l where s: "s = (sent, g', l)" by (cases s) auto
    show ?thesis
    proof (cases l)
      case Nil
      then show ?thesis using Some s Cons.IH [of g']
        by (cases "answers E g' ps"; cases "answers E (snd (the (answers E g' ps))) qs") auto
    qed (use Some s in simp)
  qed simp
qed

lemma session_line:
  assumes "nl \<notin> set l" and "CHR 0x00 \<notin> set l" and "req_lookup l = Some (n, arg)" and "req_hdl E n arg g = Some (Ok, g')" and "n \<noteq> 7"
  shows "session E (line l) g = Some ([line ''ok''], g', [])"
  using do_scan_line [OF assms(1), of E "[]" "(None, g, [])"] do_line_named [OF assms(2-4)] assms(5)
  by (simp add: session_def req_data_def)

text \<open>The names of the requests a measurement makes.\<close>

lemma name_lookup:
  "req_lookup (''sr='' @ s) = Some (0, s)" "req_lookup (''bw='' @ s) = Some (1, s)" "req_lookup (''f='' @ s) = Some (2, s)"
  "req_lookup (''ns='' @ s) = Some (3, s)" "req_lookup (''rxgain='' @ s) = Some (4, s)" "req_lookup ''sample'' = Some (5, [])"
  "req_lookup (''comps '' @ s) = Some (6, s)" "req_lookup (''getps '' @ s) = Some (7, s)"
  by (simp_all add: lookup_simps)

lemma settings_answers:
  assumes "in_range r"
  shows "answers E g (take 5 (sdr_requests r)) = Some (replicate 5 [line ''ok''], settings r g)"
proof -
  have n: "nat (sint (m_sr r)) < 2 ^ 32" "nat (m_bandwidth r) < 2 ^ 32" "nat (m_uf r) < 2 ^ 63" "unat (m_sr r) div 2 < 2 ^ 32"
    using assms sint_lt [of "m_sr r"] unsigned_less [of "m_sr r", where ?'a = nat] by (auto simp: in_range_def)
  have v: "of_nat (nat (sint (m_sr r))) = m_sr r" "of_nat (nat (m_bandwidth r)) = (of_int (m_bandwidth r) :: u32)"
    "int (nat (m_uf r)) = m_uf r" "of_nat (unat (m_sr r) div 2) = m_sr r div 2"
    using assms n(4) by (simp_all add: in_range_def of_nat_nat word_unat_eq_iff unat_div unat_of_nat)
  note i = show_int_nat [of "sint (m_sr r)"] show_int_nat [of "m_bandwidth r"] show_int_nat [of "m_uf r"]
  have s: "session E (line (''sr='' @ show_nat (nat (sint (m_sr r))))) g0 = Some ([line ''ok''], g0\<lparr>g_srate := m_sr r\<rparr>, [])" for g0
    using n v by (intro session_line [OF _ _ name_lookup(1)]) (simp_all add: show_nat_plain req_hdl_def hdl_sr_nat)
  have b: "session E (line (''bw='' @ show_nat (nat (m_bandwidth r)))) g0 = Some ([line ''ok''], g0\<lparr>g_bwidth := of_int (m_bandwidth r)\<rparr>, [])" for g0
    using n v by (intro session_line [OF _ _ name_lookup(2)]) (simp_all add: show_nat_plain req_hdl_def hdl_bw_nat)
  have f: "session E (line (''f='' @ show_nat (nat (m_uf r)))) g0 = Some ([line ''ok''], g0\<lparr>g_freq := m_uf r\<rparr>, [])" for g0
    using n v by (intro session_line [OF _ _ name_lookup(3)]) (simp_all add: show_nat_plain req_hdl_def hdl_f_nat)
  have ns: "session E (line (''ns='' @ show_nat (unat (m_sr r) div 2))) g0 = Some ([line ''ok''], g0\<lparr>g_ns := m_sr r div 2\<rparr>, [])" for g0
    using n v by (intro session_line [OF _ _ name_lookup(4)]) (simp_all add: show_nat_plain req_hdl_def hdl_ns_nat)
  have rx: "session E (line (''rxgain='' @ show_nat SDR_RXGAIN)) g0 = Some ([line ''ok''], g0\<lparr>g_rxgain := 0\<rparr>, [])" for g0
    by (intro session_line [OF _ _ name_lookup(5)]) (simp_all add: show_nat_plain req_hdl_def hdl_rxgain_0 SDR_RXGAIN_def)
  have q: "take 5 (sdr_requests r) = [line (''sr='' @ show_nat (nat (sint (m_sr r)))), line (''bw='' @ show_nat (nat (m_bandwidth r))),
      line (''f='' @ show_nat (nat (m_uf r))), line (''rxgain='' @ show_nat SDR_RXGAIN), line (''ns='' @ show_nat (unat (m_sr r) div 2))]"
    using assms by (simp add: in_range_def sdr_requests_def i)
  have e: "replicate 5 x = [x, x, x, x, x]" for x :: "string list" by (simp add: numeral_eq_Suc)
  show ?thesis
    by (simp only: q e answers.simps s b f ns rx option.case prod.case list.case option.map apfst_conv settings_def)
qed

section \<open>The spectrum\<close>

lemma unfold_length [simp]: "length (unfold xs) = length xs"
  by (simp add: unfold_def Let_def)

text \<open>Position \<open>k\<close> of the reply is the bin \<open>k - n / 2\<close>, counted from the centre frequency; negative bins lie in
  the upper half of the transform.\<close>

lemma unfold_nth:
  assumes "length xs = 2 * h" and "k < 2 * h"
  shows "unfold xs ! k = xs ! ((k + h) mod (2 * h))"
  using assms by (auto simp: unfold_def Let_def nth_append mod_if add.commute)

lemma length_concat_bytes: "\<forall>x. length (b x) = (4 :: nat) \<Longrightarrow> length (concat (map b xs)) = 4 * length xs"
  by (induction xs) auto

lemma show_4096: "show_nat 4096 = ''4096''"
  by (simp add: show_nat.simps hex_char_def)

lemma session_getps:
  assumes "length (g_spwr g) = 1024" and "\<forall>x. length (e_bytes E x) = 4"
  shows "session E (line ''getps avg'') g = (let d = concat (map (e_bytes E \<circ> (snd \<circ> snd)) (unfold (g_spwr g)))
    in Some ([line ''4096'', d], g\<lparr>g_psdata := d\<rparr>, []))"
proof -
  let ?d = "concat (map (e_bytes E \<circ> (snd \<circ> snd)) (unfold (g_spwr g)))"
  have d: "length ?d = 4096" using length_concat_bytes [of "e_bytes E \<circ> (snd \<circ> snd)" "unfold (g_spwr g)"] assms by simp
  have ne: "?d \<noteq> []" using d by (metis list.size(3) zero_neq_numeral)
  have h: "hdl_getps E ''avg'' g = (Data, g\<lparr>g_psdata := ?d\<rparr>)"
    using assms(1) by (auto simp: hdl_getps_def comp_def)
  have "do_line E ''getps avg'' (None, g, []) = Some (Some 7, g\<lparr>g_psdata := ?d\<rparr>, [line ''4096'', ?d])"
    using name_lookup(8) [of "''avg''"] ne d h show_4096
    by (auto simp: do_line_def req_hdl_def req_data_def reply_text_def line_def SRV_TXB_def Let_def)
  then show ?thesis using do_scan_line [of "''getps avg''" E "[]" "(None, g, [])"]
    by (simp add: session_def Let_def)
qed

text \<open>The averages as the test expects them: entry \<open>k\<close> is that of the bin for the offset \<open>k - 512\<close>, which the
  transform has at its number modulo 1024.\<close>

definition averages :: "'f srv \<Rightarrow> 'f list" where
  "averages g = map (\<lambda>k. snd (snd (g_spwr g ! ((k + 512) mod 1024)))) [0..<1024]"

lemma unfold_averages: "length (g_spwr g) = 1024 \<Longrightarrow> map (snd \<circ> snd) (unfold (g_spwr g)) = averages g"
  using unfold_nth [of "g_spwr g" 512] by (auto simp: averages_def intro!: nth_equalityI)

abbreviation spectrum_bytes :: "'f srv_env \<Rightarrow> 'f srv \<Rightarrow> string" where
  "spectrum_bytes E g \<equiv> concat (map (e_bytes E) (averages g))"

lemma measure_answers:
  assumes "in_range r" and "\<forall>x. length (e_bytes E x) = 4"
    and "hdl_sample E [] (settings r g) = Some (Ok, g1)" and "hdl_comps E ''1024 hann'' g1 = Some (Ok, g2)" and "length (g_spwr g2) = 1024"
  shows "answers E g (sdr_requests r) = Some (replicate 7 [line ''ok''] @ [[line ''4096'', spectrum_bytes E g2]],
    g2\<lparr>g_psdata := spectrum_bytes E g2\<rparr>)"
proof -
  have c: "''comps '' @ show_nat SDR_DFTSZ @ '' hann'' = ''comps 1024 hann''"
    by (simp add: SDR_DFTSZ_def show_nat.simps hex_char_def)
  have q: "sdr_requests r = take 5 (sdr_requests r) @ [line ''sample'', line ''comps 1024 hann'', line ''getps avg'']"
    unfolding sdr_requests_def c by simp
  have s: "session E (line ''sample'') (settings r g) = Some ([line ''ok''], g1, [])"
    using assms(3) by (intro session_line [OF _ _ name_lookup(6)]) (simp_all add: req_hdl_def)
  have k: "session E (line ''comps 1024 hann'') g1 = Some ([line ''ok''], g2, [])"
    using assms(4) name_lookup(7) [of "''1024 hann''"] by (intro session_line [where n = 6]) (simp_all add: req_hdl_def)
  have e: "replicate 7 x = replicate 5 x @ [x, x]" for x :: "string list" by (simp add: numeral_eq_Suc)
  have p: "session E (line ''getps avg'') g2 = Some ([line ''4096'', spectrum_bytes E g2], g2\<lparr>g_psdata := spectrum_bytes E g2\<rparr>, [])"
    using session_getps [OF assms(5,2)] unfold_averages [OF assms(5)] by (simp add: Let_def flip: map_map)
  show ?thesis
    by (subst q) (simp only: answers_append settings_answers [OF assms(1)] answers.simps s k p e option.case prod.case list.case option.map apfst_conv append_assoc append.simps)
qed

text \<open>
  The analyzer as \<open>swtest\<close> sees it: either every reply arrives in one piece, or in the pieces of the calls
  of \<open>send\<close>, with nothing more to come. The network promises neither.
\<close>

definition connected :: "bool \<Rightarrow> 'f srv_env \<Rightarrow> 'f srv \<Rightarrow> 'f analyzer \<Rightarrow> string list \<Rightarrow> bool" where
  "connected whole E g Z qs \<longleftrightarrow> (\<exists>ans g'. answers E g qs = Some (ans, g') \<and>
     (\<forall>i < length qs. z_send Z (qs ! i) = int (length (qs ! i)) \<and> z_recv Z (qs ! i) = (if whole then [RxData (concat (ans ! i))] else map RxData (ans ! i))))"

lemma recv_ok: "sdr_recv [] 2000000 [RxData (line ''ok'')] = Inr (0, [])"
  by (subst sdr_recv_data) (simp_all add: line_def sdr_chunk_def cstr_def)

lemma recv_spectrum: "length d = 4096 \<Longrightarrow> sdr_recv [] 2000000 [RxData (line ''4096'' @ d)] = Inr (4096, d)"
  using spectrum_first_chunk [of d] by (subst sdr_recv_data) (simp_all add: line_def)

lemma sdr_all_ok:
  "\<forall>q \<in> set qs. sdr_req (z_send Z) (z_recv Z) q = Inr (0, []) \<Longrightarrow> sdr_all Z (qs @ [q]) x = (case sdr_req (z_send Z) (z_recv Z) q of Inl e \<Rightarrow> Inl e | Inr d \<Rightarrow> Inr d)"
  by (induction qs arbitrary: x) (auto split: sum.split)

text \<open>The reply to \<open>getps\<close> in the two pieces of its calls of \<open>send\<close>.\<close>

lemma brf_two_sends:
  assumes "length d = 4096"
  shows "sdr_recv [] 2000000 (RxData (line ''4096'') # RxData d # replicate k RxNone) =
      (case strchr (cstr d) nlc of None \<Rightarrow> Inl ''sdr receive timeout'' | Some i \<Rightarrow> Inr (4096, d[i := CHR 0x00]))"
proof -
  have "d \<noteq> []" using assms by auto
  then show ?thesis using sdr_reply_pieces [of 0 "[]" d "[]" k] assms by (simp cong: option.case_cong)
qed


end
