(* ===== verification/Brf_Claims.thy ===== *)
theory Brf_Claims
  imports Brf_Demo Brf_Link
begin

text \<open>
  The properties of the server of the spectrum analyzer at concrete inputs.
\<close>

lemma brf_samples_witness:
  "sdr_rx (\<lambda>i n. i div int n) demo_radio 1024 demo_attempt
    = Some (Inr (stats_compute (\<lambda>i n. i div int n) 1024 (replicate 4096 0)), replicate 4096 0)"
  using brf_samples [OF demo_attempt_ok(1-4,6)] demo_attempt_ok(5) by (simp add: demo_samples [simplified] Let_def)

lemma brf_chunks_witness:
  "map_option (\<lambda>(sent, c). (sent, g_srv c, g_rxb c)) (serve probe_env [Input ''n'', Input (''s=5'' @ [nl])] (conn_start demo_srv))
    = session probe_env (''ns=5'' @ [nl]) demo_srv"
  using brf_chunks [of "[''n'', ''s=5'' @ [nl]]" "conn_start demo_srv" probe_env]
  by (simp add: conn_start_def unread_def SRV_RXB_def lookup_simps line_name_def)

lemma brf_full_stuck_witness:
  "\<exists>c'. serve probe_env [Connect True, Input (''sample'' @ [nl])] ((conn_start demo_srv)\<lparr>g_rxb := replicate 1024 CHR ''x''\<rparr>) = Some ([], c')
    \<and> g_rxb c' = replicate 1024 CHR ''x'' \<and> g_srv c' = demo_srv"
  using brf_full_stuck [of "(conn_start demo_srv)\<lparr>g_rxb := replicate 1024 CHR ''x''\<rparr>" probe_env "[Connect True, Input (''sample'' @ [nl])]"]
  by (simp add: SRV_RXB_def conn_start_def)

lemma brf_invariant_witness:
  "conn_ok [] (Some []) ((conn_start (srv_start [] (Some [])) :: int conn)\<lparr>g_rxb := ''ns''\<rparr>)"
proof -
  have "brf_init probe_env (\<lambda>_ _. []) 0 False (Some []) (Some [''# no entries'']) True = Some (Inr (srv_start [] (Some [])))"
    by (simp add: brf_init_def cal_get_def cal_line_def skip_spc_def isblank_def Let_def srv_start_def)
  moreover have "serve probe_env [Input ''ns''] (conn_start (srv_start [] (Some []))) = Some ([], (conn_start (srv_start [] (Some [])))\<lparr>g_rxb := ''ns''\<rparr>)"
    by (simp add: srv_step_def do_read_def do_proc_def conn_start_def SRV_RXB_def)
  ultimately have "conn_ok (g_cal (srv_start [] (Some []) :: int srv)) (Some []) ((conn_start (srv_start [] (Some [])) :: int conn)\<lparr>g_rxb := ''ns''\<rparr>)"
    by (rule brf_invariant)
  then show ?thesis by (simp add: srv_start_def)
qed

lemma brf_reply_fits_witness:
  "do_line probe_env ''ns=5'' (None, demo_srv, []) = None \<longleftrightarrow> req_hdl probe_env 3 ''5'' demo_srv = None"
  using brf_reply_fits [of "''ns=5''" probe_env None demo_srv "[]"] name_lookup(4) [of "''5''"]
  by (simp add: SRV_RXB_def line_name_def)

section \<open>The modem test with the server\<close>

abbreviation int_fops :: "int fops" where
  "int_fops \<equiv> \<lparr>f_strtof = \<lambda>s. (0, 1), f_of_int = id, f_less = (<), f_add = (+), f_sub = (-), f_mul = (*), f_div = (div), f_db_bin = 0\<rparr>"

definition demo_rfm :: "int rfm" where
  "demo_rfm = (rfm_zero int_fops)\<lparr>m_sr := 2048, m_bandwidth := 10, m_uf := 700000000\<rparr>"

definition demo_idle :: "int srv" where
  "demo_idle = srv_start [\<lparr>c_freq = 700000000, c_lnbr = 1, c_gain = 0, c_dco = (0, 0)\<rparr>] (Some [700000000])"

definition demo_done :: "int srv" where
  "demo_done = demo_sampled\<lparr>g_spwr := replicate 1024 (0, 0, 0)\<rparr>"

definition demo_analyzer :: "int analyzer" where
  "demo_analyzer = \<lparr>z_send = \<lambda>q. int (length q),
     z_recv = \<lambda>q. [RxData (if q = line ''getps avg'' then line ''4096'' @ spectrum_bytes probe_env demo_done else line ''ok'')],
     z_floats = \<lambda>_. averages demo_done, z_plot = \<lambda>_. None\<rparr>"

lemma demo_settings: "settings demo_rfm demo_idle = demo_srv"
  by (simp add: settings_def demo_rfm_def demo_idle_def demo_srv_def rfm_zero_def)

lemma demo_range: "in_range demo_rfm"
  by (simp add: in_range_def demo_rfm_def rfm_zero_def)

lemma not_getps: "i < 7 \<Longrightarrow> sdr_requests r ! i \<noteq> line ''getps avg''"
  by (auto simp: sdr_requests_def line_def less_Suc_eq numeral_eq_Suc)

lemma last_getps: "sdr_requests r ! 7 = line ''getps avg''"
  by (simp add: sdr_requests_def)

lemma demo_connected: "connected True probe_env demo_idle demo_analyzer (sdr_requests demo_rfm)"
proof -
  have b: "\<forall>x. length (e_bytes probe_env x) = 4" by (simp add: probe_env_def)
  have s: "hdl_sample probe_env [] (settings demo_rfm demo_idle) = Some (Ok, demo_sampled)"
    unfolding demo_settings by (rule demo_sample)
  have c: "hdl_comps probe_env ''1024 hann'' demo_sampled = Some (Ok, demo_done)"
    unfolding demo_done_def by (rule demo_comps)
  have l: "length (g_spwr demo_done) = 1024" by (simp add: demo_done_def)
  note a = measure_answers [OF demo_range b s c l]
  have r: "z_recv demo_analyzer (sdr_requests demo_rfm ! i)
      = [RxData (concat ((replicate 7 [line ''ok''] @ [[line ''4096'', spectrum_bytes probe_env demo_done]]) ! i))]" if "i < 8" for i
  proof (cases "i < 7")
    case True
    then show ?thesis using not_getps [OF True, of demo_rfm] by (simp add: demo_analyzer_def nth_append)
  next
    case False
    then have "i = 7" using that by simp
    then show ?thesis by (simp add: demo_analyzer_def last_getps nth_append)
  qed
  have n: "length (sdr_requests demo_rfm) = 8" by (simp add: sdr_requests_def)
  have z: "z_send demo_analyzer q = int (length q)" for q by (simp add: demo_analyzer_def)
  show ?thesis unfolding connected_def
    by (intro exI [of _ "replicate 7 [line ''ok''] @ [[line ''4096'', spectrum_bytes probe_env demo_done]]"] exI conjI allI impI, rule a) (simp_all add: n z r)
qed


end
