(* ===== verification/Spec2Isabelle.thy ===== *)
theory Spec2Isabelle
  imports Igb_Props Abr_Main Sw_Run_Props Dmi_Props Nvram_Cli_Props Pic_Claims Rcc_Pic Ip_Props Ip_Text Ip_Safe Ssd_Props Brf_Claims
begin

text \<open>
  The repository is the OpenWrt tree from which the firmware of the VeloCloud edges is built.
  Most of it is other projects' code with patches; this library models programs that are
  written for the edges and for OpenWrt itself, all in C, under \<open>src/trunk/package\<close> and
  \<open>src/firmware\<close>:

  \<^item> \<open>igb-eeprom\<close> computes the MAC addresses of a unit in manufacturing, puts them into the
    EEPROM image of the network chips and flashes it with \<open>ethtool\<close>.
  \<^item> \<open>abrloop\<close> is the daemon that finds addresses learned on several ports of the Ethernet
    switches, blocks them for some seconds and lets them go again.
  \<^item> \<open>mfgtest/swtest\<close> tests an LTE modem in manufacturing: it sends AT commands from
    sequences, reads the replies, and compares the spectrum from a radio with an envelope.
  \<^item> \<open>dmi-tool\<close> keeps serial numbers and the UUID in the OEM section of the boot flash.
  \<^item> \<open>utils/nvram\<close> keeps named variables in a flash partition.
  \<^item> \<open>firmware/edge510-pic\<close> is the firmware of the microcontroller that switches the supplies and
    resets of an Edge 510, watches the button and talks to the host over I2C;
    \<open>firmware/VC_EDGE_PIC12.X\<close> is that of the sequencer on older boards.
  \<^item> \<open>mfgtest/sdrsvr\<close> is the spectrum analyzer that \<open>swtest\<close> asks over a socket: it samples a radio,
    corrects the samples by calibration data and computes the power in each bin.
  \<^item> \<open>network/utils/owipcalc\<close> calculates with IPv4 and IPv6 prefixes for shell scripts.
  \<^item> \<open>ssd-stress\<close> writes blocks that can be recomputed to a disk and checks them.

  Only \<open>swtest\<close> and \<open>sdrsvr\<close> talk to each other; \<open>Brf_Link\<close> puts their models together. The others
  share the conventions of the C library and of byte buffers, which are the prelude here.

  \<^bold>\<open>Conventions.\<close> C integers of a fixed width are words; \<open>int\<close> and \<open>long\<close> values that cannot leave
  their range are \<open>int\<close> or \<open>nat\<close>, the others wrap as written. A buffer is a list of bytes. A
  struct is a record, an enumeration a datatype. What would be undefined in C (an access
  outside of a buffer, a null pointer, an uninitialised variable, a failed assertion) is
  \<open>None\<close> or an error value. The kernel, files, external programs and hardware are records of
  functions or of contents that the definitions take as arguments.

  \<^bold>\<open>Prelude.\<close> \<open>VC_Prelude\<close>: byte buffers, block copies, MAC addresses as bytes and as numbers.
  \<open>C_Strings\<close>: \<open>strchr\<close>, \<open>strncmp\<close>, \<open>strtoul\<close>, \<open>printf\<close> conversions. \<open>C_Decimal\<close>: \<open>strtoul\<close> and \<open>strtol\<close> read back
  what \<open>%u\<close> and \<open>%d\<close> print. Four locales hold contracts
  that components share or rely on: \<open>Address_Pool\<close> (boards get disjoint stretches of
  addresses; interpreted for manufacturing runs and for board ids), \<open>Lease_Table\<close> (entries that
  expire; interpreted for the block list of \<open>abrloop\<close>), \<open>Var_Store\<close> (a store of variables;
  interpreted for the hash table of \<open>nvram\<close>), \<open>Restart_Delay\<close> (supplies that went off rest for a
  time; interpreted for both power controllers).

  \<^bold>\<open>igb-eeprom.c.\<close> \<open>Igb_Mac\<close>: \<open>get_num\<close>, \<open>get_bid\<close>, \<open>get_pciid\<close>, \<open>mac_add\<close>, \<open>mac_str\<close>. \<open>Igb_Eeprom\<close>: the state \<open>g\<close>,
  the word accesses, the map and extra functions of the boards. \<open>Igb_Mfg\<close>: the table \<open>Mfg\<close> and
  \<open>mfg_init\<close>. \<open>Igb_Main\<close>: options, template, flashing, \<open>main\<close>. \<open>Igb_Props\<close>: what an image holds, that no two
  units get the same address, what the options allow, that the exit status is wrong.

  \<^bold>\<open>abrloop.c, dsa_mv_ioctl.h.\<close> \<open>Abr_Switch\<close>: ports, switches and the requests to the driver.
  \<open>Abr_Merge\<close>: \<open>sw_merge\<close>, its exact specification, and the inputs on which it loses entries or fails
  its assertion. \<open>Abr_Block\<close>: the block list. \<open>Abr_Main\<close>: set-up and the round of the daemon. The
  merge consumes an entry of some table in every round, so the number of all entries is
  enough fuel for it; running out is a separate result.

  \<^bold>\<open>swtest.c.\<close> \<open>Sw_Bands\<close>: the tables of bands, channels and modulations. \<open>Sw_Profile\<close>: profile files,
  command line, validation. \<open>Sw_Parse\<close>, \<open>Sw_Parse_Props\<close>: the invariant of a measurement and what
  validation means. \<open>Sw_Sdr\<close>, \<open>Sw_Sdr_Props\<close>: requests to the analyzer and the envelope check.
  \<open>Sw_At\<close>: command descriptors and sequences. \<open>Sw_Run\<close>: handlers, issuing commands, the main loop as a
  step over events (data from the terminal, the timer, a signal). \<open>Sw_Run_Inv\<close>, \<open>Sw_Run_Props\<close>: the
  invariant on the place in the sequence and the transmitter. A measurement tries the
  analyzer \<open>AGAIN\<close> = 100 times as the code does; floating point is a parameter.

  \<^bold>\<open>dmi-tool.c.\<close> \<open>Dmi_Tool\<close>: reading, updating and writing the OEM section, all four operations and the
  routine that is not called. \<open>Dmi_Props\<close>: which bytes of the chip an operation changes.

  \<^bold>\<open>nvram: crc.c, nvram.c, cli.c, nvram.h, sdinitvals.h.\<close> \<open>Nvram_Crc\<close>: the checksum and the shift
  register it implements. \<open>Nvram_Table\<close>: the hash table, refined to a map. \<open>Nvram_Image\<close>: reading,
  committing and opening the partition. \<open>Nvram_Props\<close>: format of an image and that reading undoes
  writing. \<open>Nvram_Cli\<close>, \<open>Nvram_Cli_Props\<close>: the command, the staging file, and runs of the command one
  after the other. The tool is for 32-bit MIPS: \<open>long\<close> has 32 bits and \<open>char\<close> is signed.

  \<^bold>\<open>edge510-pic/pic.c.\<close> \<open>Pic_Power\<close>: constants, the variables and outputs as the record \<open>pic\<close>, LED,
  EEPROM, timer, \<open>swdt_fsm\<close>, \<open>rstbtn_fsm\<close>, \<open>power_fsm\<close>. \<open>Pic_I2c\<close>: the commands and the interrupt handler over the
  registers \<open>ssp\<close>, and whole bus transactions. \<open>Pic_Main\<close>: the start, the main loop as steps between places,
  the events around it (interrupts, timer clocks and ticks, the end of an EEPROM write) and
  the reachable states. \<open>Pic_Props\<close>: the invariants. \<open>Pic_Time\<close>: how long the power timer runs, the off time.
  \<open>Pic_Watch\<close>: the button tick by tick, what the checks of the machine find. \<open>Pic_Up\<close>: the power-up for any number of
  passes in each clock, by an invariant over the clocks since the start. \<open>Pic_Dog\<close>: the watchdog, pass by
  pass. \<open>Pic_Fail\<close>: from a failure to the outputs, through the loop and the events around it. \<open>Pic_Bus\<close>: transactions.
  \<open>Pic_Board\<close>: a run with a failure and a restart. \<open>Pic_Claims\<close>: the properties. A timer clock is half a
  millisecond, since TMR1 counts two clocks per period of its gate. A reset of the controller is a new start,
  not an event: the minimal off time holds between resets only.

  \<^bold>\<open>VC_EDGE_PIC12.X/rccvepic12.c.\<close> \<open>Rcc_Pic\<close>: the states, one pass of the loop over a stream of samples, the
  termination of its inner loops, reachable states and properties. The field \<open>off_ms\<close> is not in the code: it
  adds up the delays that pass with the supplies off.

  \<^bold>\<open>sdrsvr/bladerf.c.\<close> \<open>Brf_Sample\<close>: the stream callback, copying the messages, statistics, attempts. \<open>Brf_Cal\<close>:
  the two calibration tables, reading, writing and looking up. \<open>Brf_Main\<close>: the record \<open>srv\<close> for the
  settings and buffers in \<open>struct g\<close>, the request handlers, \<open>do_proc\<close> over the input buffer, and the main
  loop as a step over what \<open>select\<close> reports. \<open>Brf_Sample_Props\<close>, \<open>Brf_Cal_Props\<close>, \<open>Brf_Props\<close>: what is accepted
  as samples, the nearest calibration, that cutting the input into reads does not matter, the
  invariant, and the buffer that stays full. The copy of the rest of the input over itself with \<open>memcpy\<close> is
  \<open>None\<close> where the regions overlap. \<open>Brf_Link\<close>: a measurement of \<open>swtest\<close> against this server, with replies that
  arrive whole or in the pieces in which they are sent.
  \<open>Brf_Demo\<close>, \<open>Brf_Claims\<close>: a run with concrete parameters. The radio library is given by what each
  attempt to sample meets, the transform and floating point are parameters. Repeating truncated
  attempts has no bound in the code and is a partial function.

  \<^bold>\<open>owipcalc.c.\<close> \<open>Ip_Calc\<close>: \<open>struct cidr\<close>, the stack, and the operations on both families. \<open>Ip_Main\<close>:
  parsing, printing, the table of operations, \<open>runop\<close> and \<open>main\<close>. \<open>Ip_Num\<close>: addresses as numbers.
  \<open>Ip_Props\<close>: the operations as arithmetic. \<open>Ip_Text\<close>: printing and parsing, the exit status. \<open>Ip_Safe\<close>: when
  no operation leaves its objects. The byte order of the machine is a parameter where
  the code depends on it, and \<open>1 << 31\<close> in \<open>int\<close> is taken to wrap, as compilers do; a shift by 32 and more is undefined.

  \<^bold>\<open>ssd-stress.c.\<close> \<open>Ssd_Stress\<close>: the arguments, the pattern of a block, the rounds of writing, flushing and
  checking. \<open>Ssd_Props\<close>: what a check finds and that a round ends. The disk is a record of functions on its
  state, the random numbers are a sequence; drawing a block need not end and is a partial function, which
  returns when the numbers hit the disk again and again.

  \<^bold>\<open>Not modelled.\<close> The set-up of oscillator, timers and pin functions of the controllers, and
  interrupts inside one call of their state machines. Messages to the terminal where they are not the result; the plot file and the
  terminal settings of \<open>swtest\<close>; running out of memory; files that cannot be opened for
  reasons other than that they are missing, where nothing is said. In \<open>sdrsvr\<close> the timer, which is
  never set, the synchronous way of sampling, which is compiled out, and opening radio and socket.
  The small test programs \<open>miitest\<close>, \<open>vcsystests\<close> and \<open>usbreset\<close> are mostly system calls. Everything that comes
  from other projects (boot loaders, \<open>quagga\<close>, the packet printers of \<open>nfq-example\<close>, the tool chain,
  drivers, feeds) is left out.
\<close>

end
